(* ===== verification/Nice_Prelude.thy ===== *)
theory Nice_Prelude
  imports Main "HOL-Library.Word" "HOL-Library.Monad_Syntax"
begin

unbundle bit_operations_syntax

text \<open>
  Shared vocabulary of the development: the machine integers of the C sources, byte buffers with
  checked accesses, the byte-order functions of the C library, and the lemma collections the
  component theories use.

  Conventions.
  \<^item> A C buffer is a list of bytes whose length is the size of the allocation. Every access goes
    through \<open>rd8\<close>, \<open>mem_read\<close> or \<open>mem_write\<close>, which are \<open>None\<close> outside the allocation. In the
    models \<open>None\<close> always means that the C program has left its defined behaviour (an access out of
    bounds) or has aborted (a failed \<^verbatim>\<open>g_assert\<close> or \<^verbatim>\<open>assert\<close>); ordinary error returns are values.
  \<^item> \<^verbatim>\<open>size_t\<close> quantities that are offsets into or lengths of an allocation are \<open>nat\<close>;
    fixed-width integers (\<^verbatim>\<open>uint8_t\<close>, \<^verbatim>\<open>uint16_t\<close>, \<^verbatim>\<open>uint32_t\<close>, \<^verbatim>\<open>uint64_t\<close>, \<^verbatim>\<open>unsigned\<close>) are words.
  \<^item> The host is little-endian, so \<^verbatim>\<open>htons\<close> and \<^verbatim>\<open>htonl\<close> swap bytes and an integer is stored least
    significant byte first.
\<close>

section \<open>Types\<close>

type_synonym u8 = "8 word"
type_synonym u16 = "16 word"
type_synonym u32 = "32 word"
type_synonym u64 = "64 word"
type_synonym bytes = "8 word list"

named_theorems mem_simps "checked byte-buffer accesses"
named_theorems endian_simps "byte-order conversions"

section \<open>Checked accesses to byte buffers\<close>

definition rd8 :: "bytes \<Rightarrow> nat \<Rightarrow> u8 option" where
  "rd8 b i = (if i < length b then Some (b ! i) else None)"

definition mem_read :: "bytes \<Rightarrow> nat \<Rightarrow> nat \<Rightarrow> bytes option" where
  "mem_read b off n = (if off + n \<le> length b then Some (take n (drop off b)) else None)"

definition mem_write :: "bytes \<Rightarrow> nat \<Rightarrow> bytes \<Rightarrow> bytes option" where
  "mem_write b off xs =
     (if off + length xs \<le> length b
      then Some (take off b @ xs @ drop (off + length xs) b) else None)"

definition c_assert :: "bool \<Rightarrow> unit option" where
  "c_assert p = (if p then Some () else None)"

lemma c_assert_simps [simp]:
  "c_assert True = Some ()" "c_assert False = None"
  by (simp_all add: c_assert_def)

lemma c_assert_eq_Some [simp]: "c_assert p = Some u \<longleftrightarrow> p"
  by (simp add: c_assert_def)

lemma bind_Some_eq_None [simp]: "(x \<bind> (\<lambda>r. Some (g r))) = None \<longleftrightarrow> x = None"
  by (cases x) simp_all

lemma bind_SomeE: "m \<bind> f = Some r \<Longrightarrow> (\<And>x. m = Some x \<Longrightarrow> f x = Some r \<Longrightarrow> P) \<Longrightarrow> P"
  by (cases m) simp_all

lemma rd8_Some [mem_simps]: "i < length b \<Longrightarrow> rd8 b i = Some (b ! i)"
  by (simp add: rd8_def)

lemma rd8_eq_Some [simp]: "rd8 b i = Some x \<longleftrightarrow> i < length b \<and> b ! i = x"
  by (auto simp: rd8_def)

lemma mem_read_Some [mem_simps]:
  "off + n \<le> length b \<Longrightarrow> mem_read b off n = Some (take n (drop off b))"
  by (simp add: mem_read_def)

lemma mem_read_eq_Some:
  "mem_read b off n = Some xs \<longleftrightarrow> off + n \<le> length b \<and> xs = take n (drop off b)"
  by (auto simp: mem_read_def)

lemma mem_read_length: "mem_read b off n = Some xs \<Longrightarrow> length xs = n"
  by (auto simp: mem_read_def split: if_splits)

lemma mem_write_Some [mem_simps]:
  "off + length xs \<le> length b \<Longrightarrow>
   mem_write b off xs = Some (take off b @ xs @ drop (off + length xs) b)"
  by (simp add: mem_write_def)

lemma mem_write_eq_Some:
  "mem_write b off xs = Some b' \<longleftrightarrow>
   off + length xs \<le> length b \<and> b' = take off b @ xs @ drop (off + length xs) b"
  by (auto simp: mem_write_def)

lemma mem_write_length: "mem_write b off xs = Some b' \<Longrightarrow> length b' = length b"
  by (auto simp: mem_write_eq_Some)

lemma mem_write_nth:
  assumes "mem_write b off xs = Some b'" and "i < length b"
  shows "b' ! i = (if off \<le> i \<and> i < off + length xs then xs ! (i - off) else b ! i)"
  using assms by (auto simp: mem_write_eq_Some nth_append min_def)

lemma mem_write_defined: "off + length xs \<le> length b \<longleftrightarrow> (\<exists>b'. mem_write b off xs = Some b')"
  by (auto simp: mem_write_def)

lemma mem_read_after_write:
  "mem_write b off xs = Some b' \<Longrightarrow> mem_read b' off (length xs) = Some xs"
  by (auto simp: mem_write_eq_Some mem_read_def min_def)

lemma mem_read_write_disjoint:
  assumes "mem_write b off xs = Some b'"
    and "o2 + n \<le> off \<or> off + length xs \<le> o2"
  shows "mem_read b' o2 n = mem_read b o2 n"
proof (cases "o2 + n \<le> length b")
  case True
  have len: "length b' = length b" using assms(1) by (rule mem_write_length)
  have "take n (drop o2 b') = take n (drop o2 b)"
  proof (rule nth_equalityI)
    show "length (take n (drop o2 b')) = length (take n (drop o2 b))" by (simp add: len)
  next
    fix i assume "i < length (take n (drop o2 b'))"
    then have "i < n" "o2 + i < length b" using True by auto
    then show "take n (drop o2 b') ! i = take n (drop o2 b) ! i"
      using assms mem_write_nth [OF assms(1), of "o2 + i"] len True by auto
  qed
  then show ?thesis by (simp add: mem_read_def len)
next
  case False
  then show ?thesis using mem_write_length [OF assms(1)] by (simp add: mem_read_def)
qed

lemma rd8_mem_write:
  assumes "mem_write b off xs = Some b'"
  shows "rd8 b' i = (if off \<le> i \<and> i < off + length xs then Some (xs ! (i - off)) else rd8 b i)"
  using mem_write_length [OF assms] mem_write_nth [OF assms, of i] assms
  by (auto simp: rd8_def mem_write_eq_Some)

section \<open>Machine words as numbers\<close>

lemma unat_u16_less: "unat (l :: u16) < 65536"
  using unsigned_less [of l, where ?'a = nat] by simp

lemma unat_u8_less: "unat (l :: u8) < 256"
  using unsigned_less [of l, where ?'a = nat] by simp

lemma unat_u32_less: "unat (l :: u32) < 4294967296"
  using unsigned_less [of l, where ?'a = nat] by simp

lemma unat_ucast_u16_u64 [simp]: "unat (ucast (l :: u16) :: u64) = unat l"
  using unat_u16_less [of l] by (simp add: unsigned_ucast_eq take_bit_nat_eq_self)

section \<open>Byte order\<close>

text \<open>An integer as it lies in the memory of a little-endian host, and read back from there.\<close>

definition le16 :: "u16 \<Rightarrow> bytes" where
  "le16 x = [ucast x, ucast (drop_bit 8 x)]"

definition le32 :: "u32 \<Rightarrow> bytes" where
  "le32 x = [ucast x, ucast (drop_bit 8 x), ucast (drop_bit 16 x), ucast (drop_bit 24 x)]"

fun of_le16 :: "bytes \<Rightarrow> u16" where
  "of_le16 (a # b # _) = ucast a OR push_bit 8 (ucast b)"
| "of_le16 _ = 0"

fun of_le32 :: "bytes \<Rightarrow> u32" where
  "of_le32 (a # b # c # d # _) =
     ucast a OR push_bit 8 (ucast b) OR push_bit 16 (ucast c) OR push_bit 24 (ucast d)"
| "of_le32 _ = 0"

text \<open>The same in network byte order.\<close>

definition be16 :: "u16 \<Rightarrow> bytes" where
  "be16 x = [ucast (drop_bit 8 x), ucast x]"

definition be32 :: "u32 \<Rightarrow> bytes" where
  "be32 x = [ucast (drop_bit 24 x), ucast (drop_bit 16 x), ucast (drop_bit 8 x), ucast x]"

fun of_be16 :: "bytes \<Rightarrow> u16" where
  "of_be16 (a # b # _) = push_bit 8 (ucast a) OR ucast b"
| "of_be16 _ = 0"

fun of_be32 :: "bytes \<Rightarrow> u32" where
  "of_be32 (a # b # c # d # _) =
     push_bit 24 (ucast a) OR push_bit 16 (ucast b) OR push_bit 8 (ucast c) OR ucast d"
| "of_be32 _ = 0"

definition htons :: "u16 \<Rightarrow> u16" where
  "htons x = of_be16 (le16 x)"

definition htonl :: "u32 \<Rightarrow> u32" where
  "htonl x = of_be32 (le32 x)"

abbreviation ntohs :: "u16 \<Rightarrow> u16" where "ntohs \<equiv> htons"
abbreviation ntohl :: "u32 \<Rightarrow> u32" where "ntohl \<equiv> htonl"

lemma length_endian [simp]:
  "length (le16 x) = 2" "length (be16 x) = 2" "length (le32 y) = 4" "length (be32 y) = 4"
  by (simp_all add: le16_def be16_def le32_def be32_def)

lemma of_be16_be16 [endian_simps]: "of_be16 (be16 x) = x"
  unfolding be16_def of_be16.simps
  by (rule bit_word_eqI) (auto simp: bit_simps)

lemma of_le16_le16 [endian_simps]: "of_le16 (le16 x) = x"
  unfolding le16_def of_le16.simps
  by (rule bit_word_eqI) (auto simp: bit_simps)

lemma byte_cases:
  fixes n :: nat
  assumes "n < 32"
  obtains "n < 8" | "8 \<le> n \<and> n < 16" | "16 \<le> n \<and> n < 24" | "24 \<le> n \<and> n < 32"
  using assms by force

lemma of_be32_be32 [endian_simps]: "of_be32 (be32 x) = x"
  unfolding be32_def of_be32.simps
proof (rule bit_word_eqI)
  fix n assume "n < LENGTH(32)"
  then have "n < 32" by simp
  then show "bit (push_bit 24 (ucast (ucast (drop_bit 24 x) :: u8)) OR
         push_bit 16 (ucast (ucast (drop_bit 16 x) :: u8)) OR
         push_bit 8 (ucast (ucast (drop_bit 8 x) :: u8)) OR ucast (ucast x :: u8) :: u32) n = bit x n"
    by (cases n rule: byte_cases) (auto simp: bit_simps)
qed

lemma of_le32_le32 [endian_simps]: "of_le32 (le32 x) = x"
  unfolding le32_def of_le32.simps
proof (rule bit_word_eqI)
  fix n assume "n < LENGTH(32)"
  then have "n < 32" by simp
  then show "bit (ucast (ucast x :: u8) OR push_bit 8 (ucast (ucast (drop_bit 8 x) :: u8)) OR
         push_bit 16 (ucast (ucast (drop_bit 16 x) :: u8)) OR
         push_bit 24 (ucast (ucast (drop_bit 24 x) :: u8)) :: u32) n = bit x n"
    by (cases n rule: byte_cases) (auto simp: bit_simps)
qed

text \<open>Storing a converted integer puts its bytes in network order, on this host.\<close>

lemma le16_htons [endian_simps]: "le16 (htons x) = be16 x"
  by (auto simp: htons_def le16_def be16_def intro!: bit_word_eqI) (auto simp: bit_simps)

lemma le32_htonl [endian_simps]: "le32 (htonl x) = be32 x"
  by (auto simp: htonl_def le32_def be32_def intro!: bit_word_eqI) (auto simp: bit_simps)

lemma htons_htons [simp]: "htons (htons x) = x"
  by (metis le16_htons of_be16_be16 htons_def)

lemma htonl_htonl [simp]: "htonl (htonl x) = x"
  by (metis le32_htonl of_be32_be32 htonl_def)

lemma htons_eq_iff [simp]: "htons x = htons y \<longleftrightarrow> x = y"
  by (metis htons_htons)

lemma htonl_eq_iff [simp]: "htonl x = htonl y \<longleftrightarrow> x = y"
  by (metis htonl_htonl)

end
