(* ===== verification/Stun_Utils.thy ===== *)
theory Stun_Utils
  imports Nice_Prelude
begin

text \<open>
  The byte-level helpers of \<^verbatim>\<open>stun/utils.c\<close> and the enumerations of \<^verbatim>\<open>stun/stunmessage.h\<close> they are
  written against: alignment and padding of attribute lengths, 16-bit fields in network order, the
  STUN message type (class and method interleaved in 14 bits), and XOR-ing of socket addresses.
\<close>

section \<open>Enumerations of the STUN headers\<close>

datatype StunClass = STUN_REQUEST | STUN_INDICATION | STUN_RESPONSE | STUN_ERROR

fun class_val :: "StunClass \<Rightarrow> u16" where
  "class_val STUN_REQUEST = 0"
| "class_val STUN_INDICATION = 1"
| "class_val STUN_RESPONSE = 2"
| "class_val STUN_ERROR = 3"

definition class_of_val :: "u16 \<Rightarrow> StunClass" where
  "class_of_val v = (if v = 0 then STUN_REQUEST else if v = 1 then STUN_INDICATION
     else if v = 2 then STUN_RESPONSE else STUN_ERROR)"

datatype StunMessageReturn =
    STUN_MESSAGE_RETURN_SUCCESS
  | STUN_MESSAGE_RETURN_NOT_FOUND
  | STUN_MESSAGE_RETURN_INVALID
  | STUN_MESSAGE_RETURN_NOT_ENOUGH_SPACE
  | STUN_MESSAGE_RETURN_UNSUPPORTED_ADDRESS

section \<open>Alignment\<close>

definition stun_padding :: "u64 \<Rightarrow> u64" where
  "stun_padding l = (4 - (l AND 3)) AND 3"

definition stun_align :: "u64 \<Rightarrow> u64" where
  "stun_align l = (l + 3) AND NOT 3"

section \<open>16-bit fields\<close>

definition stun_getw :: "bytes \<Rightarrow> nat \<Rightarrow> u16 option" where
  "stun_getw b ptr = do {
     hi \<leftarrow> rd8 b ptr;
     lo \<leftarrow> rd8 b (ptr + 1);
     Some (push_bit 8 (ucast hi) OR ucast lo)
   }"

text \<open>\<^verbatim>\<open>stun_setw\<close> returns the pointer behind the two bytes it wrote.\<close>

definition stun_setw :: "bytes \<Rightarrow> nat \<Rightarrow> u16 \<Rightarrow> (bytes \<times> nat) option" where
  "stun_setw b ptr value = do {
     b \<leftarrow> mem_write b ptr [ucast (drop_bit 8 value)];
     b \<leftarrow> mem_write b (ptr + 1) [ucast (value AND 0xff)];
     Some (b, ptr + 2)
   }"

section \<open>The message type\<close>

definition stun_set_type :: "bytes \<Rightarrow> StunClass \<Rightarrow> u16 \<Rightarrow> bytes option" where
  "stun_set_type h c m = do {
     h \<leftarrow> mem_write h 0 [ucast (drop_bit 1 (class_val c) OR (drop_bit 6 m AND 0x3e))];
     mem_write h 1 [ucast ((push_bit 4 (class_val c) AND 0x10) OR (push_bit 1 m AND 0xe0)
                           OR (m AND 0x0f))]
   }"

section \<open>Socket addresses\<close>

text \<open>
  \<^verbatim>\<open>struct sockaddr_storage\<close> as the family tells its members apart: port and address are the raw
  memory contents of \<^verbatim>\<open>sin_port\<close>, \<^verbatim>\<open>sin_addr\<close> (an integer) and \<^verbatim>\<open>sin6_addr\<close> (16 bytes), that is, in
  network byte order. The sizes are those of the Linux structures.
\<close>

datatype sockaddr = SA_INET u16 u32 | SA_INET6 u16 bytes | SA_OTHER

abbreviation (input) sizeof_sockaddr :: nat where "sizeof_sockaddr \<equiv> 16"
abbreviation (input) sizeof_sockaddr_in :: nat where "sizeof_sockaddr_in \<equiv> 16"
abbreviation (input) sizeof_sockaddr_in6 :: nat where "sizeof_sockaddr_in6 \<equiv> 28"
abbreviation (input) sizeof_sockaddr_storage :: nat where "sizeof_sockaddr_storage \<equiv> 128"

fun stun_xor_address ::
  "bytes \<Rightarrow> sockaddr \<Rightarrow> nat \<Rightarrow> u32 \<Rightarrow> (StunMessageReturn \<times> sockaddr) option" where
  "stun_xor_address buffer (SA_INET port a) addrlen magic_cookie =
     (if addrlen < sizeof_sockaddr_in then Some (STUN_MESSAGE_RETURN_INVALID, SA_INET port a)
      else Some (STUN_MESSAGE_RETURN_SUCCESS,
        SA_INET (port XOR htons (ucast (drop_bit 16 magic_cookie))) (a XOR htonl magic_cookie)))"
| "stun_xor_address buffer (SA_INET6 port a) addrlen magic_cookie =
     (if addrlen < sizeof_sockaddr_in6 then Some (STUN_MESSAGE_RETURN_INVALID, SA_INET6 port a)
      else do {
        mask \<leftarrow> mem_read buffer 4 16;
        Some (STUN_MESSAGE_RETURN_SUCCESS,
          SA_INET6 (port XOR htons (ucast (drop_bit 16 magic_cookie))) (map2 (XOR) a mask))
      })"
| "stun_xor_address buffer SA_OTHER addrlen magic_cookie =
     Some (STUN_MESSAGE_RETURN_UNSUPPORTED_ADDRESS, SA_OTHER)"

fun sockaddr_ok :: "sockaddr \<Rightarrow> bool" where
  "sockaddr_ok (SA_INET6 _ a) = (length a = 16)"
| "sockaddr_ok _ = True"

section \<open>Properties\<close>

lemma class_of_val_class_val [simp]: "class_of_val (class_val c) = c"
  by (cases c) (simp_all add: class_of_val_def)

lemma and_mask_mod4: "unat (w AND 3 :: u64) = unat w mod 4"
proof -
  have "w AND 3 = w mod 4"
    using take_bit_eq_mask [of 2 w] by (simp add: take_bit_eq_mod mask_numeral)
  then show ?thesis by (simp add: unat_mod_distrib)
qed

lemma and_not_mask_div4: "unat (w AND NOT 3 :: u64) = unat w div 4 * 4"
proof -
  have d: "(w AND NOT 3) AND (w AND 3) = 0"
    by (rule bit_word_eqI) (simp add: bit_simps)
  have "(w AND NOT 3) OR (w AND 3) = w"
    by (rule bit_word_eqI) (auto simp: bit_simps)
  with d have "w = (w AND NOT 3) + (w AND 3)"
    by (simp only: disjunctive_add_eq_or)
  then have "w AND NOT 3 = w - (w AND 3)" by (metis add_diff_cancel_right')
  moreover have "unat (w AND 3) \<le> unat w" by (simp add: and_mask_mod4)
  ultimately have "unat (w AND NOT 3) = unat w - unat w mod 4"
    by (simp only: unat_sub word_le_nat_alt and_mask_mod4)
  then show ?thesis by (simp only: minus_mod_eq_div_mult)
qed

lemma unat_stun_align:
  assumes "unat l + 3 < 2 ^ 64"
  shows "unat (stun_align l) = (unat l + 3) div 4 * 4"
proof -
  have "unat (l + 3) = unat l + 3" using assms by (simp add: unat_word_ariths)
  then show ?thesis unfolding stun_align_def and_not_mask_div4 by simp
qed

lemma unat_stun_padding: "unat (stun_padding l) = (4 - unat l mod 4) mod 4"
proof -
  have "unat (l AND 3) < 4" by (simp add: and_mask_mod4)
  then have "unat (4 - (l AND 3)) = 4 - unat (l AND 3)"
    by (simp add: unat_sub word_le_nat_alt)
  then show ?thesis by (simp add: stun_padding_def and_mask_mod4)
qed

lemma stun_getw_eq_Some:
  "stun_getw b p = Some w \<longleftrightarrow> p + 1 < length b \<and> w = of_be16 [b ! p, b ! (p + 1)]"
  by (auto simp: stun_getw_def rd8_def)

lemma stun_getw_mem_read:
  "stun_getw b p = map_option of_be16 (mem_read b p 2)"
proof (cases "p + 1 < length b")
  case True
  then have "take 2 (drop p b) = [b ! p, b ! (p + 1)]"
    by (simp add: numeral_2_eq_2 take_Suc_conv_app_nth hd_drop_conv_nth)
  with True show ?thesis by (simp add: stun_getw_def rd8_def mem_read_def)
qed (auto simp: stun_getw_def rd8_def mem_read_def)

lemma stun_setw_be16:
  "stun_setw b p v = map_option (\<lambda>b'. (b', p + 2)) (mem_write b p (be16 v))"
proof -
  have low: "(ucast (v AND 0xff) :: u8) = ucast v"
  proof -
    have m: "(0xff :: u16) = mask 8" by (simp add: mask_numeral)
    show ?thesis unfolding m by (auto intro!: bit_word_eqI simp: bit_simps)
  qed
  show ?thesis
    by (auto simp: stun_setw_def mem_write_def be16_def low min_def Let_def)
qed

lemma stun_getw_after_setw:
  assumes "stun_setw b p v = Some (b', p')"
  shows "stun_getw b' p = Some v"
proof -
  have "mem_write b p (be16 v) = Some b'"
    using assms by (auto simp: stun_setw_be16)
  then have "mem_read b' p 2 = Some (be16 v)"
    using mem_read_after_write by fastforce
  then show ?thesis by (simp add: stun_getw_mem_read endian_simps)
qed

end
