(* ===== verification/Stun_Constants.thy ===== *)
theory Stun_Constants
  imports Stun_Utils
begin

text \<open>
  The constants and data types of \<^verbatim>\<open>stun/constants.h\<close>, \<^verbatim>\<open>stun/stunmessage.h\<close> and
  \<^verbatim>\<open>stun/stunagent.h\<close>: methods, attribute types, error codes, known-attribute lists, usage flags and
  the message and agent structures.
\<close>

section \<open>Sizes and positions\<close>

abbreviation (input) STUN_MESSAGE_HEADER_LENGTH :: nat where "STUN_MESSAGE_HEADER_LENGTH \<equiv> 20"
abbreviation (input) STUN_MESSAGE_LENGTH_POS :: nat where "STUN_MESSAGE_LENGTH_POS \<equiv> 2"
abbreviation (input) STUN_MESSAGE_LENGTH_LEN :: nat where "STUN_MESSAGE_LENGTH_LEN \<equiv> 2"
abbreviation (input) STUN_MESSAGE_TRANS_ID_POS :: nat where "STUN_MESSAGE_TRANS_ID_POS \<equiv> 4"
abbreviation (input) STUN_MESSAGE_TRANS_ID_LEN :: nat where "STUN_MESSAGE_TRANS_ID_LEN \<equiv> 16"
abbreviation (input) STUN_MESSAGE_ATTRIBUTES_POS :: nat where "STUN_MESSAGE_ATTRIBUTES_POS \<equiv> 20"
abbreviation (input) STUN_ATTRIBUTE_TYPE_LEN :: nat where "STUN_ATTRIBUTE_TYPE_LEN \<equiv> 2"
abbreviation (input) STUN_ATTRIBUTE_VALUE_POS :: nat where "STUN_ATTRIBUTE_VALUE_POS \<equiv> 4"
abbreviation (input) STUN_ATTRIBUTE_HEADER_LENGTH :: nat where "STUN_ATTRIBUTE_HEADER_LENGTH \<equiv> 4"
abbreviation (input) STUN_AGENT_MAX_SAVED_IDS :: nat where "STUN_AGENT_MAX_SAVED_IDS \<equiv> 200"
abbreviation (input) STUN_AGENT_MAX_UNKNOWN_ATTRIBUTES :: nat
  where "STUN_AGENT_MAX_UNKNOWN_ATTRIBUTES \<equiv> 256"
abbreviation (input) STUN_MAGIC_COOKIE :: u32 where "STUN_MAGIC_COOKIE \<equiv> 0x2112A442"
abbreviation (input) TURN_MAGIC_COOKIE :: u32 where "TURN_MAGIC_COOKIE \<equiv> 0x72c64bc6"
abbreviation (input) STUN_MESSAGE_BUFFER_INCOMPLETE :: int where "STUN_MESSAGE_BUFFER_INCOMPLETE \<equiv> 0"
abbreviation (input) STUN_MESSAGE_BUFFER_INVALID :: int where "STUN_MESSAGE_BUFFER_INVALID \<equiv> -1"

section \<open>Methods, attribute types, error codes\<close>

abbreviation (input) STUN_BINDING :: u16 where "STUN_BINDING \<equiv> 0x001"
abbreviation (input) STUN_SHARED_SECRET :: u16 where "STUN_SHARED_SECRET \<equiv> 0x002"
abbreviation (input) STUN_ALLOCATE :: u16 where "STUN_ALLOCATE \<equiv> 0x003"
abbreviation (input) STUN_SET_ACTIVE_DST :: u16 where "STUN_SET_ACTIVE_DST \<equiv> 0x004"
abbreviation (input) STUN_REFRESH :: u16 where "STUN_REFRESH \<equiv> 0x004"
abbreviation (input) STUN_SEND :: u16 where "STUN_SEND \<equiv> 0x004"
abbreviation (input) STUN_CONNECT :: u16 where "STUN_CONNECT \<equiv> 0x005"
abbreviation (input) STUN_OLD_SET_ACTIVE_DST :: u16 where "STUN_OLD_SET_ACTIVE_DST \<equiv> 0x006"
abbreviation (input) STUN_IND_SEND :: u16 where "STUN_IND_SEND \<equiv> 0x006"
abbreviation (input) STUN_IND_DATA :: u16 where "STUN_IND_DATA \<equiv> 0x007"
abbreviation (input) STUN_IND_CONNECT_STATUS :: u16 where "STUN_IND_CONNECT_STATUS \<equiv> 0x008"
abbreviation (input) STUN_CREATEPERMISSION :: u16 where "STUN_CREATEPERMISSION \<equiv> 0x008"
abbreviation (input) STUN_CHANNELBIND :: u16 where "STUN_CHANNELBIND \<equiv> 0x009"

abbreviation (input) STUN_ATTRIBUTE_MAPPED_ADDRESS :: u16 where "STUN_ATTRIBUTE_MAPPED_ADDRESS \<equiv> 0x0001"
abbreviation (input) STUN_ATTRIBUTE_RESPONSE_ADDRESS :: u16
  where "STUN_ATTRIBUTE_RESPONSE_ADDRESS \<equiv> 0x0002"
abbreviation (input) STUN_ATTRIBUTE_CHANGE_REQUEST :: u16 where "STUN_ATTRIBUTE_CHANGE_REQUEST \<equiv> 0x0003"
abbreviation (input) STUN_ATTRIBUTE_SOURCE_ADDRESS :: u16 where "STUN_ATTRIBUTE_SOURCE_ADDRESS \<equiv> 0x0004"
abbreviation (input) STUN_ATTRIBUTE_CHANGED_ADDRESS :: u16
  where "STUN_ATTRIBUTE_CHANGED_ADDRESS \<equiv> 0x0005"
abbreviation (input) STUN_ATTRIBUTE_USERNAME :: u16 where "STUN_ATTRIBUTE_USERNAME \<equiv> 0x0006"
abbreviation (input) STUN_ATTRIBUTE_PASSWORD :: u16 where "STUN_ATTRIBUTE_PASSWORD \<equiv> 0x0007"
abbreviation (input) STUN_ATTRIBUTE_MESSAGE_INTEGRITY :: u16
  where "STUN_ATTRIBUTE_MESSAGE_INTEGRITY \<equiv> 0x0008"
abbreviation (input) STUN_ATTRIBUTE_ERROR_CODE :: u16 where "STUN_ATTRIBUTE_ERROR_CODE \<equiv> 0x0009"
abbreviation (input) STUN_ATTRIBUTE_UNKNOWN_ATTRIBUTES :: u16
  where "STUN_ATTRIBUTE_UNKNOWN_ATTRIBUTES \<equiv> 0x000a"
abbreviation (input) STUN_ATTRIBUTE_REFLECTED_FROM :: u16 where "STUN_ATTRIBUTE_REFLECTED_FROM \<equiv> 0x000b"
abbreviation (input) STUN_ATTRIBUTE_CHANNEL_NUMBER :: u16 where "STUN_ATTRIBUTE_CHANNEL_NUMBER \<equiv> 0x000c"
abbreviation (input) STUN_ATTRIBUTE_LIFETIME :: u16 where "STUN_ATTRIBUTE_LIFETIME \<equiv> 0x000d"
abbreviation (input) STUN_ATTRIBUTE_MS_ALTERNATE_SERVER :: u16
  where "STUN_ATTRIBUTE_MS_ALTERNATE_SERVER \<equiv> 0x000e"
abbreviation (input) STUN_ATTRIBUTE_MAGIC_COOKIE :: u16 where "STUN_ATTRIBUTE_MAGIC_COOKIE \<equiv> 0x000f"
abbreviation (input) STUN_ATTRIBUTE_BANDWIDTH :: u16 where "STUN_ATTRIBUTE_BANDWIDTH \<equiv> 0x0010"
abbreviation (input) STUN_ATTRIBUTE_DESTINATION_ADDRESS :: u16
  where "STUN_ATTRIBUTE_DESTINATION_ADDRESS \<equiv> 0x0011"
abbreviation (input) STUN_ATTRIBUTE_REMOTE_ADDRESS :: u16 where "STUN_ATTRIBUTE_REMOTE_ADDRESS \<equiv> 0x0012"
abbreviation (input) STUN_ATTRIBUTE_PEER_ADDRESS :: u16 where "STUN_ATTRIBUTE_PEER_ADDRESS \<equiv> 0x0012"
abbreviation (input) STUN_ATTRIBUTE_XOR_PEER_ADDRESS :: u16
  where "STUN_ATTRIBUTE_XOR_PEER_ADDRESS \<equiv> 0x0012"
abbreviation (input) STUN_ATTRIBUTE_DATA :: u16 where "STUN_ATTRIBUTE_DATA \<equiv> 0x0013"
abbreviation (input) STUN_ATTRIBUTE_REALM :: u16 where "STUN_ATTRIBUTE_REALM \<equiv> 0x0014"
abbreviation (input) STUN_ATTRIBUTE_NONCE :: u16 where "STUN_ATTRIBUTE_NONCE \<equiv> 0x0015"
abbreviation (input) STUN_ATTRIBUTE_RELAY_ADDRESS :: u16 where "STUN_ATTRIBUTE_RELAY_ADDRESS \<equiv> 0x0016"
abbreviation (input) STUN_ATTRIBUTE_RELAYED_ADDRESS :: u16
  where "STUN_ATTRIBUTE_RELAYED_ADDRESS \<equiv> 0x0016"
abbreviation (input) STUN_ATTRIBUTE_XOR_RELAYED_ADDRESS :: u16
  where "STUN_ATTRIBUTE_XOR_RELAYED_ADDRESS \<equiv> 0x0016"
abbreviation (input) STUN_ATTRIBUTE_REQUESTED_ADDRESS_TYPE :: u16
  where "STUN_ATTRIBUTE_REQUESTED_ADDRESS_TYPE \<equiv> 0x0017"
abbreviation (input) STUN_ATTRIBUTE_REQUESTED_PORT_PROPS :: u16
  where "STUN_ATTRIBUTE_REQUESTED_PORT_PROPS \<equiv> 0x0018"
abbreviation (input) STUN_ATTRIBUTE_REQUESTED_PROPS :: u16
  where "STUN_ATTRIBUTE_REQUESTED_PROPS \<equiv> 0x0018"
abbreviation (input) STUN_ATTRIBUTE_EVEN_PORT :: u16 where "STUN_ATTRIBUTE_EVEN_PORT \<equiv> 0x0018"
abbreviation (input) STUN_ATTRIBUTE_REQUESTED_TRANSPORT :: u16
  where "STUN_ATTRIBUTE_REQUESTED_TRANSPORT \<equiv> 0x0019"
abbreviation (input) STUN_ATTRIBUTE_DONT_FRAGMENT :: u16 where "STUN_ATTRIBUTE_DONT_FRAGMENT \<equiv> 0x001a"
abbreviation (input) STUN_ATTRIBUTE_XOR_MAPPED_ADDRESS :: u16
  where "STUN_ATTRIBUTE_XOR_MAPPED_ADDRESS \<equiv> 0x0020"
abbreviation (input) STUN_ATTRIBUTE_TIMER_VAL :: u16 where "STUN_ATTRIBUTE_TIMER_VAL \<equiv> 0x0021"
abbreviation (input) STUN_ATTRIBUTE_REQUESTED_IP :: u16 where "STUN_ATTRIBUTE_REQUESTED_IP \<equiv> 0x0022"
abbreviation (input) STUN_ATTRIBUTE_RESERVATION_TOKEN :: u16
  where "STUN_ATTRIBUTE_RESERVATION_TOKEN \<equiv> 0x0022"
abbreviation (input) STUN_ATTRIBUTE_CONNECT_STAT :: u16 where "STUN_ATTRIBUTE_CONNECT_STAT \<equiv> 0x0023"
abbreviation (input) STUN_ATTRIBUTE_PRIORITY :: u16 where "STUN_ATTRIBUTE_PRIORITY \<equiv> 0x0024"
abbreviation (input) STUN_ATTRIBUTE_USE_CANDIDATE :: u16 where "STUN_ATTRIBUTE_USE_CANDIDATE \<equiv> 0x0025"
abbreviation (input) STUN_ATTRIBUTE_OPTIONS :: u16 where "STUN_ATTRIBUTE_OPTIONS \<equiv> 0x8001"
abbreviation (input) STUN_ATTRIBUTE_MS_VERSION :: u16 where "STUN_ATTRIBUTE_MS_VERSION \<equiv> 0x8008"
abbreviation (input) STUN_ATTRIBUTE_MS_XOR_MAPPED_ADDRESS :: u16
  where "STUN_ATTRIBUTE_MS_XOR_MAPPED_ADDRESS \<equiv> 0x8020"
abbreviation (input) STUN_ATTRIBUTE_SOFTWARE :: u16 where "STUN_ATTRIBUTE_SOFTWARE \<equiv> 0x8022"
abbreviation (input) STUN_ATTRIBUTE_ALTERNATE_SERVER :: u16
  where "STUN_ATTRIBUTE_ALTERNATE_SERVER \<equiv> 0x8023"
abbreviation (input) STUN_ATTRIBUTE_FINGERPRINT :: u16 where "STUN_ATTRIBUTE_FINGERPRINT \<equiv> 0x8028"
abbreviation (input) STUN_ATTRIBUTE_ICE_CONTROLLED :: u16 where "STUN_ATTRIBUTE_ICE_CONTROLLED \<equiv> 0x8029"
abbreviation (input) STUN_ATTRIBUTE_ICE_CONTROLLING :: u16
  where "STUN_ATTRIBUTE_ICE_CONTROLLING \<equiv> 0x802a"
abbreviation (input) STUN_ATTRIBUTE_MS_SEQUENCE_NUMBER :: u16
  where "STUN_ATTRIBUTE_MS_SEQUENCE_NUMBER \<equiv> 0x8050"
abbreviation (input) STUN_ATTRIBUTE_CANDIDATE_IDENTIFIER :: u16
  where "STUN_ATTRIBUTE_CANDIDATE_IDENTIFIER \<equiv> 0x8054"
abbreviation (input) STUN_ATTRIBUTE_MS_IMPLEMENTATION_VERSION :: u16
  where "STUN_ATTRIBUTE_MS_IMPLEMENTATION_VERSION \<equiv> 0x8070"

abbreviation (input) STUN_ERROR_TRY_ALTERNATE :: nat where "STUN_ERROR_TRY_ALTERNATE \<equiv> 300"
abbreviation (input) STUN_ERROR_BAD_REQUEST :: nat where "STUN_ERROR_BAD_REQUEST \<equiv> 400"
abbreviation (input) STUN_ERROR_UNAUTHORIZED :: nat where "STUN_ERROR_UNAUTHORIZED \<equiv> 401"
abbreviation (input) STUN_ERROR_UNKNOWN_ATTRIBUTE :: nat where "STUN_ERROR_UNKNOWN_ATTRIBUTE \<equiv> 420"
abbreviation (input) STUN_ERROR_ALLOCATION_MISMATCH :: nat where "STUN_ERROR_ALLOCATION_MISMATCH \<equiv> 437"
abbreviation (input) STUN_ERROR_STALE_NONCE :: nat where "STUN_ERROR_STALE_NONCE \<equiv> 438"
abbreviation (input) STUN_ERROR_ACT_DST_ALREADY :: nat where "STUN_ERROR_ACT_DST_ALREADY \<equiv> 439"
abbreviation (input) STUN_ERROR_UNSUPPORTED_FAMILY :: nat where "STUN_ERROR_UNSUPPORTED_FAMILY \<equiv> 440"
abbreviation (input) STUN_ERROR_WRONG_CREDENTIALS :: nat where "STUN_ERROR_WRONG_CREDENTIALS \<equiv> 441"
abbreviation (input) STUN_ERROR_UNSUPPORTED_TRANSPORT :: nat where "STUN_ERROR_UNSUPPORTED_TRANSPORT \<equiv> 442"
abbreviation (input) STUN_ERROR_INVALID_IP :: nat where "STUN_ERROR_INVALID_IP \<equiv> 443"
abbreviation (input) STUN_ERROR_INVALID_PORT :: nat where "STUN_ERROR_INVALID_PORT \<equiv> 444"
abbreviation (input) STUN_ERROR_OP_TCP_ONLY :: nat where "STUN_ERROR_OP_TCP_ONLY \<equiv> 445"
abbreviation (input) STUN_ERROR_CONN_ALREADY :: nat where "STUN_ERROR_CONN_ALREADY \<equiv> 446"
abbreviation (input) STUN_ERROR_ALLOCATION_QUOTA_REACHED :: nat where "STUN_ERROR_ALLOCATION_QUOTA_REACHED \<equiv> 486"
abbreviation (input) STUN_ERROR_ROLE_CONFLICT :: nat where "STUN_ERROR_ROLE_CONFLICT \<equiv> 487"
abbreviation (input) STUN_ERROR_SERVER_ERROR :: nat where "STUN_ERROR_SERVER_ERROR \<equiv> 500"
abbreviation (input) STUN_ERROR_SERVER_CAPACITY :: nat where "STUN_ERROR_SERVER_CAPACITY \<equiv> 507"
abbreviation (input) STUN_ERROR_INSUFFICIENT_CAPACITY :: nat where "STUN_ERROR_INSUFFICIENT_CAPACITY \<equiv> 508"

text \<open>The terminating 0 of the C arrays is the end of the lists.\<close>

definition STUN_ALL_KNOWN_ATTRIBUTES :: "u16 list" where
  "STUN_ALL_KNOWN_ATTRIBUTES =
     [STUN_ATTRIBUTE_MAPPED_ADDRESS,
      STUN_ATTRIBUTE_RESPONSE_ADDRESS,
      STUN_ATTRIBUTE_CHANGE_REQUEST,
      STUN_ATTRIBUTE_SOURCE_ADDRESS,
      STUN_ATTRIBUTE_CHANGED_ADDRESS,
      STUN_ATTRIBUTE_USERNAME,
      STUN_ATTRIBUTE_PASSWORD,
      STUN_ATTRIBUTE_MESSAGE_INTEGRITY,
      STUN_ATTRIBUTE_ERROR_CODE,
      STUN_ATTRIBUTE_UNKNOWN_ATTRIBUTES,
      STUN_ATTRIBUTE_REFLECTED_FROM,
      STUN_ATTRIBUTE_CHANNEL_NUMBER,
      STUN_ATTRIBUTE_LIFETIME,
      STUN_ATTRIBUTE_MAGIC_COOKIE,
      STUN_ATTRIBUTE_BANDWIDTH,
      STUN_ATTRIBUTE_DESTINATION_ADDRESS,
      STUN_ATTRIBUTE_REMOTE_ADDRESS,
      STUN_ATTRIBUTE_PEER_ADDRESS,
      STUN_ATTRIBUTE_XOR_PEER_ADDRESS,
      STUN_ATTRIBUTE_DATA,
      STUN_ATTRIBUTE_REALM,
      STUN_ATTRIBUTE_NONCE,
      STUN_ATTRIBUTE_RELAY_ADDRESS,
      STUN_ATTRIBUTE_RELAYED_ADDRESS,
      STUN_ATTRIBUTE_XOR_RELAYED_ADDRESS,
      STUN_ATTRIBUTE_REQUESTED_ADDRESS_TYPE,
      STUN_ATTRIBUTE_REQUESTED_PORT_PROPS,
      STUN_ATTRIBUTE_REQUESTED_PROPS,
      STUN_ATTRIBUTE_EVEN_PORT,
      STUN_ATTRIBUTE_REQUESTED_TRANSPORT,
      STUN_ATTRIBUTE_DONT_FRAGMENT,
      STUN_ATTRIBUTE_XOR_MAPPED_ADDRESS,
      STUN_ATTRIBUTE_TIMER_VAL,
      STUN_ATTRIBUTE_REQUESTED_IP,
      STUN_ATTRIBUTE_RESERVATION_TOKEN,
      STUN_ATTRIBUTE_CONNECT_STAT,
      STUN_ATTRIBUTE_PRIORITY,
      STUN_ATTRIBUTE_USE_CANDIDATE]"

definition STUN_MSOC_KNOWN_ATTRIBUTES :: "u16 list" where
  "STUN_MSOC_KNOWN_ATTRIBUTES =
     [STUN_ATTRIBUTE_MAPPED_ADDRESS,
      STUN_ATTRIBUTE_USERNAME,
      STUN_ATTRIBUTE_MESSAGE_INTEGRITY,
      STUN_ATTRIBUTE_ERROR_CODE,
      STUN_ATTRIBUTE_UNKNOWN_ATTRIBUTES,
      STUN_ATTRIBUTE_LIFETIME,
      STUN_ATTRIBUTE_MS_ALTERNATE_SERVER,
      STUN_ATTRIBUTE_MAGIC_COOKIE,
      STUN_ATTRIBUTE_BANDWIDTH,
      STUN_ATTRIBUTE_DESTINATION_ADDRESS,
      STUN_ATTRIBUTE_REMOTE_ADDRESS,
      STUN_ATTRIBUTE_DATA,
      STUN_ATTRIBUTE_NONCE,
      STUN_ATTRIBUTE_REALM]"

section \<open>Messages and agents\<close>

datatype StunCompatibility =
    STUN_COMPATIBILITY_RFC3489
  | STUN_COMPATIBILITY_RFC5389
  | STUN_COMPATIBILITY_MSICE2
  | STUN_COMPATIBILITY_OC2007

abbreviation (input) STUN_AGENT_USAGE_SHORT_TERM_CREDENTIALS :: u32
  where "STUN_AGENT_USAGE_SHORT_TERM_CREDENTIALS \<equiv> 1"
abbreviation (input) STUN_AGENT_USAGE_LONG_TERM_CREDENTIALS :: u32
  where "STUN_AGENT_USAGE_LONG_TERM_CREDENTIALS \<equiv> 2"
abbreviation (input) STUN_AGENT_USAGE_USE_FINGERPRINT :: u32
  where "STUN_AGENT_USAGE_USE_FINGERPRINT \<equiv> 4"
abbreviation (input) STUN_AGENT_USAGE_ADD_SOFTWARE :: u32
  where "STUN_AGENT_USAGE_ADD_SOFTWARE \<equiv> 8"
abbreviation (input) STUN_AGENT_USAGE_IGNORE_CREDENTIALS :: u32
  where "STUN_AGENT_USAGE_IGNORE_CREDENTIALS \<equiv> 16"
abbreviation (input) STUN_AGENT_USAGE_NO_INDICATION_AUTH :: u32
  where "STUN_AGENT_USAGE_NO_INDICATION_AUTH \<equiv> 32"
abbreviation (input) STUN_AGENT_USAGE_FORCE_VALIDATER :: u32
  where "STUN_AGENT_USAGE_FORCE_VALIDATER \<equiv> 64"
abbreviation (input) STUN_AGENT_USAGE_NO_ALIGNED_ATTRIBUTES :: u32
  where "STUN_AGENT_USAGE_NO_ALIGNED_ATTRIBUTES \<equiv> 128"

text \<open>
  A message points to its agent, but the message functions read only the two members that never
  change after \<^verbatim>\<open>stun_agent_init\<close>; the record of these two is what a message carries, and the full
  agent extends it. A key pointer with its length is a byte list, the null pointer is \<open>None\<close>.
  \<^verbatim>\<open>buffer\<close> is the allocation, \<^verbatim>\<open>buffer_len\<close> the size the message believes it has.
\<close>

record stun_agent_cfg =
  compatibility :: StunCompatibility
  usage_flags :: u32

record stun_message =
  agent :: "stun_agent_cfg option"
  buffer :: bytes
  buffer_len :: nat
  key :: "bytes option"
  long_term_key :: bytes
  long_term_valid :: bool

record stun_saved_id =
  sid_id :: bytes
  sid_method :: u16
  sid_key :: "bytes option"
  sid_long_term_key :: bytes
  sid_long_term_valid :: bool
  sid_valid :: bool

record stun_agent = stun_agent_cfg +
  sent_ids :: "stun_saved_id list"
  known_attributes :: "u16 list"
  software_attribute :: "bytes option"
  ms_ice2_send_legacy_connchecks :: bool

definition has_flag :: "('a) stun_agent_cfg_scheme \<Rightarrow> u32 \<Rightarrow> bool" where
  "has_flag a f = (usage_flags a AND f \<noteq> 0)"

text \<open>The tests on \<^verbatim>\<open>msg->agent\<close> that the message functions share.\<close>

definition no_aligned_attributes :: "stun_message \<Rightarrow> bool" where
  "no_aligned_attributes msg =
     (case agent msg of None \<Rightarrow> False
      | Some a \<Rightarrow> has_flag a STUN_AGENT_USAGE_NO_ALIGNED_ATTRIBUTES)"

definition oc2007_type :: "stun_message \<Rightarrow> u16 \<Rightarrow> u16" where
  "oc2007_type msg type =
     (case agent msg of None \<Rightarrow> type
      | Some a \<Rightarrow>
          if compatibility a = STUN_COMPATIBILITY_OC2007 then
            if type = STUN_ATTRIBUTE_REALM then STUN_ATTRIBUTE_NONCE
            else if type = STUN_ATTRIBUTE_NONCE then STUN_ATTRIBUTE_REALM
            else type
          else type)"

lemma oc2007_type_involution [simp]: "oc2007_type msg (oc2007_type msg t) = t"
  by (simp add: oc2007_type_def split: option.splits)

lemma oc2007_type_inj [simp]: "oc2007_type msg t = oc2007_type msg t' \<longleftrightarrow> t = t'"
  by (metis oc2007_type_involution)

lemma oc2007_type_buffer [simp]: "oc2007_type (msg\<lparr>buffer := b\<rparr>) = oc2007_type msg"
  by (intro ext) (simp add: oc2007_type_def)

lemma no_aligned_attributes_buffer [simp]:
  "no_aligned_attributes (msg\<lparr>buffer := b\<rparr>) = no_aligned_attributes msg"
  by (simp add: no_aligned_attributes_def)

end
