(* ===== verification/Stun_Message.thy ===== *)
theory Stun_Message
  imports Stun_Constants
begin

text \<open>
  \<^verbatim>\<open>stun/stunmessage.c\<close>: building, searching and validating STUN messages in a byte buffer. Every
  function of the file is here, in its order, plus \<^verbatim>\<open>stun_message_has_cookie\<close> of
  \<^verbatim>\<open>stun/stun5389.c\<close>, which \<^verbatim>\<open>stun_message_append\<close> calls. A function result \<open>None\<close> is an access
  outside the buffer. The find functions return a status or a value: \<open>Inl\<close> carries the error status,
  \<open>Inr\<close> the out-parameter written with \<^verbatim>\<open>STUN_MESSAGE_RETURN_SUCCESS\<close>.
\<close>

section \<open>Header\<close>

definition stun_message_init ::
  "stun_message \<Rightarrow> StunClass \<Rightarrow> u16 \<Rightarrow> bytes \<Rightarrow> (bool \<times> stun_message) option" where
  "stun_message_init msg c m tid =
     (if buffer_len msg < STUN_MESSAGE_HEADER_LENGTH then Some (False, msg)
      else do {
        b \<leftarrow> mem_write (buffer msg) 0 (replicate 4 0);
        b \<leftarrow> stun_set_type b c m;
        i \<leftarrow> mem_read tid 0 STUN_MESSAGE_TRANS_ID_LEN;
        b \<leftarrow> mem_write b STUN_MESSAGE_TRANS_ID_POS i;
        Some (True, msg\<lparr>buffer := b\<rparr>)
      })"

definition stun_message_length :: "stun_message \<Rightarrow> u16 option" where
  "stun_message_length msg = do {
     w \<leftarrow> stun_getw (buffer msg) STUN_MESSAGE_LENGTH_POS;
     Some (w + 20)
   }"

definition stun_message_id :: "stun_message \<Rightarrow> bytes option" where
  "stun_message_id msg = mem_read (buffer msg) STUN_MESSAGE_TRANS_ID_POS STUN_MESSAGE_TRANS_ID_LEN"

definition stun_message_has_cookie :: "stun_message \<Rightarrow> bool option" where
  "stun_message_has_cookie msg = do {
     tid \<leftarrow> stun_message_id msg;
     Some (take 4 tid = le32 (htonl STUN_MAGIC_COOKIE))
   }"

section \<open>Looking attributes up\<close>

text \<open>
  The loop of \<^verbatim>\<open>stun_message_find\<close>. \<open>Some None\<close> is the null pointer, \<open>Some (Some (off, alen))\<close> the
  address of the value within the buffer and its length.
\<close>

function stun_message_find_loop ::
  "bytes \<Rightarrow> bool \<Rightarrow> u16 \<Rightarrow> nat \<Rightarrow> nat \<Rightarrow> (nat \<times> u16) option option" where
  "stun_message_find_loop b no_align type len offset =
     (if offset < len then do {
        atype \<leftarrow> stun_getw b offset;
        alen \<leftarrow> stun_getw b (offset + STUN_ATTRIBUTE_TYPE_LEN);
        let offset = offset + STUN_ATTRIBUTE_VALUE_POS;
        if atype = type then Some (Some (offset, alen))
        else if atype = STUN_ATTRIBUTE_MESSAGE_INTEGRITY \<and> type \<noteq> STUN_ATTRIBUTE_FINGERPRINT
        then Some None
        else if atype = STUN_ATTRIBUTE_FINGERPRINT then Some None
        else stun_message_find_loop b no_align type len
               (offset + (if no_align then unat alen else unat (stun_align (ucast alen))))
      }
      else Some None)"
  by pat_completeness auto
termination
  by (relation "measure (\<lambda>(b, na, t, len, offset). len - offset)") auto

definition stun_message_find :: "stun_message \<Rightarrow> u16 \<Rightarrow> (nat \<times> u16) option option" where
  "stun_message_find msg type = do {
     len \<leftarrow> stun_message_length msg;
     stun_message_find_loop (buffer msg) (no_aligned_attributes msg) (oc2007_type msg type)
       (unat len) STUN_MESSAGE_ATTRIBUTES_POS
   }"

definition stun_message_has_attribute :: "stun_message \<Rightarrow> u16 \<Rightarrow> bool option" where
  "stun_message_has_attribute msg type = map_option (\<lambda>r. r \<noteq> None) (stun_message_find msg type)"

definition stun_message_find_flag :: "stun_message \<Rightarrow> u16 \<Rightarrow> StunMessageReturn option" where
  "stun_message_find_flag msg type = do {
     r \<leftarrow> stun_message_find msg type;
     Some (case r of None \<Rightarrow> STUN_MESSAGE_RETURN_NOT_FOUND
           | Some (ptr, len) \<Rightarrow>
               if len = 0 then STUN_MESSAGE_RETURN_SUCCESS else STUN_MESSAGE_RETURN_INVALID)
   }"

definition stun_message_find32 :: "stun_message \<Rightarrow> u16 \<Rightarrow> (StunMessageReturn + u32) option" where
  "stun_message_find32 msg type = do {
     r \<leftarrow> stun_message_find msg type;
     case r of None \<Rightarrow> Some (Inl STUN_MESSAGE_RETURN_NOT_FOUND)
     | Some (ptr, len) \<Rightarrow>
         if len = 4 then do {
           val \<leftarrow> mem_read (buffer msg) ptr 4;
           Some (Inr (ntohl (of_le32 val)))
         }
         else Some (Inl STUN_MESSAGE_RETURN_INVALID)
   }"

definition stun_message_find64 :: "stun_message \<Rightarrow> u16 \<Rightarrow> (StunMessageReturn + u64) option" where
  "stun_message_find64 msg type = do {
     r \<leftarrow> stun_message_find msg type;
     case r of None \<Rightarrow> Some (Inl STUN_MESSAGE_RETURN_NOT_FOUND)
     | Some (ptr, len) \<Rightarrow>
         if len = 8 then do {
           tab \<leftarrow> mem_read (buffer msg) ptr 8;
           Some (Inr (push_bit 32 (ucast (ntohl (of_le32 tab)))
                      OR ucast (ntohl (of_le32 (drop 4 tab)))))
         }
         else Some (Inl STUN_MESSAGE_RETURN_INVALID)
   }"

text \<open>The string written to the caller's buffer, with its terminating NUL.\<close>

definition stun_message_find_string ::
  "stun_message \<Rightarrow> u16 \<Rightarrow> nat \<Rightarrow> (StunMessageReturn + bytes) option" where
  "stun_message_find_string msg type buflen = do {
     r \<leftarrow> stun_message_find msg type;
     case r of None \<Rightarrow> Some (Inl STUN_MESSAGE_RETURN_NOT_FOUND)
     | Some (ptr, len) \<Rightarrow>
         if unat len \<ge> buflen then Some (Inl STUN_MESSAGE_RETURN_NOT_ENOUGH_SPACE)
         else do {
           s \<leftarrow> mem_read (buffer msg) ptr (unat len);
           Some (Inr (s @ [0]))
         }
   }"

text \<open>The caller's address and its length are in-out parameters.\<close>

definition stun_message_find_addr ::
  "stun_message \<Rightarrow> u16 \<Rightarrow> sockaddr \<Rightarrow> nat \<Rightarrow> (StunMessageReturn \<times> sockaddr \<times> nat) option" where
  "stun_message_find_addr msg type addr addrlen = do {
     r \<leftarrow> stun_message_find msg type;
     case r of None \<Rightarrow> Some (STUN_MESSAGE_RETURN_NOT_FOUND, addr, addrlen)
     | Some (ptr, len) \<Rightarrow>
         if len < 4 then Some (STUN_MESSAGE_RETURN_INVALID, addr, addrlen)
         else do {
           family \<leftarrow> rd8 (buffer msg) (ptr + 1);
           if family = 1 then
             if addrlen < sizeof_sockaddr_in \<or> len \<noteq> 8
             then Some (STUN_MESSAGE_RETURN_INVALID, addr, sizeof_sockaddr_in)
             else do {
               port \<leftarrow> mem_read (buffer msg) (ptr + 2) 2;
               a \<leftarrow> mem_read (buffer msg) (ptr + 4) 4;
               Some (STUN_MESSAGE_RETURN_SUCCESS, SA_INET (of_le16 port) (of_le32 a),
                     sizeof_sockaddr_in)
             }
           else if family = 2 then
             if addrlen < sizeof_sockaddr_in6 \<or> len \<noteq> 20
             then Some (STUN_MESSAGE_RETURN_INVALID, addr, sizeof_sockaddr_in6)
             else do {
               port \<leftarrow> mem_read (buffer msg) (ptr + 2) 2;
               a \<leftarrow> mem_read (buffer msg) (ptr + 4) 16;
               Some (STUN_MESSAGE_RETURN_SUCCESS, SA_INET6 (of_le16 port) a, sizeof_sockaddr_in6)
             }
           else Some (STUN_MESSAGE_RETURN_UNSUPPORTED_ADDRESS, addr, addrlen)
         }
   }"

definition stun_message_find_xor_addr_full ::
  "stun_message \<Rightarrow> u16 \<Rightarrow> sockaddr \<Rightarrow> nat \<Rightarrow> u32 \<Rightarrow> (StunMessageReturn \<times> sockaddr \<times> nat) option"
where
  "stun_message_find_xor_addr_full msg type addr addrlen magic_cookie = do {
     (val, addr, addrlen) \<leftarrow> stun_message_find_addr msg type addr addrlen;
     if val \<noteq> STUN_MESSAGE_RETURN_SUCCESS then Some (val, addr, addrlen)
     else do {
       (val, addr) \<leftarrow> stun_xor_address (buffer msg) addr addrlen magic_cookie;
       Some (val, addr, addrlen)
     }
   }"

definition stun_message_find_xor_addr ::
  "stun_message \<Rightarrow> u16 \<Rightarrow> sockaddr \<Rightarrow> nat \<Rightarrow> (StunMessageReturn \<times> sockaddr \<times> nat) option" where
  "stun_message_find_xor_addr msg type addr addrlen = do {
     (val, addr, addrlen) \<leftarrow> stun_message_find_addr msg type addr addrlen;
     if val \<noteq> STUN_MESSAGE_RETURN_SUCCESS then Some (val, addr, addrlen)
     else do {
       (val, addr) \<leftarrow> stun_xor_address (buffer msg) addr addrlen STUN_MAGIC_COOKIE;
       Some (val, addr, addrlen)
     }
   }"

definition stun_message_find_error :: "stun_message \<Rightarrow> (StunMessageReturn + nat) option" where
  "stun_message_find_error msg = do {
     r \<leftarrow> stun_message_find msg STUN_ATTRIBUTE_ERROR_CODE;
     case r of None \<Rightarrow> Some (Inl STUN_MESSAGE_RETURN_NOT_FOUND)
     | Some (ptr, alen) \<Rightarrow>
         if alen < 4 then Some (Inl STUN_MESSAGE_RETURN_INVALID)
         else do {
           c \<leftarrow> rd8 (buffer msg) (ptr + 2);
           let c = c AND 0x7;
           number \<leftarrow> rd8 (buffer msg) (ptr + 3);
           if c < 3 \<or> c > 6 \<or> number > 99 then Some (Inl STUN_MESSAGE_RETURN_INVALID)
           else Some (Inr (unat c * 100 + unat number))
         }
   }"

section \<open>Appending attributes\<close>

text \<open>
  \<^verbatim>\<open>stun_message_append\<close> reserves an attribute and returns the address of its value, the null
  pointer (\<open>None\<close> inside) when there is no room. \<^verbatim>\<open>mlen\<close> is a \<^verbatim>\<open>uint16_t\<close>.
\<close>

definition stun_message_append ::
  "stun_message \<Rightarrow> u16 \<Rightarrow> nat \<Rightarrow> (nat option \<times> stun_message) option" where
  "stun_message_append msg type len = do {
     mlen \<leftarrow> stun_message_length msg;
     let type = oc2007_type msg type;
     if unat mlen + STUN_ATTRIBUTE_HEADER_LENGTH + len > buffer_len msg then Some (None, msg)
     else do {
       (b, a) \<leftarrow> stun_setw (buffer msg) (unat mlen) type;
       (b, a, mlen) \<leftarrow>
         (if no_aligned_attributes msg then do {
            (b, a) \<leftarrow> stun_setw b a (word_of_nat len);
            Some (b, a, mlen)
          }
          else do {
            cookie \<leftarrow> stun_message_has_cookie (msg\<lparr>buffer := b\<rparr>);
            (b, a) \<leftarrow> stun_setw b a
              (if cookie then word_of_nat len else ucast (stun_align (word_of_nat len)));
            let pad = unat (stun_padding (word_of_nat len));
            if pad > 0 then do {
              b \<leftarrow> mem_write b (a + len) (replicate pad 0x20);
              Some (b, a, mlen + word_of_nat pad)
            }
            else Some (b, a, mlen)
          });
       let mlen = mlen + (4 + word_of_nat len);
       (b, _) \<leftarrow> stun_setw b STUN_MESSAGE_LENGTH_POS (mlen - 20);
       Some (Some a, msg\<lparr>buffer := b\<rparr>)
     }
   }"

definition stun_message_append_bytes ::
  "stun_message \<Rightarrow> u16 \<Rightarrow> bytes \<Rightarrow> (StunMessageReturn \<times> stun_message) option" where
  "stun_message_append_bytes msg type data = do {
     (ptr, msg) \<leftarrow> stun_message_append msg type (length data);
     case ptr of None \<Rightarrow> Some (STUN_MESSAGE_RETURN_NOT_ENOUGH_SPACE, msg)
     | Some ptr \<Rightarrow>
         if length data > 0 then do {
           b \<leftarrow> mem_write (buffer msg) ptr data;
           Some (STUN_MESSAGE_RETURN_SUCCESS, msg\<lparr>buffer := b\<rparr>)
         }
         else Some (STUN_MESSAGE_RETURN_SUCCESS, msg)
   }"

definition stun_message_append_flag ::
  "stun_message \<Rightarrow> u16 \<Rightarrow> (StunMessageReturn \<times> stun_message) option" where
  "stun_message_append_flag msg type = stun_message_append_bytes msg type []"

definition stun_message_append32 ::
  "stun_message \<Rightarrow> u16 \<Rightarrow> u32 \<Rightarrow> (StunMessageReturn \<times> stun_message) option" where
  "stun_message_append32 msg type value =
     stun_message_append_bytes msg type (le32 (htonl value))"

definition stun_message_append64 ::
  "stun_message \<Rightarrow> u16 \<Rightarrow> u64 \<Rightarrow> (StunMessageReturn \<times> stun_message) option" where
  "stun_message_append64 msg type value =
     stun_message_append_bytes msg type
       (le32 (htonl (ucast (drop_bit 32 value))) @ le32 (htonl (ucast value)))"

definition stun_message_append_string ::
  "stun_message \<Rightarrow> u16 \<Rightarrow> bytes \<Rightarrow> (StunMessageReturn \<times> stun_message) option" where
  "stun_message_append_string msg type str =
     stun_message_append_bytes msg type (takeWhile (\<lambda>c. c \<noteq> 0) str)"

text \<open>The three stores into the reserved attribute that \<^verbatim>\<open>stun_message_append_addr\<close> ends with.\<close>

definition append_addr_bytes ::
  "stun_message \<Rightarrow> u16 \<Rightarrow> u8 \<Rightarrow> u16 \<Rightarrow> bytes \<Rightarrow> (StunMessageReturn \<times> stun_message) option" where
  "append_addr_bytes msg type family port pa = do {
     (ptr, msg) \<leftarrow> stun_message_append msg type (4 + length pa);
     case ptr of None \<Rightarrow> Some (STUN_MESSAGE_RETURN_NOT_ENOUGH_SPACE, msg)
     | Some ptr \<Rightarrow> do {
         b \<leftarrow> mem_write (buffer msg) ptr [0];
         b \<leftarrow> mem_write b (ptr + 1) [family];
         b \<leftarrow> mem_write b (ptr + 2) (le16 port);
         b \<leftarrow> mem_write b (ptr + 4) pa;
         Some (STUN_MESSAGE_RETURN_SUCCESS, msg\<lparr>buffer := b\<rparr>)
       }
   }"

definition stun_message_append_addr ::
  "stun_message \<Rightarrow> u16 \<Rightarrow> sockaddr \<Rightarrow> nat \<Rightarrow> (StunMessageReturn \<times> stun_message) option" where
  "stun_message_append_addr msg type addr addrlen =
     (if addrlen < sizeof_sockaddr then Some (STUN_MESSAGE_RETURN_INVALID, msg)
      else case addr of
        SA_INET port a \<Rightarrow> append_addr_bytes msg type 1 port (le32 a)
      | SA_INET6 port a \<Rightarrow>
          if addrlen < sizeof_sockaddr_in6 then Some (STUN_MESSAGE_RETURN_INVALID, msg)
          else append_addr_bytes msg type 2 port a
      | SA_OTHER \<Rightarrow> Some (STUN_MESSAGE_RETURN_UNSUPPORTED_ADDRESS, msg))"

definition stun_message_append_xor_addr_full ::
  "stun_message \<Rightarrow> u16 \<Rightarrow> sockaddr \<Rightarrow> nat \<Rightarrow> u32 \<Rightarrow> (StunMessageReturn \<times> stun_message) option"
where
  "stun_message_append_xor_addr_full msg type addr addrlen magic_cookie = do {
     let addrlen = (if addrlen > sizeof_sockaddr_storage then sizeof_sockaddr_storage else addrlen);
     (val, tmpaddr) \<leftarrow> stun_xor_address (buffer msg) addr addrlen magic_cookie;
     if val \<noteq> STUN_MESSAGE_RETURN_SUCCESS then Some (val, msg)
     else stun_message_append_addr msg type tmpaddr addrlen
   }"

definition stun_message_append_xor_addr ::
  "stun_message \<Rightarrow> u16 \<Rightarrow> sockaddr \<Rightarrow> nat \<Rightarrow> (StunMessageReturn \<times> stun_message) option" where
  "stun_message_append_xor_addr msg type addr addrlen = do {
     let addrlen = (if addrlen > sizeof_sockaddr_storage then sizeof_sockaddr_storage else addrlen);
     (val, tmpaddr) \<leftarrow> stun_xor_address (buffer msg) addr addrlen STUN_MAGIC_COOKIE;
     if val \<noteq> STUN_MESSAGE_RETURN_SUCCESS then Some (val, msg)
     else stun_message_append_addr msg type tmpaddr addrlen
   }"

definition stun_strerror_tab :: "(nat \<times> string) list" where
  "stun_strerror_tab =
     [(STUN_ERROR_TRY_ALTERNATE, ''Try alternate server''),
      (STUN_ERROR_BAD_REQUEST, ''Bad request''),
      (STUN_ERROR_UNAUTHORIZED, ''Unauthorized''),
      (STUN_ERROR_UNKNOWN_ATTRIBUTE, ''Unknown Attribute''),
      (STUN_ERROR_ALLOCATION_MISMATCH, ''Allocation Mismatch''),
      (STUN_ERROR_STALE_NONCE, ''Stale Nonce''),
      (STUN_ERROR_ACT_DST_ALREADY, ''Active Destination Already Set''),
      (STUN_ERROR_UNSUPPORTED_FAMILY, ''Address Family not Supported''),
      (STUN_ERROR_UNSUPPORTED_TRANSPORT, ''Unsupported Transport Protocol''),
      (STUN_ERROR_INVALID_IP, ''Invalid IP Address''),
      (STUN_ERROR_INVALID_PORT, ''Invalid Port''),
      (STUN_ERROR_OP_TCP_ONLY, ''Operation for TCP Only''),
      (STUN_ERROR_CONN_ALREADY, ''Connection Already Exists''),
      (STUN_ERROR_ALLOCATION_QUOTA_REACHED, ''Allocation Quota Reached''),
      (STUN_ERROR_ROLE_CONFLICT, ''Role conflict''),
      (STUN_ERROR_SERVER_ERROR, ''Server Error''),
      (STUN_ERROR_SERVER_CAPACITY, ''Insufficient Capacity''),
      (STUN_ERROR_INSUFFICIENT_CAPACITY, ''Insufficient Capacity'')]"

definition stun_strerror :: "nat \<Rightarrow> string" where
  "stun_strerror code =
     (case map_of stun_strerror_tab code of Some phrase \<Rightarrow> phrase | None \<Rightarrow> ''Unknown error'')"

definition stun_message_append_error ::
  "stun_message \<Rightarrow> nat \<Rightarrow> (StunMessageReturn \<times> stun_message) option" where
  "stun_message_append_error msg code = do {
     let str = (map of_char (stun_strerror code) :: bytes);
     (ptr, msg) \<leftarrow> stun_message_append msg STUN_ATTRIBUTE_ERROR_CODE (4 + length str);
     case ptr of None \<Rightarrow> Some (STUN_MESSAGE_RETURN_NOT_ENOUGH_SPACE, msg)
     | Some ptr \<Rightarrow> do {
         b \<leftarrow> mem_write (buffer msg) ptr [0, 0];
         b \<leftarrow> mem_write b (ptr + 2) [word_of_nat (code div 100)];
         b \<leftarrow> mem_write b (ptr + 3) [word_of_nat (code mod 100)];
         b \<leftarrow> mem_write b (ptr + 4) str;
         Some (STUN_MESSAGE_RETURN_SUCCESS, msg\<lparr>buffer := b\<rparr>)
       }
   }"

section \<open>Validating a received buffer\<close>

record StunInputVector =
  iov_buffer :: "bytes option"
  iov_size :: nat

definition iov_nth :: "StunInputVector list \<Rightarrow> nat \<Rightarrow> StunInputVector option" where
  "iov_nth bufs i = (if i < length bufs then Some (bufs ! i) else None)"

text \<open>The loop that skips the first bytes over small buffers: the index it stops at and what is
  left to skip there. A negative \<open>n_buffers\<close> means a null-terminated vector.\<close>

function skip_buffers ::
  "StunInputVector list \<Rightarrow> int \<Rightarrow> nat \<Rightarrow> nat \<Rightarrow> (nat \<times> nat) option" where
  "skip_buffers bufs n_buffers i skip_remaining =
     (if 0 \<le> n_buffers \<and> int i \<ge> n_buffers then Some (i, skip_remaining)
      else if i < length bufs then
        (if n_buffers < 0 \<and> iov_buffer (bufs ! i) = None then Some (i, skip_remaining)
         else if iov_size (bufs ! i) \<le> skip_remaining
         then skip_buffers bufs n_buffers (i + 1) (skip_remaining - iov_size (bufs ! i))
         else Some (i, skip_remaining))
      else None)"
  by pat_completeness auto
termination
  by (relation "measure (\<lambda>(bufs, n, i, s). length bufs - i)") auto

text \<open>The difference \<^verbatim>\<open>buffers[i].size - skip_remaining\<close> is of type \<^verbatim>\<open>size_t\<close>, so it is huge where the buffer
  is the smaller one.\<close>

definition stun_message_validate_buffer_length_fast ::
  "StunInputVector list \<Rightarrow> int \<Rightarrow> nat \<Rightarrow> bool \<Rightarrow> int option" where
  "stun_message_validate_buffer_length_fast bufs n_buffers total_length has_padding =
     (if total_length < 1 \<or> n_buffers = 0 then Some STUN_MESSAGE_BUFFER_INVALID
      else do {
        b0 \<leftarrow> iov_nth bufs 0;
        case iov_buffer b0 of None \<Rightarrow> Some STUN_MESSAGE_BUFFER_INVALID
        | Some p0 \<Rightarrow> do {
            x \<leftarrow> rd8 p0 0;
            if drop_bit 6 x \<noteq> 0 then Some STUN_MESSAGE_BUFFER_INVALID
            else if total_length < STUN_MESSAGE_LENGTH_POS + STUN_MESSAGE_LENGTH_LEN
            then Some STUN_MESSAGE_BUFFER_INCOMPLETE
            else do {
              mlen \<leftarrow>
                (if iov_size b0 \<ge> STUN_MESSAGE_LENGTH_POS + STUN_MESSAGE_LENGTH_LEN
                 then stun_getw p0 STUN_MESSAGE_LENGTH_POS
                 else do {
                   (i, skip_remaining) \<leftarrow> skip_buffers bufs n_buffers 0 STUN_MESSAGE_LENGTH_POS;
                   bi \<leftarrow> iov_nth bufs i;
                   pi \<leftarrow> iov_buffer bi;
                   if iov_size bi < skip_remaining \<or> iov_size bi - skip_remaining > 1 then stun_getw pi skip_remaining
                   else do {
                     hi \<leftarrow> rd8 pi skip_remaining;
                     bj \<leftarrow> iov_nth bufs (i + 1);
                     pj \<leftarrow> iov_buffer bj;
                     lo \<leftarrow> rd8 pj 0;
                     Some (push_bit 8 (ucast hi) OR ucast lo)
                   }
                 });
              let mlen = unat mlen + STUN_MESSAGE_HEADER_LENGTH;
              if has_padding \<and> stun_padding (word_of_nat mlen) \<noteq> 0
              then Some STUN_MESSAGE_BUFFER_INVALID
              else if total_length < mlen then Some STUN_MESSAGE_BUFFER_INCOMPLETE
              else Some (int mlen)
            }
          }
      })"

text \<open>The attribute loop of \<^verbatim>\<open>stun_message_validate_buffer_length\<close>, from address \<open>p\<close> with \<open>len\<close> bytes
  left: \<open>False\<close> where the code returns \<^verbatim>\<open>STUN_MESSAGE_BUFFER_INVALID\<close>.\<close>

function validate_attributes :: "bytes \<Rightarrow> bool \<Rightarrow> nat \<Rightarrow> nat \<Rightarrow> bool option" where
  "validate_attributes b has_padding p len =
     (if len > 0 then
        if len < 4 then Some False
        else do {
          alen \<leftarrow> stun_getw b (p + STUN_ATTRIBUTE_TYPE_LEN);
          let alen = (if has_padding then unat (stun_align (ucast alen)) else unat alen);
          let len = len - 4;
          if len < alen then Some False
          else validate_attributes b has_padding (p + (4 + alen)) (len - alen)
        }
      else Some True)"
  by pat_completeness auto
termination
  by (relation "measure (\<lambda>(b, hp, p, len). len)") auto

definition stun_message_validate_buffer_length :: "bytes \<Rightarrow> nat \<Rightarrow> bool \<Rightarrow> int option" where
  "stun_message_validate_buffer_length msg len has_padding = do {
     fast_retval \<leftarrow> stun_message_validate_buffer_length_fast
       [\<lparr>iov_buffer = Some msg, iov_size = len\<rparr>] 1 len has_padding;
     if fast_retval \<le> 0 then Some fast_retval
     else do {
       ok \<leftarrow> validate_attributes msg has_padding 20 (nat fast_retval - 20);
       Some (if ok then fast_retval else STUN_MESSAGE_BUFFER_INVALID)
     }
   }"

section \<open>Class and method\<close>

definition stun_message_type :: "stun_message \<Rightarrow> u16 option" where
  "stun_message_type msg = do {
     t \<leftarrow> stun_getw (buffer msg) 0;
     Some (if t = 0x0115 then 0x0017 else t)
   }"

definition stun_message_get_method :: "stun_message \<Rightarrow> u16 option" where
  "stun_message_get_method msg = do {
     t \<leftarrow> stun_message_type msg;
     Some (drop_bit 2 (t AND 0x3e00) OR drop_bit 1 (t AND 0x00e0) OR (t AND 0x000f))
   }"

definition stun_message_get_class :: "stun_message \<Rightarrow> StunClass option" where
  "stun_message_get_class msg = do {
     t \<leftarrow> stun_message_type msg;
     Some (class_of_val (drop_bit 7 (t AND 0x0100) OR drop_bit 4 (t AND 0x0010)))
   }"

definition stun_optional :: "u16 \<Rightarrow> bool" where
  "stun_optional t = (drop_bit 15 t = 1)"

declare stun_message_find_loop.simps [simp del] skip_buffers.simps [simp del]
  validate_attributes.simps [simp del]

end
