(* ===== verification/Stun_Attributes.thy ===== *)
theory Stun_Attributes
  imports Stun_Message
begin

text \<open>
  The abstract view of a STUN message: the list of its attributes, each with its type, the address of
  its value and its length. \<open>attr_list\<close> parses the attribute area; the loops of
  \<^verbatim>\<open>stun_message_validate_buffer_length\<close> and \<^verbatim>\<open>stun_message_find\<close> are shown to decide whether it
  parses and to look a type up in it, and appending at the end extends it by one entry.
\<close>

section \<open>Attribute lists\<close>

definition padded_len :: "bool \<Rightarrow> nat \<Rightarrow> nat" where
  "padded_len pad n = (if pad then (n + 3) div 4 * 4 else n)"

type_synonym attr = "u16 \<times> nat \<times> u16"

function attr_list :: "bytes \<Rightarrow> bool \<Rightarrow> nat \<Rightarrow> nat \<Rightarrow> attr list option" where
  "attr_list b pad p e =
     (if p < e then
        if e < p + 4 then None
        else do {
          t \<leftarrow> stun_getw b p;
          l \<leftarrow> stun_getw b (p + 2);
          if e < p + 4 + padded_len pad (unat l) then None
          else do {
            rest \<leftarrow> attr_list b pad (p + 4 + padded_len pad (unat l)) e;
            Some ((t, p + 4, l) # rest)
          }
        }
      else Some [])"
  by pat_completeness auto
termination
  by (relation "measure (\<lambda>(b, pad, p, e). e - p)") auto

declare attr_list.simps [simp del]

text \<open>Which entry a search finds: the first of its type, unless MESSAGE-INTEGRITY or FINGERPRINT
  ends the search before.\<close>

fun lookup_attr :: "u16 \<Rightarrow> attr list \<Rightarrow> (nat \<times> u16) option" where
  "lookup_attr t [] = None"
| "lookup_attr t ((a, off, l) # as) =
     (if a = t then Some (off, l)
      else if a = STUN_ATTRIBUTE_MESSAGE_INTEGRITY \<and> t \<noteq> STUN_ATTRIBUTE_FINGERPRINT then None
      else if a = STUN_ATTRIBUTE_FINGERPRINT then None
      else lookup_attr t as)"

abbreviation attr_types :: "attr list \<Rightarrow> u16 set" where
  "attr_types as \<equiv> fst ` set as"

section \<open>Lengths\<close>

lemma stun_align_u16 [simp]: "unat (stun_align (ucast (l :: u16))) = padded_len True (unat l)"
  using unat_u16_less [of l] by (simp add: unat_stun_align padded_len_def)

lemma padded_len_ge: "n \<le> padded_len pad n"
  unfolding padded_len_def by simp arith

lemma padded_len_dvd: "4 dvd padded_len True n"
  by (simp add: padded_len_def)

lemma padded_len_idem: "padded_len True (padded_len True n) = padded_len True n"
  by (simp add: padded_len_def)

lemma padded_len_mono_dvd: "m + n \<le> k \<Longrightarrow> 4 dvd m \<Longrightarrow> 4 dvd k \<Longrightarrow> m + padded_len pad n \<le> k"
  unfolding padded_len_def by (auto elim!: dvdE) presburger

section \<open>The validation loop decides whether the area parses\<close>

lemma validate_attributes_attr_list:
  "p + len \<le> length b \<Longrightarrow>
   validate_attributes b pad p len = Some (attr_list b pad p (p + len) \<noteq> None)"
proof (induction b pad p len rule: validate_attributes.induct)
  case (1 b pad p len)
  consider "len = 0" | "0 < len" "len < 4" | "4 \<le> len" by linarith
  then show ?case
  proof cases
    case 3
    then obtain t l where t: "stun_getw b p = Some t" and l: "stun_getw b (p + 2) = Some l"
      using "1.prems" by (simp add: stun_getw_def rd8_Some)
    have n: "(if pad then unat (stun_align (ucast l)) else unat l) = padded_len pad (unat l)"
      by (simp add: padded_len_def)
    have IH: "validate_attributes b pad (p + (4 + padded_len pad (unat l)))
          (len - 4 - padded_len pad (unat l))
        = Some (attr_list b pad (p + 4 + padded_len pad (unat l)) (p + len) \<noteq> None)"
      if "padded_len pad (unat l) \<le> len - 4"
      using "1.IH" [OF _ _ l refl refl] "1.prems" 3 that by (simp add: n add.assoc)
    show ?thesis
      using 3 t l IH
      by (subst validate_attributes.simps, subst attr_list.simps) 
        (simp add: n Let_def add.assoc less_diff_conv2 del: not_None_eq)
  qed (simp_all add: validate_attributes.simps attr_list.simps)
qed

section \<open>The search loop looks up in the list\<close>

lemma find_loop_lookup:
  "attr_list b pad p e = Some as \<Longrightarrow>
   stun_message_find_loop b (\<not> pad) t e p = Some (lookup_attr t as)"
proof (induction b pad p e arbitrary: as rule: attr_list.induct)
  case (1 b pad p e)
  show ?case
  proof (cases "p < e")
    case False
    then show ?thesis
      using "1.prems" by (simp add: stun_message_find_loop.simps attr_list.simps)
  next
    case True
    with "1.prems" obtain a l rest where
      r: "\<not> e < p + 4" "stun_getw b p = Some a" "stun_getw b (p + 2) = Some l"
        "\<not> e < p + 4 + padded_len pad (unat l)"
        "attr_list b pad (p + 4 + padded_len pad (unat l)) e = Some rest"
        "as = (a, p + 4, l) # rest"
      by (subst (asm) attr_list.simps) (auto split: if_splits simp: bind_eq_Some_conv)
    have "stun_message_find_loop b (\<not> pad) t e (p + 4 + padded_len pad (unat l))
        = Some (lookup_attr t rest)"
      using "1.IH" [OF True r(1-4)] r(5) by simp
    then show ?thesis
      using True r by (subst stun_message_find_loop.simps) (auto simp: Let_def padded_len_def)
  qed
qed

section \<open>Structure of attribute lists\<close>

lemma attr_list_bounds:
  "attr_list b pad p e = Some as \<Longrightarrow> (t, off, l) \<in> set as \<Longrightarrow>
   p + 4 \<le> off \<and> off + padded_len pad (unat l) \<le> e"
proof (induction b pad p e arbitrary: as rule: attr_list.induct)
  case (1 b pad p e)
  from "1.prems" have pe: "p < e"
    by (subst (asm) attr_list.simps) (auto split: if_splits)
  with "1.prems" obtain a l' rest where
    r: "\<not> e < p + 4" "stun_getw b p = Some a" "stun_getw b (p + 2) = Some l'"
      "\<not> e < p + 4 + padded_len pad (unat l')"
      "attr_list b pad (p + 4 + padded_len pad (unat l')) e = Some rest"
      "as = (a, p + 4, l') # rest"
    by (subst (asm) attr_list.simps) (auto split: if_splits simp: bind_eq_Some_conv)
  show ?case
    using "1.IH" [OF pe r(1-5)] "1.prems"(2) r by auto
qed

lemma attr_list_frame:
  assumes "e \<le> length b" "e \<le> length b'" "\<And>i. p \<le> i \<Longrightarrow> i < e \<Longrightarrow> b' ! i = b ! i"
  shows "attr_list b' pad p e = attr_list b pad p e"
  using assms
proof (induction b pad p e rule: attr_list.induct)
  case (1 b pad p e)
  show ?case
  proof (cases "p < e \<and> \<not> e < p + 4")
    case True
    then have w: "stun_getw b' p = stun_getw b p" "stun_getw b' (p + 2) = stun_getw b (p + 2)"
      using "1.prems" by (simp_all add: stun_getw_def rd8_Some)
    obtain a l where al: "stun_getw b p = Some a" "stun_getw b (p + 2) = Some l"
      using True "1.prems"(1) by (simp add: stun_getw_def rd8_Some)
    have "attr_list b' pad (p + 4 + padded_len pad (unat l)) e
        = attr_list b pad (p + 4 + padded_len pad (unat l)) e"
      if "\<not> e < p + 4 + padded_len pad (unat l)"
      using "1.IH" [OF _ _ al that] True "1.prems" by simp
    then show ?thesis
      using True w al by (simp add: attr_list.simps [of b'] attr_list.simps [of b])
  next
    case False
    then show ?thesis by (auto simp: attr_list.simps [of b'] attr_list.simps [of b])
  qed
qed

lemma attr_list_snoc:
  assumes "attr_list b pad p e = Some as" "p \<le> e"
    and "stun_getw b e = Some t" "stun_getw b (e + 2) = Some l"
  shows "attr_list b pad p (e + 4 + padded_len pad (unat l)) = Some (as @ [(t, e + 4, l)])"
  using assms
proof (induction b pad p e arbitrary: as rule: attr_list.induct)
  case (1 b pad p e)
  show ?case
  proof (cases "p < e")
    case False
    with "1.prems" have "p = e" "as = []" by (auto simp: attr_list.simps)
    with "1.prems" show ?thesis by (simp add: attr_list.simps)
  next
    case True
    with "1.prems"(1) obtain a l' rest where
      r: "\<not> e < p + 4" "stun_getw b p = Some a" "stun_getw b (p + 2) = Some l'"
        "\<not> e < p + 4 + padded_len pad (unat l')"
        "attr_list b pad (p + 4 + padded_len pad (unat l')) e = Some rest"
        "as = (a, p + 4, l') # rest"
      by (subst (asm) attr_list.simps) (auto split: if_splits simp: bind_eq_Some_conv)
    have "attr_list b pad (p + 4 + padded_len pad (unat l')) (e + 4 + padded_len pad (unat l))
        = Some (rest @ [(t, e + 4, l)])"
      using "1.IH" [OF True r(1-5)] "1.prems"(3,4) r(4) by simp
    with True r show ?thesis by (subst attr_list.simps) simp
  qed
qed

lemma attr_list_dvd:
  "attr_list b True p e = Some as \<Longrightarrow> p \<le> e \<Longrightarrow> 4 dvd p \<Longrightarrow> 4 dvd e"
proof (induction b True p e arbitrary: as rule: attr_list.induct)
  case (1 b p e)
  show ?case
  proof (cases "p < e")
    case True
    with "1.prems"(1) obtain a l' rest where
      r: "\<not> e < p + 4" "stun_getw b p = Some a" "stun_getw b (p + 2) = Some l'"
        "\<not> e < p + 4 + padded_len True (unat l')"
        "attr_list b True (p + 4 + padded_len True (unat l')) e = Some rest"
      by (subst (asm) attr_list.simps) (auto split: if_splits simp: bind_eq_Some_conv)
    show ?thesis
      using "1.hyps" [OF True r(1-5)] r(4) "1.prems"(3) padded_len_dvd [of "unat l'"] by auto
  qed (use "1.prems" in auto)
qed

lemma lookup_attr_mem: "lookup_attr t as = Some (off, l) \<Longrightarrow> (t, off, l) \<in> set as"
  by (induction t as rule: lookup_attr.induct) (auto split: if_splits)

lemma lookup_attr_snoc_new:
  assumes "t \<notin> attr_types as" "STUN_ATTRIBUTE_FINGERPRINT \<notin> attr_types as"
    and "STUN_ATTRIBUTE_MESSAGE_INTEGRITY \<notin> attr_types as \<or> t = STUN_ATTRIBUTE_FINGERPRINT"
  shows "lookup_attr t (as @ [(t, off, l)]) = Some (off, l)"
  using assms by (induction t as rule: lookup_attr.induct) auto

lemma lookup_attr_snoc_other:
  assumes "t \<noteq> t'"
  shows "lookup_attr t (as @ [(t', off, l)]) = lookup_attr t as"
  using assms by (induction t as rule: lookup_attr.induct) auto

end
