(* ===== verification/Stun_Message_Props.thy ===== *)
theory Stun_Message_Props
  imports Stun_Attributes
begin

text \<open>
  Correctness of the message functions against the abstract attribute list: searching never leaves a
  well-formed message and computes the abstract lookup, appending extends the list by one entry, and
  the exact condition under which \<^verbatim>\<open>stun_message_append\<close> writes behind its buffer.
\<close>

section \<open>Well-formed messages\<close>

definition message_end :: "stun_message \<Rightarrow> nat" where
  "message_end msg = (case stun_getw (buffer msg) 2 of Some w \<Rightarrow> unat w + 20 | None \<Rightarrow> 0)"

text \<open>The attributes of a well-formed message: the length field is within the buffer and, with the
  header, within 16 bits, and the attribute area parses.\<close>

definition message_attrs :: "stun_message \<Rightarrow> attr list option" where
  "message_attrs msg =
     (if buffer_len msg = length (buffer msg) \<and> 20 \<le> length (buffer msg)
         \<and> message_end msg < 65536 \<and> message_end msg \<le> length (buffer msg)
      then attr_list (buffer msg) (\<not> no_aligned_attributes msg) 20 (message_end msg)
      else None)"

lemma message_attrsD:
  assumes "message_attrs msg = Some as"
  shows "buffer_len msg = length (buffer msg)" "20 \<le> length (buffer msg)" "20 \<le> message_end msg"
    "message_end msg < 65536" "message_end msg \<le> length (buffer msg)"
    "attr_list (buffer msg) (\<not> no_aligned_attributes msg) 20 (message_end msg) = Some as"
    "\<exists>w. stun_getw (buffer msg) 2 = Some w \<and> unat w + 20 = message_end msg"
proof -
  have c: "buffer_len msg = length (buffer msg)" "20 \<le> length (buffer msg)"
    "message_end msg < 65536" "message_end msg \<le> length (buffer msg)"
    "attr_list (buffer msg) (\<not> no_aligned_attributes msg) 20 (message_end msg) = Some as"
    using assms by (simp_all add: message_attrs_def split: if_splits)
  from c(2) obtain w where w: "stun_getw (buffer msg) 2 = Some w"
    by (simp add: stun_getw_def rd8_Some)
  show "buffer_len msg = length (buffer msg)" "20 \<le> length (buffer msg)" "20 \<le> message_end msg"
    "message_end msg < 65536" "message_end msg \<le> length (buffer msg)"
    "attr_list (buffer msg) (\<not> no_aligned_attributes msg) 20 (message_end msg) = Some as"
    "\<exists>w. stun_getw (buffer msg) 2 = Some w \<and> unat w + 20 = message_end msg"
    using c w by (simp_all add: message_end_def)
qed

lemma stun_message_length_wf:
  assumes "message_attrs msg = Some as"
  shows "stun_message_length msg = Some (word_of_nat (message_end msg))"
proof -
  obtain w where w: "stun_getw (buffer msg) 2 = Some w" "unat w + 20 = message_end msg"
    using message_attrsD(7) [OF assms] by blast
  have "w + 20 = word_of_nat (unat w + 20)" by simp
  with w show ?thesis by (simp add: stun_message_length_def)
qed

lemma unat_message_end:
  "message_attrs msg = Some as \<Longrightarrow> unat (word_of_nat (message_end msg) :: u16) = message_end msg"
  using message_attrsD(4) by (simp add: unat_of_nat take_bit_nat_eq_self)

section \<open>Searching\<close>

lemma stun_message_find_lookup:
  assumes "message_attrs msg = Some as"
  shows "stun_message_find msg t = Some (lookup_attr (oc2007_type msg t) as)"
proof -
  have "stun_message_find_loop (buffer msg) (no_aligned_attributes msg) (oc2007_type msg t)
      (message_end msg) 20 = Some (lookup_attr (oc2007_type msg t) as)"
    using find_loop_lookup [OF message_attrsD(6) [OF assms]] by simp
  then show ?thesis
    by (simp add: stun_message_find_def stun_message_length_wf [OF assms]
        unat_message_end [OF assms])
qed

lemma find_result_bounds:
  assumes "message_attrs msg = Some as" and "stun_message_find msg t = Some (Some (off, l))"
  shows "24 \<le> off" "off + padded_len (\<not> no_aligned_attributes msg) (unat l) \<le> message_end msg"
    "off + unat l \<le> length (buffer msg)"
proof -
  have "(oc2007_type msg t, off, l) \<in> set as"
    using assms by (simp add: stun_message_find_lookup lookup_attr_mem)
  note b = attr_list_bounds [OF message_attrsD(6) [OF assms(1)] this]
  then show "24 \<le> off" "off + padded_len (\<not> no_aligned_attributes msg) (unat l) \<le> message_end msg"
    by simp_all
  then show "off + unat l \<le> length (buffer msg)"
    using padded_len_ge [of "unat l" "\<not> no_aligned_attributes msg"] message_attrsD(5) [OF assms(1)]
    by linarith
qed

section \<open>Appending\<close>

definition append_alen :: "stun_message \<Rightarrow> nat \<Rightarrow> nat" where
  "append_alen msg len =
     (if no_aligned_attributes msg \<or> stun_message_has_cookie msg = Some True then len
      else padded_len True len)"

lemma padding_sum: "len + (4 - len mod 4) mod 4 = padded_len True len"
proof -
  have r: "len mod 4 < 4" by simp
  have len: "len = 4 * (len div 4) + len mod 4" by simp
  have "(4 * q + r + 3) div 4 * 4 = 4 * q + r + (4 - r) mod 4" if "r < 4" for q r :: nat
  proof -
    from that consider "r = 0" | "r = 1" | "r = 2" | "r = 3" by linarith
    then show ?thesis by cases simp_all
  qed
  from this [OF r, of "len div 4"] len show ?thesis by (simp add: padded_len_def)
qed

lemma stun_padding_nat:
  "len < 2 ^ 64 \<Longrightarrow> unat (stun_padding (word_of_nat len)) = (4 - len mod 4) mod 4"
  by (simp add: unat_stun_padding unat_of_nat take_bit_nat_eq_self)

lemma ucast_stun_align_nat:
  assumes "len < 65536"
  shows "(ucast (stun_align (word_of_nat len)) :: u16) = word_of_nat (padded_len True len)"
proof -
  have "unat (stun_align (word_of_nat len)) = padded_len True len"
    using assms by (simp add: unat_stun_align unat_of_nat take_bit_nat_eq_self padded_len_def)
  then show ?thesis by (metis of_nat_unat)
qed

lemma has_cookie_frame:
  assumes "mem_write (buffer msg) off xs = Some b" "20 \<le> off \<or> off + length xs \<le> 4"
  shows "stun_message_has_cookie (msg\<lparr>buffer := b\<rparr>) = stun_message_has_cookie msg"
proof -
  have "mem_read b 4 16 = mem_read (buffer msg) 4 16"
    using assms by (intro mem_read_write_disjoint) auto
  then show ?thesis
    by (simp add: stun_message_has_cookie_def stun_message_id_def)
qed

lemma has_cookie_defined: "20 \<le> length (buffer msg) \<Longrightarrow> \<exists>c. stun_message_has_cookie msg = Some c"
  by (simp add: stun_message_has_cookie_def stun_message_id_def mem_read_Some)

text \<open>No room: the null pointer, and the message as it was.\<close>

lemma stun_message_append_full:
  assumes "message_attrs msg = Some as" "message_end msg + 4 + len > buffer_len msg"
  shows "stun_message_append msg type len = Some (None, msg)"
  using assms(2)
  by (simp add: stun_message_append_def stun_message_length_wf [OF assms(1)]
      unat_message_end [OF assms(1)] Let_def)

text \<open>The four stores of a successful append.\<close>

lemma stun_message_append_writes:
  assumes wf: "message_attrs msg = Some as"
    and pl: "pl = padded_len (\<not> no_aligned_attributes msg) len"
    and fits: "message_end msg + 4 + pl \<le> length (buffer msg)" "message_end msg + 4 + pl < 65536"
  obtains b1 b2 b3 b4 where
    "mem_write (buffer msg) (message_end msg) (be16 (oc2007_type msg type)) = Some b1"
    "mem_write b1 (message_end msg + 2) (be16 (word_of_nat (append_alen msg len))) = Some b2"
    "mem_write b2 (message_end msg + 4 + len) (replicate (pl - len) 0x20) = Some b3"
    "mem_write b3 2 (be16 (word_of_nat (message_end msg + 4 + pl - 20))) = Some b4"
    "stun_message_append msg type len = Some (Some (message_end msg + 4), msg\<lparr>buffer := b4\<rparr>)"
proof -
  let ?e = "message_end msg"
  have len: "len \<le> pl" using padded_len_ge pl by blast
  have e20: "20 \<le> ?e" by (rule message_attrsD(3) [OF wf])
  have l16: "len < 65536" using fits len by linarith
  obtain b1 where b1: "mem_write (buffer msg) ?e (be16 (oc2007_type msg type)) = Some b1"
    using fits len by (simp add: mem_write_def)
  obtain b2 where b2: "mem_write b1 (?e + 2) (be16 (word_of_nat (append_alen msg len))) = Some b2"
    using fits len mem_write_length [OF b1] by (simp add: mem_write_def)
  obtain b3 where b3: "mem_write b2 (?e + 4 + len) (replicate (pl - len) 0x20) = Some b3"
    using fits len mem_write_length [OF b1] mem_write_length [OF b2] by (simp add: mem_write_def)
  obtain b4 where b4: "mem_write b3 2 (be16 (word_of_nat (?e + 4 + pl - 20))) = Some b4"
    using fits mem_write_length [OF b1] mem_write_length [OF b2] mem_write_length [OF b3]
    by (simp add: mem_write_def)
  obtain c where c: "stun_message_has_cookie msg = Some c"
    using has_cookie_defined message_attrsD(2) [OF wf] by blast
  have c1: "stun_message_has_cookie (msg\<lparr>buffer := b1\<rparr>) = Some c"
    using has_cookie_frame [OF b1] e20 c by simp
  have room: "\<not> ?e + 4 + len > buffer_len msg"
    using fits len message_attrsD(1) [OF wf] by simp
  have pad: "unat (stun_padding (word_of_nat len)) = pl - len" if "\<not> no_aligned_attributes msg"
    using that l16 padding_sum [of len] pl by (simp add: stun_padding_nat)
  have alen: "append_alen msg len = (if no_aligned_attributes msg \<or> c then len else padded_len True len)"
    by (simp add: append_alen_def c)
  have lenfield: "word_of_nat ?e + (4 + word_of_nat len) - 20 = (word_of_nat (?e + 4 + pl - 20) :: u16)"
    if "pl = len" using that e20 by (simp add: algebra_simps)
  have lenfield': "word_of_nat ?e + word_of_nat (pl - len) + (4 + word_of_nat len) - 20
      = (word_of_nat (?e + 4 + pl - 20) :: u16)"
    using len e20 by (simp add: algebra_simps)
  have b3': "b3 = b2" if "pl = len"
    using b3 that by (auto simp: mem_write_eq_Some)
  have "stun_message_append msg type len = Some (Some (?e + 4), msg\<lparr>buffer := b4\<rparr>)"
  proof (cases "no_aligned_attributes msg")
    case True
    then have "pl = len" using pl by (simp add: padded_len_def)
    with True b1 b2 b3' b4 room lenfield alen show ?thesis
      by (simp add: stun_message_append_def stun_message_length_wf [OF wf] unat_message_end [OF wf]
          stun_setw_be16 Let_def add.assoc del: add_2_eq_Suc add_2_eq_Suc')
  next
    case False
    have al: "(if c then word_of_nat len else ucast (stun_align (word_of_nat len)))
        = (word_of_nat (append_alen msg len) :: u16)"
      using False alen ucast_stun_align_nat [OF l16] by simp
    show ?thesis
    proof (cases "pl = len")
      case True
      with False b1 b2 b3' b4 room lenfield c1 al pad show ?thesis
        by (simp add: stun_message_append_def stun_message_length_wf [OF wf]
            unat_message_end [OF wf] stun_setw_be16 Let_def add.assoc del: add_2_eq_Suc add_2_eq_Suc')
    next
      case neq: False
      with False b1 b2 b3 b4 room lenfield' c1 al pad len show ?thesis
        by (simp add: stun_message_append_def stun_message_length_wf [OF wf]
            unat_message_end [OF wf] stun_setw_be16 Let_def add.assoc del: add_2_eq_Suc add_2_eq_Suc')
    qed
  qed
  with b1 b2 b3 b4 show ?thesis by (rule that)
qed

text \<open>A buffer that holds one more attribute at the old end of the message.\<close>

definition holds_attr :: "stun_message \<Rightarrow> u16 \<Rightarrow> nat \<Rightarrow> bytes \<Rightarrow> bool" where
  "holds_attr msg t len b \<longleftrightarrow>
     length b = length (buffer msg) \<and>
     (\<forall>i < message_end msg. i \<noteq> 2 \<longrightarrow> i \<noteq> 3 \<longrightarrow> b ! i = buffer msg ! i) \<and>
     stun_getw b 2 = Some (word_of_nat
       (message_end msg + 4 + padded_len (\<not> no_aligned_attributes msg) len - 20)) \<and>
     stun_getw b (message_end msg) = Some t \<and>
     stun_getw b (message_end msg + 2) = Some (word_of_nat (append_alen msg len))"

abbreviation attr_fits :: "stun_message \<Rightarrow> nat \<Rightarrow> bool" where
  "attr_fits msg len \<equiv>
     message_end msg + 4 + padded_len (\<not> no_aligned_attributes msg) len \<le> length (buffer msg) \<and>
     message_end msg + 4 + padded_len (\<not> no_aligned_attributes msg) len < 65536"

lemma append_alen_padded:
  "padded_len (\<not> no_aligned_attributes msg) (append_alen msg len)
     = padded_len (\<not> no_aligned_attributes msg) len"
  by (simp add: append_alen_def padded_len_idem)

lemma append_alen_le: "append_alen msg len \<le> padded_len (\<not> no_aligned_attributes msg) len"
  by (metis append_alen_padded padded_len_ge)

lemma unat_append_alen:
  assumes "attr_fits msg len"
  shows "unat (word_of_nat (append_alen msg len) :: u16) = append_alen msg len"
proof -
  have "append_alen msg len < 65536" using assms append_alen_le [of msg len] by linarith
  then show ?thesis by (simp add: unat_of_nat take_bit_nat_eq_self)
qed

lemma message_end_eqI:
  "stun_getw (buffer msg) 2 = Some (word_of_nat k) \<Longrightarrow> k < 65536 \<Longrightarrow> message_end msg = k + 20"
  by (simp add: message_end_def unat_of_nat take_bit_nat_eq_self)

lemma holds_attr_message:
  assumes wf: "message_attrs msg = Some as" and fits: "attr_fits msg len"
    and h: "holds_attr msg t len b"
  shows "message_attrs (msg\<lparr>buffer := b\<rparr>)
      = Some (as @ [(t, message_end msg + 4, word_of_nat (append_alen msg len))])"
    and "message_end (msg\<lparr>buffer := b\<rparr>)
      = message_end msg + 4 + padded_len (\<not> no_aligned_attributes msg) len"
proof -
  let ?e = "message_end msg" and ?pad = "\<not> no_aligned_attributes msg"
  have e20: "20 \<le> ?e" and eb: "?e \<le> length (buffer msg)"
    using message_attrsD [OF wf] by blast+
  have "message_end (msg\<lparr>buffer := b\<rparr>) = (?e + 4 + padded_len ?pad len - 20) + 20"
    by (rule message_end_eqI) (use h fits in \<open>auto simp: holds_attr_def\<close>)
  then show e': "message_end (msg\<lparr>buffer := b\<rparr>) = ?e + 4 + padded_len ?pad len"
    using e20 by linarith
  have "attr_list b ?pad 20 ?e = attr_list (buffer msg) ?pad 20 ?e"
    using h eb by (intro attr_list_frame) (auto simp: holds_attr_def)
  also have "\<dots> = Some as" by (rule message_attrsD(6) [OF wf])
  finally have "attr_list b ?pad 20
      (?e + 4 + padded_len ?pad (unat (word_of_nat (append_alen msg len) :: u16)))
      = Some (as @ [(t, ?e + 4, word_of_nat (append_alen msg len))])"
    using h e20 by (intro attr_list_snoc) (auto simp: holds_attr_def)
  then show "message_attrs (msg\<lparr>buffer := b\<rparr>)
      = Some (as @ [(t, ?e + 4, word_of_nat (append_alen msg len))])"
    using h fits e' message_attrsD(1,2) [OF wf]
    by (simp add: message_attrs_def holds_attr_def unat_append_alen [OF fits] append_alen_padded)
qed

text \<open>Storing into the value of the new attribute keeps it in place.\<close>

lemma holds_attr_write:
  assumes "holds_attr msg t len b" "mem_write b off xs = Some b'" "message_end msg + 4 \<le> off"
    and "20 \<le> message_end msg"
  shows "holds_attr msg t len b'"
proof -
  have "stun_getw b' i = stun_getw b i" if "i + 2 \<le> off" for i
    using mem_read_write_disjoint [OF assms(2), of i 2] that by (simp add: stun_getw_mem_read)
  moreover have "b' ! i = b ! i" if "i < message_end msg" for i
    using that assms mem_write_nth [OF assms(2), of i]
    by (cases "i < length b") (auto simp: mem_write_eq_Some nth_append)
  ultimately show ?thesis
    using assms mem_write_length [OF assms(2)] by (simp add: holds_attr_def)
qed

lemma stun_message_append_spec:
  assumes wf: "message_attrs msg = Some as" and fits: "attr_fits msg len"
  obtains b where "stun_message_append msg type len
      = Some (Some (message_end msg + 4), msg\<lparr>buffer := b\<rparr>)"
    and "holds_attr msg (oc2007_type msg type) len b"
proof -
  let ?e = "message_end msg" and ?pl = "padded_len (\<not> no_aligned_attributes msg) len"
  have e20: "20 \<le> ?e" by (rule message_attrsD(3) [OF wf])
  obtain b1 b2 b3 b4 where
    b1: "mem_write (buffer msg) ?e (be16 (oc2007_type msg type)) = Some b1" and
    b2: "mem_write b1 (?e + 2) (be16 (word_of_nat (append_alen msg len))) = Some b2" and
    b3: "mem_write b2 (?e + 4 + len) (replicate (?pl - len) 0x20) = Some b3" and
    b4: "mem_write b3 2 (be16 (word_of_nat (?e + 4 + ?pl - 20))) = Some b4" and
    ap: "stun_message_append msg type len = Some (Some (?e + 4), msg\<lparr>buffer := b4\<rparr>)"
    using stun_message_append_writes [OF wf refl] fits by blast
  have len: "length b1 = length (buffer msg)" "length b2 = length b1" "length b3 = length b2"
    "length b4 = length b3"
    using b1 b2 b3 b4 by (simp_all add: mem_write_length)
  have g: "stun_getw b4 2 = Some (word_of_nat (?e + 4 + ?pl - 20))"
    using stun_getw_after_setw [of b3 2] b4 by (simp add: stun_setw_be16)
  have "stun_getw b4 ?e = stun_getw b1 ?e"
    using mem_read_write_disjoint [OF b2, of ?e 2] mem_read_write_disjoint [OF b3, of ?e 2]
      mem_read_write_disjoint [OF b4, of ?e 2] e20 by (simp add: stun_getw_mem_read)
  also have "\<dots> = Some (oc2007_type msg type)"
    using stun_getw_after_setw [of "buffer msg" ?e] b1 by (simp add: stun_setw_be16)
  finally have ge: "stun_getw b4 ?e = Some (oc2007_type msg type)" .
  have "stun_getw b4 (?e + 2) = stun_getw b2 (?e + 2)"
    using mem_read_write_disjoint [OF b3, of "?e + 2" 2]
      mem_read_write_disjoint [OF b4, of "?e + 2" 2] e20 by (simp add: stun_getw_mem_read)
  also have "\<dots> = Some (word_of_nat (append_alen msg len))"
    using stun_getw_after_setw [of b1 "?e + 2"] b2 by (simp add: stun_setw_be16)
  finally have ge2: "stun_getw b4 (?e + 2) = Some (word_of_nat (append_alen msg len))" .
  have "b4 ! i = buffer msg ! i" if "i < ?e" "i \<noteq> 2" "i \<noteq> 3" for i
  proof -
    from that consider "i < 2" | "4 \<le> i" by linarith
    then show ?thesis
      using that e20 fits len mem_write_nth [OF b1, of i] mem_write_nth [OF b2, of i]
        mem_write_nth [OF b3, of i] mem_write_nth [OF b4, of i] by cases simp_all
  qed
  with g ge ge2 len have "holds_attr msg (oc2007_type msg type) len b4"
    by (simp add: holds_attr_def)
  with ap show ?thesis by (rule that)
qed

section \<open>Appending a value and finding it again\<close>

lemma stun_message_append_bytes_spec:
  assumes wf: "message_attrs msg = Some as" and fits: "attr_fits msg (length data)"
  obtains b where "stun_message_append_bytes msg type data
      = Some (STUN_MESSAGE_RETURN_SUCCESS, msg\<lparr>buffer := b\<rparr>)"
    and "holds_attr msg (oc2007_type msg type) (length data) b"
    and "mem_read b (message_end msg + 4) (length data) = Some data"
proof -
  let ?e = "message_end msg"
  obtain b where ap: "stun_message_append msg type (length data) = Some (Some (?e + 4), msg\<lparr>buffer := b\<rparr>)"
    and h: "holds_attr msg (oc2007_type msg type) (length data) b"
    using stun_message_append_spec [OF wf fits] by blast
  have lenb: "length b = length (buffer msg)" using h by (simp add: holds_attr_def)
  have "?e + 4 + length data \<le> length b"
    using fits padded_len_ge [of "length data" "\<not> no_aligned_attributes msg"] lenb by linarith
  then obtain b' where w: "mem_write b (?e + 4) data = Some b'"
    by (auto simp: mem_write_def)
  have h': "holds_attr msg (oc2007_type msg type) (length data) b'"
    using holds_attr_write [OF h w] message_attrsD(3) [OF wf] by simp
  have "b' = b" if "data = []" using w that by (auto simp: mem_write_eq_Some)
  then have "stun_message_append_bytes msg type data
      = Some (STUN_MESSAGE_RETURN_SUCCESS, msg\<lparr>buffer := b'\<rparr>)"
    using ap w by (auto simp: stun_message_append_bytes_def)
  then show ?thesis using h' mem_read_after_write [OF w] by (rule that)
qed

lemma append_bytes_full:
  assumes "message_attrs msg = Some as" "message_end msg + 4 + length data > buffer_len msg"
  shows "stun_message_append_bytes msg type data
    = Some (STUN_MESSAGE_RETURN_NOT_ENOUGH_SPACE, msg)"
  by (simp add: stun_message_append_bytes_def stun_message_append_full [OF assms])

text \<open>The value a search finds.\<close>

definition attr_value :: "stun_message \<Rightarrow> u16 \<Rightarrow> bytes option" where
  "attr_value msg t =
     (case stun_message_find msg t of
        Some (Some (off, l)) \<Rightarrow> mem_read (buffer msg) off (unat l)
      | _ \<Rightarrow> None)"

text \<open>The types that a search can be blocked by or find.\<close>

definition types_of :: "stun_message \<Rightarrow> u16 set" where
  "types_of msg = (case message_attrs msg of None \<Rightarrow> {}
     | Some as \<Rightarrow> {t. oc2007_type msg t \<in> attr_types as})"

definition open_for :: "stun_message \<Rightarrow> u16 \<Rightarrow> bool" where
  "open_for msg t \<longleftrightarrow> t \<notin> types_of msg \<and> STUN_ATTRIBUTE_FINGERPRINT \<notin> types_of msg \<and>
     (STUN_ATTRIBUTE_MESSAGE_INTEGRITY \<notin> types_of msg \<or> t = STUN_ATTRIBUTE_FINGERPRINT)"

lemma oc2007_type_fixed [simp]:
  "oc2007_type msg STUN_ATTRIBUTE_FINGERPRINT = STUN_ATTRIBUTE_FINGERPRINT"
  "oc2007_type msg STUN_ATTRIBUTE_MESSAGE_INTEGRITY = STUN_ATTRIBUTE_MESSAGE_INTEGRITY"
  by (simp_all add: oc2007_type_def split: option.splits)

lemma oc2007_type_eq_fixed [simp]:
  "oc2007_type msg t = STUN_ATTRIBUTE_FINGERPRINT \<longleftrightarrow> t = STUN_ATTRIBUTE_FINGERPRINT"
  "oc2007_type msg t = STUN_ATTRIBUTE_MESSAGE_INTEGRITY \<longleftrightarrow> t = STUN_ATTRIBUTE_MESSAGE_INTEGRITY"
  by (auto simp: oc2007_type_def split: option.splits)

lemma find_new_attr:
  assumes wf: "message_attrs msg = Some as" and fits: "attr_fits msg len"
    and h: "holds_attr msg (oc2007_type msg t) len b" and op: "open_for msg t"
  shows "stun_message_find (msg\<lparr>buffer := b\<rparr>) t
    = Some (Some (message_end msg + 4, word_of_nat (append_alen msg len)))"
proof -
  have "lookup_attr (oc2007_type msg t)
      (as @ [(oc2007_type msg t, message_end msg + 4, word_of_nat (append_alen msg len))])
      = Some (message_end msg + 4, word_of_nat (append_alen msg len))"
    using op wf by (intro lookup_attr_snoc_new) (auto simp: open_for_def types_of_def)
  then show ?thesis
    using stun_message_find_lookup [OF holds_attr_message(1) [OF wf fits h]] by simp
qed

lemma find_other_attr:
  assumes wf: "message_attrs msg = Some as" and fits: "attr_fits msg len"
    and h: "holds_attr msg (oc2007_type msg t') len b" and ne: "t \<noteq> t'"
  shows "stun_message_find (msg\<lparr>buffer := b\<rparr>) t = stun_message_find msg t"
  using stun_message_find_lookup [OF holds_attr_message(1) [OF wf fits h]]
    stun_message_find_lookup [OF wf] ne
  by (simp add: lookup_attr_snoc_other)

lemma value_other_attr:
  assumes wf: "message_attrs msg = Some as" and fits: "attr_fits msg len"
    and h: "holds_attr msg (oc2007_type msg t') len b" and ne: "t \<noteq> t'"
  shows "attr_value (msg\<lparr>buffer := b\<rparr>) t = attr_value msg t"
proof (cases "stun_message_find msg t")
  case None
  then show ?thesis using stun_message_find_lookup [OF wf] by simp
next
  case (Some r)
  have f: "stun_message_find (msg\<lparr>buffer := b\<rparr>) t = Some r"
    using find_other_attr [OF assms] Some by simp
  show ?thesis
  proof (cases r)
    case None
    with f Some show ?thesis by (simp add: attr_value_def)
  next
    case (Some ol)
    then obtain off l where ol: "r = Some (off, l)" by (cases ol) auto
    have bd: "24 \<le> off" "off + unat l \<le> message_end msg"
      using find_result_bounds [OF wf] \<open>stun_message_find msg t = Some r\<close> ol
        padded_len_ge [of "unat l" "\<not> no_aligned_attributes msg"] by fastforce+
    have "take (unat l) (drop off b) = take (unat l) (drop off (buffer msg))"
      using h bd message_attrsD(5) [OF wf]
      by (intro nth_equalityI) (auto simp: holds_attr_def)
    then show ?thesis
      using f \<open>stun_message_find msg t = Some r\<close> ol h
      by (simp add: attr_value_def mem_read_def holds_attr_def)
  qed
qed

lemma value_new_attr:
  assumes wf: "message_attrs msg = Some as" and fits: "attr_fits msg (length data)"
    and h: "holds_attr msg (oc2007_type msg t) (length data) b"
    and rd: "mem_read b (message_end msg + 4) (length data) = Some data"
    and op: "open_for msg t"
  shows "\<exists>v. attr_value (msg\<lparr>buffer := b\<rparr>) t = Some v \<and> take (length data) v = data
    \<and> length v = append_alen msg (length data)"
proof -
  have f: "stun_message_find (msg\<lparr>buffer := b\<rparr>) t
      = Some (Some (message_end msg + 4, word_of_nat (append_alen msg (length data))))"
    by (rule find_new_attr [OF wf fits h op])
  have al: "unat (word_of_nat (append_alen msg (length data)) :: u16) = append_alen msg (length data)"
    by (rule unat_append_alen [OF fits])
  have "message_end msg + 4 + append_alen msg (length data) \<le> length b"
    using append_alen_le [of msg "length data"] fits h by (simp add: holds_attr_def)
  moreover have "length data \<le> append_alen msg (length data)"
    by (simp add: append_alen_def padded_len_ge)
  ultimately show ?thesis
    using f al rd by (auto simp: attr_value_def mem_read_def min_def split: if_splits)
qed

end
