(* ===== verification/Stun_Roundtrip.thy ===== *)
theory Stun_Roundtrip
  imports Stun_Message_Props
begin

text \<open>
  What a client of the message functions relies on. The locale \<open>attr_store\<close> states the contract of an
  attribute container that is filled by appending: room is consumed by a known amount, a new type is
  found with the bytes that were appended, the other attributes keep their values. Its client lemma
  (a whole list of attributes can be read back) is proved once and interpreted on the STUN message
  functions. The typed readers are then reduced to the raw value of the attribute, which gives the
  round trips with the typed writers, and the exact condition under which appending writes behind
  the buffer is shown.
\<close>

section \<open>The contract of an attribute container\<close>

fun append_all ::
  "('m \<Rightarrow> u16 \<Rightarrow> bytes \<Rightarrow> (StunMessageReturn \<times> 'm) option) \<Rightarrow> 'm \<Rightarrow> (u16 \<times> bytes) list
   \<Rightarrow> (StunMessageReturn \<times> 'm) option" where
  "append_all app m [] = Some (STUN_MESSAGE_RETURN_SUCCESS, m)"
| "append_all app m ((t, d) # as) = do {
     (r, m) \<leftarrow> app m t d;
     if r \<noteq> STUN_MESSAGE_RETURN_SUCCESS then Some (r, m) else append_all app m as
   }"

locale attr_store =
  fixes wf :: "'m \<Rightarrow> bool"
    and room :: "'m \<Rightarrow> nat"
    and cost :: "'m \<Rightarrow> nat \<Rightarrow> nat"
    and stored :: "'m \<Rightarrow> nat \<Rightarrow> nat"
    and types :: "'m \<Rightarrow> u16 set"
    and app :: "'m \<Rightarrow> u16 \<Rightarrow> bytes \<Rightarrow> (StunMessageReturn \<times> 'm) option"
    and val :: "'m \<Rightarrow> u16 \<Rightarrow> bytes option"
  assumes app_ok: "wf m \<Longrightarrow> cost m (length d) \<le> room m \<Longrightarrow>
      \<exists>m'. app m t d = Some (STUN_MESSAGE_RETURN_SUCCESS, m') \<and> wf m'
        \<and> room m' = room m - cost m (length d) \<and> types m' = insert t (types m)
        \<and> cost m' = cost m \<and> stored m' = stored m"
    and val_new: "wf m \<Longrightarrow> cost m (length d) \<le> room m \<Longrightarrow>
      app m t d = Some (STUN_MESSAGE_RETURN_SUCCESS, m') \<Longrightarrow>
      t \<notin> types m \<Longrightarrow> STUN_ATTRIBUTE_MESSAGE_INTEGRITY \<notin> types m \<Longrightarrow>
      STUN_ATTRIBUTE_FINGERPRINT \<notin> types m \<Longrightarrow>
      \<exists>v. val m' t = Some v \<and> take (length d) v = d \<and> length v = stored m (length d)"
    and val_other: "wf m \<Longrightarrow> cost m (length d) \<le> room m \<Longrightarrow>
      app m t d = Some (STUN_MESSAGE_RETURN_SUCCESS, m') \<Longrightarrow> t' \<noteq> t \<Longrightarrow> val m' t' = val m t'"
begin

definition holds :: "'m \<Rightarrow> 'm \<Rightarrow> u16 \<times> bytes \<Rightarrow> bool" where
  "holds m0 m a \<longleftrightarrow> (\<exists>v. val m (fst a) = Some v \<and> take (length (snd a)) v = snd a
     \<and> length v = stored m0 (length (snd a)))"

lemma append_all_ok:
  assumes "wf m" "(\<Sum>a\<leftarrow>as. cost m (length (snd a))) \<le> room m" "distinct (map fst as)"
    and "\<And>t. t \<in> fst ` set as \<union> {STUN_ATTRIBUTE_MESSAGE_INTEGRITY, STUN_ATTRIBUTE_FINGERPRINT}
      \<Longrightarrow> t \<notin> types m"
    and "STUN_ATTRIBUTE_MESSAGE_INTEGRITY \<notin> fst ` set as"
    and "STUN_ATTRIBUTE_FINGERPRINT \<notin> fst ` set as"
  shows "\<exists>m'. append_all app m as = Some (STUN_MESSAGE_RETURN_SUCCESS, m') \<and> wf m'
    \<and> room m' = room m - (\<Sum>a\<leftarrow>as. cost m (length (snd a)))
    \<and> types m' = types m \<union> fst ` set as
    \<and> cost m' = cost m \<and> stored m' = stored m
    \<and> (\<forall>a \<in> set as. holds m m' a) \<and> (\<forall>t. t \<notin> fst ` set as \<longrightarrow> val m' t = val m t)"
  using assms
proof (induction as arbitrary: m)
  case Nil
  then show ?case by simp
next
  case (Cons a as)
  obtain t d where a: "a = (t, d)" by (cases a)
  have fit: "cost m (length d) \<le> room m" using Cons.prems(2) a by simp
  from app_ok [OF Cons.prems(1) fit, of t] obtain m1 where
    m1: "app m t d = Some (STUN_MESSAGE_RETURN_SUCCESS, m1)" "wf m1"
      "room m1 = room m - cost m (length d)" "types m1 = insert t (types m)"
      "cost m1 = cost m" "stored m1 = stored m"
    by blast
  have "\<exists>m'. append_all app m1 as = Some (STUN_MESSAGE_RETURN_SUCCESS, m') \<and> wf m'
    \<and> room m' = room m1 - (\<Sum>a\<leftarrow>as. cost m1 (length (snd a)))
    \<and> types m' = types m1 \<union> fst ` set as
    \<and> cost m' = cost m1 \<and> stored m' = stored m1
    \<and> (\<forall>a \<in> set as. holds m1 m' a) \<and> (\<forall>t. t \<notin> fst ` set as \<longrightarrow> val m' t = val m1 t)"
  proof (rule Cons.IH [OF m1(2)])
    show "(\<Sum>a\<leftarrow>as. cost m1 (length (snd a))) \<le> room m1" using Cons.prems(2) a m1 by simp
    show "distinct (map fst as)" using Cons.prems(3) by simp
    fix u assume "u \<in> fst ` set as \<union> {STUN_ATTRIBUTE_MESSAGE_INTEGRITY, STUN_ATTRIBUTE_FINGERPRINT}"
    then show "u \<notin> types m1"
      using Cons.prems(3-6) m1(4) a by auto
  qed (use Cons.prems(5,6) in auto)
  then obtain m' where m': "append_all app m1 as = Some (STUN_MESSAGE_RETURN_SUCCESS, m')" "wf m'"
    "room m' = room m1 - (\<Sum>a\<leftarrow>as. cost m1 (length (snd a)))" "types m' = types m1 \<union> fst ` set as"
    "cost m' = cost m1" "stored m' = stored m1"
    "\<forall>a \<in> set as. holds m1 m' a" "\<forall>t. t \<notin> fst ` set as \<longrightarrow> val m' t = val m1 t"
    by blast
  have "t \<notin> fst ` set as" using Cons.prems(3) a by auto
  with m'(8) have "val m' t = val m1 t" by simp
  moreover have "\<exists>v. val m1 t = Some v \<and> take (length d) v = d \<and> length v = stored m (length d)"
    using val_new [OF Cons.prems(1) fit m1(1)] Cons.prems(4) a by simp
  ultimately have "holds m m' (t, d)" by (simp add: holds_def)
  then have "\<forall>a \<in> set ((t, d) # as). holds m m' a" using m'(7) m1(6) by (simp add: holds_def)
  moreover have "\<forall>u. u \<notin> fst ` set ((t, d) # as) \<longrightarrow> val m' u = val m u"
    using m'(8) val_other [OF Cons.prems(1) fit m1(1)] by simp
  ultimately show ?case using m' m1 a by (auto simp: algebra_simps)
qed

end

section \<open>The STUN message is such a container\<close>

definition message_room :: "stun_message \<Rightarrow> nat" where
  "message_room msg = min (length (buffer msg)) 65535 - message_end msg"

definition message_cost :: "stun_message \<Rightarrow> nat \<Rightarrow> nat" where
  "message_cost msg len = 4 + padded_len (\<not> no_aligned_attributes msg) len"

lemma attr_fits_room:
  "message_attrs msg = Some as \<Longrightarrow> attr_fits msg len \<longleftrightarrow> message_cost msg len \<le> message_room msg"
  by (drule message_attrsD(5)) (auto simp: message_cost_def message_room_def)

lemma holds_attr_id:
  assumes "holds_attr msg t len b" "20 \<le> message_end msg" "message_end msg \<le> length (buffer msg)"
  shows "mem_read b 4 16 = mem_read (buffer msg) 4 16"
proof -
  have "take 16 (drop 4 b) = take 16 (drop 4 (buffer msg))"
    using assms by (intro nth_equalityI) (auto simp: holds_attr_def)
  then show ?thesis using assms by (simp add: mem_read_def holds_attr_def)
qed

lemma append_alen_cong:
  assumes "holds_attr msg t len b" "20 \<le> message_end msg" "message_end msg \<le> length (buffer msg)"
  shows "append_alen (msg\<lparr>buffer := b\<rparr>) = append_alen msg"
  using holds_attr_id [OF assms]
  by (intro ext) (simp add: append_alen_def stun_message_has_cookie_def stun_message_id_def)

lemma append_bytes_store:
  assumes "message_attrs msg = Some as" "message_cost msg (length d) \<le> message_room msg"
  obtains b where "stun_message_append_bytes msg t d
      = Some (STUN_MESSAGE_RETURN_SUCCESS, msg\<lparr>buffer := b\<rparr>)"
    and "holds_attr msg (oc2007_type msg t) (length d) b" "attr_fits msg (length d)"
    and "mem_read b (message_end msg + 4) (length d) = Some d"
  using stun_message_append_bytes_spec attr_fits_room assms by metis

interpretation sm: attr_store "\<lambda>m. message_attrs m \<noteq> None" message_room message_cost append_alen
  types_of stun_message_append_bytes attr_value
proof unfold_locales
  fix m :: stun_message and d :: bytes and t
  assume wf: "message_attrs m \<noteq> None" and fit: "message_cost m (length d) \<le> message_room m"
  then obtain as where as: "message_attrs m = Some as" by auto
  obtain b where b: "stun_message_append_bytes m t d = Some (STUN_MESSAGE_RETURN_SUCCESS, m\<lparr>buffer := b\<rparr>)"
    "holds_attr m (oc2007_type m t) (length d) b" "attr_fits m (length d)"
    using append_bytes_store [OF as fit] by metis
  note h = holds_attr_message [OF as b(3,2)]
  have "message_room (m\<lparr>buffer := b\<rparr>) = message_room m - message_cost m (length d)"
    using h(2) b(2) by (simp add: message_room_def message_cost_def holds_attr_def)
  moreover have "types_of (m\<lparr>buffer := b\<rparr>) = insert t (types_of m)"
    using h(1) as by (auto simp: types_of_def)
  moreover have "append_alen (m\<lparr>buffer := b\<rparr>) = append_alen m"
    using append_alen_cong b(2) message_attrsD(3,5) [OF as] by blast
  moreover have "message_cost (m\<lparr>buffer := b\<rparr>) = message_cost m"
    by (intro ext) (simp add: message_cost_def)
  ultimately show "\<exists>m'. stun_message_append_bytes m t d = Some (STUN_MESSAGE_RETURN_SUCCESS, m')
      \<and> message_attrs m' \<noteq> None \<and> message_room m' = message_room m - message_cost m (length d)
      \<and> types_of m' = insert t (types_of m) \<and> message_cost m' = message_cost m
      \<and> append_alen m' = append_alen m"
    using b(1) h(1) by blast
next
  fix m :: stun_message and d :: bytes and t m'
  assume wf: "message_attrs m \<noteq> None" and fit: "message_cost m (length d) \<le> message_room m"
    and app: "stun_message_append_bytes m t d = Some (STUN_MESSAGE_RETURN_SUCCESS, m')"
    and fresh: "t \<notin> types_of m" "STUN_ATTRIBUTE_MESSAGE_INTEGRITY \<notin> types_of m"
      "STUN_ATTRIBUTE_FINGERPRINT \<notin> types_of m"
  from wf obtain as where as: "message_attrs m = Some as" by auto
  obtain b where "stun_message_append_bytes m t d = Some (STUN_MESSAGE_RETURN_SUCCESS, m\<lparr>buffer := b\<rparr>)"
    "holds_attr m (oc2007_type m t) (length d) b" "attr_fits m (length d)"
    "mem_read b (message_end m + 4) (length d) = Some d"
    using append_bytes_store [OF as fit] by metis
  with value_new_attr [OF as] fresh app
  show "\<exists>v. attr_value m' t = Some v \<and> take (length d) v = d \<and> length v = append_alen m (length d)"
    by (fastforce simp: open_for_def)
next
  fix m :: stun_message and d :: bytes and t m' t'
  assume wf: "message_attrs m \<noteq> None" and fit: "message_cost m (length d) \<le> message_room m"
    and app: "stun_message_append_bytes m t d = Some (STUN_MESSAGE_RETURN_SUCCESS, m')"
    and ne: "t' \<noteq> (t :: u16)"
  from wf obtain as where as: "message_attrs m = Some as" by auto
  obtain b where "stun_message_append_bytes m t d = Some (STUN_MESSAGE_RETURN_SUCCESS, m\<lparr>buffer := b\<rparr>)"
    "holds_attr m (oc2007_type m t) (length d) b" "attr_fits m (length d)"
    using append_bytes_store [OF as fit] by metis
  with value_other_attr [OF as] ne app show "attr_value m' t' = attr_value m t'" by auto
qed

section \<open>The typed readers read the raw value\<close>

lemma find_value_cases:
  assumes "message_attrs msg = Some as"
  obtains (none) "stun_message_find msg t = Some None" "attr_value msg t = None"
  | (some) off l v where "stun_message_find msg t = Some (Some (off, l))"
      "attr_value msg t = Some v" "off + unat l \<le> length (buffer msg)"
      "v = take (unat l) (drop off (buffer msg))" "length v = unat l"
proof (cases "stun_message_find msg t")
  case None
  then show ?thesis using stun_message_find_lookup [OF assms] by simp
next
  case (Some r)
  show ?thesis
  proof (cases r)
    case None
    with Some show ?thesis by (intro none) (simp_all add: attr_value_def)
  next
    case (Some p)
    with \<open>stun_message_find msg t = Some r\<close> obtain off l
      where f: "stun_message_find msg t = Some (Some (off, l))" by (cases p) auto
    note b = find_result_bounds(3) [OF assms f]
    show ?thesis
      by (rule some [OF f _ b]) (use b f in \<open>auto simp: attr_value_def mem_simps min_def\<close>)
  qed
qed

lemma unat_u16_eq_numeral: "unat (l :: u16) = 4 \<longleftrightarrow> l = 4" "unat l = 8 \<longleftrightarrow> l = 8"
  "unat l = 20 \<longleftrightarrow> l = 20" "unat l = 0 \<longleftrightarrow> l = 0"
  by (simp_all add: word_unat_eq_iff)

lemma bit_u8_high: "\<not> bit (x :: u8) (8 + n)" "\<not> bit x (16 + n)" "\<not> bit x (24 + n)"
  by (auto dest: bit_imp_le_length)

lemma htonl_of_le32: "4 \<le> length v \<Longrightarrow> htonl (of_le32 v) = of_be32 v"
proof -
  assume "4 \<le> length v"
  then obtain a b c d r where v: "v = a # b # c # d # r"
    by (auto simp: numeral_eq_Suc Suc_le_length_iff)
  have "le32 (of_le32 v) = [a, b, c, d]"
    unfolding v of_le32.simps le32_def
    by (auto intro!: bit_word_eqI simp: bit_simps bit_u8_high)
  then show ?thesis by (simp add: htonl_def v)
qed

lemma stun_message_find_flag_value:
  assumes "message_attrs msg = Some as"
  shows "stun_message_find_flag msg t = Some (case attr_value msg t of
      None \<Rightarrow> STUN_MESSAGE_RETURN_NOT_FOUND
    | Some v \<Rightarrow> if v = [] then STUN_MESSAGE_RETURN_SUCCESS else STUN_MESSAGE_RETURN_INVALID)"
  by (rule find_value_cases [OF assms, of t])
    (auto simp: stun_message_find_flag_def unat_u16_eq_numeral simp flip: length_0_conv)

lemma stun_message_find32_value:
  assumes "message_attrs msg = Some as"
  shows "stun_message_find32 msg t = Some (case attr_value msg t of
      None \<Rightarrow> Inl STUN_MESSAGE_RETURN_NOT_FOUND
    | Some v \<Rightarrow> if length v = 4 then Inr (of_be32 v) else Inl STUN_MESSAGE_RETURN_INVALID)"
proof (rule find_value_cases [OF assms, of t])
  fix off l v
  assume "stun_message_find msg t = Some (Some (off, l))" "attr_value msg t = Some v"
    "off + unat l \<le> length (buffer msg)" "v = take (unat l) (drop off (buffer msg))"
    "length v = unat l"
  then show ?thesis
    by (cases "l = 4") (simp_all add: stun_message_find32_def unat_u16_eq_numeral mem_simps htonl_of_le32)
qed (simp add: stun_message_find32_def)

lemma stun_message_find64_value:
  assumes "message_attrs msg = Some as"
  shows "stun_message_find64 msg t = Some (case attr_value msg t of
      None \<Rightarrow> Inl STUN_MESSAGE_RETURN_NOT_FOUND
    | Some v \<Rightarrow> if length v = 8
        then Inr (push_bit 32 (ucast (of_be32 v)) OR ucast (of_be32 (drop 4 v)))
        else Inl STUN_MESSAGE_RETURN_INVALID)"
proof (rule find_value_cases [OF assms, of t])
  fix off l v
  assume "stun_message_find msg t = Some (Some (off, l))" "attr_value msg t = Some v"
    "off + unat l \<le> length (buffer msg)" "v = take (unat l) (drop off (buffer msg))"
    "length v = unat l"
  then show ?thesis
    by (cases "l = 8") (simp_all add: stun_message_find64_def unat_u16_eq_numeral mem_simps htonl_of_le32)
qed (simp add: stun_message_find64_def)

lemma stun_message_find_string_value:
  assumes "message_attrs msg = Some as"
  shows "stun_message_find_string msg t buflen = Some (case attr_value msg t of
      None \<Rightarrow> Inl STUN_MESSAGE_RETURN_NOT_FOUND
    | Some v \<Rightarrow> if length v \<ge> buflen then Inl STUN_MESSAGE_RETURN_NOT_ENOUGH_SPACE
                else Inr (v @ [0]))"
proof (rule find_value_cases [OF assms, of t])
  fix off l v
  assume "stun_message_find msg t = Some (Some (off, l))" "attr_value msg t = Some v"
    "off + unat l \<le> length (buffer msg)" "v = take (unat l) (drop off (buffer msg))"
    "length v = unat l"
  then show ?thesis by (simp add: stun_message_find_string_def mem_simps)
qed (simp add: stun_message_find_string_def)

text \<open>Addresses: what the reader makes of the raw value.\<close>

definition decode_addr :: "bytes \<Rightarrow> sockaddr \<Rightarrow> nat \<Rightarrow> StunMessageReturn \<times> sockaddr \<times> nat" where
  "decode_addr v addr addrlen =
     (if length v < 4 then (STUN_MESSAGE_RETURN_INVALID, addr, addrlen)
      else if v ! 1 = 1 then
        if addrlen < sizeof_sockaddr_in \<or> length v \<noteq> 8
        then (STUN_MESSAGE_RETURN_INVALID, addr, sizeof_sockaddr_in)
        else (STUN_MESSAGE_RETURN_SUCCESS,
              SA_INET (of_le16 (drop 2 v)) (of_le32 (drop 4 v)), sizeof_sockaddr_in)
      else if v ! 1 = 2 then
        if addrlen < sizeof_sockaddr_in6 \<or> length v \<noteq> 20
        then (STUN_MESSAGE_RETURN_INVALID, addr, sizeof_sockaddr_in6)
        else (STUN_MESSAGE_RETURN_SUCCESS,
              SA_INET6 (of_le16 (drop 2 v)) (drop 4 v), sizeof_sockaddr_in6)
      else (STUN_MESSAGE_RETURN_UNSUPPORTED_ADDRESS, addr, addrlen))"

lemma of_le16_take [simp]: "of_le16 (take 2 v) = of_le16 v"
  by (cases v rule: of_le16.cases) simp_all

lemma of_le32_take [simp]: "of_le32 (take 4 v) = of_le32 v"
  by (cases v rule: of_le32.cases) simp_all

lemma mem_read_within:
  assumes "v = take n (drop off b)" "off + n \<le> length b" "i + k \<le> n"
  shows "mem_read b (off + i) k = Some (take k (drop i v))"
  using assms by (simp add: mem_read_def drop_take add.commute)

lemma rd8_within:
  assumes "v = take n (drop off b)" "off + n \<le> length b" "i < n"
  shows "rd8 b (off + i) = Some (v ! i)"
  using assms by simp

lemma stun_message_find_addr_value:
  assumes "message_attrs msg = Some as"
  shows "stun_message_find_addr msg t addr addrlen = Some (case attr_value msg t of
      None \<Rightarrow> (STUN_MESSAGE_RETURN_NOT_FOUND, addr, addrlen)
    | Some v \<Rightarrow> decode_addr v addr addrlen)"
proof (rule find_value_cases [OF assms, of t])
  fix off l v
  assume f: "stun_message_find msg t = Some (Some (off, l))" "attr_value msg t = Some v"
    and b: "off + unat l \<le> length (buffer msg)" and v: "v = take (unat l) (drop off (buffer msg))"
    and len: "length v = unat l"
  have l4: "l < 4 \<longleftrightarrow> length v < 4" by (simp add: len word_less_nat_alt)
  show ?thesis
  proof (cases "length v < 4")
    case True
    then show ?thesis by (simp add: stun_message_find_addr_def f l4 decode_addr_def)
  next
    case False
    have fam: "rd8 (buffer msg) (off + 1) = Some (v ! 1)"
      using False len by (intro rd8_within [OF v b]) simp
    have port: "mem_read (buffer msg) (off + 2) 2 = Some (take 2 (drop 2 v))"
      using False len by (intro mem_read_within [OF v b]) simp
    have val: "mem_read (buffer msg) (off + 4) k = Some (drop 4 v)" if "length v = 4 + k" for k
      using that len mem_read_within [OF v b, of 4 k] by simp
    from False show ?thesis
      by (simp add: stun_message_find_addr_def f l4 decode_addr_def fam port val
          del: add_2_eq_Suc' One_nat_def flip: len unat_u16_eq_numeral)
  qed
qed (simp add: stun_message_find_addr_def)

lemma stun_message_find_error_value:
  assumes "message_attrs msg = Some as"
  shows "stun_message_find_error msg = Some (case attr_value msg STUN_ATTRIBUTE_ERROR_CODE of
      None \<Rightarrow> Inl STUN_MESSAGE_RETURN_NOT_FOUND
    | Some v \<Rightarrow>
        if length v < 4 \<or> v ! 2 AND 7 < 3 \<or> v ! 2 AND 7 > 6 \<or> v ! 3 > 99
        then Inl STUN_MESSAGE_RETURN_INVALID
        else Inr (unat (v ! 2 AND 7) * 100 + unat (v ! 3)))"
proof (rule find_value_cases [OF assms, of STUN_ATTRIBUTE_ERROR_CODE])
  fix off l v
  assume f: "stun_message_find msg STUN_ATTRIBUTE_ERROR_CODE = Some (Some (off, l))"
      "attr_value msg STUN_ATTRIBUTE_ERROR_CODE = Some v"
    and b: "off + unat l \<le> length (buffer msg)" and v: "v = take (unat l) (drop off (buffer msg))"
    and len: "length v = unat l"
  have l4: "l < 4 \<longleftrightarrow> length v < 4" by (simp add: len word_less_nat_alt)
  have c: "rd8 (buffer msg) (off + i) = Some (v ! i)" if "i < length v" for i
    using that len by (intro rd8_within [OF v b]) simp
  show ?thesis
    by (cases "length v < 4") (simp_all add: stun_message_find_error_def f l4 c Let_def
        del: add_2_eq_Suc')
qed (simp add: stun_message_find_error_def)

section \<open>The typed writers append the encoded value\<close>

lemma mem_write_append:
  assumes "q = p + length xs"
  shows "(mem_write b p xs \<bind> (\<lambda>b. mem_write b q ys \<bind> f)) = (mem_write b p (xs @ ys) \<bind> f)"
  by (auto simp: assms mem_write_def Let_def add_ac)

lemma append_addr_bytes_encoded:
  "append_addr_bytes msg type family port pa
     = stun_message_append_bytes msg type ([0, family] @ le16 port @ pa)"
proof -
  have len: "length ([0, family] @ le16 port @ pa) = 4 + length pa" by simp
  have pos: "0 < 4 + length pa" by simp
  show ?thesis
    unfolding append_addr_bytes_def stun_message_append_bytes_def len if_P [OF pos]
    by (cases "stun_message_append msg type (4 + length pa)")
      (auto simp: mem_write_append del: add_2_eq_Suc' split: option.splits)
qed

lemma append_error_encoded:
  "stun_message_append_error msg code = stun_message_append_bytes msg STUN_ATTRIBUTE_ERROR_CODE
     ([0, 0, word_of_nat (code div 100), word_of_nat (code mod 100)]
        @ map of_char (stun_strerror code))"
proof -
  let ?str = "map of_char (stun_strerror code) :: bytes"
  have len: "length ([0, 0, word_of_nat (code div 100), word_of_nat (code mod 100)] @ ?str)
      = 4 + length ?str" by simp
  have pos: "0 < 4 + length ?str" by simp
  show ?thesis
    unfolding stun_message_append_error_def stun_message_append_bytes_def len Let_def if_P [OF pos]
    by (cases "stun_message_append msg STUN_ATTRIBUTE_ERROR_CODE (4 + length ?str)")
      (auto simp: mem_write_append del: add_2_eq_Suc' split: option.splits)
qed

lemma append_addr_encoded:
  assumes "addrlen \<ge> sizeof_sockaddr" "\<And>p a. addr = SA_INET6 p a \<Longrightarrow> addrlen \<ge> sizeof_sockaddr_in6"
    "addr \<noteq> SA_OTHER"
  shows "stun_message_append_addr msg type addr addrlen = stun_message_append_bytes msg type
    (case addr of SA_INET p a \<Rightarrow> [0, 1] @ le16 p @ le32 a | SA_INET6 p a \<Rightarrow> [0, 2] @ le16 p @ a
     | SA_OTHER \<Rightarrow> [])"
  using assms
  by (auto simp: stun_message_append_addr_def append_addr_bytes_encoded split: sockaddr.splits)

section \<open>Round trips\<close>

lemma append_value:
  assumes "message_attrs msg = Some as" "message_cost msg (length d) \<le> message_room msg"
    and "open_for msg t"
  obtains msg' as' v where
    "stun_message_append_bytes msg t d = Some (STUN_MESSAGE_RETURN_SUCCESS, msg')"
    "message_attrs msg' = Some as'" "attr_value msg' t = Some v" "take (length d) v = d"
    "length v = append_alen msg (length d)"
    "mem_read (buffer msg') 4 16 = mem_read (buffer msg) 4 16"
proof -
  obtain b where
    b: "stun_message_append_bytes msg t d = Some (STUN_MESSAGE_RETURN_SUCCESS, msg\<lparr>buffer := b\<rparr>)"
      "holds_attr msg (oc2007_type msg t) (length d) b" "attr_fits msg (length d)"
      "mem_read b (message_end msg + 4) (length d) = Some d"
    using append_bytes_store [OF assms(1,2)] by metis
  obtain v where v: "attr_value (msg\<lparr>buffer := b\<rparr>) t = Some v" "take (length d) v = d"
    "length v = append_alen msg (length d)"
    using value_new_attr [OF assms(1) b(3,2,4) assms(3)] by blast
  have "mem_read b 4 16 = mem_read (buffer msg) 4 16"
    using holds_attr_id [OF b(2)] message_attrsD(3,5) [OF assms(1)] by simp
  with that [OF b(1) holds_attr_message(1) [OF assms(1) b(3,2)] v] show ?thesis by simp
qed

text \<open>A value whose length is a multiple of four is found as it was appended.\<close>

lemma append_value_exact:
  assumes "message_attrs msg = Some as" "message_cost msg (length d) \<le> message_room msg"
    and "open_for msg t" "4 dvd length d"
  obtains msg' as' where
    "stun_message_append_bytes msg t d = Some (STUN_MESSAGE_RETURN_SUCCESS, msg')"
    "message_attrs msg' = Some as'" "attr_value msg' t = Some d"
    "mem_read (buffer msg') 4 16 = mem_read (buffer msg) 4 16"
proof -
  have "append_alen msg (length d) = length d"
    using assms(4) by (auto simp: append_alen_def padded_len_def)
  then show ?thesis
    using that by (rule_tac append_value [OF assms(1-3)]) simp
qed

text \<open>A concrete message for the witnesses: a binding request with the magic cookie and no attribute,
  in a buffer of 64 bytes.\<close>

definition example_message :: stun_message where
  "example_message = \<lparr>agent = None, buffer = [0, 1, 0, 0, 0x21, 0x12, 0xA4, 0x42] @ replicate 56 0,
     buffer_len = 64, key = None, long_term_key = replicate 16 0, long_term_valid = False\<rparr>"

lemma example_message_facts:
  "message_attrs example_message = Some []" "message_room example_message = 44"
  "message_cost example_message 4 = 8" "message_cost example_message 8 = 12"
  "message_cost example_message 20 = 24" "open_for example_message t"
proof -
  have e: "message_end example_message = 20"
    by (simp add: message_end_def example_message_def stun_getw_def rd8_def)
  show a: "message_attrs example_message = Some []"
    using e by (simp add: message_attrs_def example_message_def attr_list.simps)
  show "open_for example_message t" by (simp add: open_for_def types_of_def a)
  show "message_room example_message = 44"
    by (simp add: message_room_def e) (simp add: example_message_def)
  show "message_cost example_message 4 = 8" "message_cost example_message 8 = 12"
    "message_cost example_message 20 = 24"
    by (simp_all add: message_cost_def padded_len_def)
qed

text \<open>a 32-bit value appended to a well-formed message with room for it, under a type the message
  does not hold yet and that no integrity or fingerprint attribute hides, is read back unchanged; the
  append neither fails nor leaves the buffer.\<close>

theorem append32_find32:
  assumes "message_attrs msg = Some as" "message_cost msg 4 \<le> message_room msg" "open_for msg t"
  shows "\<exists>msg'. stun_message_append32 msg t x = Some (STUN_MESSAGE_RETURN_SUCCESS, msg')
    \<and> stun_message_find32 msg' t = Some (Inr x)"
proof -
  obtain msg' as' where m: "stun_message_append_bytes msg t (be32 x)
      = Some (STUN_MESSAGE_RETURN_SUCCESS, msg')" "message_attrs msg' = Some as'"
      "attr_value msg' t = Some (be32 x)"
    by (rule append_value_exact [OF assms(1) _ assms(3), of "be32 x"]) (use assms(2) in auto)
  then show ?thesis
    by (simp add: stun_message_append32_def stun_message_find32_value endian_simps)
qed

theorem append32_find32_witness:
  "\<exists>msg'. stun_message_append32 example_message STUN_ATTRIBUTE_PRIORITY 0x6e001eff
      = Some (STUN_MESSAGE_RETURN_SUCCESS, msg')
    \<and> stun_message_find32 msg' STUN_ATTRIBUTE_PRIORITY = Some (Inr 0x6e001eff)"
  by (rule append32_find32 [OF example_message_facts(1) _ example_message_facts(6)])
    (simp add: example_message_facts)

lemma be64_halves:
  fixes x :: u64
  defines "d \<equiv> be32 (ucast (drop_bit 32 x)) @ be32 (ucast x)"
  shows "length d = 8" "push_bit 32 (ucast (of_be32 d)) OR ucast (of_be32 (drop 4 d)) = x"
proof -
  have "of_be32 (be32 y @ r) = y" for y r
    using of_be32_be32 [of y] by (simp add: be32_def)
  moreover have "push_bit 32 (ucast (ucast (drop_bit 32 x) :: u32)) OR ucast (ucast x :: u32) = x"
    by (rule bit_word_eqI) (auto simp: bit_simps)
  ultimately show "push_bit 32 (ucast (of_be32 d)) OR ucast (of_be32 (drop 4 d)) = x"
    by (simp add: d_def endian_simps)
qed (simp add: d_def)

text \<open>the same for a 64-bit value, which is stored as two words in network order.\<close>

theorem append64_find64:
  assumes "message_attrs msg = Some as" "message_cost msg 8 \<le> message_room msg" "open_for msg t"
  shows "\<exists>msg'. stun_message_append64 msg t x = Some (STUN_MESSAGE_RETURN_SUCCESS, msg')
    \<and> stun_message_find64 msg' t = Some (Inr x)"
proof -
  let ?d = "be32 (ucast (drop_bit 32 x)) @ be32 (ucast x)"
  obtain msg' as' where m: "stun_message_append_bytes msg t ?d
      = Some (STUN_MESSAGE_RETURN_SUCCESS, msg')" "message_attrs msg' = Some as'"
      "attr_value msg' t = Some ?d"
    by (rule append_value_exact [OF assms(1) _ assms(3), of ?d]) (use assms(2) in auto)
  show ?thesis using m be64_halves [of x]
    by (simp add: stun_message_append64_def stun_message_find64_value endian_simps)
qed

theorem append64_find64_witness:
  "\<exists>msg'. stun_message_append64 example_message STUN_ATTRIBUTE_ICE_CONTROLLING 0x1122334455667788
      = Some (STUN_MESSAGE_RETURN_SUCCESS, msg')
    \<and> stun_message_find64 msg' STUN_ATTRIBUTE_ICE_CONTROLLING = Some (Inr 0x1122334455667788)"
  by (rule append64_find64 [OF example_message_facts(1) _ example_message_facts(6)])
    (simp add: example_message_facts)

text \<open>Addresses.\<close>

fun sockaddr_len :: "sockaddr \<Rightarrow> nat" where
  "sockaddr_len (SA_INET _ _) = sizeof_sockaddr_in"
| "sockaddr_len (SA_INET6 _ _) = sizeof_sockaddr_in6"
| "sockaddr_len SA_OTHER = 0"

fun addr_attr_len :: "sockaddr \<Rightarrow> nat" where
  "addr_attr_len (SA_INET _ _) = 8"
| "addr_attr_len (SA_INET6 _ _) = 20"
| "addr_attr_len SA_OTHER = 0"

lemma decode_encode_addr:
  "sizeof_sockaddr_in \<le> n \<Longrightarrow> decode_addr ([0, 1] @ le16 p @ le32 a) x n
     = (STUN_MESSAGE_RETURN_SUCCESS, SA_INET p a, sizeof_sockaddr_in)"
  "sizeof_sockaddr_in6 \<le> n \<Longrightarrow> length a6 = 16 \<Longrightarrow> decode_addr ([0, 2] @ le16 p @ a6) x n
     = (STUN_MESSAGE_RETURN_SUCCESS, SA_INET6 p a6, sizeof_sockaddr_in6)"
  using of_le16_le16 [of p] of_le32_le32 [of a]
  by (simp_all add: decode_addr_def) (simp_all add: le16_def le32_def)

lemma append_addr_value:
  assumes "message_attrs msg = Some as" "message_cost msg (addr_attr_len addr) \<le> message_room msg"
    and "open_for msg t" "sockaddr_ok addr" "addr \<noteq> SA_OTHER"
    and "sockaddr_len addr \<le> addrlen" "sockaddr_len addr \<le> n"
  obtains msg' as' where
    "stun_message_append_addr msg t addr addrlen = Some (STUN_MESSAGE_RETURN_SUCCESS, msg')"
    "message_attrs msg' = Some as'"
    "stun_message_find_addr msg' t x n
       = Some (STUN_MESSAGE_RETURN_SUCCESS, addr, sockaddr_len addr)"
    "mem_read (buffer msg') 4 16 = mem_read (buffer msg) 4 16"
proof -
  let ?d = "case addr of SA_INET p a \<Rightarrow> [0, 1] @ le16 p @ le32 a
    | SA_INET6 p a \<Rightarrow> [0, 2] @ le16 p @ a | SA_OTHER \<Rightarrow> []"
  have enc: "stun_message_append_addr msg t addr addrlen = stun_message_append_bytes msg t ?d"
    using assms(5,6) by (intro append_addr_encoded; cases addr) auto
  have len: "length ?d = addr_attr_len addr" "4 dvd length ?d"
    using assms(4,5) by (cases addr; simp)+
  obtain msg' as' where m: "stun_message_append_bytes msg t ?d
      = Some (STUN_MESSAGE_RETURN_SUCCESS, msg')" "message_attrs msg' = Some as'"
      "attr_value msg' t = Some ?d" "mem_read (buffer msg') 4 16 = mem_read (buffer msg) 4 16"
    by (rule append_value_exact [OF assms(1) _ assms(3), of ?d]) (use assms(2) len in auto)
  have "decode_addr ?d x n = (STUN_MESSAGE_RETURN_SUCCESS, addr, sockaddr_len addr)"
  proof (cases addr)
    case (SA_INET p a)
    then show ?thesis using decode_encode_addr(1) [of n p a x] assms(7) by simp
  next
    case (SA_INET6 p a)
    then show ?thesis using decode_encode_addr(2) [of n a p x] assms(4,7) by simp
  qed (use assms(5) in simp)
  then have "stun_message_find_addr msg' t x n
      = Some (STUN_MESSAGE_RETURN_SUCCESS, addr, sockaddr_len addr)"
    using m(3) by (simp add: stun_message_find_addr_value [OF m(2)])
  with m enc show ?thesis by (intro that [of msg' as']) simp_all
qed

lemma stun_xor_address_ok:
  assumes "sockaddr_ok addr" "addr \<noteq> SA_OTHER" "sockaddr_len addr \<le> n" "20 \<le> length b"
  obtains y where "stun_xor_address b addr n c = Some (STUN_MESSAGE_RETURN_SUCCESS, y)"
    "sockaddr_ok y" "y \<noteq> SA_OTHER" "sockaddr_len y = sockaddr_len addr"
    "addr_attr_len y = addr_attr_len addr"
    "stun_xor_address b y (sockaddr_len y) c = Some (STUN_MESSAGE_RETURN_SUCCESS, addr)"
proof (cases addr)
  case (SA_INET p a)
  with assms(3) show ?thesis
    by (intro that [of "SA_INET (p XOR htons (ucast (drop_bit 16 c))) (a XOR htonl c)"])
      (simp_all add: xor.assoc)
next
  case (SA_INET6 p a)
  have "map2 (XOR) (map2 (XOR) a m) m = a" if "length a \<le> length m" for m :: bytes
    using that by (induction a m rule: list_induct2') (auto simp: xor.assoc)
  with SA_INET6 assms show ?thesis
    by (intro that [of "SA_INET6 (p XOR htons (ucast (drop_bit 16 c)))
        (map2 (XOR) a (take 16 (drop 4 b)))"]) (simp_all add: mem_simps xor.assoc)
qed (use assms in simp)

lemma stun_xor_address_id:
  "mem_read b 4 16 = mem_read b' 4 16 \<Longrightarrow> stun_xor_address b a n c = stun_xor_address b' a n c"
  by (cases a) simp_all

text \<open>C17: an IPv4 or IPv6 address appended in XOR form (with any cookie value) is read back unchanged
  by the matching XOR reader, whatever the caller's address variable held; the mask, which for IPv6
  is the transaction id of the message, is the same on both sides.\<close>

theorem append_xor_addr_find_xor_addr:
  assumes "message_attrs msg = Some as" "message_cost msg (addr_attr_len addr) \<le> message_room msg"
    and "open_for msg t" "sockaddr_ok addr" "addr \<noteq> SA_OTHER"
    and "sockaddr_len addr \<le> addrlen" "addrlen \<le> sizeof_sockaddr_storage" "sockaddr_len addr \<le> n"
  shows "\<exists>msg'. stun_message_append_xor_addr_full msg t addr addrlen cookie
      = Some (STUN_MESSAGE_RETURN_SUCCESS, msg')
    \<and> stun_message_find_xor_addr_full msg' t x n cookie
      = Some (STUN_MESSAGE_RETURN_SUCCESS, addr, sockaddr_len addr)"
proof -
  have len: "20 \<le> length (buffer msg)" by (rule message_attrsD(2) [OF assms(1)])
  obtain y where y: "stun_xor_address (buffer msg) addr addrlen cookie
      = Some (STUN_MESSAGE_RETURN_SUCCESS, y)" "sockaddr_ok y" "y \<noteq> SA_OTHER"
    "sockaddr_len y = sockaddr_len addr" "addr_attr_len y = addr_attr_len addr"
    "stun_xor_address (buffer msg) y (sockaddr_len y) cookie
      = Some (STUN_MESSAGE_RETURN_SUCCESS, addr)"
    using stun_xor_address_ok [OF assms(4,5,6) len] by metis
  obtain msg' as' where
    m: "stun_message_append_addr msg t y addrlen = Some (STUN_MESSAGE_RETURN_SUCCESS, msg')"
      "stun_message_find_addr msg' t x n = Some (STUN_MESSAGE_RETURN_SUCCESS, y, sockaddr_len y)"
      "mem_read (buffer msg') 4 16 = mem_read (buffer msg) 4 16"
    by (rule append_addr_value [OF assms(1) _ assms(3) y(2,3), of addrlen n x])
      (use y assms in auto)
  have "stun_xor_address (buffer msg') y (sockaddr_len y) cookie
      = Some (STUN_MESSAGE_RETURN_SUCCESS, addr)"
    using y(6) stun_xor_address_id [OF m(3)] by simp
  with m y assms(7) show ?thesis
    by (simp add: stun_message_append_xor_addr_full_def stun_message_find_xor_addr_full_def Let_def)
qed

theorem append_xor_addr_find_xor_addr_witness:
  "\<exists>msg'. stun_message_append_xor_addr_full example_message STUN_ATTRIBUTE_XOR_MAPPED_ADDRESS
        (SA_INET6 0x3412 (map word_of_nat [0..<16])) 28 STUN_MAGIC_COOKIE
      = Some (STUN_MESSAGE_RETURN_SUCCESS, msg')
    \<and> stun_message_find_xor_addr_full msg' STUN_ATTRIBUTE_XOR_MAPPED_ADDRESS SA_OTHER 128
        STUN_MAGIC_COOKIE
      = Some (STUN_MESSAGE_RETURN_SUCCESS, SA_INET6 0x3412 (map word_of_nat [0..<16]), 28)"
  using append_xor_addr_find_xor_addr [OF example_message_facts(1) _ example_message_facts(6),
      of "SA_INET6 0x3412 (map word_of_nat [0..<16])" 28 128 _ STUN_MAGIC_COOKIE SA_OTHER]
  by (simp add: example_message_facts)

lemma error_code_digits:
  assumes "300 \<le> code" "code < (700 :: nat)"
  shows "\<exists>h l. code div 100 = h \<and> code mod 100 = l \<and> code = 100 * h + l \<and> l \<le> 99 \<and> h \<in> {3, 4, 5, 6}"
proof -
  have "3 \<le> code div 100" "code div 100 < 7"
    using assms by (simp_all add: less_eq_div_iff_mult_less_eq div_less_iff_less_mult)
  then have "code div 100 \<in> {3, 4, 5, 6}" by auto
  moreover have "code mod 100 \<le> 99" using mod_less_divisor [of 100 code] by linarith
  moreover have "code = 100 * (code div 100) + code mod 100" by simp
  ultimately show ?thesis by blast
qed

text \<open>An error code between 300 and 699 written by \<^verbatim>\<open>stun_message_append_error\<close>, with its reason
  phrase, is what \<^verbatim>\<open>stun_message_find_error\<close> reads.\<close>

theorem append_error_find_error:
  assumes "message_attrs msg = Some as"
    and "message_cost msg (4 + length (stun_strerror code)) \<le> message_room msg"
    and "open_for msg STUN_ATTRIBUTE_ERROR_CODE" "300 \<le> code" "code < 700"
  shows "\<exists>msg'. stun_message_append_error msg code = Some (STUN_MESSAGE_RETURN_SUCCESS, msg')
    \<and> stun_message_find_error msg' = Some (Inr code)"
proof -
  let ?d = "[0, 0, word_of_nat (code div 100), word_of_nat (code mod 100)]
      @ map of_char (stun_strerror code) :: bytes"
  have len: "length ?d = 4 + length (stun_strerror code)" by simp
  obtain msg' as' v where
    m: "stun_message_append_bytes msg STUN_ATTRIBUTE_ERROR_CODE ?d
      = Some (STUN_MESSAGE_RETURN_SUCCESS, msg')" "message_attrs msg' = Some as'"
      "attr_value msg' STUN_ATTRIBUTE_ERROR_CODE = Some v" "take (length ?d) v = ?d"
    by (rule append_value [OF assms(1) _ assms(3), of ?d]) (use assms(2) in \<open>simp_all only: len\<close>)
  have v: "\<not> length v < 4" using arg_cong [OF m(4), of length] by auto
  have "v ! 2 = word_of_nat (code div 100)" "v ! 3 = word_of_nat (code mod 100)"
    using arg_cong [OF m(4), of "\<lambda>l. l ! 2"] arg_cong [OF m(4), of "\<lambda>l. l ! 3"] v by simp_all
  moreover obtain h l where "code div 100 = h" "code mod 100 = l" "code = 100 * h + l" "l \<le> 99"
      "h \<in> {3, 4, 5, 6}"
    using error_code_digits [OF assms(4,5)] by blast
  moreover have "unat (word_of_nat (code mod 100) :: u8) = code mod 100"
    using order.strict_trans [of "code mod 100" 100 256] by (simp add: unat_of_nat take_bit_nat_eq_self)
  ultimately show ?thesis
    using m v by (auto simp: append_error_encoded stun_message_find_error_value word_less_nat_alt)
qed

theorem append_error_find_error_witness:
  "\<exists>msg'. stun_message_append_error example_message STUN_ERROR_ROLE_CONFLICT
      = Some (STUN_MESSAGE_RETURN_SUCCESS, msg')
    \<and> stun_message_find_error msg' = Some (Inr STUN_ERROR_ROLE_CONFLICT)"
  by (rule append_error_find_error [OF example_message_facts(1) _ example_message_facts(6)])
    (simp_all add: example_message_facts message_cost_def padded_len_def stun_strerror_def
      stun_strerror_tab_def)

section \<open>The bound check of append\<close>

text \<open>The padding behind the value is not part of the bound check: when the value fits and its padding
  does not, the padding is written behind the buffer.\<close>

lemma stun_message_append_overrun:
  assumes wf: "message_attrs msg = Some as" and al: "\<not> no_aligned_attributes msg"
    and fits: "message_end msg + 4 + len \<le> buffer_len msg"
    and over: "buffer_len msg < message_end msg + 4 + padded_len True len"
    and len: "len < 65536"
  shows "stun_message_append msg type len = None"
proof -
  let ?e = "message_end msg"
  note e20 = message_attrsD(3) [OF wf] and bl = message_attrsD(1) [OF wf]
  obtain b1 where b1: "mem_write (buffer msg) ?e (be16 (oc2007_type msg type)) = Some b1"
    using fits bl by (auto simp: mem_write_def)
  obtain c where c: "stun_message_has_cookie (msg\<lparr>buffer := b1\<rparr>) = Some c"
    using has_cookie_defined [OF message_attrsD(2) [OF wf]] has_cookie_frame [OF b1] e20 by auto
  obtain b2 where b2: "mem_write b1 (?e + 2)
      (be16 (if c then word_of_nat len else ucast (stun_align (word_of_nat len)))) = Some b2"
    using fits bl mem_write_length [OF b1] by (auto simp: mem_write_def)
  have pad: "unat (stun_padding (word_of_nat len)) = padded_len True len - len"
  proof -
    have "unat (stun_padding (word_of_nat len)) = (4 - len mod 4) mod 4"
      using len by (intro stun_padding_nat) simp
    then show ?thesis using padding_sum [of len] by (metis diff_add_inverse)
  qed
  have lb: "length b2 = buffer_len msg"
    using mem_write_length [OF b1] mem_write_length [OF b2] bl by simp
  have p: "0 < padded_len True len - len" using fits over by linarith
  have w: "mem_write b2 (?e + 2 + 2 + len) (replicate (padded_len True len - len) 0x20) = None"
    using p over by (simp add: mem_write_def lb)
  show ?thesis
    using fits al b1 b2 c p w
    by (simp add: stun_message_append_def stun_message_length_wf [OF wf] unat_message_end [OF wf]
        Let_def stun_setw_be16 pad del: add_2_eq_Suc')
qed

lemma append_bytes_outcomes:
  assumes wf: "message_attrs msg = Some as" and small: "buffer_len msg < 65536"
    and len: "length data < 65536"
  shows "stun_message_append_bytes msg t data = None
    \<longleftrightarrow> \<not> no_aligned_attributes msg \<and> message_end msg + 4 + length data \<le> buffer_len msg
      \<and> buffer_len msg < message_end msg + 4 + padded_len True (length data)"
    and "message_end msg + 4 + length data > buffer_len msg \<Longrightarrow>
      stun_message_append_bytes msg t data = Some (STUN_MESSAGE_RETURN_NOT_ENOUGH_SPACE, msg)"
    and "message_end msg + message_cost msg (length data) \<le> buffer_len msg \<Longrightarrow>
      \<exists>msg'. stun_message_append_bytes msg t data = Some (STUN_MESSAGE_RETURN_SUCCESS, msg')
        \<and> message_attrs msg' \<noteq> None"
proof -
  let ?e = "message_end msg" and ?n = "length data"
  show full: "stun_message_append_bytes msg t data = Some (STUN_MESSAGE_RETURN_NOT_ENOUGH_SPACE, msg)"
    if "?e + 4 + ?n > buffer_len msg" using append_bytes_full [OF wf that] .
  have bl: "buffer_len msg = length (buffer msg)" by (rule message_attrsD(1) [OF wf])
  show ok: "\<exists>msg'. stun_message_append_bytes msg t data = Some (STUN_MESSAGE_RETURN_SUCCESS, msg')
      \<and> message_attrs msg' \<noteq> None" if "?e + message_cost msg ?n \<le> buffer_len msg"
  proof -
    have "message_cost msg ?n \<le> message_room msg" using that small bl by (simp add: message_room_def)
    then show ?thesis using sm.app_ok [of msg data t] wf by auto
  qed
  have over: "stun_message_append_bytes msg t data = None"
    if "\<not> no_aligned_attributes msg" "?e + 4 + ?n \<le> buffer_len msg"
      "buffer_len msg < ?e + 4 + padded_len True ?n"
    using stun_message_append_overrun [OF wf that len] by (simp add: stun_message_append_bytes_def)
  show "stun_message_append_bytes msg t data = None
    \<longleftrightarrow> \<not> no_aligned_attributes msg \<and> ?e + 4 + ?n \<le> buffer_len msg
      \<and> buffer_len msg < ?e + 4 + padded_len True ?n"
  proof
    assume "stun_message_append_bytes msg t data = None"
    with full ok have "?e + 4 + ?n \<le> buffer_len msg" "buffer_len msg < ?e + message_cost msg ?n"
      by (fastforce simp: not_less [symmetric])+
    then show "\<not> no_aligned_attributes msg \<and> ?e + 4 + ?n \<le> buffer_len msg
      \<and> buffer_len msg < ?e + 4 + padded_len True ?n"
      by (cases "no_aligned_attributes msg") (auto simp: message_cost_def padded_len_def)
  qed (use over in blast)
qed

text \<open>C23: on a well-formed message whose size fits 16 bits, appending a value leaves the buffer exactly
  when attributes are padded and the value itself still fits but its padding does not; otherwise the
  call returns, with \<^verbatim>\<open>STUN_MESSAGE_RETURN_NOT_ENOUGH_SPACE\<close> and the message unchanged when there is no
  room, and with success and a well-formed message when there is.\<close>

theorem append_bytes_safe_iff:
  assumes "message_attrs msg = Some as" "buffer_len msg < 65536" "length data < 65536"
  shows "(stun_message_append_bytes msg t data = None
      \<longleftrightarrow> \<not> no_aligned_attributes msg \<and> message_end msg + 4 + length data \<le> buffer_len msg
        \<and> buffer_len msg < message_end msg + 4 + padded_len True (length data))
    \<and> (message_end msg + 4 + length data > buffer_len msg \<longrightarrow>
      stun_message_append_bytes msg t data = Some (STUN_MESSAGE_RETURN_NOT_ENOUGH_SPACE, msg))
    \<and> (message_end msg + message_cost msg (length data) \<le> buffer_len msg \<longrightarrow>
      (\<exists>msg'. stun_message_append_bytes msg t data = Some (STUN_MESSAGE_RETURN_SUCCESS, msg')
        \<and> message_attrs msg' \<noteq> None))"
  using append_bytes_outcomes [OF assms] by simp

text \<open>A message with 21 bytes of buffer behind its header: a value of 17 bytes passes the check and
  its three bytes of padding do not fit.\<close>

definition tight_message :: stun_message where
  "tight_message = example_message\<lparr>buffer := take 41 (buffer example_message), buffer_len := 41\<rparr>"

lemma tight_message_facts:
  "message_attrs tight_message = Some []" "message_end tight_message = 20"
  "\<not> no_aligned_attributes tight_message" "buffer_len tight_message = 41"
proof -
  show e: "message_end tight_message = 20"
    by (simp add: message_end_def tight_message_def example_message_def stun_getw_def rd8_def)
  show "message_attrs tight_message = Some []"
    using e by (simp add: message_attrs_def tight_message_def example_message_def attr_list.simps)
qed (simp_all add: tight_message_def example_message_def no_aligned_attributes_def)

theorem append_bytes_safe_iff_witness:
  "stun_message_append_bytes tight_message STUN_ATTRIBUTE_USERNAME (replicate 17 0x61) = None
   \<and> stun_message_append_bytes tight_message STUN_ATTRIBUTE_USERNAME (replicate 18 0x61)
     = Some (STUN_MESSAGE_RETURN_NOT_ENOUGH_SPACE, tight_message)"
  using append_bytes_safe_iff [OF tight_message_facts(1), of "replicate 17 0x61" STUN_ATTRIBUTE_USERNAME]
    append_bytes_safe_iff [OF tight_message_facts(1), of "replicate 18 0x61" STUN_ATTRIBUTE_USERNAME]
  by (simp add: tight_message_facts padded_len_def)

text \<open>In a buffer whose size is a multiple of four, as every buffer that libnice itself
  allocates for a message, the padding always fits when the value does: appending never leaves it.\<close>

theorem append_bytes_aligned_safe:
  assumes wf: "message_attrs msg = Some as" and "buffer_len msg < 65536" "length data < 65536"
    and dvd: "4 dvd buffer_len msg"
  shows "stun_message_append_bytes msg t data \<noteq> None"
proof
  assume n: "stun_message_append_bytes msg t data = None"
  note c = iffD1 [OF append_bytes_outcomes(1) [OF assms(1-3)] n]
  then have "attr_list (buffer msg) True 20 (message_end msg) = Some as"
    using message_attrsD(6) [OF wf] by simp
  then have "4 dvd message_end msg"
    using attr_list_dvd message_attrsD(3) [OF wf] by fastforce
  then have "message_end msg + 4 + padded_len True (length data) \<le> buffer_len msg"
    using padded_len_mono_dvd [of "message_end msg + 4" "length data" "buffer_len msg" True] c dvd
    by simp
  with c show False by simp
qed

theorem append_bytes_aligned_safe_witness:
  "stun_message_append_bytes example_message STUN_ATTRIBUTE_USERNAME (replicate 40 0x61) \<noteq> None"
  by (rule append_bytes_aligned_safe [OF example_message_facts(1)])
    (simp_all add: example_message_def)

end
