(* ===== verification/Stun_Validation.thy ===== *)
theory Stun_Validation
  imports Stun_Roundtrip
begin

text \<open>
  The functions that look at bytes from the network: \<^verbatim>\<open>stun_message_validate_buffer_length\<close> is total on
  every input and computes a declarative specification, its vectored variant agrees with it on the
  concatenation of the pieces, an accepted buffer is a well-formed message for every other function,
  and a freshly initialised message has the class, the method and the transaction id it was given.
\<close>

section \<open>Validation\<close>

definition validate_spec :: "bytes \<Rightarrow> nat \<Rightarrow> bool \<Rightarrow> int" where
  "validate_spec b len pad =
     (let mlen = unat (of_be16 [b ! 2, b ! 3]) + 20 in
      if len < 1 \<or> drop_bit 6 (b ! 0) \<noteq> 0 then STUN_MESSAGE_BUFFER_INVALID
      else if len < 4 then STUN_MESSAGE_BUFFER_INCOMPLETE
      else if pad \<and> mlen mod 4 \<noteq> 0 then STUN_MESSAGE_BUFFER_INVALID
      else if len < mlen then STUN_MESSAGE_BUFFER_INCOMPLETE
      else if attr_list b pad 20 mlen = None then STUN_MESSAGE_BUFFER_INVALID
      else int mlen)"

lemma stun_padding_eq_0:
  assumes "n < 2 ^ 64"
  shows "stun_padding (word_of_nat n) = 0 \<longleftrightarrow> n mod 4 = 0"
proof -
  have "stun_padding (word_of_nat n) = 0 \<longleftrightarrow> (4 - n mod 4) mod 4 = 0"
    by (metis assms stun_padding_nat unat_eq_0)
  moreover have "n mod 4 < 4" by simp
  then have "(4 - n mod 4) mod 4 = 0 \<longleftrightarrow> n mod 4 = 0"
    by (cases "n mod 4 = 0") auto
  ultimately show ?thesis by simp
qed

lemma stun_getw_at: "p + 1 < length b \<Longrightarrow> stun_getw b p = Some (of_be16 [b ! p, b ! (p + 1)])"
  by (simp add: stun_getw_eq_Some)

lemma validate_buffer_length_eq:
  assumes "len \<le> length b"
  shows "stun_message_validate_buffer_length b len pad = Some (validate_spec b len pad)"
proof -
  note defs = stun_message_validate_buffer_length_def stun_message_validate_buffer_length_fast_def
    iov_nth_def validate_spec_def
  consider "len < 1" | "1 \<le> len" "drop_bit 6 (b ! 0) \<noteq> 0" | "1 \<le> len" "drop_bit 6 (b ! 0) = 0" "len < 4"
    | "4 \<le> len" "drop_bit 6 (b ! 0) = 0" by linarith
  then show ?thesis
  proof cases
    case 1
    then show ?thesis by (simp add: defs)
  next
    case 2
    then have x: "rd8 b 0 = Some (b ! 0)" using assms by (intro rd8_Some) linarith
    show ?thesis using 2 by (simp add: defs x)
  next
    case 3
    then have x: "rd8 b 0 = Some (b ! 0)" using assms by (intro rd8_Some) linarith
    show ?thesis using 3 by (simp add: defs x)
  next
    case 4
    then have x: "rd8 b 0 = Some (b ! 0)" using assms by (intro rd8_Some) linarith
    define w where "w = of_be16 [b ! 2, b ! 3]"
    define mlen where "mlen = unat w + 20"
    have w: "stun_getw b 2 = Some w" using assms 4 by (simp add: stun_getw_at w_def)
    have small: "mlen < 2 ^ 64" using unat_u16_less [of w] by (simp add: mlen_def)
    have pd: "stun_padding (ucast w + 20) = 0 \<longleftrightarrow> mlen mod 4 = 0"
      using stun_padding_eq_0 [OF small] by (simp add: mlen_def)
    have spec: "validate_spec b len pad = (if pad \<and> mlen mod 4 \<noteq> 0 then STUN_MESSAGE_BUFFER_INVALID
        else if len < mlen then STUN_MESSAGE_BUFFER_INCOMPLETE
        else if attr_list b pad 20 mlen = None then STUN_MESSAGE_BUFFER_INVALID else int mlen)"
      using 4 by (simp add: validate_spec_def Let_def mlen_def w_def)
    have fast: "stun_message_validate_buffer_length_fast [\<lparr>iov_buffer = Some b, iov_size = len\<rparr>] 1 len pad
        = Some (if pad \<and> mlen mod 4 \<noteq> 0 then STUN_MESSAGE_BUFFER_INVALID
                else if len < mlen then STUN_MESSAGE_BUFFER_INCOMPLETE else int mlen)"
      using 4 by (simp add: stun_message_validate_buffer_length_fast_def iov_nth_def Let_def x w pd
          flip: mlen_def)
    have attrs: "validate_attributes b pad 20 (mlen - 20) = Some (attr_list b pad 20 mlen \<noteq> None)"
      if "mlen \<le> len"
      using validate_attributes_attr_list [of 20 "mlen - 20" b pad] that assms
      by (simp add: mlen_def add.commute)
    have "0 < mlen" by (simp add: mlen_def)
    then show ?thesis
      unfolding stun_message_validate_buffer_length_def fast spec using attrs by simp
  qed
qed

text \<open>C8: validation of a received buffer is total: it reads no byte outside the buffer, whatever the
  bytes are, and its verdict is the specification: invalid unless the two top bits are zero, the length
  is a multiple of four (with padding) and the attribute area parses to the end; incomplete when bytes
  are missing; otherwise the exact length of the message.\<close>

theorem validate_buffer_length_total:
  assumes "len \<le> length b"
  shows "stun_message_validate_buffer_length b len pad = Some (validate_spec b len pad)"
  by (rule validate_buffer_length_eq [OF assms])

theorem validate_buffer_length_total_witness:
  "stun_message_validate_buffer_length ([0, 1, 0, 4, 0x21, 0x12, 0xA4, 0x42] @ replicate 12 0
     @ [0, 6, 0, 1]) 24 True = Some STUN_MESSAGE_BUFFER_INVALID"
proof -
  have "validate_spec ([0, 1, 0, 4, 0x21, 0x12, 0xA4, 0x42] @ replicate 12 0 @ [0, 6, 0, 1]) 24 True
      = STUN_MESSAGE_BUFFER_INVALID"
    by code_simp
  then show ?thesis
    using validate_buffer_length_total [of 24 "[0, 1, 0, 4, 0x21, 0x12, 0xA4, 0x42] @ replicate 12 0
      @ [0, 6, 0, 1]" True] by simp
qed

section \<open>Accepted buffers are well-formed messages\<close>

lemma validated_message_attrs:
  assumes "stun_message_validate_buffer_length b (length b) pad = Some (int (length b))"
    and "length b < 65536" "buffer msg = b" "buffer_len msg = length b"
    and "pad \<longleftrightarrow> \<not> no_aligned_attributes msg"
  shows "\<exists>as. message_attrs msg = Some as" "message_end msg = length b"
    "drop_bit 6 (b ! 0) = 0"
proof -
  have v: "validate_spec b (length b) pad = int (length b)"
    using assms(1) validate_buffer_length_eq [of "length b" b pad] by simp
  define mlen where "mlen = unat (of_be16 [b ! 2, b ! 3]) + 20"
  have ne: "length b \<noteq> 0" using v by (auto simp: validate_spec_def split: if_splits)
  then have "validate_spec b (length b) pad = (if drop_bit 6 (b ! 0) \<noteq> 0 then - 1
      else if length b < 4 then 0 else if pad \<and> mlen mod 4 \<noteq> 0 then - 1
      else if length b < mlen then 0 else if attr_list b pad 20 mlen = None then - 1 else int mlen)"
    unfolding validate_spec_def Let_def mlen_def by simp
  with v ne have *: "4 \<le> length b" "mlen = length b" "attr_list b pad 20 mlen \<noteq> None"
    "drop_bit 6 (b ! 0) = 0"
    by (auto split: if_splits)
  have "stun_getw b 2 = Some (of_be16 [b ! 2, b ! 3])"
    using *(1) by (simp add: stun_getw_at)
  then show e: "message_end msg = length b"
    using *(2) by (simp add: message_end_def assms(3) mlen_def)
  have "20 \<le> length b" using *(2) by (simp add: mlen_def)
  with e * assms show "\<exists>as. message_attrs msg = Some as" by (simp add: message_attrs_def)
  show "drop_bit 6 (b ! 0) = 0" by (rule *(4))
qed

text \<open>C18: once a buffer of less than 64 KiB has been validated to its full length, searching the message
  for any attribute type terminates inside the buffer: the address it returns, with the length of the
  attribute, lies within the message.\<close>

theorem validated_find_safe:
  assumes "stun_message_validate_buffer_length b (length b) pad = Some (int (length b))"
    and "length b < 65536" "buffer msg = b" "buffer_len msg = length b"
    and "pad \<longleftrightarrow> \<not> no_aligned_attributes msg"
  shows "\<exists>r. stun_message_find msg t = Some r
    \<and> (\<forall>off l. r = Some (off, l) \<longrightarrow> 24 \<le> off \<and> off + unat l \<le> length b)"
proof -
  obtain as where "message_attrs msg = Some as" using validated_message_attrs(1) [OF assms] by blast
  then show ?thesis
    using stun_message_find_lookup find_result_bounds(1,3) assms(3) by (metis (no_types, lifting))
qed

theorem validated_find_safe_witness:
  "\<exists>r. stun_message_find (tight_message\<lparr>buffer := take 20 (buffer example_message), buffer_len := 20\<rparr>)
      STUN_ATTRIBUTE_USERNAME = Some r
    \<and> (\<forall>off l. r = Some (off, l) \<longrightarrow> 24 \<le> off \<and> off + unat l \<le> length (take 20 (buffer example_message)))"
proof (rule validated_find_safe [where pad = True])
  let ?b = "take 20 (buffer example_message)"
  have len: "length ?b = 20" by (simp add: example_message_def)
  have "validate_spec ?b 20 True = 20"
    by (simp add: validate_spec_def Let_def example_message_def attr_list.simps)
  then show "stun_message_validate_buffer_length ?b (length ?b) True = Some (int (length ?b))"
    using validate_buffer_length_eq [of 20 ?b True] len by simp
qed (simp_all add: tight_message_def example_message_def no_aligned_attributes_def)

section \<open>The vectored variant\<close>

definition iov_of :: "bytes list \<Rightarrow> StunInputVector list" where
  "iov_of cs = map (\<lambda>c. \<lparr>iov_buffer = Some c, iov_size = length c\<rparr>) cs"

lemma iov_of_nth:
  "i < length cs \<Longrightarrow> iov_of cs ! i = \<lparr>iov_buffer = Some (cs ! i), iov_size = length (cs ! i)\<rparr>"
  by (simp add: iov_of_def)

lemma length_iov_of [simp]: "length (iov_of cs) = length cs"
  by (simp add: iov_of_def)

text \<open>Skipping \<open>k\<close> bytes stops in the piece that holds byte \<open>k\<close> of the concatenation.\<close>

lemma skip_buffers_concat:
  assumes "k < length (concat (drop i cs))"
  shows "\<exists>j r. skip_buffers (iov_of cs) (int (length cs)) i k = Some (j, r) \<and> j < length cs
    \<and> r < length (cs ! j)
    \<and> drop k (concat (drop i cs)) = drop r (cs ! j) @ concat (drop (Suc j) cs)"
  using assms
proof (induction "length cs - i" arbitrary: i k)
  case 0
  then show ?case by simp
next
  case (Suc n)
  then have i: "i < length cs" by simp
  then have d: "drop i cs = cs ! i # drop (Suc i) cs" by (simp add: Cons_nth_drop_Suc)
  show ?case
  proof (cases "length (cs ! i) \<le> k")
    case True
    have "\<exists>j r. skip_buffers (iov_of cs) (int (length cs)) (Suc i) (k - length (cs ! i)) = Some (j, r)
        \<and> j < length cs \<and> r < length (cs ! j)
        \<and> drop (k - length (cs ! i)) (concat (drop (Suc i) cs))
          = drop r (cs ! j) @ concat (drop (Suc j) cs)"
      using Suc True d by (intro Suc.hyps(1)) auto
    with True i d show ?thesis by (simp add: skip_buffers.simps [of _ _ i] iov_of_nth)
  next
    case False
    with i d show ?thesis by (simp add: skip_buffers.simps [of _ _ i] iov_of_nth)
  qed
qed

text \<open>The length field, wherever its two bytes lie.\<close>

lemma vectored_length_field:
  assumes "4 \<le> length (concat cs)" "[] \<notin> set cs"
  shows "(do {
       (i, skip_remaining) \<leftarrow> skip_buffers (iov_of cs) (int (length cs)) 0 STUN_MESSAGE_LENGTH_POS;
       bi \<leftarrow> iov_nth (iov_of cs) i;
       pi \<leftarrow> iov_buffer bi;
       if iov_size bi < skip_remaining \<or> iov_size bi - skip_remaining > 1 then stun_getw pi skip_remaining
       else do {
         hi \<leftarrow> rd8 pi skip_remaining;
         bj \<leftarrow> iov_nth (iov_of cs) (i + 1);
         pj \<leftarrow> iov_buffer bj;
         lo \<leftarrow> rd8 pj 0;
         Some (push_bit 8 (ucast hi) OR ucast lo)
       }
     }) = stun_getw (concat cs) 2"
proof -
  have "2 < length (concat (drop 0 cs))" using assms(1) by simp
  from skip_buffers_concat [OF this] obtain j r where
    j: "skip_buffers (iov_of cs) (int (length cs)) 0 2 = Some (j, r)" "j < length cs"
      "r < length (cs ! j)"
    and d: "drop 2 (concat cs) = drop r (cs ! j) @ concat (drop (Suc j) cs)" by auto
  have g: "stun_getw (concat cs) 2 = Some (of_be16 [drop 2 (concat cs) ! 0, drop 2 (concat cs) ! 1])"
    using assms(1) by (simp add: stun_getw_at del: length_concat)
  have hi: "drop 2 (concat cs) ! 0 = cs ! j ! r" using j(3) by (simp add: d nth_append)
  show ?thesis
  proof (cases "length (cs ! j) - r > 1")
    case True
    then have "drop 2 (concat cs) ! 1 = cs ! j ! (r + 1)" by (simp add: d nth_append)
    then have "stun_getw (cs ! j) r = stun_getw (concat cs) 2"
      using True g hi by (simp add: stun_getw_at)
    with True j show ?thesis by (simp add: iov_nth_def iov_of_nth)
  next
    case False
    have "Suc j < length cs"
    proof (rule ccontr)
      assume "\<not> Suc j < length cs"
      then have "length (drop 2 (concat cs)) < 2" using False j(3) d by simp
      with assms(1) show False by simp
    qed
    then have n: "drop (Suc j) cs = cs ! Suc j # drop (Suc (Suc j)) cs" "cs ! Suc j \<noteq> []"
      using assms(2) by (simp add: Cons_nth_drop_Suc, metis nth_mem)
    have "drop 2 (concat cs) ! 1 = cs ! Suc j ! 0"
      using False j(3) n by (simp add: d nth_append)
    then show ?thesis
      using False j n g hi \<open>Suc j < length cs\<close>
      by (simp add: iov_nth_def iov_of_nth rd8_def)
  qed
qed

text \<open>C24: validating a message that arrived in pieces gives the verdict of the pieces joined together,
  however the bytes of the header are spread over them, provided no piece is empty.\<close>

theorem vectored_validation:
  assumes "cs \<noteq> []" "[] \<notin> set cs"
  shows "stun_message_validate_buffer_length_fast (iov_of cs) (int (length cs))
      (length (concat cs)) pad
    = stun_message_validate_buffer_length_fast (iov_of [concat cs]) 1 (length (concat cs)) pad"
proof -
  obtain c cs' where cs: "cs = c # cs'" "c \<noteq> []" using assms by (cases cs) auto
  then have first: "concat cs ! 0 = c ! 0" by (simp add: nth_append)
  have mlen: "stun_getw c 2 = stun_getw (concat cs) 2" if "4 \<le> length c"
    using that by (simp add: cs stun_getw_at nth_append)
  show ?thesis
  proof (cases "length (concat cs) < 4")
    case True
    with cs first show ?thesis
      by (simp add: stun_message_validate_buffer_length_fast_def iov_of_def iov_nth_def rd8_def)
  next
    case False
    have "(if iov_size (iov_of cs ! 0) \<ge> STUN_MESSAGE_LENGTH_POS + STUN_MESSAGE_LENGTH_LEN
        then stun_getw c STUN_MESSAGE_LENGTH_POS
        else do {
          (i, skip_remaining) \<leftarrow> skip_buffers (iov_of cs) (int (length cs)) 0 STUN_MESSAGE_LENGTH_POS;
          bi \<leftarrow> iov_nth (iov_of cs) i;
          pi \<leftarrow> iov_buffer bi;
          if iov_size bi < skip_remaining \<or> iov_size bi - skip_remaining > 1 then stun_getw pi skip_remaining
          else do {
            hi \<leftarrow> rd8 pi skip_remaining;
            bj \<leftarrow> iov_nth (iov_of cs) (i + 1);
            pj \<leftarrow> iov_buffer bj;
            lo \<leftarrow> rd8 pj 0;
            Some (push_bit 8 (ucast hi) OR ucast lo)
          }
        }) = stun_getw (concat cs) 2"
      using vectored_length_field [OF _ assms(2)] False mlen by (simp add: cs iov_of_def)
    moreover have "iov_nth (iov_of cs) 0 = Some (iov_of cs ! 0)" "iov_buffer (iov_of cs ! 0) = Some c"
      by (simp_all add: iov_nth_def iov_of_def cs)
    moreover have "rd8 c 0 = Some (concat cs ! 0)" "rd8 (concat cs) 0 = Some (concat cs ! 0)"
      using cs first by auto
    moreover have "length cs \<noteq> 0" using cs by simp
    moreover have "iov_nth (iov_of [concat cs]) 0
        = Some \<lparr>iov_buffer = Some (concat cs), iov_size = length (concat cs)\<rparr>"
      by (simp add: iov_nth_def iov_of_def)
    ultimately show ?thesis
      using False unfolding stun_message_validate_buffer_length_fast_def
      by (simp del: rd8_eq_Some concat_eq_Nil_conv length_concat)
  qed
qed

theorem vectored_validation_witness:
  "stun_message_validate_buffer_length_fast (iov_of [[0], [1, 0], [8, 0x21], replicate 24 0]) 4 29 True
   = stun_message_validate_buffer_length_fast
       (iov_of [[0, 1, 0, 8, 0x21] @ replicate 24 0]) 1 29 True"
  using vectored_validation [of "[[0], [1, 0], [8, 0x21], replicate 24 0]" True] by simp

section \<open>Initialising a message\<close>

lemma stun_set_type_bytes:
  "2 \<le> length h \<Longrightarrow> stun_set_type h c m = Some ([ucast (drop_bit 1 (class_val c) OR (drop_bit 6 m AND 0x3e)),
     ucast ((push_bit 4 (class_val c) AND 0x10) OR (push_bit 1 m AND 0xe0) OR (m AND 0x0f))] @ drop 2 h)"
  by (auto simp: stun_set_type_def mem_write_def Let_def take_Suc numeral_2_eq_2 neq_Nil_conv)

text \<open>The 14 bits of a message type hold the class and the twelve bits of a method.\<close>

definition type_word :: "StunClass \<Rightarrow> u16 \<Rightarrow> u16" where
  "type_word c m = of_be16 [ucast (drop_bit 1 (class_val c) OR (drop_bit 6 m AND 0x3e)),
     ucast ((push_bit 4 (class_val c) AND 0x10) OR (push_bit 1 m AND 0xe0) OR (m AND 0x0f))]"

lemma nat16_cases: "(n :: nat) < 16 \<Longrightarrow> n \<in> {0, 1, 2, 3, 4, 5, 6, 7, 8, 9, 10, 11, 12, 13, 14, 15}"
  by (simp only: insert_iff empty_iff) presburger

lemma bit_times_2: "bit (m * 2 :: u16) n \<longleftrightarrow> 0 < n \<and> n < 16 \<and> bit m (n - 1)"
  by (simp add: mult.commute [of m 2] bit_double_iff) auto

lemma bit_type_word:
  "n < 16 \<Longrightarrow> bit (type_word c m) n =
     (if n = 4 then bit (class_val c) 0 else if n = 8 then bit (class_val c) 1
      else if n < 4 then bit m n else if n < 8 then bit m (n - 1)
      else n < 14 \<and> bit m (n - 2))"
  unfolding type_word_def of_be16.simps
  by (drule nat16_cases, elim insertE) (cases c; simp add: bit_simps bit_times_2)+

lemma method_bits: "m < (0x1000 :: u16) \<Longrightarrow> bit m n \<Longrightarrow> n < 12"
proof -
  assume a: "m < 0x1000" "bit m n"
  then have "unat m < 2 ^ 12" by (simp add: word_less_nat_alt)
  then have "take_bit 12 m = m"
    by (metis take_bit_nat_eq_self unsigned_take_bit_eq word_unat_eq_iff)
  with a show ?thesis by (metis bit_take_bit_iff)
qed

lemma type_word_method:
  assumes m: "m < 0x1000"
  shows "drop_bit 2 (type_word c m AND 0x3e00) OR drop_bit 1 (type_word c m AND 0x00e0)
    OR (type_word c m AND 0x000f) = m"
proof (rule bit_word_eqI)
  fix n assume "n < LENGTH(16)"
  then have n: "n < 16" by simp
  have hi: "\<not> bit m n" if "12 \<le> n" using method_bits [OF m, of n] that by auto
  show "bit (drop_bit 2 (type_word c m AND 0x3e00) OR drop_bit 1 (type_word c m AND 0x00e0)
    OR (type_word c m AND 0x000f)) n = bit m n"
    using nat16_cases [OF n] hi by (elim insertE) (simp add: bit_simps bit_type_word)+
qed

lemma type_word_class:
  "drop_bit 7 (type_word c m AND 0x0100) OR drop_bit 4 (type_word c m AND 0x0010) = class_val c"
proof (rule bit_word_eqI)
  fix n assume "n < LENGTH(16)"
  then have n: "n < 16" by simp
  show "bit (drop_bit 7 (type_word c m AND 0x0100) OR drop_bit 4 (type_word c m AND 0x0010)) n
      = bit (class_val c) n"
    using nat16_cases [OF n] by (elim insertE) (cases c; simp add: bit_simps bit_type_word)+
qed

text \<open>The effect of \<^verbatim>\<open>stun_message_init\<close> on a buffer with room for the header.\<close>

lemma stun_message_init_buffer:
  assumes "20 \<le> length (buffer msg)" "buffer_len msg = length (buffer msg)" "length tid = 16"
  shows "stun_message_init msg c m tid = Some (True, msg\<lparr>buffer :=
      [ucast (drop_bit 1 (class_val c) OR (drop_bit 6 m AND 0x3e)),
       ucast ((push_bit 4 (class_val c) AND 0x10) OR (push_bit 1 m AND 0xe0) OR (m AND 0x0f)), 0, 0]
      @ tid @ drop 20 (buffer msg)\<rparr>)"
proof -
  have "buffer msg = take 4 (buffer msg) @ drop 4 (buffer msg)" by simp
  then have "mem_write (buffer msg) 0 (replicate 4 0) = Some ([0, 0, 0, 0] @ drop 4 (buffer msg))"
    using assms(1) by (simp add: mem_write_def numeral_eq_Suc)
  moreover have "mem_read tid 0 16 = Some tid" using assms(3) by (simp add: mem_read_def)
  ultimately show ?thesis
    using assms by (simp add: stun_message_init_def stun_set_type_bytes mem_write_def)
qed

lemma type_byte_high: "drop_bit 6 (ucast (drop_bit 1 (class_val c) OR (drop_bit 6 m AND 0x3e)) :: u8) = 0"
proof (rule bit_word_eqI)
  fix n assume "n < LENGTH(8)"
  then have "n \<in> {0, 1, 2, 3, 4, 5, 6, 7}" by (simp only: insert_iff empty_iff len_num0 len_bit0 len_num1) presburger
  then show "bit (drop_bit 6 (ucast (drop_bit 1 (class_val c) OR (drop_bit 6 m AND 0x3e)) :: u8)) n = bit (0 :: u8) n"
    by (elim insertE; cases c) (simp_all add: bit_simps)
qed

lemma stun_message_init_facts:
  assumes "20 \<le> length (buffer msg)" "buffer_len msg = length (buffer msg)" "length tid = 16" and m: "m < 0x1000"
  obtains b where "stun_message_init msg c m tid = Some (True, msg\<lparr>buffer := b\<rparr>)"
    "length b = length (buffer msg)" "take 16 (drop 4 b) = tid" "drop_bit 6 (b ! 0) = 0"
    "message_end (msg\<lparr>buffer := b\<rparr>) = 20" "message_attrs (msg\<lparr>buffer := b\<rparr>) = Some []"
    "stun_message_id (msg\<lparr>buffer := b\<rparr>) = Some tid"
    "type_word c m \<noteq> 0x0115 \<longrightarrow> stun_message_get_class (msg\<lparr>buffer := b\<rparr>) = Some c
       \<and> stun_message_get_method (msg\<lparr>buffer := b\<rparr>) = Some m"
proof -
  let ?t = "[ucast (drop_bit 1 (class_val c) OR (drop_bit 6 m AND 0x3e)),
       ucast ((push_bit 4 (class_val c) AND 0x10) OR (push_bit 1 m AND 0xe0) OR (m AND 0x0f))] :: bytes"
  let ?b = "?t @ [0, 0] @ tid @ drop 20 (buffer msg)"
  have init: "stun_message_init msg c m tid = Some (True, msg\<lparr>buffer := ?b\<rparr>)"
    using stun_message_init_buffer [OF assms(1-3)] by simp
  have len: "length ?b = length (buffer msg)" using assms(1,3) by simp
  have w: "stun_getw ?b 2 = Some 0" by (simp add: stun_getw_def rd8_def)
  then have e: "message_end (msg\<lparr>buffer := ?b\<rparr>) = 20" by (simp add: message_end_def)
  have a: "message_attrs (msg\<lparr>buffer := ?b\<rparr>) = Some []"
    using e len assms(1,2) by (simp add: message_attrs_def attr_list.simps)
  have i: "stun_message_id (msg\<lparr>buffer := ?b\<rparr>) = Some tid" "take 16 (drop 4 ?b) = tid"
    using assms(3) by (simp_all add: stun_message_id_def mem_read_def)
  have "stun_getw ?b 0 = Some (type_word c m)"
    by (simp add: stun_getw_def rd8_def type_word_def)
  then have "stun_message_get_class (msg\<lparr>buffer := ?b\<rparr>) = Some c
      \<and> stun_message_get_method (msg\<lparr>buffer := ?b\<rparr>) = Some m" if "type_word c m \<noteq> 0x0115"
    using that type_word_class [of c m] type_word_method [OF m, of c]
    by (simp add: stun_message_get_class_def stun_message_get_method_def stun_message_type_def)
  moreover have "drop_bit 6 (?b ! 0) = 0" using type_byte_high [of c m] by simp
  ultimately show thesis using that [OF init len i(2)] e a i(1) by blast
qed

text \<open>C25: initialising a message in a buffer that holds at least a header succeeds and gives a
  well-formed message without attributes that carries the transaction id; the class and the method
  read back are the ones written, unless the two together are the message type 0x0115, which the
  readers take for an old indication.\<close>

theorem stun_message_init_ok:
  assumes "20 \<le> length (buffer msg)" "buffer_len msg = length (buffer msg)" "length tid = 16"
    and "m < 0x1000"
  shows "\<exists>msg'. stun_message_init msg c m tid = Some (True, msg')
    \<and> message_attrs msg' = Some [] \<and> stun_message_id msg' = Some tid
    \<and> (type_word c m \<noteq> 0x0115 \<longrightarrow>
        stun_message_get_class msg' = Some c \<and> stun_message_get_method msg' = Some m)"
  by (rule stun_message_init_facts [OF assms, of c]) blast

theorem stun_message_init_ok_witness:
  "\<exists>msg'. stun_message_init example_message STUN_RESPONSE 0x003 (replicate 16 9) = Some (True, msg')
    \<and> message_attrs msg' = Some [] \<and> stun_message_id msg' = Some (replicate 16 9)
    \<and> stun_message_get_class msg' = Some STUN_RESPONSE \<and> stun_message_get_method msg' = Some 0x003"
proof -
  have "type_word STUN_RESPONSE 0x003 \<noteq> 0x0115" by (simp add: type_word_def)
  then show ?thesis
    using stun_message_init_ok [of example_message "replicate 16 9" "0x003" STUN_RESPONSE]
    by (simp add: example_message_def)
qed

end
