(* ===== verification/Stun_Crc32.thy ===== *)
theory Stun_Crc32
  imports Nice_Prelude
begin

text \<open>
  The CRC-32 of \<^verbatim>\<open>stun/stuncrc32.c\<close>: the 256-entry table as the source has it, the loop over a
  vector of buffers, the one-entry defect that Windows Live Messenger 2009 compatibility needs, and
  the proof that the table-driven loop computes the reflected CRC of polynomial 0xedb88320 bit by
  bit.
\<close>

section \<open>The code\<close>

definition crc32_tab :: "u32 list" where
  "crc32_tab =
  [0x00000000, 0x77073096, 0xee0e612c, 0x990951ba, 0x076dc419, 0x706af48f,
   0xe963a535, 0x9e6495a3, 0x0edb8832, 0x79dcb8a4, 0xe0d5e91e, 0x97d2d988,
   0x09b64c2b, 0x7eb17cbd, 0xe7b82d07, 0x90bf1d91, 0x1db71064, 0x6ab020f2,
   0xf3b97148, 0x84be41de, 0x1adad47d, 0x6ddde4eb, 0xf4d4b551, 0x83d385c7,
   0x136c9856, 0x646ba8c0, 0xfd62f97a, 0x8a65c9ec, 0x14015c4f, 0x63066cd9,
   0xfa0f3d63, 0x8d080df5, 0x3b6e20c8, 0x4c69105e, 0xd56041e4, 0xa2677172,
   0x3c03e4d1, 0x4b04d447, 0xd20d85fd, 0xa50ab56b, 0x35b5a8fa, 0x42b2986c,
   0xdbbbc9d6, 0xacbcf940, 0x32d86ce3, 0x45df5c75, 0xdcd60dcf, 0xabd13d59,
   0x26d930ac, 0x51de003a, 0xc8d75180, 0xbfd06116, 0x21b4f4b5, 0x56b3c423,
   0xcfba9599, 0xb8bda50f, 0x2802b89e, 0x5f058808, 0xc60cd9b2, 0xb10be924,
   0x2f6f7c87, 0x58684c11, 0xc1611dab, 0xb6662d3d, 0x76dc4190, 0x01db7106,
   0x98d220bc, 0xefd5102a, 0x71b18589, 0x06b6b51f, 0x9fbfe4a5, 0xe8b8d433,
   0x7807c9a2, 0x0f00f934, 0x9609a88e, 0xe10e9818, 0x7f6a0dbb, 0x086d3d2d,
   0x91646c97, 0xe6635c01, 0x6b6b51f4, 0x1c6c6162, 0x856530d8, 0xf262004e,
   0x6c0695ed, 0x1b01a57b, 0x8208f4c1, 0xf50fc457, 0x65b0d9c6, 0x12b7e950,
   0x8bbeb8ea, 0xfcb9887c, 0x62dd1ddf, 0x15da2d49, 0x8cd37cf3, 0xfbd44c65,
   0x4db26158, 0x3ab551ce, 0xa3bc0074, 0xd4bb30e2, 0x4adfa541, 0x3dd895d7,
   0xa4d1c46d, 0xd3d6f4fb, 0x4369e96a, 0x346ed9fc, 0xad678846, 0xda60b8d0,
   0x44042d73, 0x33031de5, 0xaa0a4c5f, 0xdd0d7cc9, 0x5005713c, 0x270241aa,
   0xbe0b1010, 0xc90c2086, 0x5768b525, 0x206f85b3, 0xb966d409, 0xce61e49f,
   0x5edef90e, 0x29d9c998, 0xb0d09822, 0xc7d7a8b4, 0x59b33d17, 0x2eb40d81,
   0xb7bd5c3b, 0xc0ba6cad, 0xedb88320, 0x9abfb3b6, 0x03b6e20c, 0x74b1d29a,
   0xead54739, 0x9dd277af, 0x04db2615, 0x73dc1683, 0xe3630b12, 0x94643b84,
   0x0d6d6a3e, 0x7a6a5aa8, 0xe40ecf0b, 0x9309ff9d, 0x0a00ae27, 0x7d079eb1,
   0xf00f9344, 0x8708a3d2, 0x1e01f268, 0x6906c2fe, 0xf762575d, 0x806567cb,
   0x196c3671, 0x6e6b06e7, 0xfed41b76, 0x89d32be0, 0x10da7a5a, 0x67dd4acc,
   0xf9b9df6f, 0x8ebeeff9, 0x17b7be43, 0x60b08ed5, 0xd6d6a3e8, 0xa1d1937e,
   0x38d8c2c4, 0x4fdff252, 0xd1bb67f1, 0xa6bc5767, 0x3fb506dd, 0x48b2364b,
   0xd80d2bda, 0xaf0a1b4c, 0x36034af6, 0x41047a60, 0xdf60efc3, 0xa867df55,
   0x316e8eef, 0x4669be79, 0xcb61b38c, 0xbc66831a, 0x256fd2a0, 0x5268e236,
   0xcc0c7795, 0xbb0b4703, 0x220216b9, 0x5505262f, 0xc5ba3bbe, 0xb2bd0b28,
   0x2bb45a92, 0x5cb36a04, 0xc2d7ffa7, 0xb5d0cf31, 0x2cd99e8b, 0x5bdeae1d,
   0x9b64c2b0, 0xec63f226, 0x756aa39c, 0x026d930a, 0x9c0906a9, 0xeb0e363f,
   0x72076785, 0x05005713, 0x95bf4a82, 0xe2b87a14, 0x7bb12bae, 0x0cb61b38,
   0x92d28e9b, 0xe5d5be0d, 0x7cdcefb7, 0x0bdbdf21, 0x86d3d2d4, 0xf1d4e242,
   0x68ddb3f8, 0x1fda836e, 0x81be16cd, 0xf6b9265b, 0x6fb077e1, 0x18b74777,
   0x88085ae6, 0xff0f6a70, 0x66063bca, 0x11010b5c, 0x8f659eff, 0xf862ae69,
   0x616bffd3, 0x166ccf45, 0xa00ae278, 0xd70dd2ee, 0x4e048354, 0x3903b3c2,
   0xa7672661, 0xd06016f7, 0x4969474d, 0x3e6e77db, 0xaed16a4a, 0xd9d65adc,
   0x40df0b66, 0x37d83bf0, 0xa9bcae53, 0xdebb9ec5, 0x47b2cf7f, 0x30b5ffe9,
   0xbdbdf21c, 0xcabac28a, 0x53b39330, 0x24b4a3a6, 0xbad03605, 0xcdd70693,
   0x54de5729, 0x23d967bf, 0xb3667a2e, 0xc4614ab8, 0x5d681b02, 0x2a6f2b94,
   0xb40bbe37, 0xc30c8ea1, 0x5a05df1b, 0x2d02ef8d]"

text \<open>One iteration of the inner loop: table lookup, the optional typo, shift.\<close>

definition crc32_step :: "bool \<Rightarrow> u32 \<Rightarrow> u8 \<Rightarrow> u32" where
  "crc32_step wlm2009_stupid_crc32_typo crc p =
     (let lkp = crc32_tab ! unat ((crc XOR ucast p) AND 0xFF);
          lkp = (if lkp = 0x8bbeb8ea \<and> wlm2009_stupid_crc32_typo then 0x8bbe8ea else lkp)
      in lkp XOR drop_bit 8 crc)"

fun crc32_buf :: "bool \<Rightarrow> u32 \<Rightarrow> bytes \<Rightarrow> u32" where
  "crc32_buf typo crc [] = crc"
| "crc32_buf typo crc (p # ps) = crc32_buf typo (crc32_step typo crc p) ps"

fun crc32_vec :: "bool \<Rightarrow> u32 \<Rightarrow> bytes list \<Rightarrow> u32" where
  "crc32_vec typo crc [] = crc"
| "crc32_vec typo crc (b # bs) = crc32_vec typo (crc32_buf typo crc b) bs"

definition stun_crc32 :: "bytes list \<Rightarrow> bool \<Rightarrow> u32" where
  "stun_crc32 data wlm2009_stupid_crc32_typo =
     crc32_vec wlm2009_stupid_crc32_typo 0xffffffff data XOR 0xffffffff"

section \<open>The reference: one bit at a time\<close>

definition crc_shift1 :: "u32 \<Rightarrow> u32" where
  "crc_shift1 c = (if bit c 0 then drop_bit 1 c XOR 0xedb88320 else drop_bit 1 c)"

definition crc_bitwise_byte :: "u32 \<Rightarrow> u8 \<Rightarrow> u32" where
  "crc_bitwise_byte c p = (crc_shift1 ^^ 8) (c XOR ucast p)"

definition crc32_spec :: "bytes \<Rightarrow> u32" where
  "crc32_spec bs = foldl crc_bitwise_byte 0xffffffff bs XOR 0xffffffff"

section \<open>The table holds eight shifts of its index\<close>

lemma crc32_tab_length [simp]: "length crc32_tab = 256"
  by (simp add: crc32_tab_def)

lemma crc_shift1_xor: "crc_shift1 (a XOR b) = crc_shift1 a XOR crc_shift1 b"
  by (rule bit_word_eqI) (auto simp: crc_shift1_def bit_xor_iff bit_simps)

lemma crc_shift1_pow_xor: "(crc_shift1 ^^ n) (a XOR b) = (crc_shift1 ^^ n) a XOR (crc_shift1 ^^ n) b"
  by (induction n) (simp_all add: crc_shift1_xor)

lemma crc_shift1_push:
  assumes "\<And>i. bit y i \<Longrightarrow> i + Suc k < 32"
  shows "crc_shift1 (push_bit (Suc k) y) = push_bit k y"
proof -
  have "\<not> bit (push_bit (Suc k) y) 0" by (subst bit_push_bit_iff) simp
  then have "crc_shift1 (push_bit (Suc k) y) = drop_bit 1 (push_bit (Suc k) y)"
    by (simp add: crc_shift1_def)
  also have "\<dots> = push_bit k y"
    using assms [of "_ - k"]
    by (intro bit_word_eqI) (fastforce simp: bit_simps Suc_diff_le simp del: push_bit_Suc)
  finally show ?thesis .
qed

lemma crc_shift1_pow_push:
  assumes "\<And>i. bit y i \<Longrightarrow> i + k < 32"
  shows "(crc_shift1 ^^ k) (push_bit k y) = y"
  using assms
proof (induction k)
  case (Suc k)
  have "crc_shift1 (push_bit (Suc k) y) = push_bit k y"
    by (rule crc_shift1_push) (rule Suc.prems)
  moreover have "(crc_shift1 ^^ k) (push_bit k y) = y"
    using Suc.prems by (intro Suc.IH) fastforce
  ultimately show ?case by (simp only: funpow_Suc_right o_apply)
qed simp

fun crc_table :: "nat \<Rightarrow> u32 list" where
  "crc_table 0 = [0]"
| "crc_table (Suc k) =
     crc_table k @ map (\<lambda>x. x XOR (crc_shift1 ^^ 8) (push_bit k 1)) (crc_table k)"

lemma crc_shift1_values:
  "crc_shift1 1 = 0xedb88320"
  "crc_shift1 0xedb88320 = 0x76dc4190"
  "crc_shift1 0x76dc4190 = 0x3b6e20c8"
  "crc_shift1 0x3b6e20c8 = 0x1db71064"
  "crc_shift1 0x1db71064 = 0x0edb8832"
  "crc_shift1 0x0edb8832 = 0x076dc419"
  "crc_shift1 0x076dc419 = 0xee0e612c"
  "crc_shift1 0xee0e612c = 0x77073096"
  by (simp_all add: crc_shift1_def)
lemma crc_shift1_pows:
  "crc_shift1 2 = 1" "crc_shift1 4 = 2" "crc_shift1 8 = 4" "crc_shift1 16 = 8"
  "crc_shift1 32 = 16" "crc_shift1 64 = 32" "crc_shift1 128 = 64"
  by (simp_all add: crc_shift1_def)

lemma funpow8: "(f ^^ 8) x = f (f (f (f (f (f (f (f x)))))))"
  by (simp add: numeral_eq_Suc)
text \<open>The table of the source, all 256 entries, is the doubling construction's result.\<close>

lemma crc_table_8: "crc32_tab = crc_table 8"
  unfolding crc32_tab_def
  by (simp add: numeral_nat(2) funpow8 crc_shift1_values crc_shift1_pows push_bit_eq_mult eval_nat_numeral(3) )

lemma word_of_nat_add_pow2:
  assumes "i < 2 ^ k" "k < 32"
  shows "(word_of_nat (i + 2 ^ k) :: u32) = word_of_nat i XOR push_bit k 1"
proof -
  have "(word_of_nat i :: u32) AND push_bit k 1 = 0"
    using assms by (intro bit_word_eqI)
      (auto simp: bit_simps bit_nat_def dest: div_less)
  then have "word_of_nat i + push_bit k (1 :: u32) = word_of_nat i XOR push_bit k 1"
    by (rule disjunctive_add_eq_xor)
  then show ?thesis by (simp add: push_bit_eq_mult add.commute)
qed

lemma crc_table_shifts:
  "k \<le> 8 \<Longrightarrow> crc_table k = map (\<lambda>i. (crc_shift1 ^^ 8) (word_of_nat i)) [0..<2 ^ k]"
proof (induction k)
  case 0
  have "crc_shift1 0 = 0" by (simp add: crc_shift1_def)
  then show ?case by (simp add: funpow8)
next
  case (Suc k)
  have "[0..<2 ^ Suc k] = [0..<2 ^ k] @ map (\<lambda>i. i + 2 ^ k) [0..<2 ^ k]"
    by (simp add: mult_2 upt_add_eq_append [OF le0] map_add_upt)
  moreover have "(crc_shift1 ^^ 8) (word_of_nat (i + 2 ^ k)) =
      (crc_shift1 ^^ 8) (word_of_nat i) XOR (crc_shift1 ^^ 8) (push_bit k 1)"
    if "i < 2 ^ k" for i
    using word_of_nat_add_pow2 [OF that] Suc.prems by (simp add: crc_shift1_pow_xor)
  ultimately show ?case using Suc by simp
qed

lemma crc32_tab_nth:
  "i < 256 \<Longrightarrow> crc32_tab ! i = (crc_shift1 ^^ 8) (word_of_nat i)"
  using crc_table_shifts [of 8] by (simp add: crc_table_8)

lemma low_byte_split:
  fixes c :: u32
  shows "c = (c AND 0xFF) XOR push_bit 8 (drop_bit 8 c)"
proof -
  have m: "(0xFF :: u32) = mask 8" by (simp add: mask_numeral)
  show ?thesis unfolding m by (rule bit_word_eqI) (auto simp: bit_simps)
qed

lemma low_byte_bound: "unat ((c :: u32) AND 0xFF) < 256"
  using word_and_le1 [where y = c and a = "0xFF"] by (simp add: word_le_nat_alt)

lemma crc32_step_bitwise: "crc32_step False crc p = crc_bitwise_byte crc p"
proof -
  let ?c = "crc XOR ucast p"
  have hi: "drop_bit 8 ?c = drop_bit 8 crc"
    by (rule bit_word_eqI) (auto simp: bit_simps dest: bit_imp_le_length)
  have "(crc_shift1 ^^ 8) (push_bit 8 (drop_bit 8 ?c)) = drop_bit 8 ?c"
    by (rule crc_shift1_pow_push) (auto simp: bit_simps dest: bit_imp_le_length)
  then have "(crc_shift1 ^^ 8) ?c = (crc_shift1 ^^ 8) (?c AND 0xFF) XOR drop_bit 8 crc"
    by (metis low_byte_split crc_shift1_pow_xor hi)
  then show ?thesis
    by (simp add: crc32_step_def crc_bitwise_byte_def crc32_tab_nth low_byte_bound)
qed

lemma crc32_buf_foldl: "crc32_buf t c bs = foldl (crc32_step t) c bs"
  by (induction bs arbitrary: c) simp_all

lemma crc32_vec_concat: "crc32_vec t c bss = crc32_buf t c (concat bss)"
  by (induction bss arbitrary: c) (simp_all add: crc32_buf_foldl)

text \<open>C16: the table-driven checksum over a vector of buffers is the bit-at-a-time CRC-32 (reflected
  polynomial \<open>0xedb88320\<close>) of their concatenation: all 256 entries of the table are right, and how the
  data is cut into buffers does not matter.\<close>

theorem stun_crc32_spec: "stun_crc32 data False = crc32_spec (concat data)"
proof -
  have "crc32_step False = crc_bitwise_byte"
    by (intro ext) (rule crc32_step_bitwise)
  then show ?thesis
    by (simp add: stun_crc32_def crc32_spec_def crc32_vec_concat crc32_buf_foldl)
qed

lemma stun_crc32_concat: "concat data = concat data' \<Longrightarrow> stun_crc32 data t = stun_crc32 data' t"
  by (simp add: stun_crc32_def crc32_vec_concat)

end
