(* ===== verification/Stun_Agent.thy ===== *)
theory Stun_Agent
  imports Stun_Validation Stun_Crc32
begin

text \<open>
  \<^verbatim>\<open>stun/stun5389.c\<close>, \<^verbatim>\<open>stun/stunhmac.c\<close> and \<^verbatim>\<open>stun/stunagent.c\<close>: the STUN agent, which builds and
  authenticates messages and remembers the requests it has sent.

  The digest functions of GnuTLS are parameters: \<open>hmac key data\<close> is HMAC-SHA1 (20 bytes) and
  \<open>md5 data\<close> is MD5 (16 bytes). The random transaction id, the credential callback and the package
  string of the build are arguments of the functions that use them.
\<close>

section \<open>stun5389.c\<close>

definition utf8_skip_data :: "nat list" where
  "utf8_skip_data = replicate 192 1 @ replicate 32 2 @ replicate 16 3 @ replicate 8 4
     @ replicate 4 5 @ [6, 6, 1, 1]"

definition stun_fingerprint :: "bytes \<Rightarrow> nat \<Rightarrow> bool \<Rightarrow> u32 option" where
  "stun_fingerprint msg len typo =
     (if len < 12 then None
      else do {
        d0 \<leftarrow> mem_read msg 0 2;
        let d1 = le16 (htons (word_of_nat len - 20));
        d2 \<leftarrow> mem_read msg 4 (len - 12);
        Some (htonl (stun_crc32 [d0, d1, d2] typo XOR 0x5354554e))
      })"

text \<open>The loop over the characters of a NUL-terminated string.\<close>

function skip_chars :: "bytes \<Rightarrow> nat \<Rightarrow> nat \<Rightarrow> nat option" where
  "skip_chars s ptr len = do {
     c \<leftarrow> rd8 s ptr;
     if c \<noteq> 0 \<and> len < 128
     then skip_chars s (ptr + utf8_skip_data ! unat c) (len + 1)
     else Some ptr
   }"
  by pat_completeness auto
termination
  by (relation "measure (\<lambda>(s, ptr, len). 128 - len)") auto

declare skip_chars.simps [simp del]

definition stun_message_append_software ::
  "bytes \<Rightarrow> stun_message \<Rightarrow> bytes option \<Rightarrow> (StunMessageReturn \<times> stun_message) option" where
  "stun_message_append_software package_string msg software = do {
     let software = (case software of None \<Rightarrow> package_string | Some s \<Rightarrow> s);
     n \<leftarrow> skip_chars software 0 0;
     s \<leftarrow> mem_read software 0 n;
     stun_message_append_bytes msg STUN_ATTRIBUTE_SOFTWARE s
   }"

section \<open>stunhmac.c\<close>

type_synonym hmac_fun = "bytes \<Rightarrow> bytes \<Rightarrow> bytes"

definition stun_sha1 ::
  "hmac_fun \<Rightarrow> bytes \<Rightarrow> nat \<Rightarrow> u16 \<Rightarrow> bytes \<Rightarrow> bool \<Rightarrow> bytes option" where
  "stun_sha1 hmac msg len msg_len k padding = do {
     let fakelen = le16 (htons msg_len);
     c_assert (len \<ge> 44);
     d0 \<leftarrow> mem_read msg 0 2;
     d2 \<leftarrow> mem_read msg 4 (len - 28);
     let pad = (if padding \<and> (len - 24) mod 64 > 0 then replicate (64 - (len - 24) mod 64) 0 else []);
     Some (hmac k (d0 @ fakelen @ d2 @ pad))
   }"

text \<open>
  The two loops of \<^verbatim>\<open>priv_trim_var\<close> on a variable at address \<open>p\<close> of a buffer. The length is a
  \<^verbatim>\<open>size_t\<close> that the loops decrement without looking at it; the address of the byte they read is the
  same as with an unbounded length, which is why it is an \<open>int\<close> here.
\<close>

function trim_left :: "bytes \<Rightarrow> nat \<Rightarrow> int \<Rightarrow> (nat \<times> int) option" where
  "trim_left b p var_len =
     (if p < length b then
        if b ! p = 0x22 then trim_left b (p + 1) (var_len - 1) else Some (p, var_len)
      else None)"
  by pat_completeness auto
termination
  by (relation "measure (\<lambda>(b, p, n). length b - p)") auto

function trim_right :: "bytes \<Rightarrow> nat \<Rightarrow> int \<Rightarrow> int option" where
  "trim_right b p var_len =
     (let i = int p + var_len - 1 in
      if 0 \<le> i \<and> i < int (length b) then
        if b ! nat i = 0x22 \<or> b ! nat i = 0 then trim_right b p (var_len - 1) else Some var_len
      else None)"
  by pat_completeness auto
termination
  by (relation "measure (\<lambda>(b, p, n). nat (int p + n))") auto

declare trim_left.simps [simp del] trim_right.simps [simp del]

definition priv_trim_var :: "bytes \<Rightarrow> nat \<Rightarrow> nat \<Rightarrow> (nat \<times> int) option" where
  "priv_trim_var b p var_len = do {
     (p, n) \<leftarrow> trim_left b p (int var_len);
     n \<leftarrow> trim_right b p n;
     Some (p, n)
   }"

text \<open>The trimmed bytes that are hashed; a negative length is a huge one.\<close>

definition trimmed :: "bytes \<Rightarrow> nat \<Rightarrow> nat \<Rightarrow> bytes option" where
  "trimmed b p var_len = do {
     (p, n) \<leftarrow> priv_trim_var b p var_len;
     if n < 0 then None else mem_read b p (nat n)
   }"

definition stun_hash_creds ::
  "(bytes \<Rightarrow> bytes) \<Rightarrow> bytes \<Rightarrow> nat \<times> nat \<Rightarrow> nat \<times> nat \<Rightarrow> bytes \<Rightarrow> bytes option" where
  "stun_hash_creds md5 b realm username password = do {
     u \<leftarrow> trimmed b (fst username) (snd username);
     p \<leftarrow> trimmed password 0 (length password);
     r \<leftarrow> trimmed b (fst realm) (snd realm);
     Some (md5 (u @ [0x3a] @ r @ [0x3a] @ p))
   }"

section \<open>stunagent.c\<close>

datatype StunValidationStatus =
    STUN_VALIDATION_SUCCESS
  | STUN_VALIDATION_NOT_STUN
  | STUN_VALIDATION_INCOMPLETE_STUN
  | STUN_VALIDATION_BAD_REQUEST
  | STUN_VALIDATION_UNAUTHORIZED_BAD_REQUEST
  | STUN_VALIDATION_UNAUTHORIZED
  | STUN_VALIDATION_UNMATCHED_RESPONSE
  | STUN_VALIDATION_UNKNOWN_REQUEST_ATTRIBUTE
  | STUN_VALIDATION_UNKNOWN_ATTRIBUTE

definition empty_saved_id :: stun_saved_id where
  "empty_saved_id = \<lparr>sid_id = replicate 16 0, sid_method = 0, sid_key = None,
     sid_long_term_key = replicate 16 0, sid_long_term_valid = False, sid_valid = False\<rparr>"

definition stun_agent_init :: "u16 list \<Rightarrow> StunCompatibility \<Rightarrow> u32 \<Rightarrow> stun_agent" where
  "stun_agent_init known cmpt flags =
     \<lparr>compatibility = cmpt, usage_flags = flags,
      sent_ids = replicate STUN_AGENT_MAX_SAVED_IDS empty_saved_id, known_attributes = known,
      software_attribute = None,
      ms_ice2_send_legacy_connchecks = (cmpt = STUN_COMPATIBILITY_MSICE2)\<rparr>"

definition agent_cfg :: "stun_agent \<Rightarrow> stun_agent_cfg" where
  "agent_cfg a = \<lparr>compatibility = compatibility a, usage_flags = usage_flags a\<rparr>"

text \<open>The compatibilities with a magic cookie.\<close>

definition cookie_compat :: "stun_agent \<Rightarrow> bool" where
  "cookie_compat a = (compatibility a = STUN_COMPATIBILITY_RFC5389
     \<or> compatibility a = STUN_COMPATIBILITY_MSICE2)"

record StunDefaultValidaterData =
  dv_username :: bytes
  dv_password :: bytes

text \<open>A credential callback: the user name (or the null pointer) and the key so far, and the key it
  leaves when it returns true.\<close>

type_synonym validater = "stun_agent \<Rightarrow> stun_message \<Rightarrow> bytes option \<Rightarrow> bytes option \<Rightarrow> bytes option option"

fun default_validater_loop :: "StunDefaultValidaterData list \<Rightarrow> bytes \<Rightarrow> bytes option option" where
  "default_validater_loop [] username = None"
| "default_validater_loop (v # val) username =
     (if username = dv_username v then Some (Some (dv_password v))
      else default_validater_loop val username)"

definition stun_agent_default_validater :: "StunDefaultValidaterData list \<Rightarrow> validater" where
  "stun_agent_default_validater val ag msg username k =
     default_validater_loop val (case username of None \<Rightarrow> [] | Some u \<Rightarrow> u)"

definition stun_agent_check_fingerprint :: "stun_agent \<Rightarrow> stun_message \<Rightarrow> bool option" where
  "stun_agent_check_fingerprint ag msg = do {
     r \<leftarrow> stun_message_find32 msg STUN_ATTRIBUTE_FINGERPRINT;
     case r of Inl _ \<Rightarrow> Some False
     | Inr fpr \<Rightarrow> do {
         msg_len \<leftarrow> stun_message_length msg;
         crc32 \<leftarrow> stun_fingerprint (buffer msg) (unat msg_len) False;
         let fpr = ntohl fpr;
         if fpr \<noteq> crc32 then
           if compatibility ag = STUN_COMPATIBILITY_MSICE2 then do {
             v \<leftarrow> stun_message_find msg STUN_ATTRIBUTE_MS_IMPLEMENTATION_VERSION;
             if v = None then do {
               typo \<leftarrow> stun_fingerprint (buffer msg) (unat msg_len) True;
               Some (fpr = typo)
             }
             else Some False
           }
           else Some False
         else Some True
       }
   }"

definition stun_agent_is_unknown :: "stun_agent \<Rightarrow> u16 \<Rightarrow> bool" where
  "stun_agent_is_unknown ag type = (type \<notin> set (known_attributes ag))"

text \<open>The loop of \<^verbatim>\<open>stun_agent_find_unknowns\<close>: the list it fills, in network byte order.\<close>

function find_unknowns_loop ::
  "stun_agent \<Rightarrow> bytes \<Rightarrow> nat \<Rightarrow> nat \<Rightarrow> nat \<Rightarrow> u16 list option" where
  "find_unknowns_loop ag b len offset mx =
     (if offset < len \<and> 0 < mx then do {
        alen \<leftarrow> stun_getw b (offset + STUN_ATTRIBUTE_TYPE_LEN);
        atype \<leftarrow> stun_getw b offset;
        let unknown = (\<not> stun_optional atype \<and> stun_agent_is_unknown ag atype);
        let next = offset + (STUN_ATTRIBUTE_VALUE_POS +
          (if has_flag ag STUN_AGENT_USAGE_NO_ALIGNED_ATTRIBUTES then unat alen
           else unat (stun_align (ucast alen))));
        rest \<leftarrow> find_unknowns_loop ag b len next (if unknown then mx - 1 else mx);
        Some (if unknown then htons atype # rest else rest)
      }
      else Some [])"
  by pat_completeness auto
termination
  by (relation "measure (\<lambda>(a, b, len, offset, mx). len - offset)") auto

declare find_unknowns_loop.simps [simp del]

definition stun_agent_find_unknowns :: "stun_agent \<Rightarrow> stun_message \<Rightarrow> nat \<Rightarrow> u16 list option" where
  "stun_agent_find_unknowns ag msg mx = do {
     len \<leftarrow> stun_message_length msg;
     find_unknowns_loop ag (buffer msg) (unat len) STUN_MESSAGE_ATTRIBUTES_POS mx
   }"

text \<open>The first saved id that satisfies a test; the loops over \<^verbatim>\<open>sent_ids\<close> stop there.\<close>

fun first_index :: "('a \<Rightarrow> bool) \<Rightarrow> 'a list \<Rightarrow> nat option" where
  "first_index P [] = None"
| "first_index P (x # xs) = (if P x then Some 0 else map_option Suc (first_index P xs))"

definition sent_id_matches :: "u16 \<Rightarrow> bytes \<Rightarrow> stun_saved_id \<Rightarrow> bool" where
  "sent_id_matches m tid s = (sid_valid s \<and> sid_method s = m \<and> sid_id s = tid)"

definition invalidate_id :: "stun_agent \<Rightarrow> nat \<Rightarrow> stun_agent" where
  "invalidate_id ag i = ag\<lparr>sent_ids := (sent_ids ag)[i := (sent_ids ag ! i)\<lparr>sid_valid := False\<rparr>]\<rparr>"

text \<open>The hash of the message up to a MESSAGE-INTEGRITY attribute at address \<open>off\<close>.\<close>

definition integrity_hash ::
  "hmac_fun \<Rightarrow> stun_agent \<Rightarrow> stun_message \<Rightarrow> nat \<Rightarrow> bytes \<Rightarrow> bytes option" where
  "integrity_hash hmac ag msg off k =
     (if compatibility ag = STUN_COMPATIBILITY_RFC3489 \<or> compatibility ag = STUN_COMPATIBILITY_OC2007
      then stun_sha1 hmac (buffer msg) (off + 20) (word_of_nat off) k True
      else if compatibility ag = STUN_COMPATIBILITY_MSICE2 then do {
        mlen \<leftarrow> stun_message_length msg;
        stun_sha1 hmac (buffer msg) (off + 20) (mlen - 20) k True
      }
      else stun_sha1 hmac (buffer msg) (off + 20) (word_of_nat off) k False)"

text \<open>The error codes whose responses carry no credentials.\<close>

definition error_code_in :: "(StunMessageReturn + nat) \<Rightarrow> nat list \<Rightarrow> bool" where
  "error_code_in r codes = (case r of Inl _ \<Rightarrow> False | Inr code \<Rightarrow> code \<in> set codes)"

text \<open>
  \<^verbatim>\<open>stun_agent_validate\<close>, in the stages of its body. The tests on attributes are evaluated before the
  conditions that use them, which is the same as the short-circuit evaluation of the source because
  they are defined on every validated message.
\<close>

definition validate_lookup :: "stun_agent \<Rightarrow> stun_message \<Rightarrow> StunClass \<Rightarrow> nat option option option" where
  "validate_lookup ag msg cls =
     (if cls = STUN_RESPONSE \<or> cls = STUN_ERROR then do {
        msg_id \<leftarrow> stun_message_id msg;
        m \<leftarrow> stun_message_get_method msg;
        Some (map_option Some (first_index (sent_id_matches m msg_id) (sent_ids ag)))
      }
      else Some (Some None))"

definition validate_ignore_credentials :: "stun_agent \<Rightarrow> stun_message \<Rightarrow> StunClass \<Rightarrow> bool option" where
  "validate_ignore_credentials ag msg cls = do {
     err \<leftarrow> stun_message_find_error msg;
     Some (has_flag ag STUN_AGENT_USAGE_IGNORE_CREDENTIALS
       \<or> cls = STUN_ERROR \<and> error_code_in err [400, 401, 438]
       \<or> cls = STUN_INDICATION \<and> (has_flag ag STUN_AGENT_USAGE_LONG_TERM_CREDENTIALS
                                \<or> has_flag ag STUN_AGENT_USAGE_NO_INDICATION_AUTH))
   }"

definition validate_missing_credentials :: "stun_agent \<Rightarrow> stun_message \<Rightarrow> StunClass \<Rightarrow> bool option" where
  "validate_missing_credentials ag msg cls = do {
     username \<leftarrow> stun_message_has_attribute msg STUN_ATTRIBUTE_USERNAME;
     integrity \<leftarrow> stun_message_has_attribute msg STUN_ATTRIBUTE_MESSAGE_INTEGRITY;
     nonce \<leftarrow> stun_message_has_attribute msg STUN_ATTRIBUTE_NONCE;
     realm \<leftarrow> stun_message_has_attribute msg STUN_ATTRIBUTE_REALM;
     Some ((cls = STUN_REQUEST \<or> cls = STUN_INDICATION) \<and>
       (has_flag ag STUN_AGENT_USAGE_SHORT_TERM_CREDENTIALS \<and> (\<not> username \<or> \<not> integrity)
        \<or> has_flag ag STUN_AGENT_USAGE_LONG_TERM_CREDENTIALS \<and> cls = STUN_REQUEST
          \<and> (\<not> username \<or> \<not> integrity \<or> \<not> nonce \<or> \<not> realm)
        \<or> \<not> has_flag ag STUN_AGENT_USAGE_IGNORE_CREDENTIALS \<and> username \<and> \<not> integrity))
   }"

text \<open>The bytes of an attribute that the credential callback gets a pointer to.\<close>

definition found_bytes :: "stun_message \<Rightarrow> u16 \<Rightarrow> bytes option option" where
  "found_bytes msg t = do {
     r \<leftarrow> stun_message_find msg t;
     case r of None \<Rightarrow> Some None
     | Some (off, l) \<Rightarrow> map_option Some (mem_read (buffer msg) off (unat l))
   }"

text \<open>The key of the hash: the saved or freshly hashed long-term key, or the short-term key itself; \<open>Inl\<close>
  the status to return.\<close>

definition validate_hash_key ::
  "(bytes \<Rightarrow> bytes) \<Rightarrow> stun_agent \<Rightarrow> stun_message \<Rightarrow> bytes \<Rightarrow> bytes option
   \<Rightarrow> (StunValidationStatus + bytes \<times> stun_message) option" where
  "validate_hash_key md5 ag msg k long_term =
     (if has_flag ag STUN_AGENT_USAGE_LONG_TERM_CREDENTIALS then
        (case long_term of
           Some ltk \<Rightarrow> Some (Inr (ltk, msg\<lparr>long_term_key := ltk, long_term_valid := True\<rparr>))
         | None \<Rightarrow> do {
             realm \<leftarrow> stun_message_find msg STUN_ATTRIBUTE_REALM;
             username \<leftarrow> stun_message_find msg STUN_ATTRIBUTE_USERNAME;
             case (username, realm) of
               (Some (u, ul), Some (r, rl)) \<Rightarrow> do {
                 d \<leftarrow> stun_hash_creds md5 (buffer msg) (r, unat rl) (u, unat ul) k;
                 Some (Inr (d, msg\<lparr>long_term_key := d, long_term_valid := True\<rparr>))
               }
             | _ \<Rightarrow> Some (Inl STUN_VALIDATION_UNAUTHORIZED)
           })
      else Some (Inr (k, msg)))"

text \<open>The check of the message integrity under a key: \<open>Inl\<close> the status to return, \<open>Inr\<close> the message to
  go on with.\<close>

definition validate_integrity ::
  "hmac_fun \<Rightarrow> (bytes \<Rightarrow> bytes) \<Rightarrow> stun_agent \<Rightarrow> stun_message \<Rightarrow> StunClass \<Rightarrow> bytes \<Rightarrow> bytes option
   \<Rightarrow> (StunValidationStatus \<times> stun_message + stun_message) option" where
  "validate_integrity hmac md5 ag msg cls k long_term = do {
     h \<leftarrow> stun_message_find msg STUN_ATTRIBUTE_MESSAGE_INTEGRITY;
     case h of
       Some (off, hlen) \<Rightarrow> do {
         sk \<leftarrow> validate_hash_key md5 ag msg k long_term;
         case sk of Inl st \<Rightarrow> Some (Inl (st, msg))
         | Inr (hkey, msg) \<Rightarrow> do {
             sha \<leftarrow> integrity_hash hmac ag msg off hkey;
             received \<leftarrow> mem_read (buffer msg) off 20;
             if sha \<noteq> received then Some (Inl (STUN_VALIDATION_UNAUTHORIZED, msg))
             else Some (Inr (msg\<lparr>key := Some k\<rparr>))
           }
       }
     | None \<Rightarrow> do {
         err \<leftarrow> stun_message_find_error msg;
         if \<not> (cls = STUN_ERROR \<and> error_code_in err [400, 401])
         then Some (Inl (STUN_VALIDATION_UNAUTHORIZED, msg))
         else Some (Inr msg)
       }
   }"

text \<open>The end of the function, once the credentials are accepted.\<close>

definition validate_accept ::
  "stun_agent \<Rightarrow> stun_message \<Rightarrow> StunClass \<Rightarrow> nat option
   \<Rightarrow> (StunValidationStatus \<times> stun_agent \<times> stun_message) option" where
  "validate_accept ag msg cls sent_id_idx = do {
     let ag = (case sent_id_idx of None \<Rightarrow> ag | Some i \<Rightarrow> invalidate_id ag i);
     v \<leftarrow> stun_message_find32 msg STUN_ATTRIBUTE_MS_IMPLEMENTATION_VERSION;
     let ag = (case v of Inr _ \<Rightarrow> ag\<lparr>ms_ice2_send_legacy_connchecks := False\<rparr> | Inl _ \<Rightarrow> ag);
     unknowns \<leftarrow> stun_agent_find_unknowns ag msg 1;
     Some (if length unknowns > 0
           then if cls = STUN_REQUEST then STUN_VALIDATION_UNKNOWN_REQUEST_ATTRIBUTE
                else STUN_VALIDATION_UNKNOWN_ATTRIBUTE
           else STUN_VALIDATION_SUCCESS, ag, msg)
   }"

definition validate_credentials ::
  "hmac_fun \<Rightarrow> (bytes \<Rightarrow> bytes) \<Rightarrow> stun_agent \<Rightarrow> stun_message \<Rightarrow> StunClass \<Rightarrow> nat option
   \<Rightarrow> validater option \<Rightarrow> (StunValidationStatus \<times> stun_agent \<times> stun_message) option" where
  "validate_credentials hmac md5 ag msg cls sent_id_idx vld = do {
     let k = (case sent_id_idx of None \<Rightarrow> None | Some i \<Rightarrow> sid_key (sent_ids ag ! i));
     let long_term = (case sent_id_idx of None \<Rightarrow> None
       | Some i \<Rightarrow> if sid_long_term_valid (sent_ids ag ! i)
                  then Some (sid_long_term_key (sent_ids ag ! i)) else None);
     ignore_credentials \<leftarrow> validate_ignore_credentials ag msg cls;
     missing \<leftarrow> validate_missing_credentials ag msg cls;
     if k = None \<and> \<not> ignore_credentials \<and> missing
     then Some (STUN_VALIDATION_UNAUTHORIZED_BAD_REQUEST, ag, msg)
     else do {
       integrity \<leftarrow> stun_message_has_attribute msg STUN_ATTRIBUTE_MESSAGE_INTEGRITY;
       k' \<leftarrow>
         (if integrity \<and> (k = None \<and> \<not> ignore_credentials
                          \<or> has_flag ag STUN_AGENT_USAGE_FORCE_VALIDATER)
          then do {
            username \<leftarrow> found_bytes msg STUN_ATTRIBUTE_USERNAME;
            Some (case vld of None \<Rightarrow> None | Some f \<Rightarrow> f ag msg username k)
          }
          else Some (Some k));
       case k' of None \<Rightarrow> Some (STUN_VALIDATION_UNAUTHORIZED, ag, msg)
       | Some k \<Rightarrow>
           (case k of
              Some kb \<Rightarrow>
                if \<not> ignore_credentials \<and> length kb > 0 then do {
                  r \<leftarrow> validate_integrity hmac md5 ag msg cls kb long_term;
                  case r of Inl (st, msg) \<Rightarrow> Some (st, ag, msg)
                  | Inr msg \<Rightarrow> validate_accept ag msg cls sent_id_idx
                }
                else validate_accept ag msg cls sent_id_idx
            | None \<Rightarrow> validate_accept ag msg cls sent_id_idx)
     }
   }"

text \<open>The message as it is set up for a received buffer, and the checks on it.\<close>

definition received_message :: "stun_agent \<Rightarrow> stun_message \<Rightarrow> bytes \<Rightarrow> stun_message" where
  "received_message ag msg b = msg\<lparr>buffer := b, buffer_len := length b, agent := Some (agent_cfg ag),
     key := None, long_term_valid := False\<rparr>"

definition validate_format :: "stun_agent \<Rightarrow> stun_message \<Rightarrow> bool option" where
  "validate_format ag msg = do {
     cookie \<leftarrow> stun_message_has_cookie msg;
     if cookie_compat ag \<and> \<not> cookie then Some False
     else if cookie_compat ag \<and> has_flag ag STUN_AGENT_USAGE_USE_FINGERPRINT
     then stun_agent_check_fingerprint ag msg
     else Some True
   }"

definition validate_received ::
  "hmac_fun \<Rightarrow> (bytes \<Rightarrow> bytes) \<Rightarrow> stun_agent \<Rightarrow> stun_message \<Rightarrow> validater option
   \<Rightarrow> (StunValidationStatus \<times> stun_agent \<times> stun_message) option" where
  "validate_received hmac md5 ag msg vld = do {
     ok \<leftarrow> validate_format ag msg;
     if \<not> ok then Some (STUN_VALIDATION_BAD_REQUEST, ag, msg)
     else do {
       cls \<leftarrow> stun_message_get_class msg;
       found \<leftarrow> validate_lookup ag msg cls;
       case found of None \<Rightarrow> Some (STUN_VALIDATION_UNMATCHED_RESPONSE, ag, msg)
       | Some sent_id_idx \<Rightarrow> validate_credentials hmac md5 ag msg cls sent_id_idx vld
     }
   }"

definition stun_agent_validate ::
  "hmac_fun \<Rightarrow> (bytes \<Rightarrow> bytes) \<Rightarrow> stun_agent \<Rightarrow> stun_message \<Rightarrow> bytes \<Rightarrow> validater option
   \<Rightarrow> (StunValidationStatus \<times> stun_agent \<times> stun_message) option" where
  "stun_agent_validate hmac md5 ag msg b vld = do {
     len \<leftarrow> stun_message_validate_buffer_length b (length b)
       (\<not> has_flag ag STUN_AGENT_USAGE_NO_ALIGNED_ATTRIBUTES);
     if len = STUN_MESSAGE_BUFFER_INVALID then Some (STUN_VALIDATION_NOT_STUN, ag, msg)
     else if len = STUN_MESSAGE_BUFFER_INCOMPLETE then Some (STUN_VALIDATION_INCOMPLETE_STUN, ag, msg)
     else if len \<noteq> int (length b) then Some (STUN_VALIDATION_NOT_STUN, ag, msg)
     else validate_received hmac md5 ag (received_message ag msg b) vld
   }"

definition stun_agent_forget_transaction :: "stun_agent \<Rightarrow> bytes \<Rightarrow> bool \<times> stun_agent" where
  "stun_agent_forget_transaction ag tid =
     (case first_index (\<lambda>s. sid_valid s \<and> sid_id s = tid) (sent_ids ag) of
        None \<Rightarrow> (False, ag) | Some i \<Rightarrow> (True, invalidate_id ag i))"

section \<open>Building messages\<close>

text \<open>The members that the init functions set in the message they are given.\<close>

definition fresh_message :: "stun_agent \<Rightarrow> stun_message \<Rightarrow> bytes \<Rightarrow> nat \<Rightarrow> stun_message" where
  "fresh_message ag msg b blen =
     msg\<lparr>buffer := b, buffer_len := blen, agent := Some (agent_cfg ag), key := None,
         long_term_valid := False\<rparr>"

definition put_cookie :: "stun_agent \<Rightarrow> stun_message \<Rightarrow> stun_message option" where
  "put_cookie ag msg =
     (if cookie_compat ag then do {
        b \<leftarrow> mem_write (buffer msg) STUN_MESSAGE_TRANS_ID_POS (le32 (htonl STUN_MAGIC_COOKIE));
        Some (msg\<lparr>buffer := b\<rparr>)
      }
      else Some msg)"

definition put_software :: "bytes \<Rightarrow> stun_agent \<Rightarrow> stun_message \<Rightarrow> stun_message option" where
  "put_software package_string ag msg =
     (if cookie_compat ag
         \<and> (software_attribute ag \<noteq> None \<or> has_flag ag STUN_AGENT_USAGE_ADD_SOFTWARE)
      then map_option snd (stun_message_append_software package_string msg (software_attribute ag))
      else Some msg)"

definition stun_agent_init_request ::
  "bytes \<Rightarrow> bytes \<Rightarrow> stun_agent \<Rightarrow> stun_message \<Rightarrow> bytes \<Rightarrow> nat \<Rightarrow> u16
   \<Rightarrow> (bool \<times> stun_message) option" where
  "stun_agent_init_request package_string tid ag msg b blen m = do {
     (ret, msg) \<leftarrow> stun_message_init (fresh_message ag msg b blen) STUN_REQUEST m tid;
     if ret then do {
       msg \<leftarrow> put_cookie ag msg;
       msg \<leftarrow> put_software package_string ag msg;
       Some (True, msg)
     }
     else Some (False, msg)
   }"

definition stun_agent_init_indication ::
  "bytes \<Rightarrow> stun_agent \<Rightarrow> stun_message \<Rightarrow> bytes \<Rightarrow> nat \<Rightarrow> u16 \<Rightarrow> (bool \<times> stun_message) option" where
  "stun_agent_init_indication tid ag msg b blen m = do {
     (ret, msg) \<leftarrow> stun_message_init (fresh_message ag msg b blen) STUN_INDICATION m tid;
     if ret then do {
       msg \<leftarrow> put_cookie ag msg;
       Some (True, msg)
     }
     else Some (False, msg)
   }"

text \<open>The members a response takes from its request.\<close>

definition reply_message ::
  "stun_agent \<Rightarrow> stun_message \<Rightarrow> bytes \<Rightarrow> nat \<Rightarrow> stun_message \<Rightarrow> stun_message" where
  "reply_message ag msg b blen request =
     msg\<lparr>buffer := b, buffer_len := blen, agent := Some (agent_cfg ag), key := key request,
         long_term_key := long_term_key request, long_term_valid := long_term_valid request\<rparr>"

definition stun_agent_init_response ::
  "bytes \<Rightarrow> stun_agent \<Rightarrow> stun_message \<Rightarrow> bytes \<Rightarrow> nat \<Rightarrow> stun_message
   \<Rightarrow> (bool \<times> stun_message) option" where
  "stun_agent_init_response package_string ag msg b blen request = do {
     cls \<leftarrow> stun_message_get_class request;
     if cls \<noteq> STUN_REQUEST then Some (False, msg)
     else do {
       tid \<leftarrow> stun_message_id request;
       m \<leftarrow> stun_message_get_method request;
       (ret, msg) \<leftarrow> stun_message_init (reply_message ag msg b blen request) STUN_RESPONSE m tid;
       if ret then do {
         msg \<leftarrow> put_software package_string ag msg;
         Some (True, msg)
       }
       else Some (False, msg)
     }
   }"

definition stun_agent_init_error ::
  "bytes \<Rightarrow> stun_agent \<Rightarrow> stun_message \<Rightarrow> bytes \<Rightarrow> nat \<Rightarrow> stun_message \<Rightarrow> nat
   \<Rightarrow> (bool \<times> stun_message) option" where
  "stun_agent_init_error package_string ag msg b blen request err = do {
     cls \<leftarrow> stun_message_get_class request;
     if cls \<noteq> STUN_REQUEST then Some (False, msg)
     else do {
       tid \<leftarrow> stun_message_id request;
       m \<leftarrow> stun_message_get_method request;
       (ret, msg) \<leftarrow> stun_message_init (reply_message ag msg b blen request) STUN_ERROR m tid;
       if ret then do {
         msg \<leftarrow> put_software package_string ag msg;
         (r, msg) \<leftarrow> stun_message_append_error msg err;
         Some (r = STUN_MESSAGE_RETURN_SUCCESS, msg)
       }
       else Some (False, msg)
     }
   }"

text \<open>
  \<^verbatim>\<open>stun_agent_finish_message\<close>, in the stages of its body: the slot for the transaction (\<open>None\<close> when the
  table is full), the MESSAGE-INTEGRITY attribute, the FINGERPRINT attribute. A stage returns
  \<open>(False, msg)\<close> where the function returns 0.
\<close>

definition finish_remember :: "stun_agent \<Rightarrow> stun_message \<Rightarrow> bool option" where
  "finish_remember ag msg = do {
     cls \<leftarrow> stun_message_get_class msg;
     m \<leftarrow> stun_message_get_method msg;
     Some (cls = STUN_REQUEST
       \<and> \<not> (compatibility ag = STUN_COMPATIBILITY_OC2007 \<and> m = STUN_SEND))
   }"

definition finish_credentials ::
  "(bytes \<Rightarrow> bytes) \<Rightarrow> stun_agent \<Rightarrow> stun_message \<Rightarrow> bytes \<Rightarrow> (bool \<times> stun_message) option" where
  "finish_credentials md5 ag msg k =
     (if long_term_valid msg then Some (False, msg)
      else if has_flag ag STUN_AGENT_USAGE_LONG_TERM_CREDENTIALS then do {
        realm \<leftarrow> stun_message_find msg STUN_ATTRIBUTE_REALM;
        username \<leftarrow> stun_message_find msg STUN_ATTRIBUTE_USERNAME;
        case (username, realm) of
          (Some (u, ul), Some (r, rl)) \<Rightarrow> do {
            d \<leftarrow> stun_hash_creds md5 (buffer msg) (r, unat rl) (u, unat ul) k;
            Some (False, msg\<lparr>long_term_key := d, long_term_valid := True\<rparr>)
          }
        | _ \<Rightarrow> Some (True, msg)
      }
      else Some (False, msg))"

definition finish_integrity ::
  "hmac_fun \<Rightarrow> (bytes \<Rightarrow> bytes) \<Rightarrow> stun_agent \<Rightarrow> stun_message \<Rightarrow> bytes option
   \<Rightarrow> (bool \<times> stun_message) option" where
  "finish_integrity hmac md5 ag msg k =
     (case k of None \<Rightarrow> Some (True, msg)
      | Some kb \<Rightarrow> do {
          (skip, msg) \<leftarrow> finish_credentials md5 ag msg kb;
          if skip then Some (True, msg)
          else do {
            (ptr, msg) \<leftarrow> stun_message_append msg STUN_ATTRIBUTE_MESSAGE_INTEGRITY 20;
            case ptr of None \<Rightarrow> Some (False, msg)
            | Some ptr \<Rightarrow> do {
                mlen \<leftarrow> stun_message_length msg;
                let hkey = (if has_flag ag STUN_AGENT_USAGE_LONG_TERM_CREDENTIALS
                            then long_term_key msg else kb);
                sha \<leftarrow>
                  (if compatibility ag = STUN_COMPATIBILITY_RFC3489
                      \<or> compatibility ag = STUN_COMPATIBILITY_OC2007
                   then stun_sha1 hmac (buffer msg) (unat mlen) (mlen - 20) hkey True
                   else if compatibility ag = STUN_COMPATIBILITY_MSICE2
                   then stun_sha1 hmac (buffer msg) (unat mlen)
                     (mlen - (if has_flag ag STUN_AGENT_USAGE_USE_FINGERPRINT then 12 else 20))
                     hkey True
                   else stun_sha1 hmac (buffer msg) (unat mlen) (mlen - 20) hkey False);
                b \<leftarrow> mem_write (buffer msg) ptr sha;
                Some (True, msg\<lparr>buffer := b\<rparr>)
              }
          }
        })"

definition finish_fingerprint :: "stun_agent \<Rightarrow> stun_message \<Rightarrow> (bool \<times> stun_message) option" where
  "finish_fingerprint ag msg =
     (if cookie_compat ag \<and> has_flag ag STUN_AGENT_USAGE_USE_FINGERPRINT then do {
        (ptr, msg) \<leftarrow> stun_message_append msg STUN_ATTRIBUTE_FINGERPRINT 4;
        case ptr of None \<Rightarrow> Some (False, msg)
        | Some ptr \<Rightarrow> do {
            mlen \<leftarrow> stun_message_length msg;
            fpr \<leftarrow> stun_fingerprint (buffer msg) (unat mlen) False;
            b \<leftarrow> mem_write (buffer msg) ptr (le32 fpr);
            Some (True, msg\<lparr>buffer := b\<rparr>)
          }
      }
      else Some (True, msg))"

definition finish_save ::
  "stun_agent \<Rightarrow> stun_message \<Rightarrow> nat \<Rightarrow> bytes option \<Rightarrow> stun_agent option" where
  "finish_save ag msg i k = do {
     tid \<leftarrow> stun_message_id msg;
     m \<leftarrow> stun_message_get_method msg;
     Some (ag\<lparr>sent_ids := (sent_ids ag)[i :=
       \<lparr>sid_id = tid, sid_method = m, sid_key = k, sid_long_term_key = long_term_key msg,
        sid_long_term_valid = long_term_valid msg, sid_valid = True\<rparr>]\<rparr>)
   }"

definition stun_agent_finish_message ::
  "hmac_fun \<Rightarrow> (bytes \<Rightarrow> bytes) \<Rightarrow> stun_agent \<Rightarrow> stun_message \<Rightarrow> bytes option
   \<Rightarrow> (nat \<times> stun_agent \<times> stun_message) option" where
  "stun_agent_finish_message hmac md5 ag msg k = do {
     remember_transaction \<leftarrow> finish_remember ag msg;
     let slot = first_index (\<lambda>s. \<not> sid_valid s) (sent_ids ag);
     if remember_transaction \<and> slot = None then Some (0, ag, msg)
     else do {
       let k = (case key msg of Some mk \<Rightarrow> Some mk | None \<Rightarrow> k);
       (ok, msg) \<leftarrow> finish_integrity hmac md5 ag msg k;
       if \<not> ok then Some (0, ag, msg)
       else do {
         (ok, msg) \<leftarrow> finish_fingerprint ag msg;
         if \<not> ok then Some (0, ag, msg)
         else do {
           ag \<leftarrow> (case slot of
                    Some i \<Rightarrow> if remember_transaction then finish_save ag msg i k else Some ag
                  | None \<Rightarrow> Some ag);
           let msg = msg\<lparr>key := k\<rparr>;
           mlen \<leftarrow> stun_message_length msg;
           Some (unat mlen, ag, msg)
         }
       }
     }
   }"

definition stun_agent_build_unknown_attributes_error ::
  "bytes \<Rightarrow> hmac_fun \<Rightarrow> (bytes \<Rightarrow> bytes) \<Rightarrow> stun_agent \<Rightarrow> stun_message \<Rightarrow> bytes \<Rightarrow> nat \<Rightarrow> stun_message
   \<Rightarrow> (nat \<times> stun_agent \<times> stun_message) option" where
  "stun_agent_build_unknown_attributes_error package_string hmac md5 ag msg b blen request = do {
     ids \<leftarrow> stun_agent_find_unknowns ag request STUN_AGENT_MAX_UNKNOWN_ATTRIBUTES;
     (ok, msg) \<leftarrow> stun_agent_init_error package_string ag msg b blen request
       STUN_ERROR_UNKNOWN_ATTRIBUTE;
     if \<not> ok then Some (0, ag, msg)
     else do {
       cookie \<leftarrow> stun_message_has_cookie request;
       let ids = (if \<not> cookie \<and> odd (length ids) then ids @ [ids ! 0] else ids);
       (r, msg) \<leftarrow> stun_message_append_bytes msg STUN_ATTRIBUTE_UNKNOWN_ATTRIBUTES
         (concat (map le16 ids));
       if r = STUN_MESSAGE_RETURN_SUCCESS
       then stun_agent_finish_message hmac md5 ag msg (key request)
       else Some (0, ag, msg)
     }
   }"

definition stun_agent_set_software :: "stun_agent \<Rightarrow> bytes option \<Rightarrow> stun_agent" where
  "stun_agent_set_software ag software = ag\<lparr>software_attribute := software\<rparr>"

end
