(* ===== verification/Stun_Agent_Props.thy ===== *)
theory Stun_Agent_Props
  imports Stun_Agent
begin

text \<open>
  The outcomes of \<^verbatim>\<open>stun_agent_validate\<close>, stage by stage: which transactions it matches, when it checks the
  message integrity and under which key, and what it leaves of the table of sent transactions.
\<close>

section \<open>The table of sent transactions\<close>

lemma first_index_Some:
  "first_index P xs = Some i \<Longrightarrow> i < length xs \<and> P (xs ! i) \<and> (\<forall>j < i. \<not> P (xs ! j))"
proof (induction xs arbitrary: i)
  case (Cons x xs)
  show ?case
  proof (cases "P x")
    case True
    then show ?thesis using Cons.prems by simp
  next
    case False
    with Cons.prems obtain k where k: "first_index P xs = Some k" "i = Suc k" by auto
    with Cons.IH [OF k(1)] False show ?thesis by (auto simp: less_Suc_eq_0_disj)
  qed
qed simp

lemma first_index_None: "first_index P xs = None \<longleftrightarrow> (\<forall>x \<in> set xs. \<not> P x)"
  by (induction xs) auto

text \<open>The statuses with which a message is handed to the application.\<close>

definition accepted :: "StunValidationStatus \<Rightarrow> bool" where
  "accepted st \<longleftrightarrow> st \<in> {STUN_VALIDATION_SUCCESS, STUN_VALIDATION_UNKNOWN_REQUEST_ATTRIBUTE,
     STUN_VALIDATION_UNKNOWN_ATTRIBUTE}"

definition answers :: "stun_agent \<Rightarrow> stun_message \<Rightarrow> nat \<Rightarrow> bool" where
  "answers ag msg i \<longleftrightarrow> i < length (sent_ids ag) \<and> (\<exists>m tid. stun_message_get_method msg = Some m
     \<and> stun_message_id msg = Some tid \<and> sent_id_matches m tid (sent_ids ag ! i))"

lemma validate_lookup_found:
  assumes "validate_lookup ag msg cls = Some (Some idx)"
  shows "case idx of None \<Rightarrow> cls \<noteq> STUN_RESPONSE \<and> cls \<noteq> STUN_ERROR | Some i \<Rightarrow> answers ag msg i"
  using assms
  by (auto simp: validate_lookup_def bind_eq_Some_conv answers_def split: if_splits option.splits
      dest!: first_index_Some)

lemma validate_accept_result:
  assumes "validate_accept ag msg cls idx = Some (st, ag', msg')"
  shows "accepted st" "msg' = msg"
    "sent_ids ag' = sent_ids (case idx of None \<Rightarrow> ag | Some i \<Rightarrow> invalidate_id ag i)"
proof -
  let ?ag = "case idx of None \<Rightarrow> ag | Some i \<Rightarrow> invalidate_id ag i"
  obtain v where v: "stun_message_find32 msg STUN_ATTRIBUTE_MS_IMPLEMENTATION_VERSION = Some v"
    using assms unfolding validate_accept_def Let_def by (elim bind_SomeE)
  let ?ag' = "case v of Inr _ \<Rightarrow> ?ag\<lparr>ms_ice2_send_legacy_connchecks := False\<rparr> | Inl _ \<Rightarrow> ?ag"
  obtain u where "stun_agent_find_unknowns ?ag' msg 1 = Some u"
    using assms unfolding validate_accept_def Let_def v by simp (elim bind_SomeE)
  then have r: "(st, ag', msg') = (if length u > 0
           then if cls = STUN_REQUEST then STUN_VALIDATION_UNKNOWN_REQUEST_ATTRIBUTE
                else STUN_VALIDATION_UNKNOWN_ATTRIBUTE
           else STUN_VALIDATION_SUCCESS, ?ag', msg)"
    using assms unfolding validate_accept_def Let_def v by simp
  show "accepted st" using r by (simp add: accepted_def)
  show "msg' = msg" using r by simp
  show "sent_ids ag' = sent_ids (case idx of None \<Rightarrow> ag | Some i \<Rightarrow> invalidate_id ag i)"
    using r by (simp split: sum.splits)
qed

lemma validate_hash_key_cases:
  assumes "validate_hash_key md5 ag msg k lt = Some r"
  shows "r = Inl STUN_VALIDATION_UNAUTHORIZED
    \<or> (\<exists>hk m. r = Inr (hk, m) \<and> buffer m = buffer msg \<and> agent m = agent msg
        \<and> (\<not> has_flag ag STUN_AGENT_USAGE_LONG_TERM_CREDENTIALS \<longrightarrow> hk = k \<and> m = msg))"
  using assms unfolding validate_hash_key_def
  by (cases lt; cases "stun_message_find msg STUN_ATTRIBUTE_REALM";
      cases "stun_message_find msg STUN_ATTRIBUTE_USERNAME")
    (auto split: if_split_asm option.split_asm prod.split_asm simp: bind_eq_Some_conv)

lemma validate_integrity_cases:
  assumes "validate_integrity hmac md5 ag msg cls k lt = Some r"
  obtains (refused) m where "r = Inl (STUN_VALIDATION_UNAUTHORIZED, m)"
  | (no_hash) "cls = STUN_ERROR" "r = Inr msg"
  | (hash) off l hk m where "stun_message_find msg STUN_ATTRIBUTE_MESSAGE_INTEGRITY = Some (Some (off, l))"
      "validate_hash_key md5 ag msg k lt = Some (Inr (hk, m))" "r = Inr (m\<lparr>key := Some k\<rparr>)"
      "integrity_hash hmac ag m off hk = mem_read (buffer m) off 20" "mem_read (buffer m) off 20 \<noteq> None"
proof -
  obtain h where h: "stun_message_find msg STUN_ATTRIBUTE_MESSAGE_INTEGRITY = Some h"
    using assms unfolding validate_integrity_def by (elim bind_SomeE)
  show thesis
  proof (cases h)
    case None
    then show thesis using assms h refused no_hash
      by (cases "stun_message_find_error msg") (auto simp: validate_integrity_def split: if_split_asm)
  next
    case (Some ol)
    obtain off l where ol: "ol = (off, l)" by (cases ol)
    obtain sk where sk: "validate_hash_key md5 ag msg k lt = Some sk"
      using assms h Some ol by (cases "validate_hash_key md5 ag msg k lt") (auto simp: validate_integrity_def)
    show thesis
    proof (cases sk)
      case (Inl st)
      then show thesis using assms h Some ol sk refused validate_hash_key_cases [OF sk]
        by (auto simp: validate_integrity_def)
    next
      case (Inr x)
      obtain hk m where x: "x = (hk, m)" by (cases x)
      show thesis
        using assms h Some ol sk Inr x hash [of off l hk m] refused
        by (cases "integrity_hash hmac ag m off hk"; cases "mem_read (buffer m) off 20")
          (auto simp: validate_integrity_def split: if_split_asm)
    qed
  qed
qed

lemma validate_credentials_cases:
  assumes "validate_credentials hmac md5 ag msg cls idx vld = Some (st, ag', msg')"
  obtains (refused) "\<not> accepted st" "ag' = ag"
  | (skipped) "validate_accept ag msg cls idx = Some (st, ag', msg')"
  | (verified) k lt m where "validate_integrity hmac md5 ag msg cls k lt = Some (Inr m)"
      "validate_accept ag m cls idx = Some (st, ag', msg')"
proof -
  define k where "k = (case idx of None \<Rightarrow> None | Some i \<Rightarrow> sid_key (sent_ids ag ! i))"
  define lt where "lt = (case idx of None \<Rightarrow> None
       | Some i \<Rightarrow> if sid_long_term_valid (sent_ids ag ! i)
                  then Some (sid_long_term_key (sent_ids ag ! i)) else None)"
  obtain ic ms where ic: "validate_ignore_credentials ag msg cls = Some ic"
    and ms: "validate_missing_credentials ag msg cls = Some ms"
    using assms unfolding validate_credentials_def Let_def by (elim bind_SomeE)
  note eq = assms [unfolded validate_credentials_def, folded k_def lt_def, unfolded Let_def ic ms Option.bind.bind_lunit]
  show thesis
  proof (cases "k = None \<and> \<not> ic \<and> ms")
    case True
    then show thesis using eq refused by (simp add: accepted_def)
  next
    case False
    note eq = eq [unfolded if_not_P [OF False]]
    obtain ig where ig: "stun_message_has_attribute msg STUN_ATTRIBUTE_MESSAGE_INTEGRITY = Some ig"
      using eq by (elim bind_SomeE)
    note eq = eq [unfolded ig Option.bind.bind_lunit]
    from eq obtain k' where eq': "(case k' of None \<Rightarrow> Some (STUN_VALIDATION_UNAUTHORIZED, ag, msg)
       | Some k \<Rightarrow>
           (case k of
              Some kb \<Rightarrow>
                if \<not> ic \<and> length kb > 0 then do {
                  r \<leftarrow> validate_integrity hmac md5 ag msg cls kb lt;
                  case r of Inl (st, msg) \<Rightarrow> Some (st, ag, msg)
                  | Inr msg \<Rightarrow> validate_accept ag msg cls idx
                }
                else validate_accept ag msg cls idx
            | None \<Rightarrow> validate_accept ag msg cls idx)) = Some (st, ag', msg')"
      by (elim bind_SomeE)
    show thesis
    proof (cases "\<exists>kb. k' = Some (Some kb) \<and> \<not> ic \<and> length kb > 0")
      case False
      then show thesis using eq' refused skipped
        by (auto simp: accepted_def split: option.split_asm if_split_asm)
    next
      case True
      then obtain kb where kb: "k' = Some (Some kb)" "\<not> ic" "length kb > 0" by blast
      with eq' obtain r where r: "validate_integrity hmac md5 ag msg cls kb lt = Some r"
        by (cases "validate_integrity hmac md5 ag msg cls kb lt") auto
      show thesis
        using r
      proof (cases rule: validate_integrity_cases)
        case (refused m)
        then show thesis using eq' kb r that(1) by (simp add: accepted_def)
      next
        case no_hash
        then show thesis using eq' kb r verified [of kb lt msg] by simp
      next
        case (hash off l hk m)
        then show thesis using eq' kb r verified [of kb lt "m\<lparr>key := Some kb\<rparr>"] by simp
      qed
    qed
  qed
qed

lemma validate_integrity_frame:
  assumes "validate_integrity hmac md5 ag msg cls k lt = Some (Inr m)"
  shows "buffer m = buffer msg \<and> agent m = agent msg"
  using assms validate_hash_key_cases by (cases rule: validate_integrity_cases) fastforce+

lemma sent_ids_invalidate:
  "sent_ids (invalidate_id ag i) = (sent_ids ag)[i := (sent_ids ag ! i)\<lparr>sid_valid := False\<rparr>]"
  by (simp add: invalidate_id_def)

lemma stun_agent_validate_cases:
  assumes "stun_agent_validate hmac md5 ag msg b vld = Some (st, ag', msg')"
  obtains (refused) "\<not> accepted st" "ag' = ag"
  | (credentials) cls idx where
      "stun_message_validate_buffer_length b (length b)
         (\<not> has_flag ag STUN_AGENT_USAGE_NO_ALIGNED_ATTRIBUTES) = Some (int (length b))"
      "stun_message_get_class (received_message ag msg b) = Some cls"
      "validate_lookup ag (received_message ag msg b) cls = Some (Some idx)"
      "validate_credentials hmac md5 ag (received_message ag msg b) cls idx vld = Some (st, ag', msg')"
proof -
  let ?m = "received_message ag msg b"
  obtain len where len: "stun_message_validate_buffer_length b (length b)
       (\<not> has_flag ag STUN_AGENT_USAGE_NO_ALIGNED_ATTRIBUTES) = Some len"
    using assms unfolding stun_agent_validate_def by (elim bind_SomeE)
  show thesis
  proof (cases "len = STUN_MESSAGE_BUFFER_INVALID \<or> len = STUN_MESSAGE_BUFFER_INCOMPLETE \<or> len \<noteq> int (length b)")
    case True
    then show thesis using assms len refused
      by (auto simp: stun_agent_validate_def accepted_def split: if_split_asm)
  next
    case False
    then have l: "len \<noteq> STUN_MESSAGE_BUFFER_INVALID" "len \<noteq> STUN_MESSAGE_BUFFER_INCOMPLETE" "len = int (length b)"
      by auto
    have run: "validate_received hmac md5 ag ?m vld = Some (st, ag', msg')"
      using assms unfolding stun_agent_validate_def len Option.bind.bind_lunit
      by (simp only: l(1,2) if_False) (simp add: l(3))
    then obtain ok where ok: "validate_format ag ?m = Some ok"
      unfolding validate_received_def by (elim bind_SomeE)
    show thesis
    proof (cases ok)
      case False
      then show thesis using run ok refused by (simp add: validate_received_def accepted_def)
    next
      case True
      then obtain cls found where f: "stun_message_get_class ?m = Some cls" "validate_lookup ag ?m cls = Some found"
        "(case found of None \<Rightarrow> Some (STUN_VALIDATION_UNMATCHED_RESPONSE, ag, ?m)
         | Some sent_id_idx \<Rightarrow> validate_credentials hmac md5 ag ?m cls sent_id_idx vld) = Some (st, ag', msg')"
        using run ok unfolding validate_received_def by simp (elim bind_SomeE)
      show thesis
        using f refused credentials len False by (cases found) (auto simp: accepted_def)
    qed
  qed
qed

text \<open>An accepted message keeps its buffer, and the table changes only by the transaction it answers.\<close>

lemma validate_outcome:
  assumes "stun_agent_validate hmac md5 ag msg b vld = Some (st, ag', msg')"
  shows "\<not> accepted st \<and> ag' = ag
    \<or> accepted st \<and> buffer msg' = b \<and> agent msg' = Some (agent_cfg ag)
      \<and> (\<exists>cls. stun_message_get_class msg' = Some cls \<and>
         (if cls = STUN_RESPONSE \<or> cls = STUN_ERROR
          then \<exists>i. answers ag msg' i \<and> sent_ids ag' = sent_ids (invalidate_id ag i)
          else sent_ids ag' = sent_ids ag))"
proof (cases rule: stun_agent_validate_cases [OF assms])
  case 1
  then show ?thesis by simp
next
  case (2 cls idx)
  let ?m = "received_message ag msg b"
  have acc: ?thesis if a: "validate_accept ag m cls idx = Some (st, ag', msg')"
    and m: "buffer m = b" "agent m = Some (agent_cfg ag)" for m
  proof -
    note r = validate_accept_result [OF a]
    have same: "stun_message_get_class m = stun_message_get_class ?m"
      "stun_message_get_method m = stun_message_get_method ?m" "stun_message_id m = stun_message_id ?m"
      using m by (simp_all add: stun_message_get_class_def stun_message_get_method_def
          stun_message_type_def stun_message_id_def received_message_def)
    have "if cls = STUN_RESPONSE \<or> cls = STUN_ERROR
          then \<exists>i. answers ag m i \<and> sent_ids ag' = sent_ids (invalidate_id ag i)
          else sent_ids ag' = sent_ids ag"
      using validate_lookup_found [OF 2(3)] r(3) 2(3) same
      by (cases idx) (auto simp: answers_def validate_lookup_def)
    then show ?thesis using r m same 2(2) by auto
  qed
  show ?thesis
    using 2(4)
  proof (cases rule: validate_credentials_cases)
    case skipped
    then show ?thesis by (rule acc) (simp_all add: received_message_def)
  next
    case (verified k lt m)
    have "buffer m = b" "agent m = Some (agent_cfg ag)"
      using validate_integrity_frame [OF verified(1)] by (auto simp: received_message_def)
    then show ?thesis by (rule acc [OF verified(2)])
  qed simp
qed

text \<open>A request is accepted only with the key of its user.\<close>

lemma has_attribute_found:
  "stun_message_has_attribute msg t = Some True \<Longrightarrow> found_bytes msg t = Some r \<Longrightarrow> r \<noteq> None"
  by (auto simp: stun_message_has_attribute_def found_bytes_def bind_eq_Some_conv split: option.split_asm)

lemma validate_request_credentials:
  assumes run: "validate_credentials hmac md5 ag msg STUN_REQUEST None vld = Some (st, ag', msg')"
    and acc: "accepted st" and short: "has_flag ag STUN_AGENT_USAGE_SHORT_TERM_CREDENTIALS"
    and ign: "\<not> has_flag ag STUN_AGENT_USAGE_IGNORE_CREDENTIALS"
  shows "\<exists>u f ko. found_bytes msg STUN_ATTRIBUTE_USERNAME = Some (Some u) \<and> vld = Some f
    \<and> f ag msg (Some u) None = Some ko
    \<and> (ko = None \<or> ko = Some [] \<or> (\<exists>kb m. ko = Some kb \<and> kb \<noteq> []
         \<and> validate_integrity hmac md5 ag msg STUN_REQUEST kb None = Some (Inr m) \<and> msg' = m))"
proof -
  obtain ic ms where ic: "validate_ignore_credentials ag msg STUN_REQUEST = Some ic"
    and ms: "validate_missing_credentials ag msg STUN_REQUEST = Some ms"
    using run unfolding validate_credentials_def Let_def by (elim bind_SomeE)
  have icF: "ic = False" using ic ign by (auto simp: validate_ignore_credentials_def bind_eq_Some_conv)
  have msF: "ms = False" using run acc ic icF ms
    by (auto simp: validate_credentials_def accepted_def split: if_split_asm)
  then have at: "stun_message_has_attribute msg STUN_ATTRIBUTE_USERNAME = Some True"
      "stun_message_has_attribute msg STUN_ATTRIBUTE_MESSAGE_INTEGRITY = Some True"
    using ms short by (auto simp: validate_missing_credentials_def bind_eq_Some_conv)
  note eq = run [unfolded validate_credentials_def option.case Let_def ic ms icF msF at Option.bind.bind_lunit]
  obtain u where u: "found_bytes msg STUN_ATTRIBUTE_USERNAME = Some (Some u)"
    using eq has_attribute_found [OF at(1)]
    by (cases "found_bytes msg STUN_ATTRIBUTE_USERNAME") auto
  obtain f where f: "vld = Some f" using eq u acc by (cases vld) (auto simp: accepted_def)
  obtain ko where ko: "f ag msg (Some u) None = Some ko"
    using eq u f acc by (cases "f ag msg (Some u) None") (auto simp: accepted_def)
  show ?thesis
  proof (cases "ko = None \<or> ko = Some []")
    case True
    then show ?thesis using u f ko by blast
  next
    case False
    then obtain kb where kb: "ko = Some kb" "kb \<noteq> []" by auto
    then obtain r where r: "validate_integrity hmac md5 ag msg STUN_REQUEST kb None = Some r"
      using eq u f ko by (cases "validate_integrity hmac md5 ag msg STUN_REQUEST kb None") auto
    have "\<exists>m. r = Inr m \<and> msg' = m"
      using r
    proof (cases rule: validate_integrity_cases)
      case (refused m)
      then show ?thesis using eq u f ko kb r acc by (simp add: accepted_def)
    next
      case (hash off l hk m)
      then have "validate_accept ag (m\<lparr>key := Some kb\<rparr>) STUN_REQUEST None = Some (st, ag', msg')"
        using eq u f ko kb r by simp
      then show ?thesis using validate_accept_result(2) hash(3) by blast
    qed simp
    then show ?thesis using u f ko kb r by blast
  qed
qed

end
