(* ===== verification/Stun_Finish.thy ===== *)
theory Stun_Finish
  imports Stun_Agent_Props
begin

text \<open>
  Finishing a message: the MESSAGE-INTEGRITY and FINGERPRINT attributes that
  \<^verbatim>\<open>stun_agent_finish_message\<close> appends are the ones \<^verbatim>\<open>stun_agent_validate\<close> looks for.
\<close>

section \<open>What appending leaves alone\<close>

lemma mem_read_cong:
  assumes "length b' = length b" "\<And>i. off \<le> i \<Longrightarrow> i < off + n \<Longrightarrow> b' ! i = b ! i"
  shows "mem_read b' off n = mem_read b off n"
proof (cases "off + n \<le> length b")
  case True
  then have "take n (drop off b') = take n (drop off b)"
    using assms by (intro nth_equalityI) auto
  then show ?thesis using True assms(1) by (simp add: mem_read_def)
qed (simp add: mem_read_def assms(1))

lemma holds_attr_reads:
  assumes "holds_attr msg t len b" "20 \<le> message_end msg"
  shows "mem_read b 0 2 = mem_read (buffer msg) 0 2"
    and "n \<le> message_end msg - 4 \<Longrightarrow> mem_read b 4 n = mem_read (buffer msg) 4 n"
  using assms by (auto simp: holds_attr_def intro!: mem_read_cong)

lemma holds_attr_header:
  assumes "holds_attr msg t len b" "20 \<le> message_end msg" "message_end msg \<le> length (buffer msg)"
  shows "stun_message_type (msg\<lparr>buffer := b\<rparr>) = stun_message_type msg"
    "stun_message_has_cookie (msg\<lparr>buffer := b\<rparr>) = stun_message_has_cookie msg"
    "b ! 0 = buffer msg ! 0"
proof -
  have "b ! 0 = buffer msg ! 0" "b ! 1 = buffer msg ! 1" "length b = length (buffer msg)"
    using assms by (auto simp: holds_attr_def)
  then show "stun_message_type (msg\<lparr>buffer := b\<rparr>) = stun_message_type msg" "b ! 0 = buffer msg ! 0"
    by (simp_all add: stun_message_type_def stun_getw_def rd8_def)
  show "stun_message_has_cookie (msg\<lparr>buffer := b\<rparr>) = stun_message_has_cookie msg"
    using holds_attr_id [OF assms] by (simp add: stun_message_has_cookie_def stun_message_id_def)
qed

text \<open>Reserving an attribute and writing its value.\<close>

lemma append_then_write:
  assumes wf: "message_attrs msg = Some as" and fits: "message_cost msg (length d) \<le> message_room msg"
  obtains b where "stun_message_append msg t (length d) = Some (Some (message_end msg + 4), msg\<lparr>buffer := b\<rparr>)"
    "holds_attr msg (oc2007_type msg t) (length d) b"
    "\<And>d'. length d' = length d \<Longrightarrow> \<exists>b'. mem_write b (message_end msg + 4) d' = Some b'
       \<and> holds_attr msg (oc2007_type msg t) (length d) b'
       \<and> mem_read b' (message_end msg + 4) (length d) = Some d'"
proof -
  have af: "attr_fits msg (length d)" using attr_fits_room [OF wf] fits by simp
  note D = message_attrsD [OF wf]
  obtain b where b: "stun_message_append msg t (length d) = Some (Some (message_end msg + 4), msg\<lparr>buffer := b\<rparr>)"
    "holds_attr msg (oc2007_type msg t) (length d) b"
    by (rule stun_message_append_spec [OF wf af])
  have room: "message_end msg + 4 + length d \<le> length b"
    using fits b(2) padded_len_ge [of "length d" "\<not> no_aligned_attributes msg"]
    by (auto simp: message_cost_def message_room_def holds_attr_def)
  show thesis
  proof (rule that [OF b])
    fix d' :: bytes assume l: "length d' = length d"
    with room obtain b' where b': "mem_write b (message_end msg + 4) d' = Some b'"
      using mem_write_defined [of "message_end msg + 4" d' b] by auto
    then show "\<exists>b'. mem_write b (message_end msg + 4) d' = Some b'
       \<and> holds_attr msg (oc2007_type msg t) (length d) b'
       \<and> mem_read b' (message_end msg + 4) (length d) = Some d'"
      using holds_attr_write [OF b(2) b'] D(3) mem_read_after_write [OF b'] l by auto
  qed
qed

section \<open>The fingerprint\<close>

lemma fingerprint_cong:
  assumes "mem_read b' 0 2 = mem_read b 0 2" "mem_read b' 4 (len - 12) = mem_read b 4 (len - 12)"
  shows "stun_fingerprint b' len typo = stun_fingerprint b len typo"
  using assms by (simp add: stun_fingerprint_def)

lemma le32_be32: "le32 x = be32 (htonl x)"
  using le32_htonl [of "htonl x"] by simp

lemma finish_fingerprint_ok:
  assumes wf: "message_attrs msg = Some as" and fits: "message_cost msg 4 \<le> message_room msg"
    and op: "open_for msg STUN_ATTRIBUTE_FINGERPRINT"
    and fl: "cookie_compat ag" "has_flag ag STUN_AGENT_USAGE_USE_FINGERPRINT"
  obtains b where "finish_fingerprint ag msg = Some (True, msg\<lparr>buffer := b\<rparr>)"
    "holds_attr msg STUN_ATTRIBUTE_FINGERPRINT 4 b"
    "\<And>ag'. stun_agent_check_fingerprint ag' (msg\<lparr>buffer := b\<rparr>) = Some True"
proof -
  let ?e = "message_end msg"
  note D = message_attrsD [OF wf]
  have af: "attr_fits msg 4" using attr_fits_room [OF wf] fits by simp
  obtain b1 where b1: "stun_message_append msg STUN_ATTRIBUTE_FINGERPRINT 4 = Some (Some (?e + 4), msg\<lparr>buffer := b1\<rparr>)"
    "holds_attr msg STUN_ATTRIBUTE_FINGERPRINT 4 b1"
    and wr: "\<And>d'. length d' = 4 \<Longrightarrow> \<exists>b'. mem_write b1 (?e + 4) d' = Some b'
       \<and> holds_attr msg STUN_ATTRIBUTE_FINGERPRINT 4 b' \<and> mem_read b' (?e + 4) 4 = Some d'"
    using append_then_write [OF wf, of "replicate 4 0" STUN_ATTRIBUTE_FINGERPRINT] fits by auto
  have p4: "padded_len (\<not> no_aligned_attributes msg) 4 = 4" by (simp add: padded_len_def)
  have len: "stun_message_length (msg\<lparr>buffer := b\<rparr>) = Some (word_of_nat (?e + 8))"
    "unat (word_of_nat (?e + 8) :: u16) = ?e + 8" if "holds_attr msg STUN_ATTRIBUTE_FINGERPRINT 4 b" for b
    using stun_message_length_wf [OF holds_attr_message(1) [OF wf af that]]
      unat_message_end [OF holds_attr_message(1) [OF wf af that]]
      holds_attr_message(2) [OF wf af that] p4 by (simp_all add: add.assoc)
  obtain F where F: "stun_fingerprint b1 (?e + 8) False = Some F"
    using D(3,5) b1(2) by (simp add: stun_fingerprint_def mem_simps holds_attr_def)
  obtain b where b: "mem_write b1 (?e + 4) (le32 F) = Some b"
    "holds_attr msg STUN_ATTRIBUTE_FINGERPRINT 4 b" "mem_read b (?e + 4) 4 = Some (le32 F)"
    using wr [of "le32 F"] by auto
  have "stun_fingerprint b (?e + 8) False = stun_fingerprint b1 (?e + 8) False"
    using holds_attr_reads [OF b(2) D(3)] holds_attr_reads [OF b1(2) D(3)]
    by (intro fingerprint_cong) simp_all
  then have F': "stun_fingerprint b (?e + 8) False = Some F" using F by simp
  obtain v where v: "attr_value (msg\<lparr>buffer := b\<rparr>) STUN_ATTRIBUTE_FINGERPRINT = Some v"
      "take 4 v = le32 F" "length v = append_alen msg 4"
    using value_new_attr [OF wf, of "le32 F" STUN_ATTRIBUTE_FINGERPRINT b] af b(2,3) op by auto
  have "append_alen msg 4 = 4" by (simp add: append_alen_def padded_len_def)
  with v have v: "attr_value (msg\<lparr>buffer := b\<rparr>) STUN_ATTRIBUTE_FINGERPRINT = Some (le32 F)" by simp
  have f32: "stun_message_find32 (msg\<lparr>buffer := b\<rparr>) STUN_ATTRIBUTE_FINGERPRINT = Some (Inr (htonl F))"
    using stun_message_find32_value [OF holds_attr_message(1) [OF wf af b(2)]] v
    by (simp add: le32_be32 of_be32_be32)
  show thesis
  proof (rule that [OF _ b(2)])
    show "finish_fingerprint ag msg = Some (True, msg\<lparr>buffer := b\<rparr>)"
      using fl b1(1) len [OF b1(2)] F b(1) by (simp add: finish_fingerprint_def)
    show "stun_agent_check_fingerprint ag' (msg\<lparr>buffer := b\<rparr>) = Some True" for ag'
      using f32 len [OF b(2)] F' by (simp add: stun_agent_check_fingerprint_def Let_def)
  qed
qed

section \<open>Unknown attributes\<close>

definition unknown_types :: "stun_agent \<Rightarrow> attr list \<Rightarrow> u16 list" where
  "unknown_types ag as = filter (\<lambda>t. \<not> stun_optional t \<and> t \<notin> set (known_attributes ag)) (map fst as)"

lemma find_unknowns_loop_list:
  assumes "attr_list b (\<not> has_flag ag STUN_AGENT_USAGE_NO_ALIGNED_ATTRIBUTES) p e = Some as"
  shows "find_unknowns_loop ag b e p mx = Some (map htons (take mx (unknown_types ag as)))"
  using assms
proof (induction b "\<not> has_flag ag STUN_AGENT_USAGE_NO_ALIGNED_ATTRIBUTES" p e arbitrary: as mx rule: attr_list.induct)
  case (1 b p e)
  let ?pad = "\<not> has_flag ag STUN_AGENT_USAGE_NO_ALIGNED_ATTRIBUTES"
  show ?case
  proof (cases "p < e \<and> 0 < mx")
    case False
    then have "as = [] \<or> mx = 0" using "1.prems" by (subst (asm) attr_list.simps) (auto split: if_splits)
    then show ?thesis using False by (subst find_unknowns_loop.simps) (auto simp: unknown_types_def)
  next
    case True
    with "1.prems" obtain a l rest where
      r: "\<not> e < p + 4" "stun_getw b p = Some a" "stun_getw b (p + 2) = Some l"
        "\<not> e < p + 4 + padded_len ?pad (unat l)"
        "attr_list b ?pad (p + 4 + padded_len ?pad (unat l)) e = Some rest"
        "as = (a, p + 4, l) # rest"
      by (subst (asm) attr_list.simps) (auto split: if_splits simp: bind_eq_Some_conv)
    have IH: "find_unknowns_loop ag b e (p + (4 + padded_len ?pad (unat l))) k
        = Some (map htons (take k (unknown_types ag rest)))" for k
      using "1.hyps" [OF _ r(1-5)] True by (simp add: add.assoc)
    have n: "(if has_flag ag STUN_AGENT_USAGE_NO_ALIGNED_ATTRIBUTES then unat l
        else unat (stun_align (ucast l))) = padded_len ?pad (unat l)" by (simp add: padded_len_def)
    have "find_unknowns_loop ag b e p mx = (let unknown = \<not> stun_optional a \<and> a \<notin> set (known_attributes ag) in
        do {
          rest \<leftarrow> find_unknowns_loop ag b e (p + (4 + padded_len ?pad (unat l))) (if unknown then mx - 1 else mx);
          Some (if unknown then htons a # rest else rest)
        })"
      using True r(2,3) n by (subst find_unknowns_loop.simps) (simp add: Let_def stun_agent_is_unknown_def)
    then show ?thesis
      using True by (simp add: IH r(6) unknown_types_def take_Cons' Let_def)
  qed
qed


lemma has_flag_cfg:
  assumes "agent msg = Some (agent_cfg ag)"
  shows "no_aligned_attributes msg = has_flag ag STUN_AGENT_USAGE_NO_ALIGNED_ATTRIBUTES"
  using assms by (simp add: no_aligned_attributes_def agent_cfg_def has_flag_def)

lemma find_unknowns_list:
  assumes "message_attrs msg = Some as" "agent msg = Some (agent_cfg ag)"
  shows "stun_agent_find_unknowns ag msg mx = Some (map htons (take mx (unknown_types ag as)))"
  using find_unknowns_loop_list [of "buffer msg" ag 20 "message_end msg"] assms(1) message_attrsD(6) [OF assms(1)]
  by (simp add: stun_agent_find_unknowns_def stun_message_length_wf unat_message_end has_flag_cfg [OF assms(2)])

section \<open>The message integrity\<close>

lemma sha1_cong:
  assumes "mem_read b' 0 2 = mem_read b 0 2" "mem_read b' 4 (len - 28) = mem_read b 4 (len - 28)"
  shows "stun_sha1 hmac b' len l k p = stun_sha1 hmac b len l k p"
  using assms by (simp add: stun_sha1_def)

text \<open>The value of the length field that both sides hash: up to the MESSAGE-INTEGRITY attribute, and for
  MSICE2 also the FINGERPRINT attribute that follows it.\<close>

definition uses_fingerprint :: "stun_agent \<Rightarrow> bool" where
  "uses_fingerprint ag \<longleftrightarrow> cookie_compat ag \<and> has_flag ag STUN_AGENT_USAGE_USE_FINGERPRINT"

definition message_sha :: "hmac_fun \<Rightarrow> stun_agent \<Rightarrow> bytes \<Rightarrow> nat \<Rightarrow> bytes \<Rightarrow> bytes option" where
  "message_sha hmac ag b e k = stun_sha1 hmac b (e + 24)
     (word_of_nat (e + 4 + (if compatibility ag = STUN_COMPATIBILITY_MSICE2 \<and> uses_fingerprint ag then 8 else 0)))
     k (compatibility ag \<noteq> STUN_COMPATIBILITY_RFC5389)"

lemma message_sha_integrity_hash:
  assumes "stun_message_length msg = Some (word_of_nat (e + 24 + (if uses_fingerprint ag then 8 else 0)))"
  shows "integrity_hash hmac ag msg (e + 4) k = message_sha hmac ag (buffer msg) e k"
proof -
  have w: "(word_of_nat (e + 24) :: u16) - 20 = word_of_nat (e + 4)"
    "(word_of_nat (e + 32) :: u16) - 20 = word_of_nat (e + 12)" by simp_all
  show ?thesis using assms w
    by (cases "compatibility ag") (simp_all add: integrity_hash_def message_sha_def uses_fingerprint_def cookie_compat_def
        add.commute [of "word_of_nat e"] add.commute [of e])
qed

lemma finish_integrity_ok:
  assumes wf: "message_attrs msg = Some as" and fits: "message_cost msg 20 \<le> message_room msg"
    and short: "\<not> has_flag ag STUN_AGENT_USAGE_LONG_TERM_CREDENTIALS"
    and hmac: "\<And>k d. length (hmac k d) = 20"
  obtains b sha where "finish_integrity hmac md5 ag msg (Some kb) = Some (True, msg\<lparr>buffer := b\<rparr>)"
    "holds_attr msg STUN_ATTRIBUTE_MESSAGE_INTEGRITY 20 b"
    "mem_read b (message_end msg + 4) 20 = Some sha"
    "message_sha hmac ag (buffer msg) (message_end msg) kb = Some sha"
proof -
  let ?e = "message_end msg"
  note D = message_attrsD [OF wf]
  have af: "attr_fits msg 20" using attr_fits_room [OF wf] fits by simp
  obtain b1 where b1: "stun_message_append msg STUN_ATTRIBUTE_MESSAGE_INTEGRITY 20 = Some (Some (?e + 4), msg\<lparr>buffer := b1\<rparr>)"
    "holds_attr msg STUN_ATTRIBUTE_MESSAGE_INTEGRITY 20 b1"
    and wr: "\<And>d'. length d' = 20 \<Longrightarrow> \<exists>b'. mem_write b1 (?e + 4) d' = Some b'
       \<and> holds_attr msg STUN_ATTRIBUTE_MESSAGE_INTEGRITY 20 b' \<and> mem_read b' (?e + 4) 20 = Some d'"
    using append_then_write [OF wf, of "replicate 20 0" STUN_ATTRIBUTE_MESSAGE_INTEGRITY] fits by auto
  have p: "padded_len (\<not> no_aligned_attributes msg) 20 = 20" by (simp add: padded_len_def)
  have len: "stun_message_length (msg\<lparr>buffer := b1\<rparr>) = Some (word_of_nat (?e + 24))"
    "unat (word_of_nat (?e + 24) :: u16) = ?e + 24"
    using stun_message_length_wf [OF holds_attr_message(1) [OF wf af b1(2)]]
      unat_message_end [OF holds_attr_message(1) [OF wf af b1(2)]]
      holds_attr_message(2) [OF wf af b1(2)] p by (simp_all add: add.assoc)
  have w: "(word_of_nat (?e + 24) :: u16) - 20 = word_of_nat (?e + 4)"
    "(word_of_nat (?e + 24) :: u16) - 12 = word_of_nat (?e + 12)" by simp_all
  have same: "message_sha hmac ag b1 ?e kb = message_sha hmac ag (buffer msg) ?e kb"
    using holds_attr_reads [OF b1(2) D(3)] unfolding message_sha_def by (intro sha1_cong) simp_all
  obtain sha where sha: "message_sha hmac ag (buffer msg) ?e kb = Some sha" "length sha = 20"
    using D hmac by (simp add: message_sha_def stun_sha1_def mem_simps c_assert_def Let_def)
  obtain b where b: "mem_write b1 (?e + 4) sha = Some b"
    "holds_attr msg STUN_ATTRIBUTE_MESSAGE_INTEGRITY 20 b" "mem_read b (?e + 4) 20 = Some sha"
    using wr [OF sha(2)] by auto
  have "finish_integrity hmac md5 ag msg (Some kb) = (message_sha hmac ag b1 ?e kb \<bind> (\<lambda>sha.
      mem_write b1 (?e + 4) sha \<bind> (\<lambda>b. Some (True, msg\<lparr>buffer := b\<rparr>))))"
    using short b1(1) len w
    by (cases "compatibility ag") (simp_all add: finish_integrity_def finish_credentials_def message_sha_def Let_def
        uses_fingerprint_def cookie_compat_def add.commute [of "word_of_nat ?e"])
  then show thesis using that b sha same by simp
qed

section \<open>What is sent\<close>

text \<open>The bytes of a message that go over the network.\<close>

definition wire :: "stun_message \<Rightarrow> bytes" where
  "wire msg = take (message_end msg) (buffer msg)"

lemma mem_read_wire:
  "off + n \<le> message_end msg \<Longrightarrow> message_end msg \<le> length (buffer msg) \<Longrightarrow>
   mem_read (wire msg) off n = mem_read (buffer msg) off n"
  by (auto simp: wire_def mem_read_def drop_take)

lemma stun_getw_wire:
  "p + 2 \<le> message_end msg \<Longrightarrow> message_end msg \<le> length (buffer msg) \<Longrightarrow>
   stun_getw (wire msg) p = stun_getw (buffer msg) p"
  by (simp add: stun_getw_mem_read mem_read_wire)

lemma received_simps [simp]:
  "buffer (received_message ag m b) = b" "buffer_len (received_message ag m b) = length b"
  "agent (received_message ag m b) = Some (agent_cfg ag)" "key (received_message ag m b) = None"
  by (simp_all add: received_message_def)

lemma received_wire:
  assumes wf: "message_attrs msg = Some as" and cfg: "agent msg = Some (agent_cfg ag)"
  shows "message_end (received_message ag m (wire msg)) = message_end msg"
    "message_attrs (received_message ag m (wire msg)) = Some as"
    "stun_message_find (received_message ag m (wire msg)) t = stun_message_find msg t"
    "attr_value (received_message ag m (wire msg)) t = attr_value msg t"
    "stun_message_type (received_message ag m (wire msg)) = stun_message_type msg"
    "stun_message_id (received_message ag m (wire msg)) = stun_message_id msg"
    "stun_message_length (received_message ag m (wire msg)) = stun_message_length msg"
proof -
  let ?r = "received_message ag m (wire msg)"
  note D = message_attrsD [OF wf]
  have l: "length (wire msg) = message_end msg" using D(5) by (simp add: wire_def)
  have same: "no_aligned_attributes ?r = no_aligned_attributes msg" "oc2007_type ?r = oc2007_type msg"
    using cfg by (auto simp: no_aligned_attributes_def oc2007_type_def)
  show e: "message_end ?r = message_end msg"
    using D(3,5) by (simp add: message_end_def stun_getw_wire)
  have "attr_list (wire msg) (\<not> no_aligned_attributes msg) 20 (message_end msg) = Some as"
    using attr_list_frame [of "message_end msg" "buffer msg" "wire msg"] D(5,6) l by (simp add: wire_def)
  then show a: "message_attrs ?r = Some as"
    using D l by (simp add: message_attrs_def e same)
  show f: "stun_message_find ?r t = stun_message_find msg t" for t
    using stun_message_find_lookup [OF a] stun_message_find_lookup [OF wf] same by simp
  have "mem_read (wire msg) off (unat l) = mem_read (buffer msg) off (unat l)"
    if "stun_message_find msg t = Some (Some (off, l))" for off l
    using find_result_bounds [OF wf that] padded_len_ge [of "unat l" "\<not> no_aligned_attributes msg"] D(5)
    by (intro mem_read_wire) linarith+
  then show "attr_value ?r t = attr_value msg t"
    by (auto simp: attr_value_def f split: option.splits)
  show "stun_message_type ?r = stun_message_type msg" "stun_message_id ?r = stun_message_id msg"
    "stun_message_length ?r = stun_message_length msg"
    using D(3,5) by (simp_all add: stun_message_type_def stun_message_id_def stun_message_length_def
        stun_getw_wire mem_read_wire)
qed

lemma wire_validates:
  assumes wf: "message_attrs msg = Some as" and z: "drop_bit 6 (buffer msg ! 0) = 0"
  shows "stun_message_validate_buffer_length (wire msg) (length (wire msg)) (\<not> no_aligned_attributes msg)
    = Some (int (length (wire msg)))"
proof -
  note D = message_attrsD [OF wf]
  have l: "length (wire msg) = message_end msg" using D(5) by (simp add: wire_def)
  obtain w where w: "stun_getw (buffer msg) 2 = Some w" "unat w + 20 = message_end msg" using D(7) by blast
  have "stun_getw (wire msg) 2 = Some (of_be16 [wire msg ! 2, wire msg ! 3])"
    using stun_getw_at [of 2 "wire msg"] l D(3) by simp
  then have w2: "unat (of_be16 [wire msg ! 2, wire msg ! 3]) + 20 = message_end msg"
    using stun_getw_wire [of 2 msg] D(3,5) w by simp
  have al: "attr_list (wire msg) (\<not> no_aligned_attributes msg) 20 (message_end msg) = Some as"
    using attr_list_frame [of "message_end msg" "buffer msg" "wire msg"] D(5,6) l by (simp add: wire_def)
  have "\<not> no_aligned_attributes msg \<longrightarrow> message_end msg mod 4 = 0"
    using attr_list_dvd [of "wire msg" 20 "message_end msg" as] al D(3) by (auto simp: mod_eq_0_iff_dvd)
  then have "validate_spec (wire msg) (message_end msg) (\<not> no_aligned_attributes msg) = int (message_end msg)"
    unfolding validate_spec_def Let_def w2 using D(3,5) al z by (auto simp: wire_def)
  then show ?thesis using validate_buffer_length_eq [of "length (wire msg)" "wire msg"] l by simp
qed

lemma fingerprint_received:
  assumes wf: "message_attrs msg = Some as" and cfg: "agent msg = Some (agent_cfg ag)"
    and ok: "stun_agent_check_fingerprint ag' msg = Some True"
  shows "stun_agent_check_fingerprint ag' (received_message ag m (wire msg)) = Some True"
proof -
  note R = received_wire [OF wf cfg]
  note D = message_attrsD [OF wf]
  have "stun_message_find32 (received_message ag m (wire msg)) STUN_ATTRIBUTE_FINGERPRINT
      = stun_message_find32 msg STUN_ATTRIBUTE_FINGERPRINT"
    using stun_message_find32_value [OF R(2)] stun_message_find32_value [OF wf] R(4) by simp
  moreover have "stun_fingerprint (wire msg) (message_end msg) t = stun_fingerprint (buffer msg) (message_end msg) t" for t
    using D(3,5) by (intro fingerprint_cong mem_read_wire) simp_all
  ultimately show ?thesis
    using ok R(3,7) unfolding stun_agent_check_fingerprint_def stun_message_length_wf [OF wf]
    by (cases "stun_message_find32 msg STUN_ATTRIBUTE_FINGERPRINT")
      (simp_all add: unat_message_end [OF wf] Let_def split: sum.split_asm cong: Option.bind_cong if_cong)
qed

section \<open>Sealing a message\<close>

text \<open>The attributes that \<^verbatim>\<open>stun_agent_finish_message\<close> adds leave the rest of the message as it was, and the
  MESSAGE-INTEGRITY attribute is the hash that a receiver computes.\<close>

definition keeps :: "stun_message \<Rightarrow> stun_message \<Rightarrow> bool" where
  "keeps msg m \<longleftrightarrow> stun_message_type m = stun_message_type msg \<and> stun_message_id m = stun_message_id msg
     \<and> buffer m ! 0 = buffer msg ! 0 \<and> agent m = agent msg
     \<and> (\<forall>t. t \<noteq> STUN_ATTRIBUTE_MESSAGE_INTEGRITY \<longrightarrow> t \<noteq> STUN_ATTRIBUTE_FINGERPRINT \<longrightarrow> attr_value m t = attr_value msg t)"

definition signed_by :: "hmac_fun \<Rightarrow> stun_agent \<Rightarrow> bytes \<Rightarrow> stun_message \<Rightarrow> bool" where
  "signed_by hmac ag kb m \<longleftrightarrow> (\<exists>off l sha. stun_message_find m STUN_ATTRIBUTE_MESSAGE_INTEGRITY = Some (Some (off, l))
     \<and> off + 20 \<le> message_end m \<and> mem_read (buffer m) off 20 = Some sha
     \<and> integrity_hash hmac ag m off kb = Some sha)"

lemma keeps_trans: "keeps a b \<Longrightarrow> keeps b c \<Longrightarrow> keeps a c"
  by (auto simp: keeps_def)

lemma holds_attr_keeps:
  assumes wf: "message_attrs msg = Some as" and fits: "attr_fits msg len" and h: "holds_attr msg t len b"
    and t: "t = STUN_ATTRIBUTE_MESSAGE_INTEGRITY \<or> t = STUN_ATTRIBUTE_FINGERPRINT"
  shows "keeps msg (msg\<lparr>buffer := b\<rparr>)"
proof -
  note D = message_attrsD [OF wf]
  have "oc2007_type msg t = t" using t by auto
  then have "attr_value (msg\<lparr>buffer := b\<rparr>) u = attr_value msg u" if "u \<noteq> t" for u
    using value_other_attr [OF wf fits, of t b u] h that by simp
  then show ?thesis
    using holds_attr_header [OF h D(3,5)] holds_attr_id [OF h D(3,5)] t
    by (auto simp: keeps_def stun_message_id_def)
qed

lemma integrity_hash_cong:
  assumes "stun_message_length m' = stun_message_length m" "mem_read (buffer m') 0 2 = mem_read (buffer m) 0 2"
    "mem_read (buffer m') 4 (off + 20 - 28) = mem_read (buffer m) 4 (off + 20 - 28)"
  shows "integrity_hash hmac ag m' off k = integrity_hash hmac ag m off k"
  using assms sha1_cong [of "buffer m'" "buffer m" "off + 20"] by (simp add: integrity_hash_def)

lemma keeps_received:
  assumes "message_attrs msg = Some as" "agent msg = Some (agent_cfg ag)"
  shows "keeps msg (received_message ag m (wire msg))"
  using received_wire [OF assms] message_attrsD(3,5) [OF assms(1)] assms(2)
  by (simp add: keeps_def) (simp add: wire_def)

lemma signed_received:
  assumes wf: "message_attrs msg = Some as" and cfg: "agent msg = Some (agent_cfg ag)"
    and s: "signed_by hmac ag' kb msg"
  shows "signed_by hmac ag' kb (received_message ag m (wire msg))"
proof -
  note R = received_wire [OF wf cfg] and D = message_attrsD [OF wf]
  from s obtain off l sha where o: "stun_message_find msg STUN_ATTRIBUTE_MESSAGE_INTEGRITY = Some (Some (off, l))"
    "off + 20 \<le> message_end msg" "mem_read (buffer msg) off 20 = Some sha"
    "integrity_hash hmac ag' msg off kb = Some sha" by (auto simp: signed_by_def)
  have "integrity_hash hmac ag' (received_message ag m (wire msg)) off kb = integrity_hash hmac ag' msg off kb"
    using R(7) D(3,5) o(2) by (intro integrity_hash_cong) (simp_all add: mem_read_wire)
  then show ?thesis
    using o R(1,3) D(5) by (auto simp: signed_by_def mem_read_wire intro!: exI [of _ off] exI [of _ l])
qed

lemma types_holds_attr:
  assumes "message_attrs msg = Some as" "attr_fits msg len" "holds_attr msg (oc2007_type msg t) len b"
  shows "types_of (msg\<lparr>buffer := b\<rparr>) = insert t (types_of msg)"
  using holds_attr_message(1) [OF assms] assms(1) by (auto simp: types_of_def)

text \<open>The two attributes in sequence.\<close>

lemma seal_ok:
  assumes wf: "message_attrs msg = Some as"
    and fits: "message_cost msg 20 + (if uses_fingerprint ag then message_cost msg 4 else 0) \<le> message_room msg"
    and op: "open_for msg STUN_ATTRIBUTE_MESSAGE_INTEGRITY"
    and short: "\<not> has_flag ag STUN_AGENT_USAGE_LONG_TERM_CREDENTIALS"
    and hmac: "\<And>k d. length (hmac k d) = 20"
  obtains b b' as' where "finish_integrity hmac md5 ag msg (Some kb) = Some (True, msg\<lparr>buffer := b\<rparr>)"
    "finish_fingerprint ag (msg\<lparr>buffer := b\<rparr>) = Some (True, msg\<lparr>buffer := b'\<rparr>)"
    "message_attrs (msg\<lparr>buffer := b'\<rparr>) = Some as'" "keeps msg (msg\<lparr>buffer := b'\<rparr>)"
    "signed_by hmac ag kb (msg\<lparr>buffer := b'\<rparr>)"
    "uses_fingerprint ag \<longrightarrow> stun_agent_check_fingerprint ag' (msg\<lparr>buffer := b'\<rparr>) = Some True"
proof -
  let ?e = "message_end msg"
  note D = message_attrsD [OF wf]
  have f20: "message_cost msg 20 \<le> message_room msg" using fits by simp
  then have af: "attr_fits msg 20" using attr_fits_room [OF wf] by simp
  obtain b sha where b: "finish_integrity hmac md5 ag msg (Some kb) = Some (True, msg\<lparr>buffer := b\<rparr>)"
    "holds_attr msg STUN_ATTRIBUTE_MESSAGE_INTEGRITY 20 b" "mem_read b (?e + 4) 20 = Some sha"
    "message_sha hmac ag (buffer msg) ?e kb = Some sha"
    by (rule finish_integrity_ok [OF wf f20 short hmac])
  let ?m = "msg\<lparr>buffer := b\<rparr>"
  note h = holds_attr_message [OF wf af b(2)] and K = holds_attr_keeps [OF wf af b(2)]
  note D1 = message_attrsD [OF h(1)]
  have p: "padded_len (\<not> no_aligned_attributes msg) 20 = 20" "padded_len (\<not> no_aligned_attributes msg) 4 = 4"
    by (simp_all add: padded_len_def)
  have e1: "message_end ?m = ?e + 24" using h(2) p by simp
  have f1: "stun_message_find ?m STUN_ATTRIBUTE_MESSAGE_INTEGRITY = Some (Some (?e + 4, word_of_nat (append_alen msg 20)))"
    using find_new_attr [OF wf af, of STUN_ATTRIBUTE_MESSAGE_INTEGRITY b] b(2) op by simp
  have s1: "message_sha hmac ag b ?e kb = Some sha"
    using holds_attr_reads [OF b(2) D(3)] b(4) sha1_cong [of b "buffer msg" "?e + 24"] by (simp add: message_sha_def)
  show thesis
  proof (cases "uses_fingerprint ag")
    case False
    then have "integrity_hash hmac ag ?m (?e + 4) kb = Some sha"
      using message_sha_integrity_hash [of ?m ?e ag hmac kb] s1 stun_message_length_wf [OF h(1)] e1 by simp
    then have "signed_by hmac ag kb ?m" using f1 b(3) e1 by (auto simp: signed_by_def)
    moreover have "finish_fingerprint ag ?m = Some (True, ?m)"
      using False by (auto simp: finish_fingerprint_def uses_fingerprint_def)
    ultimately show thesis using that [OF b(1) _ h(1)] K False by simp
  next
    case True
    have r1: "message_cost ?m 4 \<le> message_room ?m"
      using fits True h(2) b(2) by (simp add: message_room_def message_cost_def holds_attr_def)
    have "open_for ?m STUN_ATTRIBUTE_FINGERPRINT"
      using op types_holds_attr [OF wf af, of STUN_ATTRIBUTE_MESSAGE_INTEGRITY b] b(2) by (simp add: open_for_def)
    note fp = finish_fingerprint_ok [OF h(1) r1 this, of ag]
    obtain b' where b': "finish_fingerprint ag ?m = Some (True, ?m\<lparr>buffer := b'\<rparr>)"
      "holds_attr ?m STUN_ATTRIBUTE_FINGERPRINT 4 b'"
      "\<And>ag'. stun_agent_check_fingerprint ag' (?m\<lparr>buffer := b'\<rparr>) = Some True"
      by (rule fp) (use True in \<open>simp_all add: uses_fingerprint_def\<close>)
    let ?n = "msg\<lparr>buffer := b'\<rparr>"
    have af1: "attr_fits ?m 4" using attr_fits_room [OF h(1)] r1 by simp
    note h2 = holds_attr_message [OF h(1) af1 b'(2)] and K2 = holds_attr_keeps [OF h(1) af1 b'(2)]
    have e2: "message_end ?n = ?e + 32" using h2(2) e1 p by simp
    have l2: "stun_message_length ?n = Some (word_of_nat (?e + 32))"
      using stun_message_length_wf [OF h2(1)] e2 by simp
    have "message_sha hmac ag b' ?e kb = message_sha hmac ag b ?e kb"
      using holds_attr_reads [OF b'(2)] e1 unfolding message_sha_def by (intro sha1_cong) simp_all
    then have ih: "integrity_hash hmac ag ?n (?e + 4) kb = Some sha"
      using message_sha_integrity_hash [of ?n ?e ag hmac kb] s1 l2 True by simp
    have "mem_read b' (?e + 4) 20 = mem_read b (?e + 4) 20"
      using b'(2) e1 D(3) by (intro mem_read_cong) (auto simp: holds_attr_def)
    moreover have "stun_message_find ?n STUN_ATTRIBUTE_MESSAGE_INTEGRITY = Some (Some (?e + 4, word_of_nat (append_alen msg 20)))"
      using find_other_attr [OF h(1) af1, of STUN_ATTRIBUTE_FINGERPRINT b' STUN_ATTRIBUTE_MESSAGE_INTEGRITY] b'(2) f1 by simp
    ultimately have "signed_by hmac ag kb ?n" using ih b(3) e2 by (auto simp: signed_by_def)
    then show thesis using that [of b b'] b(1) b'(1,3) h2(1) keeps_trans [OF K K2] by simp
  qed
qed

section \<open>A sealed request is accepted\<close>

lemma header_defined:
  assumes "message_attrs msg = Some as"
  shows "\<exists>tid ty. stun_message_id msg = Some tid \<and> stun_message_type msg = Some ty"
proof -
  have "20 \<le> length (buffer msg)" by (rule message_attrsD(2) [OF assms])
  then show ?thesis
    using stun_getw_at [of 0 "buffer msg"] by (simp add: stun_message_id_def stun_message_type_def mem_read_Some)
qed

text \<open>The key is not part of the message.\<close>

lemma set_key_simps:
  "message_end (m\<lparr>key := k\<rparr>) = message_end m" "message_attrs (m\<lparr>key := k\<rparr>) = message_attrs m"
  "stun_message_find (m\<lparr>key := k\<rparr>) t = stun_message_find m t" "stun_message_length (m\<lparr>key := k\<rparr>) = stun_message_length m"
  "buffer (m\<lparr>key := k\<rparr>) = buffer m" "agent (m\<lparr>key := k\<rparr>) = agent m"
  "stun_message_type (m\<lparr>key := k\<rparr>) = stun_message_type m" "stun_message_id (m\<lparr>key := k\<rparr>) = stun_message_id m"
  by (simp_all add: message_end_def message_attrs_def stun_message_find_def stun_message_length_def
      stun_message_type_def stun_message_id_def no_aligned_attributes_def oc2007_type_def)

lemma set_key_derived:
  "attr_value (m\<lparr>key := k\<rparr>) t = attr_value m t" "integrity_hash hmac ag (m\<lparr>key := k\<rparr>) off kb = integrity_hash hmac ag m off kb"
  "stun_agent_check_fingerprint ag (m\<lparr>key := k\<rparr>) = stun_agent_check_fingerprint ag m"
  "keeps msg (m\<lparr>key := k\<rparr>) = keeps msg m" "signed_by hmac ag kb (m\<lparr>key := k\<rparr>) = signed_by hmac ag kb m"
  unfolding attr_value_def integrity_hash_def stun_agent_check_fingerprint_def stun_message_find32_def
    keeps_def signed_by_def set_key_simps by (rule refl)+

text \<open>How the table changes: a request gets the first free slot, nothing else changes it.\<close>

lemma finish_message_table:
  assumes run: "stun_agent_finish_message hmac md5 ag msg k = Some (n, ag', msg')"
    and rem: "finish_remember ag msg = Some rem"
  shows "n = 0 \<and> ag' = ag \<or> \<not> rem \<and> ag' = ag
    \<or> (\<exists>i tid m. first_index (\<lambda>s. \<not> sid_valid s) (sent_ids ag) = Some i \<and> stun_message_id msg' = Some tid
         \<and> stun_message_get_method msg' = Some m
         \<and> ag' = ag\<lparr>sent_ids := (sent_ids ag)[i := \<lparr>sid_id = tid, sid_method = m, sid_key = key msg',
              sid_long_term_key = long_term_key msg', sid_long_term_valid = long_term_valid msg',
              sid_valid = True\<rparr>]\<rparr>)"
proof -
  let ?slot = "first_index (\<lambda>s. \<not> sid_valid s) (sent_ids ag)"
  let ?k = "case key msg of Some mk \<Rightarrow> Some mk | None \<Rightarrow> k"
  note run = run [unfolded stun_agent_finish_message_def rem Option.bind.bind_lunit Let_def]
  show ?thesis
  proof (cases "rem \<and> ?slot = None")
    case True
    then show ?thesis using run by simp
  next
    case False
    obtain ok1 m1 where i: "finish_integrity hmac md5 ag msg ?k = Some (ok1, m1)"
      using run False by (cases "finish_integrity hmac md5 ag msg ?k") auto
    show ?thesis
    proof (cases ok1)
      case ok1: True
      obtain ok2 m2 where f: "finish_fingerprint ag m1 = Some (ok2, m2)"
        using run False i ok1 by (cases "finish_fingerprint ag m1") auto
      show ?thesis
      proof (cases ok2)
        case ok2: True
        then show ?thesis using run False i f ok1
          by (cases ?slot; cases rem; cases "stun_message_id m2"; cases "stun_message_get_method m2")
            (auto simp: bind_eq_Some_conv finish_save_def set_key_simps stun_message_get_method_def)
      qed (use run False i f ok1 in simp)
    qed (use run False i in simp)
  qed
qed

lemma finish_message_agent:
  assumes "stun_agent_finish_message hmac md5 ag msg k = Some (n, ag', msg')" "finish_remember ag msg = Some False"
  shows "ag' = ag"
  using assms unfolding stun_agent_finish_message_def
  by (auto simp: Let_def bind_eq_Some_conv split: if_splits option.split_asm)

lemma finish_message_sealed:
  assumes wf: "message_attrs msg = Some as"
    and fits: "message_cost msg 20 + (if uses_fingerprint ag then message_cost msg 4 else 0) \<le> message_room msg"
    and op: "open_for msg STUN_ATTRIBUTE_MESSAGE_INTEGRITY"
    and short: "\<not> has_flag ag STUN_AGENT_USAGE_LONG_TERM_CREDENTIALS"
    and hmac: "\<And>k d. length (hmac k d) = 20"
    and key: "key msg = None \<and> k = Some kb \<or> key msg = Some kb"
    and slot: "finish_remember ag msg = Some False \<or> (\<exists>s \<in> set (sent_ids ag). \<not> sid_valid s)"
  obtains ag1 msg1 as' where "stun_agent_finish_message hmac md5 ag msg k = Some (message_end msg1, ag1, msg1)"
    "message_attrs msg1 = Some as'" "keeps msg msg1" "signed_by hmac ag kb msg1" "key msg1 = Some kb"
    "uses_fingerprint ag \<longrightarrow> stun_agent_check_fingerprint ag' msg1 = Some True"
proof -
  obtain b b' as' where B: "finish_integrity hmac md5 ag msg (Some kb) = Some (True, msg\<lparr>buffer := b\<rparr>)"
    "finish_fingerprint ag (msg\<lparr>buffer := b\<rparr>) = Some (True, msg\<lparr>buffer := b'\<rparr>)"
    "message_attrs (msg\<lparr>buffer := b'\<rparr>) = Some as'" "keeps msg (msg\<lparr>buffer := b'\<rparr>)"
    "signed_by hmac ag kb (msg\<lparr>buffer := b'\<rparr>)"
    "uses_fingerprint ag \<longrightarrow> stun_agent_check_fingerprint ag' (msg\<lparr>buffer := b'\<rparr>) = Some True"
    by (rule seal_ok [OF assms(1-4), of hmac md5 kb ag']) (rule hmac)
  let ?m = "msg\<lparr>buffer := b'\<rparr>" and ?n = "(msg\<lparr>buffer := b'\<rparr>)\<lparr>key := Some kb\<rparr>"
  obtain tid ty ty' where h: "stun_message_id ?m = Some tid" "stun_message_type msg = Some ty" "stun_message_type ?m = Some ty'"
    using header_defined [OF B(3)] header_defined [OF wf] by blast
  obtain rem where rem: "finish_remember ag msg = Some rem"
    using h(2) by (simp add: finish_remember_def stun_message_get_class_def stun_message_get_method_def)
  let ?slot = "first_index (\<lambda>s. \<not> sid_valid s) (sent_ids ag)"
  have sl: "rem \<longrightarrow> ?slot \<noteq> None"
    using slot rem first_index_None [of "\<lambda>s. \<not> sid_valid s" "sent_ids ag"] by auto
  obtain ag1 where ag1: "(case ?slot of Some i \<Rightarrow> if rem then finish_save ag ?m i (Some kb) else Some ag
      | None \<Rightarrow> Some ag) = Some ag1"
    using h(1,3) by (cases rem; cases ?slot) (auto simp: finish_save_def stun_message_get_method_def)
  have k: "(case key msg of Some mk \<Rightarrow> Some mk | None \<Rightarrow> k) = Some kb" using key by auto
  have "stun_agent_finish_message hmac md5 ag msg k = Some (message_end ?n, ag1, ?n)"
    using sl stun_message_length_wf [OF B(3)] unat_message_end [OF B(3)]
    unfolding stun_agent_finish_message_def rem Option.bind.bind_lunit Let_def k B(1)
    by (auto simp: B(2) ag1 set_key_simps simp del: stun_message.update_convs)
  then show thesis
    by (rule that) (simp_all add: B(3-6) set_key_simps set_key_derived del: stun_message.update_convs)
qed


text \<open>Validation changes only the table of transactions and the legacy flag of an agent.\<close>

definition same_setup :: "stun_agent \<Rightarrow> stun_agent \<Rightarrow> bool" where
  "same_setup ag ag' \<longleftrightarrow> agent_cfg ag' = agent_cfg ag \<and> software_attribute ag' = software_attribute ag"

text \<open>The end of the validation of a sealed message: the integrity check and the search for unknown
  attributes go through.\<close>

lemma sealed_accept:
  assumes wf: "message_attrs m = Some as" and cfg: "agent m = Some (agent_cfg ag)"
    and s: "signed_by hmac ag kb m" and short: "\<not> has_flag ag STUN_AGENT_USAGE_LONG_TERM_CREDENTIALS"
  obtains st ag' where "validate_integrity hmac md5 ag m cls kb lt = Some (Inr (m\<lparr>key := Some kb\<rparr>))"
    "validate_accept ag (m\<lparr>key := Some kb\<rparr>) cls idx = Some (st, ag', m\<lparr>key := Some kb\<rparr>)" "same_setup ag ag'"
proof -
  let ?m = "m\<lparr>key := Some kb\<rparr>"
  let ?ag = "case idx of None \<Rightarrow> ag | Some i \<Rightarrow> invalidate_id ag i"
  from s have vi: "validate_integrity hmac md5 ag m cls kb lt = Some (Inr ?m)"
    using short by (auto simp: validate_integrity_def validate_hash_key_def signed_by_def)
  have wf': "message_attrs ?m = Some as" using wf by (simp add: set_key_simps)
  obtain v where v: "stun_message_find32 ?m STUN_ATTRIBUTE_MS_IMPLEMENTATION_VERSION = Some v"
    using stun_message_find32_value [OF wf'] by simp
  have un: "\<exists>x. stun_agent_find_unknowns g ?m 1 = Some x"
    if "usage_flags g = usage_flags ag" "compatibility g = compatibility ag" for g
    using find_unknowns_list [OF wf', of g] that cfg by (simp add: agent_cfg_def)
  have "\<exists>st ag'. validate_accept ag ?m cls idx = Some (st, ag', ?m) \<and> same_setup ag ag'"
    using v un [of ?ag] un [of "?ag\<lparr>ms_ice2_send_legacy_connchecks := False\<rparr>"]
    by (cases v; cases idx) (auto simp: validate_accept_def invalidate_id_def same_setup_def agent_cfg_def)
  then show thesis using that vi by blast
qed

lemma has_attribute_defined:
  "message_attrs m = Some as \<Longrightarrow> \<exists>c. stun_message_has_attribute m t = Some c"
  using stun_message_find_lookup [of m as t] by (simp add: stun_message_has_attribute_def)

lemma validate_sealed_request:
  assumes wf: "message_attrs m = Some as" and cfg: "agent m = Some (agent_cfg ag)"
    and user: "attr_value m STUN_ATTRIBUTE_USERNAME = Some u" and s: "signed_by hmac ag kb m"
    and short: "\<not> has_flag ag STUN_AGENT_USAGE_LONG_TERM_CREDENTIALS"
    and ign: "\<not> has_flag ag STUN_AGENT_USAGE_IGNORE_CREDENTIALS"
    and vld: "f ag m (Some u) None = Some (Some kb)" "kb \<noteq> []"
  shows "\<exists>st ag'. validate_credentials hmac md5 ag m STUN_REQUEST None (Some f) = Some (st, ag', m\<lparr>key := Some kb\<rparr>)
    \<and> accepted st \<and> same_setup ag ag' \<and> sent_ids ag' = sent_ids ag"
proof -
  let ?m = "m\<lparr>key := Some kb\<rparr>"
  from s obtain off l where o: "stun_message_find m STUN_ATTRIBUTE_MESSAGE_INTEGRITY = Some (Some (off, l))"
    by (auto simp: signed_by_def)
  obtain uo ul where uf: "stun_message_find m STUN_ATTRIBUTE_USERNAME = Some (Some (uo, ul))"
    "mem_read (buffer m) uo (unat ul) = Some u"
    using user by (auto simp: attr_value_def split: option.split_asm)
  have fb: "found_bytes m STUN_ATTRIBUTE_USERNAME = Some (Some u)" using uf by (simp add: found_bytes_def)
  have ic: "validate_ignore_credentials ag m STUN_REQUEST = Some False"
    using stun_message_find_error_value [OF wf] ign by (simp add: validate_ignore_credentials_def)
  have hu: "stun_message_has_attribute m STUN_ATTRIBUTE_USERNAME = Some True"
    "stun_message_has_attribute m STUN_ATTRIBUTE_MESSAGE_INTEGRITY = Some True"
    using uf o by (simp_all add: stun_message_has_attribute_def)
  have ms: "validate_missing_credentials ag m STUN_REQUEST = Some False"
    using has_attribute_defined [OF wf, of STUN_ATTRIBUTE_NONCE] has_attribute_defined [OF wf, of STUN_ATTRIBUTE_REALM]
      hu short
    by (auto simp: validate_missing_credentials_def)
  obtain st ag' where acc: "validate_integrity hmac md5 ag m STUN_REQUEST kb None = Some (Inr ?m)"
    "validate_accept ag ?m STUN_REQUEST None = Some (st, ag', ?m)" "same_setup ag ag'"
    by (rule sealed_accept [OF wf cfg s short])
  have "validate_credentials hmac md5 ag m STUN_REQUEST None (Some f) = Some (st, ag', ?m)"
    using ic ms hu fb vld acc by (simp add: validate_credentials_def)
  then show ?thesis using validate_accept_result [OF acc(2)] acc(3) by auto
qed

lemma validate_sealed_reply:
  assumes wf: "message_attrs m = Some as" and cfg: "agent m = Some (agent_cfg ag)" and s: "signed_by hmac ag kb m"
    and short: "\<not> has_flag ag STUN_AGENT_USAGE_LONG_TERM_CREDENTIALS"
    and flags: "\<not> has_flag ag STUN_AGENT_USAGE_IGNORE_CREDENTIALS" "\<not> has_flag ag STUN_AGENT_USAGE_FORCE_VALIDATER"
    and k: "sid_key (sent_ids ag ! i) = Some kb" "kb \<noteq> []"
    and cls: "cls = STUN_RESPONSE \<or> cls = STUN_ERROR \<and> (\<exists>code. stun_message_find_error m = Some (Inr code) \<and> code \<notin> {400, 401, 438})"
  shows "\<exists>st ag'. validate_credentials hmac md5 ag m cls (Some i) vld = Some (st, ag', m\<lparr>key := Some kb\<rparr>)
    \<and> accepted st \<and> same_setup ag ag' \<and> sent_ids ag' = (sent_ids ag)[i := (sent_ids ag ! i)\<lparr>sid_valid := False\<rparr>]"
proof -
  let ?m = "m\<lparr>key := Some kb\<rparr>"
  have ic: "validate_ignore_credentials ag m cls = Some False"
    using stun_message_find_error_value [OF wf] flags cls
    by (auto simp: validate_ignore_credentials_def error_code_in_def)
  have ms: "validate_missing_credentials ag m cls = Some False"
    using has_attribute_defined [OF wf, of STUN_ATTRIBUTE_NONCE] has_attribute_defined [OF wf, of STUN_ATTRIBUTE_REALM]
      has_attribute_defined [OF wf, of STUN_ATTRIBUTE_USERNAME]
      has_attribute_defined [OF wf, of STUN_ATTRIBUTE_MESSAGE_INTEGRITY]
      cls
    by (auto simp: validate_missing_credentials_def)
  obtain ig where ig: "stun_message_has_attribute m STUN_ATTRIBUTE_MESSAGE_INTEGRITY = Some ig"
    using has_attribute_defined [OF wf] by blast
  define lt where "lt = (if sid_long_term_valid (sent_ids ag ! i) then Some (sid_long_term_key (sent_ids ag ! i)) else None)"
  obtain st ag' where acc: "validate_integrity hmac md5 ag m cls kb lt = Some (Inr ?m)"
    "validate_accept ag ?m cls (Some i) = Some (st, ag', ?m)" "same_setup ag ag'"
    by (rule sealed_accept [OF wf cfg s short])
  have "validate_credentials hmac md5 ag m cls (Some i) vld = Some (st, ag', ?m)"
    using ic ms ig k flags acc cls by (auto simp: validate_credentials_def lt_def)
  then show ?thesis using validate_accept_result [OF acc(2)] acc(3) by (auto simp: sent_ids_invalidate)
qed

text \<open>The checks of \<^verbatim>\<open>stun_agent_validate\<close> before the credentials, on the bytes of a sealed message.\<close>

lemma validate_wire:
  assumes wf: "message_attrs msg = Some as" and cfg: "agent msg = Some (agent_cfg ag)"
    and hdr: "stun_message_get_class msg = Some cls" "drop_bit 6 (buffer msg ! 0) = 0"
      "cookie_compat ag \<Longrightarrow> stun_message_has_cookie msg = Some True"
    and fpr: "uses_fingerprint ag \<longrightarrow> stun_agent_check_fingerprint ag msg = Some True"
  shows "stun_agent_validate hmac md5 ag m0 (wire msg) vld
    = (let m = received_message ag m0 (wire msg) in
       validate_lookup ag m cls \<bind> (\<lambda>found. case found of None \<Rightarrow> Some (STUN_VALIDATION_UNMATCHED_RESPONSE, ag, m)
         | Some idx \<Rightarrow> validate_credentials hmac md5 ag m cls idx vld))"
proof -
  let ?m = "received_message ag m0 (wire msg)"
  have K: "keeps msg ?m" by (rule keeps_received [OF wf cfg])
  have vl: "stun_message_validate_buffer_length (wire msg) (length (wire msg)) (\<not> has_flag ag STUN_AGENT_USAGE_NO_ALIGNED_ATTRIBUTES)
      = Some (int (length (wire msg)))"
    using wire_validates [OF wf hdr(2)] has_flag_cfg [OF cfg] by simp
  have len: "20 \<le> length (wire msg)" using message_attrsD(3,5) [OF wf] by (simp add: wire_def)
  obtain c where c: "stun_message_has_cookie ?m = Some c" "cookie_compat ag \<longrightarrow> c"
    using K hdr(3) has_cookie_defined [of ?m] len by (cases "cookie_compat ag") (auto simp: keeps_def stun_message_has_cookie_def)
  have fm: "validate_format ag ?m = Some True"
    using c fpr fingerprint_received [OF wf cfg, of ag] by (auto simp: validate_format_def uses_fingerprint_def)
  have cl: "stun_message_get_class ?m = Some cls"
    using hdr(1) K by (simp add: keeps_def stun_message_get_class_def)
  show ?thesis
    using vl len fm cl by (auto simp: stun_agent_validate_def validate_received_def Let_def)
qed

lemma same_cfg_simps:
  assumes "agent_cfg peer = agent_cfg ag"
  shows "has_flag peer = has_flag ag" "cookie_compat peer = cookie_compat ag"
    "uses_fingerprint peer = uses_fingerprint ag" "signed_by hmac peer = signed_by hmac ag"
  using assms by (auto simp: agent_cfg_def has_flag_def cookie_compat_def integrity_hash_def uses_fingerprint_def
      signed_by_def fun_eq_iff)

text \<open>A sealed message on its way: what the receiver gets has the header and the attributes of the message
  that was finished.\<close>

lemma finished_request_received:
  assumes wf: "message_attrs msg = Some as" and cfg: "agent msg = Some (agent_cfg ag)"
    and hdr: "stun_message_get_class msg = Some STUN_REQUEST" "drop_bit 6 (buffer msg ! 0) = 0"
      "cookie_compat ag \<Longrightarrow> stun_message_has_cookie msg = Some True"
    and fits: "message_cost msg 20 + (if uses_fingerprint ag then message_cost msg 4 else 0) \<le> message_room msg"
    and op: "open_for msg STUN_ATTRIBUTE_MESSAGE_INTEGRITY" and user: "attr_value msg STUN_ATTRIBUTE_USERNAME = Some u"
    and flags: "\<not> has_flag ag STUN_AGENT_USAGE_LONG_TERM_CREDENTIALS" "\<not> has_flag ag STUN_AGENT_USAGE_IGNORE_CREDENTIALS"
    and key: "key msg = None" and slot: "\<exists>s \<in> set (sent_ids ag). \<not> sid_valid s"
    and hmac: "\<And>k d. length (hmac k d) = 20"
    and peer: "agent_cfg peer = agent_cfg ag" and vld: "\<And>m. f peer m (Some u) None = Some (Some kb)" "kb \<noteq> []"
  obtains n ag1 msg1 st peer1 m1 as1 where "stun_agent_finish_message hmac md5 ag msg (Some kb) = Some (n, ag1, msg1)"
    "stun_agent_validate hmac md5 peer m0 (take n (buffer msg1)) (Some f) = Some (st, peer1, m1)"
    "accepted st" "message_attrs m1 = Some as1" "keeps msg m1" "keeps msg msg1" "key msg1 = Some kb" "key m1 = Some kb"
    "same_setup peer peer1" "sent_ids peer1 = sent_ids peer" "0 < n"
proof -
  note P = same_cfg_simps [OF peer]
  obtain ag1 msg1 as' where F: "stun_agent_finish_message hmac md5 ag msg (Some kb) = Some (message_end msg1, ag1, msg1)"
    "message_attrs msg1 = Some as'" "keeps msg msg1" "signed_by hmac ag kb msg1" "key msg1 = Some kb"
    "uses_fingerprint ag \<longrightarrow> stun_agent_check_fingerprint peer msg1 = Some True"
    by (rule finish_message_sealed [OF wf fits op flags(1), of hmac "Some kb" kb md5 peer])
      (use key slot hmac in simp_all)
  have cfg1: "agent msg1 = Some (agent_cfg peer)" using F(3) cfg peer by (simp add: keeps_def)
  let ?m = "received_message peer m0 (wire msg1)"
  have K: "keeps msg ?m" using keeps_trans [OF F(3) keeps_received [OF F(2) cfg1]] .
  have S: "signed_by hmac peer kb ?m" using signed_received [OF F(2) cfg1 F(4)] P by simp
  have "attr_value ?m STUN_ATTRIBUTE_USERNAME = Some u" using K user by (simp add: keeps_def)
  from validate_sealed_request [where f = f, OF received_wire(2) [OF F(2) cfg1] _ this S _ _ vld(1) vld(2), of md5]
  obtain st peer1 where C: "validate_credentials hmac md5 peer ?m STUN_REQUEST None (Some f) = Some (st, peer1, ?m\<lparr>key := Some kb\<rparr>)"
    "accepted st" "same_setup peer peer1" "sent_ids peer1 = sent_ids peer"
    using flags P by auto
  have "stun_agent_validate hmac md5 peer m0 (wire msg1) (Some f) = Some (st, peer1, ?m\<lparr>key := Some kb\<rparr>)"
    using validate_wire [OF F(2) cfg1, of STUN_REQUEST hmac md5 m0 "Some f"] hdr F(3,6) P C(1)
    by (simp add: keeps_def stun_message_get_class_def stun_message_has_cookie_def validate_lookup_def)
  from that [OF F(1) this [unfolded wire_def] C(2)] show thesis
    using F(3,5) C(3,4) K received_wire(2) [OF F(2) cfg1, of m0] message_attrsD(3) [OF F(2)]
    by (simp add: set_key_simps set_key_derived wire_def)
qed

lemma finished_request_ok:
  assumes wf: "message_attrs msg = Some as" and cfg: "agent msg = Some (agent_cfg ag)"
    and hdr: "stun_message_get_class msg = Some STUN_REQUEST" "drop_bit 6 (buffer msg ! 0) = 0"
      "cookie_compat ag \<Longrightarrow> stun_message_has_cookie msg = Some True"
    and fits: "message_cost msg 20 + (if uses_fingerprint ag then message_cost msg 4 else 0) \<le> message_room msg"
    and op: "open_for msg STUN_ATTRIBUTE_MESSAGE_INTEGRITY" and user: "attr_value msg STUN_ATTRIBUTE_USERNAME = Some u"
    and flags: "\<not> has_flag ag STUN_AGENT_USAGE_LONG_TERM_CREDENTIALS" "\<not> has_flag ag STUN_AGENT_USAGE_IGNORE_CREDENTIALS"
    and key: "key msg = None" and slot: "\<exists>s \<in> set (sent_ids ag). \<not> sid_valid s"
    and hmac: "\<And>k d. length (hmac k d) = 20"
    and peer: "agent_cfg peer = agent_cfg ag" and vld: "\<And>m. f peer m (Some u) None = Some (Some kb)" "kb \<noteq> []"
  shows "\<exists>n ag1 msg1 st peer1 m1. stun_agent_finish_message hmac md5 ag msg (Some kb) = Some (n, ag1, msg1)
    \<and> stun_agent_validate hmac md5 peer m0 (take n (buffer msg1)) (Some f) = Some (st, peer1, m1)
    \<and> accepted st \<and> stun_message_get_class m1 = Some STUN_REQUEST \<and> key m1 = Some kb \<and> sent_ids peer1 = sent_ids peer"
proof (rule finished_request_received [where ?md5.0 = md5 and ?m0.0 = m0 and hmac = hmac and f = f, OF assms], goal_cases)
  case (2 n ag1 msg1 st peer1 m1 as1)
  have "stun_message_get_class m1 = Some STUN_REQUEST"
    using 2(5) hdr(1) by (simp add: keeps_def stun_message_get_class_def)
  then show ?case using 2 by blast
qed

lemma finished_reply_received:
  assumes wf: "message_attrs msg = Some as" and cfg: "agent msg = Some (agent_cfg ag)"
    and hdr: "stun_message_get_class msg = Some cls" "drop_bit 6 (buffer msg ! 0) = 0"
      "cookie_compat ag \<Longrightarrow> stun_message_has_cookie msg = Some True"
    and cls: "cls = STUN_RESPONSE \<or> cls = STUN_ERROR \<and> (\<exists>code. stun_message_find_error msg = Some (Inr code) \<and> code \<notin> {400, 401, 438})"
    and fits: "message_cost msg 20 + (if uses_fingerprint ag then message_cost msg 4 else 0) \<le> message_room msg"
    and op: "open_for msg STUN_ATTRIBUTE_MESSAGE_INTEGRITY"
    and flags: "\<not> has_flag ag STUN_AGENT_USAGE_LONG_TERM_CREDENTIALS" "\<not> has_flag ag STUN_AGENT_USAGE_IGNORE_CREDENTIALS"
      "\<not> has_flag ag STUN_AGENT_USAGE_FORCE_VALIDATER"
    and key: "key msg = Some kb" "kb \<noteq> []" and hmac: "\<And>k d. length (hmac k d) = 20"
    and peer: "agent_cfg peer = agent_cfg ag"
    and pending: "stun_message_get_method msg = Some m" "stun_message_id msg = Some tid"
      "first_index (sent_id_matches m tid) (sent_ids peer) = Some i" "sid_key (sent_ids peer ! i) = Some kb"
  obtains n msg1 st peer1 m1 as1 where "stun_agent_finish_message hmac md5 ag msg k = Some (n, ag, msg1)"
    "stun_agent_validate hmac md5 peer m0 (take n (buffer msg1)) vld = Some (st, peer1, m1)"
    "accepted st" "message_attrs m1 = Some as1" "keeps msg m1" "0 < n"
    "sent_ids peer1 = (sent_ids peer)[i := (sent_ids peer ! i)\<lparr>sid_valid := False\<rparr>]"
proof -
  note P = same_cfg_simps [OF peer]
  have rem: "finish_remember ag msg = Some False" using hdr(1) pending(1) cls by (auto simp: finish_remember_def)
  obtain ag1 msg1 as' where F: "stun_agent_finish_message hmac md5 ag msg k = Some (message_end msg1, ag1, msg1)"
    "message_attrs msg1 = Some as'" "keeps msg msg1" "signed_by hmac ag kb msg1" "key msg1 = Some kb"
    "uses_fingerprint ag \<longrightarrow> stun_agent_check_fingerprint peer msg1 = Some True"
    by (rule finish_message_sealed [OF wf fits op flags(1), of hmac k kb md5 peer])
      (use key rem hmac in simp_all)
  have ag1: "ag1 = ag" using finish_message_agent [OF F(1) rem] .
  have cfg1: "agent msg1 = Some (agent_cfg peer)" using F(3) cfg peer by (simp add: keeps_def)
  let ?m = "received_message peer m0 (wire msg1)"
  have K: "keeps msg ?m" using keeps_trans [OF F(3) keeps_received [OF F(2) cfg1]] .
  have S: "signed_by hmac peer kb ?m" using signed_received [OF F(2) cfg1 F(4)] P by simp
  have "stun_message_find_error ?m = stun_message_find_error msg"
    using K stun_message_find_error_value [OF wf] stun_message_find_error_value [OF received_wire(2) [OF F(2) cfg1]]
    by (simp add: keeps_def)
  with cls validate_sealed_reply [OF received_wire(2) [OF F(2) cfg1] _ S _ _ _ pending(4) key(2), of cls md5 vld]
  obtain st peer1 where C: "validate_credentials hmac md5 peer ?m cls (Some i) vld = Some (st, peer1, ?m\<lparr>key := Some kb\<rparr>)"
    "accepted st" "sent_ids peer1 = (sent_ids peer)[i := (sent_ids peer ! i)\<lparr>sid_valid := False\<rparr>]"
    using flags P by auto
  have "validate_lookup peer ?m cls = Some (Some (Some i))"
    using K pending cls by (auto simp: keeps_def validate_lookup_def stun_message_get_method_def)
  then have "stun_agent_validate hmac md5 peer m0 (wire msg1) vld = Some (st, peer1, ?m\<lparr>key := Some kb\<rparr>)"
    using validate_wire [OF F(2) cfg1, of cls hmac md5 m0 vld] hdr F(3,6) P C(1)
    by (simp add: keeps_def stun_message_get_class_def stun_message_has_cookie_def)
  from that [OF F(1) [unfolded ag1] this [unfolded wire_def] C(2)] show thesis
    using C(3) K received_wire(2) [OF F(2) cfg1, of m0] message_attrsD(3) [OF F(2)]
    by (simp add: set_key_simps set_key_derived wire_def)
qed

lemma finished_response_ok:
  assumes wf: "message_attrs msg = Some as" and cfg: "agent msg = Some (agent_cfg ag)"
    and hdr: "stun_message_get_class msg = Some STUN_RESPONSE" "drop_bit 6 (buffer msg ! 0) = 0"
      "cookie_compat ag \<Longrightarrow> stun_message_has_cookie msg = Some True"
    and fits: "message_cost msg 20 + (if uses_fingerprint ag then message_cost msg 4 else 0) \<le> message_room msg"
    and op: "open_for msg STUN_ATTRIBUTE_MESSAGE_INTEGRITY"
    and flags: "\<not> has_flag ag STUN_AGENT_USAGE_LONG_TERM_CREDENTIALS" "\<not> has_flag ag STUN_AGENT_USAGE_IGNORE_CREDENTIALS"
      "\<not> has_flag ag STUN_AGENT_USAGE_FORCE_VALIDATER"
    and key: "key msg = Some kb" "kb \<noteq> []" and hmac: "\<And>k d. length (hmac k d) = 20"
    and peer: "agent_cfg peer = agent_cfg ag"
    and pending: "stun_message_get_method msg = Some m" "stun_message_id msg = Some tid"
      "first_index (sent_id_matches m tid) (sent_ids peer) = Some i" "sid_key (sent_ids peer ! i) = Some kb"
  shows "\<exists>n ag1 msg1 st peer1 m1. stun_agent_finish_message hmac md5 ag msg k = Some (n, ag1, msg1) \<and> ag1 = ag
    \<and> stun_agent_validate hmac md5 peer m0 (take n (buffer msg1)) vld = Some (st, peer1, m1)
    \<and> accepted st \<and> sent_ids peer1 = (sent_ids peer)[i := (sent_ids peer ! i)\<lparr>sid_valid := False\<rparr>]"
  by (rule finished_reply_received [where ?md5.0 = md5 and ?m0.0 = m0 and vld = vld and k = k and hmac = hmac,
        OF wf cfg hdr _ fits op flags key hmac peer pending]) auto

end
