(* ===== verification/Stun_Agent_Claims.thy ===== *)
theory Stun_Agent_Claims
  imports Stun_Finish
begin

text \<open>
  What the STUN agent guarantees: sealed messages are accepted by an agent that knows the key, only
  authenticated requests and expected responses are accepted, and the table of sent transactions
  remembers each request until it is answered.
\<close>

section \<open>Examples\<close>

text \<open>A request with the user name "user", and an agent with fingerprints and short-term credentials.\<close>

definition example_agent :: stun_agent where
  "example_agent = stun_agent_init [STUN_ATTRIBUTE_USERNAME, STUN_ATTRIBUTE_MESSAGE_INTEGRITY] STUN_COMPATIBILITY_RFC5389
     (STUN_AGENT_USAGE_SHORT_TERM_CREDENTIALS OR STUN_AGENT_USAGE_USE_FINGERPRINT)"

definition example_request :: stun_message where
  "example_request = \<lparr>agent = Some (agent_cfg example_agent),
     buffer = [0, 1, 0, 8, 0x21, 0x12, 0xA4, 0x42] @ replicate 12 7 @ [0, 6, 0, 4, 0x75, 0x73, 0x65, 0x72]
       @ replicate 36 0,
     buffer_len = 64, key = None, long_term_key = replicate 16 0, long_term_valid = False\<rparr>"

definition example_hmac :: hmac_fun where
  "example_hmac k d = take 20 (k @ d @ replicate 20 0)"

definition example_validater :: validater where
  "example_validater = stun_agent_default_validater
     [\<lparr>dv_username = [0x75, 0x73, 0x65, 0x72], dv_password = [1, 2, 3]\<rparr>]"

lemma example_request_facts:
  "message_end example_request = 28" "message_attrs example_request = Some [(STUN_ATTRIBUTE_USERNAME, 24, 4)]"
  "stun_message_get_class example_request = Some STUN_REQUEST"
  "stun_message_has_cookie example_request = Some True" "open_for example_request STUN_ATTRIBUTE_MESSAGE_INTEGRITY"
  "attr_value example_request STUN_ATTRIBUTE_USERNAME = Some [0x75, 0x73, 0x65, 0x72]"
  "message_cost example_request 20 = 24" "message_cost example_request 4 = 8" "message_room example_request = 36"
proof -
  have na: "no_aligned_attributes example_request = False"
    by (simp add: no_aligned_attributes_def example_request_def agent_cfg_def example_agent_def stun_agent_init_def has_flag_def)
  have oc: "oc2007_type example_request t = t" for t
    by (simp add: oc2007_type_def example_request_def agent_cfg_def example_agent_def stun_agent_init_def)
  show e: "message_end example_request = 28"
    by (simp add: message_end_def example_request_def stun_getw_def rd8_def)
  have g: "stun_getw (buffer example_request) 20 = Some 6" "stun_getw (buffer example_request) 22 = Some 4"
    by (simp_all add: example_request_def stun_getw_def rd8_def nth_append)
  show a: "message_attrs example_request = Some [(STUN_ATTRIBUTE_USERNAME, 24, 4)]"
    by (simp add: message_attrs_def e na attr_list.simps [of _ _ 20] g padded_len_def) 
      (simp add: attr_list.simps example_request_def)
  show "open_for example_request STUN_ATTRIBUTE_MESSAGE_INTEGRITY" by (simp add: open_for_def types_of_def a oc)
  show "attr_value example_request STUN_ATTRIBUTE_USERNAME = Some [0x75, 0x73, 0x65, 0x72]"
    using stun_message_find_lookup [OF a, of STUN_ATTRIBUTE_USERNAME]
    by (simp add: attr_value_def oc) (simp add: example_request_def mem_read_def)
  show "message_cost example_request 20 = 24" "message_cost example_request 4 = 8"
    by (simp_all add: message_cost_def na padded_len_def)
  show "message_room example_request = 36" by (simp add: message_room_def e) (simp add: example_request_def)
  show "stun_message_get_class example_request = Some STUN_REQUEST"
    by (simp add: stun_message_get_class_def stun_message_type_def example_request_def stun_getw_def rd8_def class_of_val_def)
  show "stun_message_has_cookie example_request = Some True"
    by (simp add: stun_message_has_cookie_def stun_message_id_def example_request_def mem_read_def le32_htonl be32_def)
qed

lemma example_agent_flags:
  "\<not> has_flag example_agent STUN_AGENT_USAGE_LONG_TERM_CREDENTIALS"
  "\<not> has_flag example_agent STUN_AGENT_USAGE_IGNORE_CREDENTIALS"
  "uses_fingerprint example_agent" "\<exists>s \<in> set (sent_ids example_agent). \<not> sid_valid s"
  by (simp_all add: example_agent_def stun_agent_init_def has_flag_def uses_fingerprint_def cookie_compat_def
      empty_saved_id_def)

lemma example_request_run:
  "\<exists>n ag1 msg1 st peer1 m1.
     stun_agent_finish_message example_hmac id example_agent example_request (Some [1, 2, 3]) = Some (n, ag1, msg1)
    \<and> stun_agent_validate example_hmac id example_agent example_request (take n (buffer msg1))
        (Some example_validater)
      = Some (st, peer1, m1)
    \<and> accepted st \<and> stun_message_get_class m1 = Some STUN_REQUEST \<and> key m1 = Some [1, 2, 3] \<and> sent_ids peer1 = sent_ids example_agent"
  by (rule finished_request_ok [OF example_request_facts(2) _ example_request_facts(3) _ example_request_facts(4)
        _ example_request_facts(5,6) example_agent_flags(1,2) _ example_agent_flags(4)])
    (simp_all add: example_agent_flags(3) example_request_facts example_hmac_def example_validater_def
      stun_agent_default_validater_def,
     simp_all add: example_request_def)


text \<open>The answer to that request, and the agent that waits for it.\<close>

definition example_response :: stun_message where
  "example_response = \<lparr>agent = Some (agent_cfg example_agent),
     buffer = [1, 1, 0, 0, 0x21, 0x12, 0xA4, 0x42] @ replicate 12 7 @ replicate 36 0,
     buffer_len = 56, key = Some [1, 2, 3], long_term_key = replicate 16 0, long_term_valid = False\<rparr>"

definition waiting_agent :: stun_agent where
  "waiting_agent = example_agent\<lparr>sent_ids := (sent_ids example_agent)[3 :=
     \<lparr>sid_id = [0x21, 0x12, 0xA4, 0x42] @ replicate 12 7, sid_method = 1, sid_key = Some [1, 2, 3],
      sid_long_term_key = replicate 16 0, sid_long_term_valid = False, sid_valid = True\<rparr>]\<rparr>"

lemma example_response_facts:
  "message_attrs example_response = Some []" "stun_message_get_class example_response = Some STUN_RESPONSE"
  "stun_message_get_method example_response = Some 1"
  "stun_message_id example_response = Some ([0x21, 0x12, 0xA4, 0x42] @ replicate 12 7)"
  "stun_message_has_cookie example_response = Some True" "open_for example_response STUN_ATTRIBUTE_MESSAGE_INTEGRITY"
  "message_cost example_response 20 = 24" "message_cost example_response 4 = 8" "message_room example_response = 36"
proof -
  have na: "no_aligned_attributes example_response = False"
    by (simp add: no_aligned_attributes_def example_response_def agent_cfg_def example_agent_def stun_agent_init_def has_flag_def)
  have e: "message_end example_response = 20"
    by (simp add: message_end_def example_response_def stun_getw_def rd8_def)
  show a: "message_attrs example_response = Some []"
    by (simp add: message_attrs_def e na attr_list.simps) (simp add: example_response_def)
  show "open_for example_response STUN_ATTRIBUTE_MESSAGE_INTEGRITY" by (simp add: open_for_def types_of_def a)
  show "message_cost example_response 20 = 24" "message_cost example_response 4 = 8"
    by (simp_all add: message_cost_def na padded_len_def)
  show "message_room example_response = 36" by (simp add: message_room_def e) (simp add: example_response_def)
  have t: "stun_message_type example_response = Some 0x0101"
    by (simp add: stun_message_type_def example_response_def stun_getw_def rd8_def)
  show "stun_message_get_class example_response = Some STUN_RESPONSE" "stun_message_get_method example_response = Some 1"
    using t by (simp_all add: stun_message_get_class_def stun_message_get_method_def class_of_val_def)
  show "stun_message_id example_response = Some ([0x21, 0x12, 0xA4, 0x42] @ replicate 12 7)"
    "stun_message_has_cookie example_response = Some True"
    by (simp_all add: stun_message_has_cookie_def stun_message_id_def example_response_def mem_read_def le32_htonl be32_def)
qed

lemma waiting_agent_facts:
  "agent_cfg waiting_agent = agent_cfg example_agent"
  "first_index (sent_id_matches 1 ([0x21, 0x12, 0xA4, 0x42] @ replicate 12 7)) (sent_ids waiting_agent) = Some 3"
  "sid_key (sent_ids waiting_agent ! 3) = Some [1, 2, 3]" "\<not> has_flag example_agent STUN_AGENT_USAGE_FORCE_VALIDATER"
  by (simp_all add: waiting_agent_def agent_cfg_def example_agent_def stun_agent_init_def empty_saved_id_def
      sent_id_matches_def has_flag_def numeral_eq_Suc)

lemma example_response_run:
  "\<exists>n ag1 msg1 st peer1 m1.
     stun_agent_finish_message example_hmac id example_agent example_response None = Some (n, ag1, msg1) \<and> ag1 = example_agent
    \<and> stun_agent_validate example_hmac id waiting_agent example_response (take n (buffer msg1)) None = Some (st, peer1, m1)
    \<and> accepted st \<and> sent_ids peer1 = (sent_ids waiting_agent)[3 := (sent_ids waiting_agent ! 3)\<lparr>sid_valid := False\<rparr>]"
  by (rule finished_response_ok [OF example_response_facts(1) _ example_response_facts(2) _ example_response_facts(5)
        _ example_response_facts(6) example_agent_flags(1,2) waiting_agent_facts(4) _ _ _ waiting_agent_facts(1)
        example_response_facts(3,4) waiting_agent_facts(2,3)])
    (simp_all add: example_agent_flags(3) example_response_facts example_hmac_def,
     simp_all add: example_response_def)

section \<open>Claims\<close>

text \<open>C9: the credentials that \<^verbatim>\<open>stun_agent_finish_message\<close> puts in a request convince the receiver. When an agent
  with short-term credentials finishes a request with a USERNAME under a key and has room for the
  attributes and a free slot, the bytes it sends are accepted by an agent of the same compatibility and
  flags whose credential callback gives that key for the user, and the key is recorded in the received
  message; in every compatibility mode, with and without fingerprints.\<close>

theorem finished_request_accepted:
  assumes wf: "message_attrs msg = Some as" and cfg: "agent msg = Some (agent_cfg ag)"
    and hdr: "stun_message_get_class msg = Some STUN_REQUEST" "drop_bit 6 (buffer msg ! 0) = 0"
      "cookie_compat ag \<Longrightarrow> stun_message_has_cookie msg = Some True"
    and fits: "message_cost msg 20 + (if uses_fingerprint ag then message_cost msg 4 else 0) \<le> message_room msg"
    and op: "open_for msg STUN_ATTRIBUTE_MESSAGE_INTEGRITY" and user: "attr_value msg STUN_ATTRIBUTE_USERNAME = Some u"
    and flags: "\<not> has_flag ag STUN_AGENT_USAGE_LONG_TERM_CREDENTIALS" "\<not> has_flag ag STUN_AGENT_USAGE_IGNORE_CREDENTIALS"
    and key: "key msg = None" and slot: "\<exists>s \<in> set (sent_ids ag). \<not> sid_valid s"
    and hmac: "\<And>k d. length (hmac k d) = 20"
    and peer: "agent_cfg peer = agent_cfg ag" and vld: "\<And>m. f peer m (Some u) None = Some (Some kb)" "kb \<noteq> []"
  shows "\<exists>n ag1 msg1 st peer1 m1. stun_agent_finish_message hmac md5 ag msg (Some kb) = Some (n, ag1, msg1)
    \<and> stun_agent_validate hmac md5 peer m0 (take n (buffer msg1)) (Some f) = Some (st, peer1, m1)
    \<and> accepted st \<and> stun_message_get_class m1 = Some STUN_REQUEST \<and> key m1 = Some kb \<and> sent_ids peer1 = sent_ids peer"
  using assms by (rule finished_request_ok)

theorem finished_request_accepted_witness:
  "\<exists>n ag1 msg1 st peer1 m1.
     stun_agent_finish_message example_hmac id example_agent example_request (Some [1, 2, 3]) = Some (n, ag1, msg1)
    \<and> stun_agent_validate example_hmac id example_agent example_request (take n (buffer msg1))
        (Some example_validater)
      = Some (st, peer1, m1)
    \<and> accepted st \<and> stun_message_get_class m1 = Some STUN_REQUEST \<and> key m1 = Some [1, 2, 3] \<and> sent_ids peer1 = sent_ids example_agent"
  by (rule finished_request_accepted [OF example_request_facts(2) _ example_request_facts(3) _ example_request_facts(4)
        _ example_request_facts(5,6) example_agent_flags(1,2) _ example_agent_flags(4)])
    (simp_all add: example_agent_flags(3) example_request_facts example_hmac_def example_validater_def
      stun_agent_default_validater_def,
     simp_all add: example_request_def)

text \<open>C20: the answer to an authenticated request convinces the agent that sent the request: a response that
  takes over the key of the request, finished in any compatibility mode, is accepted by an agent in whose
  table the request is pending with that key, and the transaction is then no longer pending.\<close>

theorem finished_response_accepted:
  assumes wf: "message_attrs msg = Some as" and cfg: "agent msg = Some (agent_cfg ag)"
    and hdr: "stun_message_get_class msg = Some STUN_RESPONSE" "drop_bit 6 (buffer msg ! 0) = 0"
      "cookie_compat ag \<Longrightarrow> stun_message_has_cookie msg = Some True"
    and fits: "message_cost msg 20 + (if uses_fingerprint ag then message_cost msg 4 else 0) \<le> message_room msg"
    and op: "open_for msg STUN_ATTRIBUTE_MESSAGE_INTEGRITY"
    and flags: "\<not> has_flag ag STUN_AGENT_USAGE_LONG_TERM_CREDENTIALS" "\<not> has_flag ag STUN_AGENT_USAGE_IGNORE_CREDENTIALS"
      "\<not> has_flag ag STUN_AGENT_USAGE_FORCE_VALIDATER"
    and key: "key msg = Some kb" "kb \<noteq> []" and hmac: "\<And>k d. length (hmac k d) = 20"
    and peer: "agent_cfg peer = agent_cfg ag"
    and pending: "stun_message_get_method msg = Some m" "stun_message_id msg = Some tid"
      "first_index (sent_id_matches m tid) (sent_ids peer) = Some i" "sid_key (sent_ids peer ! i) = Some kb"
  shows "\<exists>n ag1 msg1 st peer1 m1. stun_agent_finish_message hmac md5 ag msg k = Some (n, ag1, msg1) \<and> ag1 = ag
    \<and> stun_agent_validate hmac md5 peer m0 (take n (buffer msg1)) vld = Some (st, peer1, m1)
    \<and> accepted st \<and> sent_ids peer1 = (sent_ids peer)[i := (sent_ids peer ! i)\<lparr>sid_valid := False\<rparr>]"
  using assms by (rule finished_response_ok)

theorem finished_response_accepted_witness:
  "\<exists>n ag1 msg1 st peer1 m1.
     stun_agent_finish_message example_hmac id example_agent example_response None = Some (n, ag1, msg1) \<and> ag1 = example_agent
    \<and> stun_agent_validate example_hmac id waiting_agent example_response (take n (buffer msg1)) None = Some (st, peer1, m1)
    \<and> accepted st \<and> sent_ids peer1 = (sent_ids waiting_agent)[3 := (sent_ids waiting_agent ! 3)\<lparr>sid_valid := False\<rparr>]"
  by (rule finished_response_accepted [OF example_response_facts(1) _ example_response_facts(2) _ example_response_facts(5)
        _ example_response_facts(6) example_agent_flags(1,2) waiting_agent_facts(4) _ _ _ waiting_agent_facts(1)
        example_response_facts(3,4) waiting_agent_facts(2,3)])
    (simp_all add: example_agent_flags(3) example_response_facts example_hmac_def,
     simp_all add: example_response_def)

text \<open>C11: an agent accepts a response only as the answer to a request it has sent and not seen answered: the
  transaction with the id and method of the message, which was pending, is invalidated and no other
  entry of the table changes. Requests and indications leave the table alone, and so does every message
  that is refused.\<close>

theorem response_consumes_transaction:
  assumes "stun_agent_validate hmac md5 ag msg b vld = Some (st, ag', msg')"
  shows "(\<not> accepted st \<longrightarrow> ag' = ag)
    \<and> (accepted st \<longrightarrow> buffer msg' = b \<and> (\<exists>cls. stun_message_get_class msg' = Some cls \<and>
         (if cls = STUN_RESPONSE \<or> cls = STUN_ERROR
          then \<exists>i. answers ag msg' i
            \<and> sent_ids ag' = (sent_ids ag)[i := (sent_ids ag ! i)\<lparr>sid_valid := False\<rparr>]
          else sent_ids ag' = sent_ids ag)))"
  using validate_outcome [OF assms] unfolding sent_ids_invalidate by blast

theorem response_consumes_transaction_witness:
  "\<exists>b st ag' m1. stun_agent_validate example_hmac id waiting_agent example_response b None = Some (st, ag', m1)
    \<and> accepted st \<and> buffer m1 = b \<and> (\<exists>cls. stun_message_get_class m1 = Some cls \<and>
         (if cls = STUN_RESPONSE \<or> cls = STUN_ERROR
          then \<exists>i. answers waiting_agent m1 i
            \<and> sent_ids ag' = (sent_ids waiting_agent)[i := (sent_ids waiting_agent ! i)\<lparr>sid_valid := False\<rparr>]
          else sent_ids ag' = sent_ids waiting_agent))"
proof -
  obtain b st ag' m1 where
    r: "stun_agent_validate example_hmac id waiting_agent example_response b None = Some (st, ag', m1)" "accepted st"
    using example_response_run by blast
  show ?thesis using r response_consumes_transaction [OF r(1)] by blast
qed

lemma accepted_request_key:
  assumes "stun_agent_validate hmac md5 ag msg b vld = Some (st, ag', msg')" "accepted st"
    and "stun_message_get_class msg' = Some STUN_REQUEST"
    and "has_flag ag STUN_AGENT_USAGE_SHORT_TERM_CREDENTIALS"
    and "\<not> has_flag ag STUN_AGENT_USAGE_LONG_TERM_CREDENTIALS"
    and "\<not> has_flag ag STUN_AGENT_USAGE_IGNORE_CREDENTIALS"
  shows "\<exists>u f ko. found_bytes (received_message ag msg b) STUN_ATTRIBUTE_USERNAME = Some (Some u)
    \<and> vld = Some f \<and> f ag (received_message ag msg b) (Some u) None = Some ko
    \<and> (ko = None \<or> ko = Some [] \<or> (\<exists>kb off l sha. ko = Some kb \<and> key msg' = Some kb
         \<and> stun_message_find (received_message ag msg b) STUN_ATTRIBUTE_MESSAGE_INTEGRITY = Some (Some (off, l))
         \<and> integrity_hash hmac ag (received_message ag msg b) off kb = Some sha
         \<and> mem_read b off 20 = Some sha))"
proof (cases rule: stun_agent_validate_cases [OF assms(1)])
  case 1
  then show ?thesis using assms(2) by simp
next
  case (2 cls idx)
  let ?m = "received_message ag msg b"
  have "buffer msg' = b" using validate_outcome [OF assms(1)] assms(2) by simp
  then have "stun_message_get_class msg' = stun_message_get_class ?m"
    by (simp add: stun_message_get_class_def stun_message_type_def received_message_def)
  then have cls: "cls = STUN_REQUEST" using 2(2) assms(3) by simp
  then have "idx = None" using 2(3) by (simp add: validate_lookup_def)
  from validate_request_credentials [OF 2(4) [unfolded cls this] assms(2,4,6)] obtain u f ko where
    u: "found_bytes ?m STUN_ATTRIBUTE_USERNAME = Some (Some u)" "vld = Some f" "f ag ?m (Some u) None = Some ko"
    and k: "ko = None \<or> ko = Some [] \<or> (\<exists>kb m. ko = Some kb \<and> kb \<noteq> []
         \<and> validate_integrity hmac md5 ag ?m STUN_REQUEST kb None = Some (Inr m) \<and> msg' = m)" by blast
  have "\<exists>off l sha. key msg' = Some kb
         \<and> stun_message_find ?m STUN_ATTRIBUTE_MESSAGE_INTEGRITY = Some (Some (off, l))
         \<and> integrity_hash hmac ag ?m off kb = Some sha \<and> mem_read b off 20 = Some sha"
    if "validate_integrity hmac md5 ag ?m STUN_REQUEST kb None = Some (Inr msg')" for kb
    using that
  proof (cases rule: validate_integrity_cases)
    case (hash off l hk m)
    then have "hk = kb \<and> m = ?m" using validate_hash_key_cases [OF hash(2)] assms(5) by auto
    then show ?thesis using hash by (auto simp: received_message_def)
  qed simp_all
  then show ?thesis using u k by blast
qed

text \<open>C10: an agent with short-term credentials accepts a request only when the credential callback knows its
  USERNAME and, unless the callback gives an empty key, the MESSAGE-INTEGRITY attribute of the message is
  the HMAC of the message under the key the callback gave for that user.\<close>

theorem request_authenticated:
  assumes "stun_agent_validate hmac md5 ag msg b vld = Some (st, ag', msg')" "accepted st"
    and "stun_message_get_class msg' = Some STUN_REQUEST"
    and "has_flag ag STUN_AGENT_USAGE_SHORT_TERM_CREDENTIALS"
    and "\<not> has_flag ag STUN_AGENT_USAGE_LONG_TERM_CREDENTIALS"
    and "\<not> has_flag ag STUN_AGENT_USAGE_IGNORE_CREDENTIALS"
  shows "\<exists>u f ko. found_bytes (received_message ag msg b) STUN_ATTRIBUTE_USERNAME = Some (Some u)
    \<and> vld = Some f \<and> f ag (received_message ag msg b) (Some u) None = Some ko
    \<and> (ko = None \<or> ko = Some [] \<or> (\<exists>kb off l sha. ko = Some kb \<and> key msg' = Some kb
         \<and> stun_message_find (received_message ag msg b) STUN_ATTRIBUTE_MESSAGE_INTEGRITY = Some (Some (off, l))
         \<and> integrity_hash hmac ag (received_message ag msg b) off kb = Some sha
         \<and> mem_read b off 20 = Some sha))"
  by (rule accepted_request_key [OF assms])

theorem request_authenticated_witness:
  "\<exists>b st ag' m1 off l sha.
     stun_agent_validate example_hmac id example_agent example_request b (Some example_validater) = Some (st, ag', m1)
    \<and> accepted st \<and> key m1 = Some [1, 2, 3]
    \<and> stun_message_find (received_message example_agent example_request b) STUN_ATTRIBUTE_MESSAGE_INTEGRITY = Some (Some (off, l))
    \<and> integrity_hash example_hmac example_agent (received_message example_agent example_request b) off [1, 2, 3] = Some sha
    \<and> mem_read b off 20 = Some sha"
proof -
  obtain b st ag' m1 where
    r: "stun_agent_validate example_hmac id example_agent example_request b (Some example_validater) = Some (st, ag', m1)"
      "accepted st" "stun_message_get_class m1 = Some STUN_REQUEST"
    using example_request_run by blast
  have short: "has_flag example_agent STUN_AGENT_USAGE_SHORT_TERM_CREDENTIALS"
    by (simp add: example_agent_def stun_agent_init_def has_flag_def)
  have ko: "ko = Some [1, 2, 3]" if "example_validater ag m (Some u) None = Some ko" for ag m u ko
    using that by (simp add: example_validater_def stun_agent_default_validater_def split: if_splits)
  obtain u f k where "Some example_validater = Some f" "f example_agent (received_message example_agent example_request b) (Some u) None = Some k"
    and k: "k = None \<or> k = Some [] \<or> (\<exists>kb off l sha. k = Some kb \<and> key m1 = Some kb
         \<and> stun_message_find (received_message example_agent example_request b) STUN_ATTRIBUTE_MESSAGE_INTEGRITY = Some (Some (off, l))
         \<and> integrity_hash example_hmac example_agent (received_message example_agent example_request b) off kb = Some sha
         \<and> mem_read b off 20 = Some sha)"
    using request_authenticated [OF r short example_agent_flags(1,2)] by blast
  then have "k = Some [1, 2, 3]" using ko by blast
  then show ?thesis using r k by blast
qed

text \<open>C21: a request is only sent when its transaction can be remembered. With every slot of the table in use,
  finishing it fails and changes nothing; otherwise it fails without touching the table, or the first
  free slot, and only that one, takes the id, method and key of the message, and a later response with
  that id and method is matched with a pending transaction.\<close>

theorem finish_remembers_request:
  assumes "stun_agent_finish_message hmac md5 ag msg k = Some (n, ag', msg')" "finish_remember ag msg = Some True"
  shows "if \<forall>s \<in> set (sent_ids ag). sid_valid s then n = 0 \<and> ag' = ag \<and> msg' = msg
    else n = 0 \<and> ag' = ag
      \<or> (\<exists>i < length (sent_ids ag). \<exists>tid m. \<not> sid_valid (sent_ids ag ! i) \<and> stun_message_id msg' = Some tid
         \<and> stun_message_get_method msg' = Some m
         \<and> ag' = ag\<lparr>sent_ids := (sent_ids ag)[i := \<lparr>sid_id = tid, sid_method = m, sid_key = key msg',
              sid_long_term_key = long_term_key msg', sid_long_term_valid = long_term_valid msg',
              sid_valid = True\<rparr>]\<rparr>
         \<and> (\<forall>resp. stun_message_id resp = Some tid \<and> stun_message_get_method resp = Some m \<longrightarrow>
               (\<exists>j. validate_lookup ag' resp STUN_RESPONSE = Some (Some (Some j)))))"
proof (cases "\<forall>s \<in> set (sent_ids ag). sid_valid s")
  case True
  then have "first_index (\<lambda>s. \<not> sid_valid s) (sent_ids ag) = None" by (simp add: first_index_None)
  then show ?thesis using True assms by (simp add: stun_agent_finish_message_def)
next
  case False
  have lk: "\<exists>j. validate_lookup ag' resp STUN_RESPONSE = Some (Some (Some j))"
    if "stun_message_id resp = Some tid" "stun_message_get_method resp = Some m" "i < length (sent_ids ag)"
      "sent_ids ag' = (sent_ids ag)[i := s]" "sent_id_matches m tid s" for resp tid m i s
  proof -
    have "s \<in> set (sent_ids ag')" using that(3,4) by (simp add: set_update_memI)
    then have "first_index (sent_id_matches m tid) (sent_ids ag') \<noteq> None"
      using that(5) first_index_None [of "sent_id_matches m tid"] by blast
    then show ?thesis using that(1,2) by (auto simp: validate_lookup_def)
  qed
  show ?thesis
    using finish_message_table [OF assms]
  proof (elim disjE exE conjE)
    fix i tid m
    assume i: "first_index (\<lambda>s. \<not> sid_valid s) (sent_ids ag) = Some i" and id: "stun_message_id msg' = Some tid"
      and m: "stun_message_get_method msg' = Some m"
      and ag': "ag' = ag\<lparr>sent_ids := (sent_ids ag)[i := \<lparr>sid_id = tid, sid_method = m, sid_key = key msg',
              sid_long_term_key = long_term_key msg', sid_long_term_valid = long_term_valid msg',
              sid_valid = True\<rparr>]\<rparr>"
    have "i < length (sent_ids ag)" "\<not> sid_valid (sent_ids ag ! i)" using first_index_Some [OF i] by auto
    then show ?thesis using False id m ag' lk [of _ tid m i] by (auto simp: sent_id_matches_def)
  qed (use False in auto)
qed

theorem finish_remembers_request_witness:
  "\<exists>n ag' msg'. stun_agent_finish_message example_hmac id example_agent example_request (Some [1, 2, 3]) = Some (n, ag', msg')
    \<and> (n = 0 \<and> ag' = example_agent
      \<or> (\<exists>i < length (sent_ids example_agent). \<exists>tid m. \<not> sid_valid (sent_ids example_agent ! i)
         \<and> stun_message_id msg' = Some tid \<and> stun_message_get_method msg' = Some m
         \<and> ag' = example_agent\<lparr>sent_ids := (sent_ids example_agent)[i := \<lparr>sid_id = tid, sid_method = m, sid_key = key msg',
              sid_long_term_key = long_term_key msg', sid_long_term_valid = long_term_valid msg',
              sid_valid = True\<rparr>]\<rparr>))"
proof -
  obtain n ag' msg' where
    r: "stun_agent_finish_message example_hmac id example_agent example_request (Some [1, 2, 3]) = Some (n, ag', msg')"
    using example_request_run by blast
  obtain ty where "stun_message_type example_request = Some ty"
    using header_defined [OF example_request_facts(2)] by blast
  then have "finish_remember example_agent example_request = Some True"
    using example_request_facts(3)
    by (simp add: finish_remember_def stun_message_get_method_def example_agent_def stun_agent_init_def)
  from finish_remembers_request [OF r this] r example_agent_flags(4) show ?thesis by (auto simp: Bex_def split: if_splits)
qed

text \<open>C22: on a well-formed message, \<^verbatim>\<open>stun_agent_find_unknowns\<close> returns, in network byte order and in the order of
  the message, the first \<open>mx\<close> attribute types that are mandatory to understand (below 0x8000) and not
  known to the agent.\<close>

theorem find_unknowns_spec:
  assumes "message_attrs msg = Some as" "agent msg = Some (agent_cfg ag)"
  shows "stun_agent_find_unknowns ag msg mx = Some (map htons (take mx
    (filter (\<lambda>t. t < 0x8000 \<and> t \<notin> set (known_attributes ag)) (map fst as))))"
proof -
  have "(\<not> stun_optional t) = (t < 0x8000)" for t
  proof -
    have "drop_bit 15 t = 1 \<longleftrightarrow> unat t div 2 ^ 15 = 1" by (simp add: word_unat_eq_iff unat_drop_bit_eq drop_bit_eq_div unat_div)
    also have "\<dots> \<longleftrightarrow> \<not> unat t < 0x8000" using unat_u16_less [of t] by auto
    finally show ?thesis by (simp add: stun_optional_def word_less_nat_alt)
  qed
  then show ?thesis using find_unknowns_list [OF assms] by (simp add: unknown_types_def)
qed

theorem find_unknowns_spec_witness:
  "stun_agent_find_unknowns (example_agent\<lparr>known_attributes := []\<rparr>) example_request 5 = Some [htons STUN_ATTRIBUTE_USERNAME]"
  using find_unknowns_spec [OF example_request_facts(2), of "example_agent\<lparr>known_attributes := []\<rparr>" 5]
  by (simp add: example_request_def agent_cfg_def)

end
