(* ===== verification/Stun_Timer.thy ===== *)
theory Stun_Timer
  imports Nice_Prelude
begin

text \<open>
  \<^verbatim>\<open>stun/usages/timer.c\<close>: the retransmission timer of a STUN transaction. The clock reading that each
  function takes from \<^verbatim>\<open>stun_gettime\<close> is an argument; \<^verbatim>\<open>struct timeval\<close> has 64-bit members, which are
  \<open>int\<close> here, and the unsigned members of the timer are 32-bit words. The lemmas show that a delay is
  added exactly, how far the reported remainder is from the true one, that a transaction is
  retransmitted less often than its bound for any clock readings, and the schedule of the expiries.
\<close>

section \<open>Model\<close>

record timeval =
  tv_sec :: int
  tv_usec :: int

record StunTimer =
  deadline :: timeval
  delay :: u32
  retransmissions :: u32
  max_retransmissions :: u32

datatype StunUsageTimerReturn =
    STUN_USAGE_TIMER_RETURN_SUCCESS
  | STUN_USAGE_TIMER_RETURN_RETRANSMIT
  | STUN_USAGE_TIMER_RETURN_TIMEOUT

abbreviation (input) STUN_TIMER_DEFAULT_TIMEOUT :: u32 where "STUN_TIMER_DEFAULT_TIMEOUT \<equiv> 200"
abbreviation (input) STUN_TIMER_DEFAULT_MAX_RETRANSMISSIONS :: u32
  where "STUN_TIMER_DEFAULT_MAX_RETRANSMISSIONS \<equiv> 7"
abbreviation (input) STUN_TIMER_DEFAULT_RELIABLE_TIMEOUT :: u32
  where "STUN_TIMER_DEFAULT_RELIABLE_TIMEOUT \<equiv> 7900"

function carry_usec :: "timeval \<Rightarrow> timeval" where
  "carry_usec ts =
     (if tv_usec ts > 1000000
      then carry_usec (ts\<lparr>tv_usec := tv_usec ts - 1000000, tv_sec := tv_sec ts + 1\<rparr>)
      else ts)"
  by pat_completeness auto
termination
  by (relation "measure (\<lambda>ts. nat (tv_usec ts))") auto

definition add_delay :: "timeval \<Rightarrow> u32 \<Rightarrow> timeval" where
  "add_delay ts d =
     carry_usec (ts\<lparr>tv_sec := tv_sec ts + uint (d div 1000),
                    tv_usec := tv_usec ts + uint ((d mod 1000) * 1000)\<rparr>)"

definition stun_timer_start :: "timeval \<Rightarrow> u32 \<Rightarrow> u32 \<Rightarrow> StunTimer" where
  "stun_timer_start now initial_timeout max_retr =
     \<lparr>deadline = add_delay now initial_timeout, delay = initial_timeout, retransmissions = 1,
      max_retransmissions = max_retr\<rparr>"

definition stun_timer_start_reliable :: "timeval \<Rightarrow> u32 \<Rightarrow> StunTimer" where
  "stun_timer_start_reliable now initial_timeout = stun_timer_start now initial_timeout 0"

text \<open>Division of C, which truncates.\<close>

definition c_div :: "int \<Rightarrow> int \<Rightarrow> int" where
  "c_div a b = sgn a * sgn b * (\<bar>a\<bar> div \<bar>b\<bar>)"

definition stun_timer_remainder :: "timeval \<Rightarrow> StunTimer \<Rightarrow> u32" where
  "stun_timer_remainder now timer =
     (if tv_sec now > tv_sec (deadline timer) then 0
      else
        let d = (word_of_int (tv_sec (deadline timer) - tv_sec now) :: u32) in
        if d = 0 \<and> tv_usec now \<ge> tv_usec (deadline timer) then 0
        else d * 1000 +
          word_of_int (c_div (sint (word_of_int (tv_usec (deadline timer) - tv_usec now) :: u32)) 1000))"

definition stun_timer_refresh :: "timeval \<Rightarrow> StunTimer \<Rightarrow> StunUsageTimerReturn \<times> StunTimer" where
  "stun_timer_refresh now timer =
     (if stun_timer_remainder now timer = 0 then
        if retransmissions timer \<ge> max_retransmissions timer
        then (STUN_USAGE_TIMER_RETURN_TIMEOUT, timer)
        else
          let d = (if retransmissions timer = max_retransmissions timer - 1 then delay timer div 2
                   else delay timer * 2) in
          (STUN_USAGE_TIMER_RETURN_RETRANSMIT,
           timer\<lparr>delay := d, deadline := add_delay (deadline timer) d,
                 retransmissions := retransmissions timer + 1\<rparr>)
      else (STUN_USAGE_TIMER_RETURN_SUCCESS, timer))"

text \<open>A transaction: the timer is refreshed at each of the given clock readings.\<close>

fun timer_run :: "StunTimer \<Rightarrow> timeval list \<Rightarrow> StunUsageTimerReturn list \<times> StunTimer" where
  "timer_run t [] = ([], t)"
| "timer_run t (now # nows) =
     (let (r, t1) = stun_timer_refresh now t; (rs, t2) = timer_run t1 nows in (r # rs, t2))"

section \<open>Properties\<close>

definition usecs :: "timeval \<Rightarrow> int" where
  "usecs ts = 1000000 * tv_sec ts + tv_usec ts"

declare carry_usec.simps [simp del]

lemma carry_usec_usecs: "usecs (carry_usec ts) = usecs ts"
  by (induction ts rule: carry_usec.induct)
    (subst carry_usec.simps, simp add: usecs_def algebra_simps)

lemma carry_usec_range:
  "0 \<le> tv_usec ts \<Longrightarrow> 0 \<le> tv_usec (carry_usec ts) \<and> tv_usec (carry_usec ts) \<le> 1000000"
  by (induction ts rule: carry_usec.induct) (subst (1 2) carry_usec.simps, simp)

lemma uint_delay_parts: "1000 * uint ((d :: u32) div 1000) + uint (d mod 1000) = uint d"
  by (simp add: uint_div uint_mod)

lemma uint_mod_1000_times: "uint (((d :: u32) mod 1000) * 1000) = uint (d mod 1000) * 1000"
proof -
  have "uint (d mod 1000) < 1000" by (simp add: uint_mod)
  then show ?thesis by (simp add: uint_word_ariths take_bit_int_eq_self)
qed

lemma add_delay_usecs: "usecs (add_delay ts d) = usecs ts + 1000 * uint d"
proof -
  have "usecs (add_delay ts d)
      = 1000000 * tv_sec ts + tv_usec ts + 1000 * (1000 * uint (d div 1000) + uint (d mod 1000))"
    by (simp only: add_delay_def carry_usec_usecs) (simp add: usecs_def uint_mod_1000_times)
  then show ?thesis by (simp only: uint_delay_parts) (simp add: usecs_def)
qed

text \<open>adding a delay of \<open>d\<close> milliseconds moves a time forward by exactly that much, and from a
  non-negative microsecond field it leaves one between 0 and 1000000 inclusive.\<close>

theorem add_delay_exact:
  assumes "0 \<le> tv_usec ts"
  shows "usecs (add_delay ts d) = usecs ts + 1000 * uint d
    \<and> 0 \<le> tv_usec (add_delay ts d) \<and> tv_usec (add_delay ts d) \<le> 1000000"
  using assms carry_usec_range by (simp add: add_delay_usecs) (simp add: add_delay_def)

theorem add_delay_exact_witness:
  "usecs (add_delay \<lparr>tv_sec = 5, tv_usec = 800000\<rparr> 200)
     = usecs \<lparr>tv_sec = 5, tv_usec = 800000\<rparr> + 1000 * uint (200 :: u32)
   \<and> 0 \<le> tv_usec (add_delay \<lparr>tv_sec = 5, tv_usec = 800000\<rparr> 200)
   \<and> tv_usec (add_delay \<lparr>tv_sec = 5, tv_usec = 800000\<rparr> 200) \<le> 1000000"
  by (rule add_delay_exact) simp

lemma uint_word_of_int_small: "0 \<le> k \<Longrightarrow> k < 4294967296 \<Longrightarrow> uint (word_of_int k :: u32) = k"
  by (simp add: unsigned_of_int take_bit_int_eq_self)

lemma c_div_1000: "0 \<le> a \<Longrightarrow> c_div a 1000 = a div 1000" "a < 0 \<Longrightarrow> c_div a 1000 = - ((- a) div 1000)"
  by (simp_all add: c_div_def sgn_if)

lemma c_div_1000_error: "\<bar>1000 * c_div a 1000 - a\<bar> < 1000"
proof (cases "0 \<le> a")
  case True
  then show ?thesis using pos_mod_bound [of 1000 a] pos_mod_sign [of 1000 a] minus_mod_eq_mult_div [of a 1000]
    by (simp add: c_div_1000)
next
  case False
  then show ?thesis
    using pos_mod_bound [of 1000 "- a"] pos_mod_sign [of 1000 "- a"] minus_mod_eq_mult_div [of "- a" 1000]
    by (simp add: c_div_1000)
qed

lemma sint_word_of_int_small: "- 2147483648 \<le> k \<Longrightarrow> k < 2147483648 \<Longrightarrow> sint (word_of_int k :: u32) = k"
  by (simp add: signed_of_int signed_take_bit_int_eq_self)

lemma remainder_range:
  fixes s u c :: int
  assumes "\<bar>1000 * c - u\<bar> < 1000" "- 1000000 < u" "u \<le> 1000000" "0 \<le> s" "s < 4000000"
    and "\<not> (s = 0 \<and> u \<le> 0)" "0 \<le> u \<Longrightarrow> 0 \<le> c"
  shows "0 \<le> 1000 * s + c \<and> 1000 * s + c < 4294967296"
proof -
  have "- 1001 < c" "c < 1001" using assms(1-3) by linarith+
  then show ?thesis using assms(4-7) by (cases "s = 0") auto
qed

text \<open>while the deadline lies ahead by no more than four million seconds and both times have their
  microseconds in range, the remainder is the time left in milliseconds, with an error of less than one
  millisecond; it is 0 as soon as the deadline has passed.\<close>

theorem stun_timer_remainder_accurate:
  assumes "0 \<le> tv_usec now" "tv_usec now < 1000000" "0 \<le> tv_usec (deadline t)"
    and "tv_usec (deadline t) \<le> 1000000" "tv_sec (deadline t) - tv_sec now < 4000000"
  shows "(usecs now \<le> usecs (deadline t) \<longrightarrow>
      \<bar>1000 * uint (stun_timer_remainder now t) - (usecs (deadline t) - usecs now)\<bar> < 1000)
    \<and> (tv_sec now > tv_sec (deadline t)
        \<or> tv_sec now = tv_sec (deadline t) \<and> tv_usec now \<ge> tv_usec (deadline t)
       \<longrightarrow> stun_timer_remainder now t = 0)"
proof (intro conjI impI)
  assume late: "tv_sec now > tv_sec (deadline t)
        \<or> tv_sec now = tv_sec (deadline t) \<and> tv_usec now \<ge> tv_usec (deadline t)"
  then show "stun_timer_remainder now t = 0" by (auto simp: stun_timer_remainder_def)
next
  assume le: "usecs now \<le> usecs (deadline t)"
  let ?s = "tv_sec (deadline t) - tv_sec now" and ?u = "tv_usec (deadline t) - tv_usec now"
  have diff: "usecs (deadline t) - usecs now = 1000000 * ?s + ?u" by (simp add: usecs_def)
  have u: "- 1000000 < ?u" "?u \<le> 1000000" using assms by linarith+
  have e: "\<bar>1000 * c_div ?u 1000 - ?u\<bar> < 1000" by (rule c_div_1000_error)
  show "\<bar>1000 * uint (stun_timer_remainder now t) - (usecs (deadline t) - usecs now)\<bar> < 1000"
  proof (cases "?s < 0")
    case True
    then have "?s \<le> - 1" by linarith
    then have "1000000 * ?s \<le> - 1000000" using mult_left_mono [of ?s "- 1" 1000000] by simp
    then have "usecs (deadline t) = usecs now" using le diff u by linarith
    with True show ?thesis by (simp add: stun_timer_remainder_def)
  next
    case False
    then have s: "uint (word_of_int ?s :: u32) = ?s"
      using assms(5) by (intro uint_word_of_int_small) auto
    show ?thesis
    proof (cases "?s = 0 \<and> ?u \<le> 0")
      case True
      then have "usecs (deadline t) = usecs now" using le diff by simp
      with True show ?thesis by (simp add: stun_timer_remainder_def)
    next
      case ne: False
      let ?r = "1000 * ?s + c_div ?u 1000"
      have "(word_of_int ?s :: u32) = 0 \<longleftrightarrow> ?s = 0" using s by (metis of_int_0 unsigned_0)
      moreover have "sint (word_of_int ?u :: u32) = ?u" using u by (intro sint_word_of_int_small) linarith+
      ultimately have "stun_timer_remainder now t = word_of_int ?s * 1000 + word_of_int (c_div ?u 1000)"
        using False ne by (auto simp: stun_timer_remainder_def Let_def simp del: signed_of_int of_int_diff)
      then have eq: "stun_timer_remainder now t = word_of_int ?r" by simp
      have "0 \<le> ?u \<Longrightarrow> 0 \<le> c_div ?u 1000" by (simp add: c_div_1000)
      then have "0 \<le> ?r \<and> ?r < 4294967296"
        using ne False assms(5) by (intro remainder_range [OF e u]) linarith+
      then have "uint (stun_timer_remainder now t) = ?r"
        unfolding eq by (intro uint_word_of_int_small) simp_all
      with e diff show ?thesis by linarith
    qed
  qed
qed

theorem stun_timer_remainder_accurate_witness:
  "\<bar>1000 * uint (stun_timer_remainder \<lparr>tv_sec = 10, tv_usec = 1\<rparr>
       (stun_timer_start \<lparr>tv_sec = 10, tv_usec = 0\<rparr> 200 7))
     - (usecs (deadline (stun_timer_start \<lparr>tv_sec = 10, tv_usec = 0\<rparr> 200 7))
        - usecs \<lparr>tv_sec = 10, tv_usec = 1\<rparr>)\<bar> < 1000"
  using stun_timer_remainder_accurate [of "\<lparr>tv_sec = 10, tv_usec = 1\<rparr>"
      "stun_timer_start \<lparr>tv_sec = 10, tv_usec = 0\<rparr> 200 7"]
  by (simp add: stun_timer_start_def add_delay_def carry_usec.simps usecs_def)

section \<open>Retransmissions\<close>

abbreviation retransmits :: "StunUsageTimerReturn list \<Rightarrow> nat" where
  "retransmits rs \<equiv> length (filter (\<lambda>r. r = STUN_USAGE_TIMER_RETURN_RETRANSMIT) rs)"

lemma refresh_retransmit:
  assumes "stun_timer_refresh now t = (r, t')"
  shows "max_retransmissions t' = max_retransmissions t"
    "r = STUN_USAGE_TIMER_RETURN_RETRANSMIT \<Longrightarrow>
       unat (retransmissions t') = unat (retransmissions t) + 1
       \<and> unat (retransmissions t) < unat (max_retransmissions t)"
    "r \<noteq> STUN_USAGE_TIMER_RETURN_RETRANSMIT \<Longrightarrow> t' = t"
proof -
  show "max_retransmissions t' = max_retransmissions t"
    "r \<noteq> STUN_USAGE_TIMER_RETURN_RETRANSMIT \<Longrightarrow> t' = t"
    using assms by (auto simp: stun_timer_refresh_def Let_def split: if_splits)
  assume "r = STUN_USAGE_TIMER_RETURN_RETRANSMIT"
  with assms have lt: "retransmissions t < max_retransmissions t"
    and t': "retransmissions t' = retransmissions t + 1"
    by (auto simp: stun_timer_refresh_def Let_def not_le split: if_splits)
  then have "unat (retransmissions t) < unat (max_retransmissions t)" by (simp add: word_less_nat_alt)
  with t' show "unat (retransmissions t') = unat (retransmissions t) + 1
       \<and> unat (retransmissions t) < unat (max_retransmissions t)"
    using unat_u32_less [of "max_retransmissions t"] by (simp add: unat_word_ariths)
qed

lemma timer_run_retransmits:
  assumes "timer_run t nows = (rs, t')"
  shows "unat (retransmissions t) + retransmits rs
    \<le> max (unat (retransmissions t)) (unat (max_retransmissions t))"
  using assms
proof (induction nows arbitrary: t rs t')
  case (Cons now nows)
  obtain r t1 where r: "stun_timer_refresh now t = (r, t1)" by (cases "stun_timer_refresh now t")
  obtain rs1 t2 where rs: "timer_run t1 nows = (rs1, t2)" by (cases "timer_run t1 nows")
  have rs_eq: "rs = r # rs1" using Cons.prems r rs by simp
  note IH = Cons.IH [OF rs]
  show ?case
  proof (cases "r = STUN_USAGE_TIMER_RETURN_RETRANSMIT")
    case True
    with refresh_retransmit(1,2) [OF r] IH show ?thesis by (simp add: rs_eq)
  next
    case False
    with refresh_retransmit(3) [OF r] IH show ?thesis by (simp add: rs_eq)
  qed
qed simp

text \<open>C27: however often and whenever a timer is refreshed, the transaction is retransmitted fewer times
  than its bound (the first transmission counts as one); a reliable timer never retransmits.\<close>

theorem retransmissions_bounded:
  "retransmits (fst (timer_run (stun_timer_start now timeout max_retr) nows)) \<le> unat max_retr - 1
   \<and> retransmits (fst (timer_run (stun_timer_start_reliable now timeout) nows)) = 0"
proof -
  have "retransmits (fst (timer_run (stun_timer_start now timeout n) nows)) \<le> unat n - 1" for n
    using timer_run_retransmits [of "stun_timer_start now timeout n" nows]
    by (cases "timer_run (stun_timer_start now timeout n) nows")
      (fastforce simp: stun_timer_start_def)
  from this [of max_retr] this [of 0] show ?thesis by (simp add: stun_timer_start_reliable_def)
qed

text \<open>The deadlines of a transaction that is refreshed at each expiry.\<close>

fun expiries :: "nat \<Rightarrow> StunTimer \<Rightarrow> int list" where
  "expiries 0 t = []"
| "expiries (Suc n) t = usecs (deadline t) #
     (case stun_timer_refresh (deadline t) t of
        (STUN_USAGE_TIMER_RETURN_RETRANSMIT, t') \<Rightarrow> expiries n t'
      | _ \<Rightarrow> [])"

lemma remainder_at_deadline: "stun_timer_remainder (deadline t) t = 0"
  by (simp add: stun_timer_remainder_def)

lemma refresh_at_deadline:
  "deadline t = d \<Longrightarrow> retransmissions t < max_retransmissions t \<Longrightarrow>
   stun_timer_refresh d t = (STUN_USAGE_TIMER_RETURN_RETRANSMIT,
     t\<lparr>delay := (if retransmissions t = max_retransmissions t - 1 then delay t div 2 else delay t * 2),
       deadline := add_delay d
         (if retransmissions t = max_retransmissions t - 1 then delay t div 2 else delay t * 2),
       retransmissions := retransmissions t + 1\<rparr>)"
  "deadline t = d \<Longrightarrow> \<not> retransmissions t < max_retransmissions t \<Longrightarrow>
   stun_timer_refresh d t = (STUN_USAGE_TIMER_RETURN_TIMEOUT, t)"
  using remainder_at_deadline [of t] by (auto simp: stun_timer_refresh_def Let_def not_le)

text \<open>The timer after \<open>j\<close> retransmissions that have each doubled the delay.\<close>

definition timer_doubled :: "timeval \<Rightarrow> u32 \<Rightarrow> nat \<Rightarrow> nat \<Rightarrow> StunTimer \<Rightarrow> bool" where
  "timer_doubled now d n j t \<longleftrightarrow> retransmissions t = word_of_nat (Suc j) \<and> max_retransmissions t = word_of_nat n
     \<and> delay t = d * 2 ^ j \<and> usecs (deadline t) = usecs now + 1000 * (uint d * (2 ^ Suc j - 1))"

lemma uint_doubled: "uint (d :: u32) * 2 ^ j < 2 ^ 32 \<Longrightarrow> uint (d * 2 ^ j) = uint d * 2 ^ j"
  using uint_word_of_int_small [of "uint d * 2 ^ j"] by simp

lemma u32_of_nat_less: "a < 2 ^ 32 \<Longrightarrow> b < 2 ^ 32 \<Longrightarrow> (word_of_nat a :: u32) < word_of_nat b \<longleftrightarrow> a < b"
  by (simp add: word_less_nat_alt unsigned_of_nat take_bit_nat_eq_self)

lemma u32_of_nat_eq: "a < 2 ^ 32 \<Longrightarrow> b < 2 ^ 32 \<Longrightarrow> (word_of_nat a :: u32) = word_of_nat b \<longleftrightarrow> a = b"
  by (simp add: word_unat_eq_iff unsigned_of_nat take_bit_nat_eq_self)

lemma doubled_compare:
  assumes "timer_doubled now d n j t" "n < 2 ^ 32" "Suc j < n"
  shows "retransmissions t < max_retransmissions t"
    "retransmissions t = max_retransmissions t - 1 \<longleftrightarrow> Suc j = n - 1"
proof -
  have "(word_of_nat n :: u32) - 1 = word_of_nat (n - 1)" using assms(3) by simp
  then show "retransmissions t < max_retransmissions t"
    "retransmissions t = max_retransmissions t - 1 \<longleftrightarrow> Suc j = n - 1"
    using assms u32_of_nat_less [of "Suc j" n] u32_of_nat_eq [of "Suc j" "n - 1"] by (simp_all add: timer_doubled_def)
qed

lemma expiries_doubled:
  assumes "timer_doubled now d n j t" "n < 2 ^ 32" "Suc j < n" "uint d * 2 ^ (n - 2) < 2 ^ 32" "n - j \<le> k"
  shows "expiries k t = map (\<lambda>i. usecs now + 1000 * (uint d * (2 ^ Suc i - 1))) [j..<n - 1]
    @ [usecs now + 1000 * (uint d * (2 ^ (n - 1) - 1) + uint d * 2 ^ (n - 2) div 2)]"
  using assms
proof (induction "n - j" arbitrary: j t k)
  case (Suc x)
  obtain k' where k: "k = Suc (Suc k')" using that [of "k - 2"] Suc.prems(3,5) by simp
  note cmp = doubled_compare [OF Suc.prems(1-3)]
  let ?f = "\<lambda>i. usecs now + 1000 * (uint d * (2 ^ Suc i - 1))"
  let ?d = "if Suc j = n - 1 then delay t div 2 else delay t * 2"
  let ?t = "t\<lparr>delay := ?d, deadline := add_delay (deadline t) ?d, retransmissions := retransmissions t + 1\<rparr>"
  have step: "expiries k t = ?f j # expiries (Suc k') ?t"
  proof -
    have "usecs (deadline t) = ?f j" using Suc.prems(1) by (simp add: timer_doubled_def)
    then show ?thesis
      unfolding k expiries.simps(2) [of "Suc k'"] refresh_at_deadline(1) [of t, OF refl cmp(1)] cmp(2) by simp
  qed
  show ?case
  proof (cases "Suc j = n - 1")
    case True
    then have j: "n - 1 = Suc j" "n - 2 = j" "n = Suc (Suc j)" using Suc.prems(3) by simp_all
    have "uint (delay t div 2) = uint d * 2 ^ j div 2"
      using Suc.prems(1,4) uint_doubled [of d j] j(2) by (simp add: timer_doubled_def uint_div)
    then have u: "usecs (deadline ?t) = usecs now + 1000 * (uint d * (2 ^ Suc j - 1) + uint d * 2 ^ j div 2)"
      using Suc.prems(1) True by (simp add: timer_doubled_def add_delay_usecs)
    have "retransmissions ?t = max_retransmissions ?t" using Suc.prems(1) j(3) by (simp add: timer_doubled_def)
    then have "stun_timer_refresh (deadline ?t) ?t = (STUN_USAGE_TIMER_RETURN_TIMEOUT, ?t)"
      by (intro refresh_at_deadline(2)) simp_all
    then have e: "expiries (Suc k') ?t = [usecs (deadline ?t)]" by (simp only: expiries.simps prod.case StunUsageTimerReturn.case)
    have "expiries k t = [?f j, usecs now + 1000 * (uint d * (2 ^ Suc j - 1) + uint d * 2 ^ j div 2)]"
      by (simp only: step e u)
    then show ?thesis by (simp only: j(1,2)) simp
  next
    case False
    then have lt: "Suc (Suc j) < n" "j < n - 1" using Suc.prems(3) by auto
    have "uint d * 2 ^ Suc j \<le> uint d * 2 ^ (n - 2)" using lt(1) by (intro mult_left_mono power_increasing) auto
    then have "uint d * 2 ^ Suc j < 2 ^ 32" using Suc.prems(4) by linarith
    then have u: "uint (d * 2 ^ Suc j) = uint d * 2 ^ Suc j" by (rule uint_doubled)
    have dl: "delay t * 2 = d * 2 ^ Suc j" using Suc.prems(1) by (simp add: timer_doubled_def)
    have "timer_doubled now d n (Suc j) ?t"
      using Suc.prems(1) False u by (simp add: timer_doubled_def add_delay_usecs dl) (simp add: algebra_simps)
    from Suc.hyps(1) [OF _ this Suc.prems(2) lt(1) Suc.prems(4), of "Suc k'"] Suc.hyps(2) Suc.prems(5)
    have e: "expiries (Suc k') ?t = map ?f [Suc j..<n - 1]
        @ [usecs now + 1000 * (uint d * (2 ^ (n - 1) - 1) + uint d * 2 ^ (n - 2) div 2)]" unfolding k by linarith
    show ?thesis by (simp only: step e upt_conv_Cons [OF lt(2)] list.map append_Cons)
  qed
qed simp

text \<open>C28: The schedule of a transaction whose timer is refreshed at each expiry, for any initial timeout \<open>d\<close> and any
  bound \<open>n\<close> of at least two transmissions for which the delays stay below \<open>2 ^ 32\<close> milliseconds: the request is sent
  again \<open>d\<close>, \<open>3 d\<close>, \<open>7 d\<close>, \<open>\<dots>\<close>, \<open>(2 ^ (n - 1) - 1) d\<close> milliseconds after the start, and the transaction times out
  half the last delay later. With the defaults of 200 ms and 7 transmissions this is after 15800 ms. The
  documentation of \<^verbatim>\<open>STUN_TIMER_DEFAULT_TIMEOUT\<close> says 15200 ms, by a slip in its sum, and the formula in the one of
  \<^verbatim>\<open>stun_timer_start\<close> is \<open>d (2 ^ (n + 1) - 1)\<close>, which the code does not follow.\<close>

theorem timer_schedule:
  assumes "2 \<le> n" "n < 2 ^ 32" "uint d * 2 ^ (n - 2) < 2 ^ 32" "n \<le> k"
  shows "map (\<lambda>e. e - usecs now) (expiries k (stun_timer_start now d (word_of_nat n)))
    = map (\<lambda>j. 1000 * (uint d * (2 ^ Suc j - 1))) [0..<n - 1]
      @ [1000 * (uint d * (2 ^ (n - 1) - 1) + uint d * 2 ^ (n - 2) div 2)]"
proof -
  have "timer_doubled now d n 0 (stun_timer_start now d (word_of_nat n))"
    by (simp add: timer_doubled_def stun_timer_start_def add_delay_usecs)
  from expiries_doubled [OF this assms(2) _ assms(3), of k] assms(1,4) show ?thesis by simp
qed

text \<open>The defaults.\<close>

theorem timer_schedule_witness:
  "map (\<lambda>e. e - usecs \<lparr>tv_sec = 5, tv_usec = 0\<rparr>) (expiries 7 (stun_timer_start \<lparr>tv_sec = 5, tv_usec = 0\<rparr>
     STUN_TIMER_DEFAULT_TIMEOUT STUN_TIMER_DEFAULT_MAX_RETRANSMISSIONS))
   = map ((*) 1000) [200, 600, 1400, 3000, 6200, 12600, 15800]"
  using timer_schedule [of 7 STUN_TIMER_DEFAULT_TIMEOUT 7 "\<lparr>tv_sec = 5, tv_usec = 0\<rparr>"] by (simp add: upt_rec)

end
