(* ===== verification/PseudoTcp_Arith.thy ===== *)
theory PseudoTcp_Arith
  imports Nice_Prelude
begin

text \<open>
  The helper functions and macros of \<^verbatim>\<open>agent/pseudotcp.c\<close> on 32-bit times and sequence numbers, and the
  proof that they compute what their names say: \<^verbatim>\<open>time_diff\<close> is the signed distance of two times on the
  circle of 32-bit values, and the comparison macros are the order of the sequence space around a
  point, with the one value they leave out.
\<close>

section \<open>Model\<close>

definition bound :: "u32 \<Rightarrow> u32 \<Rightarrow> u32 \<Rightarrow> u32" where
  "bound lower middle upper = min (max lower middle) upper"

definition time_is_between :: "u32 \<Rightarrow> u32 \<Rightarrow> u32 \<Rightarrow> bool" where
  "time_is_between later middle earlier =
     (if earlier \<le> later then earlier \<le> middle \<and> middle \<le> later
      else \<not> (later < middle \<and> middle < earlier))"

text \<open>The conversion of a \<^verbatim>\<open>long\<close> to the \<^verbatim>\<open>gint32\<close> that \<^verbatim>\<open>time_diff\<close> returns.\<close>

definition to_gint32 :: "int \<Rightarrow> int" where
  "to_gint32 x = sint (word_of_int x :: u32)"

definition time_diff :: "u32 \<Rightarrow> u32 \<Rightarrow> int" where
  "time_diff later earlier =
     (let LAST = 0xFFFFFFFF; HALF = 0x80000000 in
      to_gint32
        (if time_is_between (earlier + HALF) later earlier then
           if earlier \<le> later then uint (later - earlier)
           else uint (later + (LAST - earlier) + 1)
         else
           if later \<le> earlier then - uint (earlier - later)
           else - uint (earlier + (LAST - later) + 1)))"

definition LARGER :: "u32 \<Rightarrow> u32 \<Rightarrow> bool" where
  "LARGER a b = (a - b - 1 < drop_bit 1 0xFFFFFFFF)"

definition LARGER_OR_EQUAL :: "u32 \<Rightarrow> u32 \<Rightarrow> bool" where
  "LARGER_OR_EQUAL a b = (a - b < drop_bit 1 0xFFFFFFFF)"

definition SMALLER :: "u32 \<Rightarrow> u32 \<Rightarrow> bool" where
  "SMALLER a b = LARGER b a"

definition SMALLER_OR_EQUAL :: "u32 \<Rightarrow> u32 \<Rightarrow> bool" where
  "SMALLER_OR_EQUAL a b = LARGER_OR_EQUAL b a"

section \<open>Properties\<close>

lemma to_gint32_0 [simp]: "to_gint32 0 = 0"
  by (simp add: to_gint32_def)

lemma to_gint32_uint: "to_gint32 (uint (w :: u32)) = sint w"
  by (simp add: to_gint32_def)

lemma to_gint32_minus_uint: "to_gint32 (- uint (w :: u32)) = sint (- w)"
  by (simp add: to_gint32_def)

lemma larger_iff: "LARGER a b \<longleftrightarrow> 0 < uint (a - b) \<and> uint (a - b) < 2 ^ 31"
proof -
  have h: "(drop_bit 1 0xFFFFFFFF :: u32) = 0x7FFFFFFF" by simp
  have "x - 1 < (0x7FFFFFFF :: u32) \<longleftrightarrow> 0 < uint x \<and> uint x < 2 ^ 31" for x :: u32
  proof (cases "x = 0")
    case False
    then have pos: "0 < uint x" by (simp add: order_less_le uint_0_iff)
    then have "uint (x - 1) = uint x - 1"
      using uint_minus_simple_alt [of 1 x] by (simp add: word_le_def)
    with pos show ?thesis by (simp add: word_less_def)
  qed (simp add: word_less_def unsigned_minus_1_eq_mask mask_eq_exp_minus_1)
  then show ?thesis unfolding LARGER_def h .
qed

lemma larger_or_equal_iff: "LARGER_OR_EQUAL a b \<longleftrightarrow> uint (a - b) < 2 ^ 31 - 1"
  by (simp add: LARGER_OR_EQUAL_def word_less_def)

text \<open>The comparisons on the 32-bit images of two positions that are close to each other.\<close>

lemma uint_of_int_small: "0 \<le> k \<Longrightarrow> k < 2 ^ 32 \<Longrightarrow> uint (word_of_int k :: u32) = k"
  by (simp add: unsigned_of_int take_bit_int_eq_self)

lemma uint_of_nat_diff:
  assumes "a < b + 2 ^ 31" "b < a + 2 ^ 31"
  shows "uint (word_of_nat a - word_of_nat b :: u32) = (if b \<le> a then int (a - b) else 2 ^ 32 - int (b - a))"
proof (cases "b \<le> a")
  case True
  then have "(word_of_nat a - word_of_nat b :: u32) = word_of_nat (a - b)" by simp
  then have "uint (word_of_nat a - word_of_nat b :: u32) = uint (word_of_nat (a - b) :: u32)" by simp
  also have "\<dots> = int (a - b)" using assms by (simp only: unsigned_of_nat) (simp add: take_bit_nat_eq_self)
  finally show ?thesis using True by simp
next
  case False
  then have eq: "(word_of_nat a - word_of_nat b :: u32) = word_of_int (2 ^ 32 - int (b - a))"
    by (simp add: of_nat_diff)
  have "0 \<le> 2 ^ 32 - int (b - a)" "2 ^ 32 - int (b - a) < 2 ^ 32" using False assms by auto
  then have "uint (word_of_int (2 ^ 32 - int (b - a)) :: u32) = 2 ^ 32 - int (b - a)"
    by (rule uint_of_int_small)
  with False show ?thesis unfolding eq by (simp only: if_False)
qed

lemma smaller_near:
  "a < b + 2 ^ 31 \<Longrightarrow> b < a + 2 ^ 31 \<Longrightarrow> SMALLER (word_of_nat a) (word_of_nat b) \<longleftrightarrow> a < b"
  by (auto simp: SMALLER_def larger_iff uint_of_nat_diff)

lemma larger_near:
  "a < b + 2 ^ 31 \<Longrightarrow> b < a + 2 ^ 31 \<Longrightarrow> LARGER (word_of_nat a) (word_of_nat b) \<longleftrightarrow> b < a"
  by (auto simp: larger_iff uint_of_nat_diff)

lemma smaller_or_equal_near:
  "a < b + 2 ^ 31 \<Longrightarrow> b + 1 < a + 2 ^ 31 \<Longrightarrow>
   SMALLER_OR_EQUAL (word_of_nat a) (word_of_nat b) \<longleftrightarrow> a \<le> b"
  by (auto simp: SMALLER_OR_EQUAL_def larger_or_equal_iff uint_of_nat_diff)

text \<open>the distance of two times, \<^verbatim>\<open>time_diff\<close>, is the difference of the two 32-bit values read as a
  signed number, however the clock has wrapped in between.\<close>

theorem time_diff_sint: "time_diff later earlier = sint (later - earlier)"
proof -
  have m: "(0xFFFFFFFF :: u32) = - 1" by simp
  show ?thesis
    unfolding time_diff_def Let_def m
    by (simp add: to_gint32_uint to_gint32_minus_uint algebra_simps)
qed

lemma larger_or_equal_near:
  "a < b + 2 ^ 31 \<Longrightarrow> b < a + 2 ^ 31 \<Longrightarrow>
   LARGER_OR_EQUAL (word_of_nat a) (word_of_nat b) \<longleftrightarrow> b \<le> a \<and> a \<noteq> b + (2 ^ 31 - 1)"
  by (auto simp: larger_or_equal_iff uint_of_nat_diff)

text \<open>C26: Sequence numbers are positions of a stream modulo \<open>2 ^ 32\<close>. However often the positions have wrapped around,
  the macros compare the positions themselves as long as they are less than half the space apart. The two macros
  with equality have one exception: at the distance \<open>2 ^ 31 - 1\<close> they deny what the strict ones affirm.\<close>

theorem sequence_order:
  assumes "p < q + 2 ^ 31" "q < p + 2 ^ 31"
  shows "(LARGER (word_of_nat p) (word_of_nat q) \<longleftrightarrow> q < p)
    \<and> (SMALLER (word_of_nat p) (word_of_nat q) \<longleftrightarrow> p < q)
    \<and> (LARGER_OR_EQUAL (word_of_nat p) (word_of_nat q) \<longleftrightarrow> q \<le> p \<and> p \<noteq> q + (2 ^ 31 - 1))
    \<and> (SMALLER_OR_EQUAL (word_of_nat p) (word_of_nat q) \<longleftrightarrow> p \<le> q \<and> q \<noteq> p + (2 ^ 31 - 1))"
  using larger_near [OF assms] smaller_near [OF assms] larger_or_equal_near [OF assms]
    larger_or_equal_near [OF assms(2,1)]
  unfolding SMALLER_OR_EQUAL_def by (intro conjI)

text \<open>Two positions around the first wrap of the sequence numbers.\<close>

theorem sequence_order_witness:
  "LARGER (word_of_nat (2 ^ 32 + 5)) (word_of_nat (2 ^ 32 - 3))
   \<and> \<not> SMALLER_OR_EQUAL (word_of_nat (2 ^ 32 + 5)) (word_of_nat (2 ^ 32 - 3))"
  using sequence_order [of "2 ^ 32 + 5" "2 ^ 32 - 3"] by simp

end
