(* ===== verification/PseudoTcp_Fifo.thy ===== *)
theory PseudoTcp_Fifo
  imports Nice_Prelude
begin

text \<open>
  \<^verbatim>\<open>PseudoTcpFifo\<close> of \<^verbatim>\<open>agent/pseudotcp.c\<close>: the ring buffer behind the send and the receive side of a
  pseudo-TCP socket. \<open>fifo_ring\<close> is its abstract view, the whole ring as seen from the read position;
  the first \<open>data_length\<close> bytes of it are the buffered stream, the rest is where out-of-order data
  waits. Each operation is shown to be what it should be on that view and never to leave the buffer,
  and the locale \<open>byte_queue\<close> states the contract its clients use: bytes come out in the order in
  which they went in, none lost, none made up.
\<close>

section \<open>Model\<close>

record PseudoTcpFifo =
  buf :: bytes
  buffer_length :: nat
  data_length :: nat
  read_position :: nat

text \<open>Fresh memory; its contents are not read before they are written.\<close>

definition g_slice_alloc :: "nat \<Rightarrow> bytes" where
  "g_slice_alloc sz = replicate sz 0"

definition pseudo_tcp_fifo_init :: "PseudoTcpFifo \<Rightarrow> nat \<Rightarrow> PseudoTcpFifo" where
  "pseudo_tcp_fifo_init b sz = b\<lparr>buf := g_slice_alloc sz, buffer_length := sz\<rparr>"

definition pseudo_tcp_fifo_clear :: "PseudoTcpFifo \<Rightarrow> PseudoTcpFifo" where
  "pseudo_tcp_fifo_clear b = b\<lparr>buf := [], buffer_length := 0\<rparr>"

definition pseudo_tcp_fifo_get_buffered :: "PseudoTcpFifo \<Rightarrow> nat" where
  "pseudo_tcp_fifo_get_buffered b = data_length b"

definition pseudo_tcp_fifo_set_capacity ::
  "PseudoTcpFifo \<Rightarrow> nat \<Rightarrow> (bool \<times> PseudoTcpFifo) option" where
  "pseudo_tcp_fifo_set_capacity b sz =
     (if data_length b > sz then Some (False, b)
      else if sz \<noteq> data_length b then do {
        let copy = data_length b;
        let tail_copy = min copy (buffer_length b - read_position b);
        x \<leftarrow> mem_read (buf b) (read_position b) tail_copy;
        nb \<leftarrow> mem_write (g_slice_alloc sz) 0 x;
        y \<leftarrow> mem_read (buf b) 0 (copy - tail_copy);
        nb \<leftarrow> mem_write nb tail_copy y;
        Some (True, b\<lparr>buf := nb, buffer_length := sz, read_position := 0\<rparr>)
      }
      else Some (True, b))"

definition pseudo_tcp_fifo_consume_read_data ::
  "PseudoTcpFifo \<Rightarrow> nat \<Rightarrow> PseudoTcpFifo option" where
  "pseudo_tcp_fifo_consume_read_data b sz = do {
     c_assert (sz \<le> data_length b);
     c_assert (buffer_length b \<noteq> 0);
     Some (b\<lparr>read_position := (read_position b + sz) mod buffer_length b,
             data_length := data_length b - sz\<rparr>)
   }"

definition pseudo_tcp_fifo_consume_write_buffer ::
  "PseudoTcpFifo \<Rightarrow> nat \<Rightarrow> PseudoTcpFifo option" where
  "pseudo_tcp_fifo_consume_write_buffer b sz = do {
     c_assert (sz \<le> buffer_length b - data_length b);
     Some (b\<lparr>data_length := data_length b + sz\<rparr>)
   }"

definition pseudo_tcp_fifo_get_write_remaining :: "PseudoTcpFifo \<Rightarrow> nat" where
  "pseudo_tcp_fifo_get_write_remaining b = buffer_length b - data_length b"

text \<open>The bytes copied to the caller; the division by a zero \<^verbatim>\<open>buffer_length\<close> traps.\<close>

definition pseudo_tcp_fifo_read_offset :: "PseudoTcpFifo \<Rightarrow> nat \<Rightarrow> nat \<Rightarrow> bytes option" where
  "pseudo_tcp_fifo_read_offset b n offset = do {
     c_assert (buffer_length b \<noteq> 0);
     let rp = (read_position b + offset) mod buffer_length b;
     if offset \<ge> data_length b then Some []
     else do {
       let copy = min n (data_length b - offset);
       let tail_copy = min copy (buffer_length b - rp);
       x \<leftarrow> mem_read (buf b) rp tail_copy;
       y \<leftarrow> mem_read (buf b) 0 (copy - tail_copy);
       Some (x @ y)
     }
   }"

definition pseudo_tcp_fifo_write_offset ::
  "PseudoTcpFifo \<Rightarrow> bytes \<Rightarrow> nat \<Rightarrow> (nat \<times> PseudoTcpFifo) option" where
  "pseudo_tcp_fifo_write_offset b src offset = do {
     c_assert (buffer_length b \<noteq> 0);
     let wp = (read_position b + data_length b + offset) mod buffer_length b;
     if data_length b + offset \<ge> buffer_length b then Some (0, b)
     else do {
       let copy = min (length src) (buffer_length b - data_length b - offset);
       let tail_copy = min copy (buffer_length b - wp);
       nb \<leftarrow> mem_write (buf b) wp (take tail_copy src);
       nb \<leftarrow> mem_write nb 0 (take (copy - tail_copy) (drop tail_copy src));
       Some (copy, b\<lparr>buf := nb\<rparr>)
     }
   }"

definition pseudo_tcp_fifo_read :: "PseudoTcpFifo \<Rightarrow> nat \<Rightarrow> (bytes \<times> PseudoTcpFifo) option" where
  "pseudo_tcp_fifo_read b n = do {
     out \<leftarrow> pseudo_tcp_fifo_read_offset b n 0;
     Some (out, b\<lparr>read_position := (read_position b + length out) mod buffer_length b,
                  data_length := data_length b - length out\<rparr>)
   }"

definition pseudo_tcp_fifo_write :: "PseudoTcpFifo \<Rightarrow> bytes \<Rightarrow> (nat \<times> PseudoTcpFifo) option" where
  "pseudo_tcp_fifo_write b src = do {
     (copy, b) \<leftarrow> pseudo_tcp_fifo_write_offset b src 0;
     Some (copy, b\<lparr>data_length := data_length b + copy\<rparr>)
   }"

section \<open>The ring seen from the read position\<close>

definition fifo_ok :: "PseudoTcpFifo \<Rightarrow> bool" where
  "fifo_ok b \<longleftrightarrow> length (buf b) = buffer_length b \<and> 0 < buffer_length b
     \<and> data_length b \<le> buffer_length b \<and> read_position b < buffer_length b"

definition fifo_ring :: "PseudoTcpFifo \<Rightarrow> bytes" where
  "fifo_ring b = map (\<lambda>i. buf b ! ((read_position b + i) mod buffer_length b)) [0..<buffer_length b]"

definition fifo_contents :: "PseudoTcpFifo \<Rightarrow> bytes" where
  "fifo_contents b = take (data_length b) (fifo_ring b)"

lemma length_fifo_ring [simp]: "length (fifo_ring b) = buffer_length b"
  by (simp add: fifo_ring_def)

lemma length_fifo_contents [simp]: "fifo_ok b \<Longrightarrow> length (fifo_contents b) = data_length b"
  by (simp add: fifo_contents_def fifo_ok_def)

lemma mod_once: "p < L \<Longrightarrow> i < L \<Longrightarrow> (p + i) mod L = (if p + i < L then p + i else p + i - L)"
  for p i L :: nat
  by (simp add: mod_if)

lemma fifo_ring_nth:
  "fifo_ok b \<Longrightarrow> i < buffer_length b \<Longrightarrow> fifo_ring b ! i =
     buf b ! (if read_position b + i < buffer_length b then read_position b + i
              else read_position b + i - buffer_length b)"
  by (simp add: fifo_ring_def fifo_ok_def mod_once)

lemma fifo_init_ok:
  "0 < sz \<Longrightarrow> fifo_ok (pseudo_tcp_fifo_init \<lparr>buf = [], buffer_length = 0, data_length = 0, read_position = 0\<rparr> sz)"
  by (simp add: pseudo_tcp_fifo_init_def fifo_ok_def g_slice_alloc_def)

text \<open>Two copies around the wrap point read a stretch of the ring.\<close>

lemma ring_read:
  assumes ok: "fifo_ok b" and p: "p < buffer_length b" and n: "p + n \<le> buffer_length b"
    and rp: "rp = (read_position b + p) mod buffer_length b"
    and tail: "tail = min n (buffer_length b - rp)"
  shows "mem_read (buf b) rp tail = Some (take tail (drop p (fifo_ring b)))"
    and "mem_read (buf b) 0 (n - tail) = Some (take (n - tail) (drop (p + tail) (fifo_ring b)))"
proof -
  let ?L = "buffer_length b"
  have L: "length (buf b) = ?L" "read_position b < ?L" using ok by (auto simp: fifo_ok_def)
  have rp': "rp = (if read_position b + p < ?L then read_position b + p else read_position b + p - ?L)"
    using rp mod_once [OF L(2) p] by simp
  have "rp < ?L" using rp ok by (simp add: fifo_ok_def)
  have "take tail (drop rp (buf b)) = take tail (drop p (fifo_ring b))"
    using L p n rp' tail by (intro nth_equalityI) (auto simp: fifo_ring_nth [OF ok] add.assoc)
  moreover have "rp + tail \<le> length (buf b)" using L tail \<open>rp < ?L\<close> by simp
  ultimately show "mem_read (buf b) rp tail = Some (take tail (drop p (fifo_ring b)))"
    by (simp add: mem_simps)
  have "buf b ! i = fifo_ring b ! (p + tail + i)" if i: "i < n - tail" for i
  proof -
    have t: "tail = ?L - rp" using i tail by (simp add: min_def split: if_splits)
    have w: "rp = read_position b + p" using rp' t i n L p by (auto split: if_splits)
    then have "read_position b + (p + tail + i) = ?L + i" using t \<open>rp < ?L\<close> by simp
    moreover have "p + tail + i < ?L" using i n by simp
    ultimately show ?thesis
      using fifo_ring_nth [OF ok, of "p + tail + i"] by (metis add_diff_cancel_left' not_add_less1)
  qed
  then have "take (n - tail) (buf b) = take (n - tail) (drop (p + tail) (fifo_ring b))"
    using L p n by (intro nth_equalityI) auto
  moreover have "n - tail \<le> length (buf b)" using L n p by simp
  ultimately show "mem_read (buf b) 0 (n - tail) = Some (take (n - tail) (drop (p + tail) (fifo_ring b)))"
    by (simp add: mem_simps)
qed

lemma take_drop_join: "t \<le> c \<Longrightarrow> take t (drop p r) @ take (c - t) (drop (p + t) r) = take c (drop p r)"
  by (metis add.commute drop_drop le_add_diff_inverse take_add)

lemma fifo_read_offset_spec:
  assumes ok: "fifo_ok b"
  shows "pseudo_tcp_fifo_read_offset b n offset = Some (take n (drop offset (fifo_contents b)))"
proof (cases "offset \<ge> data_length b")
  case True
  with ok show ?thesis
    by (simp add: pseudo_tcp_fifo_read_offset_def fifo_contents_def fifo_ok_def)
next
  case False
  let ?copy = "min n (data_length b - offset)"
  let ?rp = "(read_position b + offset) mod buffer_length b"
  let ?tail = "min ?copy (buffer_length b - ?rp)"
  have o: "offset < buffer_length b" "offset + ?copy \<le> buffer_length b"
    using ok False by (auto simp: fifo_ok_def)
  note r = ring_read [OF ok o refl refl]
  have "take ?tail (drop offset (fifo_ring b)) @ take (?copy - ?tail) (drop (offset + ?tail) (fifo_ring b))
      = take ?copy (drop offset (fifo_ring b))"
    by (rule take_drop_join) (rule min.cobounded1)
  also have "\<dots> = take n (drop offset (fifo_contents b))"
    using False by (simp add: fifo_contents_def drop_take min.commute)
  finally show ?thesis
    using ok False r by (simp add: pseudo_tcp_fifo_read_offset_def Let_def fifo_ok_def)
qed

text \<open>Writing at an offset behind the buffered data overwrites that stretch of the ring.\<close>

lemma fifo_write_offset_spec:
  assumes ok: "fifo_ok b"
  obtains b' where "pseudo_tcp_fifo_write_offset b src offset
      = Some (min (length src) (buffer_length b - data_length b - offset), b')"
    and "fifo_ok b'" "data_length b' = data_length b" "buffer_length b' = buffer_length b"
    and "\<And>i. i < buffer_length b \<Longrightarrow> fifo_ring b' ! i =
      (if data_length b + offset \<le> i \<and> i < data_length b + offset + length src
       then src ! (i - (data_length b + offset)) else fifo_ring b ! i)"
proof (cases "data_length b + offset \<ge> buffer_length b")
  case True
  then show ?thesis
    using ok by (intro that [of b]) (auto simp: pseudo_tcp_fifo_write_offset_def fifo_ok_def)
next
  case False
  let ?L = "buffer_length b" and ?p = "data_length b + offset"
  define copy where "copy = min (length src) (?L - (data_length b + offset))"
  define wp where "wp = (read_position b + data_length b + offset) mod ?L"
  define tail where "tail = min copy (?L - wp)"
  have L: "length (buf b) = ?L" "read_position b < ?L" "0 < ?L" "data_length b \<le> ?L"
    using ok by (auto simp: fifo_ok_def)
  have wp: "wp = (if read_position b + ?p < ?L then read_position b + ?p else read_position b + ?p - ?L)"
    using mod_once [OF L(2), of ?p] False by (simp add: wp_def add.assoc)
  have wpL: "wp < ?L" using L by (simp add: wp_def)
  have copy: "copy \<le> length src" "?p + copy \<le> ?L" "copy < length src \<Longrightarrow> ?p + copy = ?L"
    using False by (auto simp: copy_def)
  have tail: "tail \<le> copy" "wp + tail \<le> ?L" "tail < copy \<Longrightarrow> wp + tail = ?L"
    using wpL by (auto simp: tail_def)
  obtain nb1 where nb1: "mem_write (buf b) wp (take tail src) = Some nb1"
    using L copy tail by (simp add: mem_write_def)
  have l1: "length nb1 = ?L" using mem_write_length [OF nb1] L by simp
  obtain nb2 where nb2: "mem_write nb1 0 (take (copy - tail) (drop tail src)) = Some nb2"
    using l1 copy(1,2) by (cases "copy - tail \<le> ?L") (auto simp: mem_write_def)
  have l2: "length nb2 = ?L" using mem_write_length [OF nb2] l1 by simp
  let ?b' = "b\<lparr>buf := nb2\<rparr>"
  have ok': "fifo_ok ?b'" using ok l2 by (simp add: fifo_ok_def)
  have nth: "nb2 ! j = (if j < copy - tail then src ! (tail + j)
      else if wp \<le> j \<and> j < wp + tail then src ! (j - wp) else buf b ! j)" if "j < ?L" for j
    using mem_write_nth [OF nb1, of j] mem_write_nth [OF nb2, of j] that L l1 copy tail by auto
  have "fifo_ring ?b' ! i = (if ?p \<le> i \<and> i < ?p + length src then src ! (i - ?p) else fifo_ring b ! i)"
    if i: "i < ?L" for i
  proof -
    have rng: "?p \<le> i \<and> i < ?p + length src \<longleftrightarrow> ?p \<le> i \<and> i < ?p + copy"
      using copy i by linarith
    show ?thesis
    proof (cases "read_position b + i < ?L")
      case True
      then have e: "fifo_ring ?b' ! i = nb2 ! (read_position b + i)"
          "fifo_ring b ! i = buf b ! (read_position b + i)"
        using fifo_ring_nth [OF ok', of i] fifo_ring_nth [OF ok i] i by simp_all
      show ?thesis
      proof (cases "read_position b + ?p < ?L")
        case up: True
        then have "wp = read_position b + ?p" using wp by simp
        moreover have "\<not> read_position b + i < copy - tail"
          using calculation copy(2) tail by linarith
        ultimately show ?thesis unfolding e nth [OF True] rng using True tail copy by auto
      next
        case False
        then have w: "wp + ?L = read_position b + ?p" using wp by simp
        then have "tail = copy" using tail copy(2) L by linarith
        moreover have "\<not> ?p \<le> i" "\<not> (wp \<le> read_position b + i \<and> read_position b + i < wp + tail)"
          using True False w copy(2) tail(1) by linarith+
        ultimately show ?thesis unfolding e nth [OF True] rng by auto
      qed
    next
      case False
      then have e: "fifo_ring ?b' ! i = nb2 ! (read_position b + i - ?L)"
          "fifo_ring b ! i = buf b ! (read_position b + i - ?L)" and j: "read_position b + i - ?L < ?L"
        using fifo_ring_nth [OF ok', of i] fifo_ring_nth [OF ok i] i L by simp_all
      show ?thesis
      proof (cases "read_position b + ?p < ?L")
        case True
        then have w: "wp = read_position b + ?p" using wp by simp
        have "read_position b + i - ?L < copy - tail \<longleftrightarrow> i < ?p + copy"
          using w tail False i copy L by (cases "tail < copy") auto
        moreover have "?p \<le> i" using True False by linarith
        moreover have "\<not> (wp \<le> read_position b + i - ?L)" using w i False by linarith
        moreover have "tail + (read_position b + i - ?L) = i - ?p" if "i < ?p + copy"
          using that w tail False i copy L by (cases "tail < copy") auto
        ultimately show ?thesis unfolding e nth [OF j] rng by simp
      next
        case up: False
        then have w: "wp + ?L = read_position b + ?p" using wp by simp
        then have t: "tail = copy" using tail copy(2) L by linarith
        have "wp \<le> read_position b + i - ?L \<and> read_position b + i - ?L < wp + tail
            \<longleftrightarrow> ?p \<le> i \<and> i < ?p + copy" "read_position b + i - ?L - wp = i - ?p"
          using w t False by linarith+
        then show ?thesis unfolding e nth [OF j] rng using t by simp
      qed
    qed
  qed
  then show ?thesis
    using L False nb1 nb2
    by (intro that [OF _ ok']) (simp_all add: pseudo_tcp_fifo_write_offset_def Let_def
        flip: copy_def wp_def tail_def)
qed

lemma fifo_write_spec:
  fixes src :: bytes
  assumes ok: "fifo_ok b"
  defines "k \<equiv> min (length src) (buffer_length b - data_length b)"
  obtains b' where "pseudo_tcp_fifo_write b src = Some (k, b')" "fifo_ok b'"
    "fifo_contents b' = fifo_contents b @ take k src" "buffer_length b' = buffer_length b"
proof -
  obtain b1 where w: "pseudo_tcp_fifo_write_offset b src 0 = Some (k, b1)" "fifo_ok b1"
      "data_length b1 = data_length b" "buffer_length b1 = buffer_length b"
    and ring: "\<And>i. i < buffer_length b \<Longrightarrow> fifo_ring b1 ! i =
      (if data_length b \<le> i \<and> i < data_length b + length src
       then src ! (i - data_length b) else fifo_ring b ! i)"
    by (rule fifo_write_offset_spec [OF ok, of src 0]) (simp add: k_def)
  let ?b' = "b1\<lparr>data_length := data_length b1 + k\<rparr>"
  have le: "data_length b \<le> buffer_length b" using ok by (simp add: fifo_ok_def)
  have k: "data_length b + k \<le> buffer_length b" "k \<le> length src" using le by (auto simp: k_def)
  have ok': "fifo_ok ?b'" using w k by (simp add: fifo_ok_def)
  have "fifo_ring ?b' = fifo_ring b1" by (simp add: fifo_ring_def)
  then have "fifo_contents ?b' = fifo_contents b @ take k src"
    using w(3,4) k ring by (intro nth_equalityI) (auto simp: fifo_contents_def nth_append)
  then show ?thesis using w ok' by (intro that [of ?b']) (simp_all add: pseudo_tcp_fifo_write_def)
qed

text \<open>Consuming from the read side drops the oldest bytes and turns the ring.\<close>

lemma fifo_consume_ring:
  assumes ok: "fifo_ok b" and n: "n \<le> data_length b"
  defines "b' \<equiv> b\<lparr>read_position := (read_position b + n) mod buffer_length b,
                   data_length := data_length b - n\<rparr>"
  shows "fifo_ok b'" "fifo_contents b' = drop n (fifo_contents b)"
    "\<And>i. n + i < buffer_length b \<Longrightarrow> fifo_ring b' ! i = fifo_ring b ! (n + i)"
proof -
  let ?L = "buffer_length b"
  show ok': "fifo_ok b'" using ok by (auto simp: fifo_ok_def b'_def)
  show ring: "fifo_ring b' ! i = fifo_ring b ! (n + i)" if "n + i < ?L" for i
    using that by (simp add: fifo_ring_def b'_def mod_add_left_eq add.assoc)
  have "data_length b \<le> ?L" using ok by (simp add: fifo_ok_def)
  then show "fifo_contents b' = drop n (fifo_contents b)"
    using n ring by (intro nth_equalityI) (auto simp: fifo_contents_def b'_def)
qed

lemma fifo_read_spec:
  assumes ok: "fifo_ok b"
  obtains b' where "pseudo_tcp_fifo_read b n = Some (take n (fifo_contents b), b')" "fifo_ok b'"
    "fifo_contents b' = drop n (fifo_contents b)" "buffer_length b' = buffer_length b"
proof -
  let ?k = "length (take n (fifo_contents b))"
  have k: "?k \<le> data_length b" "drop ?k (fifo_contents b) = drop n (fifo_contents b)"
    using ok by (cases "n \<le> data_length b"; simp)+
  note c = fifo_consume_ring [OF ok k(1)]
  show ?thesis
    by (rule that [OF _ c(1)])
      (use c k in \<open>simp_all add: pseudo_tcp_fifo_read_def fifo_read_offset_spec [OF ok]\<close>)
qed

lemma fifo_consume_read_spec:
  assumes "fifo_ok b" "n \<le> data_length b"
  obtains b' where "pseudo_tcp_fifo_consume_read_data b n = Some b'" "fifo_ok b'"
    "fifo_contents b' = drop n (fifo_contents b)" "buffer_length b' = buffer_length b"
    "data_length b' = data_length b - n"
proof -
  have "buffer_length b \<noteq> 0" using assms(1) by (simp add: fifo_ok_def)
  with fifo_consume_ring [OF assms] assms(2) show ?thesis
    by (intro that [of "b\<lparr>read_position := (read_position b + n) mod buffer_length b,
        data_length := data_length b - n\<rparr>"]) (simp_all add: pseudo_tcp_fifo_consume_read_data_def)
qed

text \<open>Changing the capacity keeps the buffered bytes, or fails when they would not fit.\<close>

lemma fifo_set_capacity_spec:
  assumes ok: "fifo_ok b" and sz: "0 < sz"
  shows "sz < data_length b \<Longrightarrow> pseudo_tcp_fifo_set_capacity b sz = Some (False, b)"
    and "data_length b \<le> sz \<Longrightarrow> \<exists>b'. pseudo_tcp_fifo_set_capacity b sz = Some (True, b') \<and> fifo_ok b'
      \<and> fifo_contents b' = fifo_contents b"
proof -
  show "sz < data_length b \<Longrightarrow> pseudo_tcp_fifo_set_capacity b sz = Some (False, b)"
    by (simp add: pseudo_tcp_fifo_set_capacity_def)
  assume fits: "data_length b \<le> sz"
  show "\<exists>b'. pseudo_tcp_fifo_set_capacity b sz = Some (True, b') \<and> fifo_ok b'
      \<and> fifo_contents b' = fifo_contents b"
  proof (cases "sz = data_length b")
    case True
    then show ?thesis using ok by (simp add: pseudo_tcp_fifo_set_capacity_def)
  next
    case False
    let ?n = "data_length b"
    define tail where "tail = min ?n (buffer_length b - read_position b)"
    have L: "0 < buffer_length b" "read_position b < buffer_length b" "?n \<le> buffer_length b"
      using ok by (auto simp: fifo_ok_def)
    have rp: "read_position b = (read_position b + 0) mod buffer_length b" using L by simp
    note r = ring_read [OF ok L(1) _ rp tail_def, simplified, OF L(3)]
    let ?x = "take tail (fifo_ring b)" and ?y = "take (?n - tail) (drop tail (fifo_ring b))"
    have xy: "?x @ ?y = fifo_contents b"
      unfolding fifo_contents_def using take_drop_join [of tail ?n 0 "fifo_ring b"] by (simp add: tail_def)
    have len: "length ?x = tail" "length (?x @ ?y) = ?n" using L xy ok by (simp_all add: tail_def)
    have "mem_write (g_slice_alloc sz) 0 ?x \<bind> (\<lambda>nb. mem_write nb tail ?y)
        = mem_write (g_slice_alloc sz) 0 (?x @ ?y)"
      using len by (auto simp: mem_write_def Let_def add_ac)
    also have "\<dots> = Some ((?x @ ?y) @ drop ?n (g_slice_alloc sz))"
      using fits len by (simp add: mem_write_def g_slice_alloc_def)
    finally have w: "mem_write (g_slice_alloc sz) 0 ?x \<bind> (\<lambda>nb. mem_write nb tail ?y)
        = Some (fifo_contents b @ drop ?n (g_slice_alloc sz))" by (simp add: xy)
    let ?b' = "b\<lparr>buf := fifo_contents b @ drop ?n (g_slice_alloc sz), buffer_length := sz,
      read_position := 0\<rparr>"
    have "pseudo_tcp_fifo_set_capacity b sz = Some (True, ?b')"
      using w fits False r
      by (auto simp: pseudo_tcp_fifo_set_capacity_def Let_def bind_eq_Some_conv simp flip: tail_def)
    moreover have ok': "fifo_ok ?b'" using ok fits sz by (simp add: fifo_ok_def g_slice_alloc_def)
    moreover have "fifo_contents ?b' = fifo_contents b"
      using fits ok ok' by (intro nth_equalityI) (auto simp: fifo_contents_def [of ?b'] fifo_ring_def nth_append)
    ultimately show ?thesis by blast
  qed
qed

section \<open>The contract of a byte queue\<close>

datatype queue_op = QWrite bytes | QRead nat

text \<open>A history of writes and reads: the bytes accepted, the bytes delivered and the final queue.\<close>

fun run_queue ::
  "('q \<Rightarrow> bytes \<Rightarrow> (nat \<times> 'q) option) \<Rightarrow> ('q \<Rightarrow> nat \<Rightarrow> (bytes \<times> 'q) option) \<Rightarrow> 'q \<Rightarrow> queue_op list
   \<Rightarrow> (bytes \<times> bytes \<times> 'q) option" where
  "run_queue wr rd q [] = Some ([], [], q)"
| "run_queue wr rd q (QWrite d # ops) = do {
     (k, q) \<leftarrow> wr q d;
     (acc, del, q) \<leftarrow> run_queue wr rd q ops;
     Some (take k d @ acc, del, q)
   }"
| "run_queue wr rd q (QRead n # ops) = do {
     (out, q) \<leftarrow> rd q n;
     (acc, del, q) \<leftarrow> run_queue wr rd q ops;
     Some (acc, out @ del, q)
   }"

locale byte_queue =
  fixes inv :: "'q \<Rightarrow> bool"
    and contents :: "'q \<Rightarrow> bytes"
    and cap :: "'q \<Rightarrow> nat"
    and wr :: "'q \<Rightarrow> bytes \<Rightarrow> (nat \<times> 'q) option"
    and rd :: "'q \<Rightarrow> nat \<Rightarrow> (bytes \<times> 'q) option"
  assumes cap: "inv q \<Longrightarrow> length (contents q) \<le> cap q"
    and wr_ok: "inv q \<Longrightarrow> \<exists>q'. wr q d = Some (min (length d) (cap q - length (contents q)), q') \<and> inv q'
      \<and> cap q' = cap q \<and> contents q' = contents q @ take (min (length d) (cap q - length (contents q))) d"
    and rd_ok: "inv q \<Longrightarrow> \<exists>q'. rd q n = Some (take n (contents q), q') \<and> inv q' \<and> cap q' = cap q
      \<and> contents q' = drop n (contents q)"
begin

lemma run_queue_fifo:
  "inv q \<Longrightarrow> \<exists>acc del q'. run_queue wr rd q ops = Some (acc, del, q') \<and> inv q' \<and> cap q' = cap q
     \<and> contents q @ acc = del @ contents q'"
proof (induction ops arbitrary: q)
  case Nil
  then show ?case by simp
next
  case (Cons op ops)
  show ?case
  proof (cases op)
    case (QWrite d)
    from wr_ok [OF Cons.prems, of d] obtain q1 where
      q1: "wr q d = Some (min (length d) (cap q - length (contents q)), q1)" "inv q1" "cap q1 = cap q"
        "contents q1 = contents q @ take (min (length d) (cap q - length (contents q))) d" by blast
    from Cons.IH [OF q1(2)] q1 QWrite show ?thesis by fastforce
  next
    case (QRead n)
    from rd_ok [OF Cons.prems, of n] obtain q1 where
      q1: "rd q n = Some (take n (contents q), q1)" "inv q1" "cap q1 = cap q"
        "contents q1 = drop n (contents q)" by blast
    from Cons.IH [OF q1(2)] obtain acc del q' where
      r: "run_queue wr rd q1 ops = Some (acc, del, q')" "inv q'" "cap q' = cap q1"
        "contents q1 @ acc = del @ contents q'" by blast
    have "contents q @ acc = take n (contents q) @ del @ contents q'"
      using r(4) q1(4) by (metis append.assoc append_take_drop_id)
    with q1 r QRead show ?thesis by simp
  qed
qed

end

interpretation fq: byte_queue fifo_ok fifo_contents buffer_length pseudo_tcp_fifo_write
  pseudo_tcp_fifo_read
proof unfold_locales
  fix q :: PseudoTcpFifo and d :: bytes and n
  assume ok: "fifo_ok q"
  then show "length (fifo_contents q) \<le> buffer_length q" by (simp add: fifo_ok_def)
  show "\<exists>q'. pseudo_tcp_fifo_write q d
        = Some (min (length d) (buffer_length q - length (fifo_contents q)), q') \<and> fifo_ok q'
      \<and> buffer_length q' = buffer_length q
      \<and> fifo_contents q' = fifo_contents q @ take (min (length d) (buffer_length q - length (fifo_contents q))) d"
    using fifo_write_spec [OF ok, of d] ok by (metis length_fifo_contents)
  show "\<exists>q'. pseudo_tcp_fifo_read q n = Some (take n (fifo_contents q), q') \<and> fifo_ok q'
      \<and> buffer_length q' = buffer_length q \<and> fifo_contents q' = drop n (fifo_contents q)"
    using fifo_read_spec [OF ok, of n] by metis
qed

section \<open>Claims\<close>

text \<open>C15: the ring buffer is a bounded FIFO queue. Any history of writes and reads on a buffer in good
  order runs without leaving the buffer, and the bytes it held at first followed by the bytes accepted
  are the bytes delivered followed by the bytes it holds at the end: the order is kept, nothing is
  lost, duplicated or made up, wherever the data wraps around.\<close>

theorem fifo_stream:
  assumes "fifo_ok b"
  shows "\<exists>acc del b'. run_queue pseudo_tcp_fifo_write pseudo_tcp_fifo_read b ops = Some (acc, del, b')
    \<and> fifo_ok b' \<and> buffer_length b' = buffer_length b
    \<and> fifo_contents b @ acc = del @ fifo_contents b'"
  by (rule fq.run_queue_fifo [OF assms])

definition empty_fifo :: "nat \<Rightarrow> PseudoTcpFifo" where
  "empty_fifo sz = pseudo_tcp_fifo_init \<lparr>buf = [], buffer_length = 0, data_length = 0, read_position = 0\<rparr> sz"

theorem fifo_stream_witness:
  "\<exists>acc del b'. run_queue pseudo_tcp_fifo_write pseudo_tcp_fifo_read (empty_fifo 4)
      [QWrite [1, 2, 3], QRead 2, QWrite [4, 5, 6, 7], QRead 3] = Some (acc, del, b')
    \<and> fifo_ok b' \<and> buffer_length b' = buffer_length (empty_fifo 4)
    \<and> fifo_contents (empty_fifo 4) @ acc = del @ fifo_contents b'"
  by (rule fifo_stream) (simp add: empty_fifo_def fifo_init_ok)

text \<open>Out-of-order data. Writing at an offset behind the buffered stream changes that stretch of the
  ring and nothing else, so the stream a reader sees is untouched; once the gap is accounted for by
  \<^verbatim>\<open>pseudo_tcp_fifo_consume_write_buffer\<close>, the stream continues with exactly the bytes of the ring.\<close>

theorem fifo_out_of_order:
  assumes "fifo_ok b" "data_length b + offset + length src \<le> buffer_length b"
  shows "\<exists>b'. pseudo_tcp_fifo_write_offset b src offset = Some (length src, b')
    \<and> fifo_contents b' = fifo_contents b
    \<and> take (length src) (drop (data_length b + offset) (fifo_ring b')) = src
    \<and> (\<forall>n \<le> buffer_length b - data_length b. \<exists>b''. pseudo_tcp_fifo_consume_write_buffer b' n = Some b''
        \<and> fifo_ok b'' \<and> fifo_contents b'' = take (data_length b + n) (fifo_ring b'))"
proof -
  obtain b' where w: "pseudo_tcp_fifo_write_offset b src offset
      = Some (min (length src) (buffer_length b - data_length b - offset), b')"
    "fifo_ok b'" "data_length b' = data_length b" "buffer_length b' = buffer_length b"
    and ring: "\<And>i. i < buffer_length b \<Longrightarrow> fifo_ring b' ! i =
      (if data_length b + offset \<le> i \<and> i < data_length b + offset + length src
       then src ! (i - (data_length b + offset)) else fifo_ring b ! i)"
    by (rule fifo_write_offset_spec [OF assms(1), of src offset]) simp
  have dl: "data_length b \<le> buffer_length b" using assms(1) by (simp add: fifo_ok_def)
  have "min (length src) (buffer_length b - data_length b - offset) = length src"
    using assms(2) by (intro min_absorb1) linarith
  moreover have "fifo_contents b' = fifo_contents b"
    using w(3,4) dl ring by (intro nth_equalityI) (auto simp: fifo_contents_def)
  moreover have "take (length src) (drop (data_length b + offset) (fifo_ring b')) = src"
    using w(4) assms(2) ring by (intro nth_equalityI) auto
  moreover have "\<exists>b''. pseudo_tcp_fifo_consume_write_buffer b' n = Some b'' \<and> fifo_ok b''
      \<and> fifo_contents b'' = take (data_length b + n) (fifo_ring b')"
    if "n \<le> buffer_length b - data_length b" for n
    using that w dl
    by (auto simp: pseudo_tcp_fifo_consume_write_buffer_def fifo_ok_def fifo_contents_def fifo_ring_def)
  ultimately show ?thesis using w(1) by auto
qed

theorem fifo_out_of_order_witness:
  "\<exists>b'. pseudo_tcp_fifo_write_offset (empty_fifo 8) [7, 8] 3 = Some (2, b')
    \<and> fifo_contents b' = fifo_contents (empty_fifo 8)
    \<and> take 2 (drop 3 (fifo_ring b')) = [7, 8]"
proof -
  have f: "fifo_ok (empty_fifo 8)" "data_length (empty_fifo 8) = 0" "buffer_length (empty_fifo 8) = 8"
    by (simp_all add: empty_fifo_def fifo_init_ok) (simp_all add: pseudo_tcp_fifo_init_def)
  show ?thesis
    using fifo_out_of_order [OF f(1), of 3 "[7, 8]"] f by (auto simp: numeral_2_eq_2)
qed

text \<open>Changing the capacity of the ring never loses buffered data: it is refused when the data would
  not fit, and otherwise the stream is the same in the new buffer.\<close>

theorem fifo_set_capacity_keeps:
  assumes "fifo_ok b" "0 < sz"
  shows "\<exists>r b'. pseudo_tcp_fifo_set_capacity b sz = Some (r, b') \<and> (r \<longleftrightarrow> data_length b \<le> sz)
    \<and> fifo_ok b' \<and> fifo_contents b' = fifo_contents b"
  using fifo_set_capacity_spec [OF assms] assms(1) by (cases "data_length b \<le> sz") auto

theorem fifo_set_capacity_keeps_witness:
  "\<exists>r b'. pseudo_tcp_fifo_set_capacity (empty_fifo 8) 3 = Some (r, b')
    \<and> (r \<longleftrightarrow> data_length (empty_fifo 8) \<le> 3) \<and> fifo_ok b'
    \<and> fifo_contents b' = fifo_contents (empty_fifo 8)"
  by (rule fifo_set_capacity_keeps) (simp_all add: empty_fifo_def fifo_init_ok)

end
