(* ===== verification/PseudoTcp_Socket.thy ===== *)
theory PseudoTcp_Socket
  imports PseudoTcp_Arith PseudoTcp_Fifo
begin

text \<open>
  \<^verbatim>\<open>agent/pseudotcp.c\<close>, the private state of a pseudo-TCP socket and the functions that send: queueing,
  building and writing a packet, transmitting a segment, the send loop, closing down, and the options
  of a connect message.

  \<^item> \<open>PseudoTcpSocketPrivate\<close> has the members of the C structure. A send segment has an allocation
    number (\<open>ss_id\<close>) that stands for its address: \<open>slist\<close> holds the segments, \<open>unsent_slist\<close> the
    addresses of those not sent yet, and following an address that is no longer in \<open>slist\<close> is \<open>None\<close>.
  \<^item> The callbacks are not called but recorded, in order, in \<open>events\<close>; they are taken not to call back
    into the socket. The result of \<^verbatim>\<open>WritePacket\<close> is given by a parameter \<open>wp\<close>, a function of the
    events so far and of the packet.
  \<^item> The clock reading is an argument \<open>now\<close> of every operation and does not move while one runs.
  \<^item> \<open>None\<close> is a failed assertion, an access out of bounds, a division by zero, or a loop that does not
    end.
\<close>

section \<open>Data\<close>

datatype PseudoTcpState =
    TCP_LISTEN | TCP_SYN_SENT | TCP_SYN_RECEIVED | TCP_ESTABLISHED | TCP_CLOSED
  | TCP_FIN_WAIT_1 | TCP_FIN_WAIT_2 | TCP_CLOSING | TCP_TIME_WAIT | TCP_CLOSE_WAIT | TCP_LAST_ACK

datatype PseudoTcpWriteResult = WR_SUCCESS | WR_TOO_LARGE | WR_FAIL

datatype PseudoTcpShutdown =
    PSEUDO_TCP_SHUTDOWN_RD | PSEUDO_TCP_SHUTDOWN_WR | PSEUDO_TCP_SHUTDOWN_RDWR

datatype Shutdown = SD_NONE | SD_GRACEFUL | SD_FORCEFUL

datatype SendFlags = sfNone | sfDelayedAck | sfImmediateAck | sfFin | sfRst | sfDuplicateAck

datatype ClosedownSource = CLOSEDOWN_LOCAL | CLOSEDOWN_REMOTE

abbreviation (input) FLAG_NONE :: u8 where "FLAG_NONE \<equiv> 0"
abbreviation (input) FLAG_FIN :: u8 where "FLAG_FIN \<equiv> 1"
abbreviation (input) FLAG_CTL :: u8 where "FLAG_CTL \<equiv> 2"
abbreviation (input) FLAG_RST :: u8 where "FLAG_RST \<equiv> 4"
abbreviation (input) CTL_CONNECT :: u8 where "CTL_CONNECT \<equiv> 0"
abbreviation (input) TCP_OPT_EOL :: u8 where "TCP_OPT_EOL \<equiv> 0"
abbreviation (input) TCP_OPT_NOOP :: u8 where "TCP_OPT_NOOP \<equiv> 1"
abbreviation (input) TCP_OPT_MSS :: u8 where "TCP_OPT_MSS \<equiv> 2"
abbreviation (input) TCP_OPT_WND_SCALE :: u8 where "TCP_OPT_WND_SCALE \<equiv> 3"
abbreviation (input) TCP_OPT_FIN_ACK :: u8 where "TCP_OPT_FIN_ACK \<equiv> 254"

abbreviation (input) DEF_MTU :: u32 where "DEF_MTU \<equiv> 1400"
abbreviation (input) MAX_PACKET :: nat where "MAX_PACKET \<equiv> 65532"
abbreviation (input) MIN_PACKET :: u32 where "MIN_PACKET \<equiv> 296"
abbreviation (input) HEADER_SIZE :: nat where "HEADER_SIZE \<equiv> 24"
abbreviation (input) PACKET_OVERHEAD :: u32 where "PACKET_OVERHEAD \<equiv> 116"
abbreviation (input) MIN_RTO :: u32 where "MIN_RTO \<equiv> 1000"
abbreviation (input) DEF_RTO :: u32 where "DEF_RTO \<equiv> 1000"
abbreviation (input) MAX_RTO :: u32 where "MAX_RTO \<equiv> 60000"
abbreviation (input) DEFAULT_ACK_DELAY :: u32 where "DEFAULT_ACK_DELAY \<equiv> 100"
abbreviation (input) DEFAULT_RCV_BUF_SIZE :: u32 where "DEFAULT_RCV_BUF_SIZE \<equiv> 61440"
abbreviation (input) DEFAULT_SND_BUF_SIZE :: u32 where "DEFAULT_SND_BUF_SIZE \<equiv> 92160"
abbreviation (input) DEFAULT_TIMEOUT :: u32 where "DEFAULT_TIMEOUT \<equiv> 4000"
abbreviation (input) CLOSED_TIMEOUT :: u32 where "CLOSED_TIMEOUT \<equiv> 60000"
abbreviation (input) TIME_WAIT_TIMEOUT :: u32 where "TIME_WAIT_TIMEOUT \<equiv> 1"

abbreviation (input) EPIPE :: int where "EPIPE \<equiv> 32"
abbreviation (input) EWOULDBLOCK :: int where "EWOULDBLOCK \<equiv> 11"
abbreviation (input) EINVAL :: int where "EINVAL \<equiv> 22"
abbreviation (input) EMSGSIZE :: int where "EMSGSIZE \<equiv> 90"
abbreviation (input) ECONNABORTED :: int where "ECONNABORTED \<equiv> 103"
abbreviation (input) ECONNRESET :: int where "ECONNRESET \<equiv> 104"
abbreviation (input) ENOTCONN :: int where "ENOTCONN \<equiv> 107"
abbreviation (input) ETIMEDOUT :: int where "ETIMEDOUT \<equiv> 110"

definition PACKET_MAXIMUMS :: "u32 list" where
  "PACKET_MAXIMUMS = [65535, 32000, 17914, 8166, 4352, 2002, 1492, 1006, 508, 296, 0]"

definition packet_maximum :: "nat \<Rightarrow> u32 option" where
  "packet_maximum i = (if i < length PACKET_MAXIMUMS then Some (PACKET_MAXIMUMS ! i) else None)"

record SSegment =
  ss_id :: nat
  ss_seq :: u32
  ss_len :: u32
  ss_xmit :: u8
  ss_flags :: u8

record RSegment =
  rs_seq :: u32
  rs_len :: u32

datatype tcp_event =
    WritePacket bytes
  | PseudoTcpOpened
  | PseudoTcpReadable
  | PseudoTcpWritable
  | PseudoTcpClosed int

record PseudoTcpSocketPrivate =
  shutdown :: Shutdown
  shutdown_reads :: bool
  error :: int
  state :: PseudoTcpState
  conv :: u32
  bReadEnable :: bool
  bWriteEnable :: bool
  bOutgoing :: bool
  last_traffic :: u32
  rlist :: "RSegment list"
  rbuf_len :: u32
  rcv_nxt :: u32
  rcv_wnd :: u32
  lastrecv :: u32
  rwnd_scale :: u8
  rbuf :: PseudoTcpFifo
  rcv_fin :: u32
  slist :: "SSegment list"
  unsent_slist :: "nat list"
  sbuf_len :: u32
  snd_nxt :: u32
  snd_wnd :: u32
  lastsend :: u32
  snd_una :: u32
  swnd_scale :: u8
  sbuf :: PseudoTcpFifo
  mss :: u32
  msslevel :: nat
  largest :: u32
  mtu_advise :: u32
  rto_base :: u32
  ts_recent :: u32
  ts_lastack :: u32
  rx_rttvar :: u32
  rx_srtt :: u32
  rx_rto :: u32
  ssthresh :: u32
  cwnd :: u32
  dup_acks :: u8
  recover :: u32
  fast_recovery :: bool
  t_ack :: u32
  last_acked_ts :: u32
  use_nagling :: bool
  ack_delay :: u32
  support_wnd_scale :: bool
  current_time :: u32
  support_fin_ack :: bool
  next_seg :: nat
  events :: "tcp_event list"

type_synonym sock = PseudoTcpSocketPrivate
type_synonym write_fun = "tcp_event list \<Rightarrow> bytes \<Rightarrow> PseudoTcpWriteResult"

definition log_event :: "tcp_event \<Rightarrow> sock \<Rightarrow> sock" where
  "log_event e s = s\<lparr>events := events s @ [e]\<rparr>"

section \<open>States\<close>

fun pseudo_tcp_state_has_sent_fin :: "PseudoTcpState \<Rightarrow> bool" where
  "pseudo_tcp_state_has_sent_fin TCP_CLOSED = True"
| "pseudo_tcp_state_has_sent_fin TCP_FIN_WAIT_1 = True"
| "pseudo_tcp_state_has_sent_fin TCP_FIN_WAIT_2 = True"
| "pseudo_tcp_state_has_sent_fin TCP_CLOSING = True"
| "pseudo_tcp_state_has_sent_fin TCP_TIME_WAIT = True"
| "pseudo_tcp_state_has_sent_fin TCP_LAST_ACK = True"
| "pseudo_tcp_state_has_sent_fin _ = False"

fun pseudo_tcp_state_has_received_fin :: "PseudoTcpState \<Rightarrow> bool" where
  "pseudo_tcp_state_has_received_fin TCP_CLOSED = True"
| "pseudo_tcp_state_has_received_fin TCP_CLOSING = True"
| "pseudo_tcp_state_has_received_fin TCP_TIME_WAIT = True"
| "pseudo_tcp_state_has_received_fin TCP_CLOSE_WAIT = True"
| "pseudo_tcp_state_has_received_fin TCP_LAST_ACK = True"
| "pseudo_tcp_state_has_received_fin _ = False"

fun pseudo_tcp_state_has_received_fin_ack :: "PseudoTcpState \<Rightarrow> bool" where
  "pseudo_tcp_state_has_received_fin_ack TCP_CLOSED = True"
| "pseudo_tcp_state_has_received_fin_ack TCP_TIME_WAIT = True"
| "pseudo_tcp_state_has_received_fin_ack _ = False"

fun pseudo_tcp_state_get_name :: "PseudoTcpState \<Rightarrow> string" where
  "pseudo_tcp_state_get_name TCP_LISTEN = ''LISTEN''"
| "pseudo_tcp_state_get_name TCP_SYN_SENT = ''SYN-SENT''"
| "pseudo_tcp_state_get_name TCP_SYN_RECEIVED = ''SYN-RECEIVED''"
| "pseudo_tcp_state_get_name TCP_ESTABLISHED = ''ESTABLISHED''"
| "pseudo_tcp_state_get_name TCP_CLOSED = ''CLOSED''"
| "pseudo_tcp_state_get_name TCP_FIN_WAIT_1 = ''FIN-WAIT-1''"
| "pseudo_tcp_state_get_name TCP_FIN_WAIT_2 = ''FIN-WAIT-2''"
| "pseudo_tcp_state_get_name TCP_CLOSING = ''CLOSING''"
| "pseudo_tcp_state_get_name TCP_TIME_WAIT = ''TIME-WAIT''"
| "pseudo_tcp_state_get_name TCP_CLOSE_WAIT = ''CLOSE-WAIT''"
| "pseudo_tcp_state_get_name TCP_LAST_ACK = ''LAST-ACK''"

text \<open>The transitions that \<^verbatim>\<open>set_state\<close> asserts.\<close>

definition transitions :: "(PseudoTcpState \<times> PseudoTcpState) list" where
  "transitions =
     [(TCP_CLOSED, TCP_SYN_SENT),
      (TCP_SYN_SENT, TCP_CLOSED),
      (TCP_CLOSED, TCP_LISTEN),
      (TCP_LISTEN, TCP_CLOSED),
      (TCP_LISTEN, TCP_SYN_SENT),
      (TCP_LISTEN, TCP_SYN_RECEIVED),
      (TCP_SYN_SENT, TCP_SYN_RECEIVED),
      (TCP_SYN_RECEIVED, TCP_ESTABLISHED),
      (TCP_SYN_SENT, TCP_ESTABLISHED),
      (TCP_SYN_RECEIVED, TCP_FIN_WAIT_1),
      (TCP_ESTABLISHED, TCP_FIN_WAIT_1),
      (TCP_ESTABLISHED, TCP_CLOSE_WAIT),
      (TCP_FIN_WAIT_1, TCP_FIN_WAIT_2),
      (TCP_FIN_WAIT_1, TCP_CLOSING),
      (TCP_CLOSE_WAIT, TCP_LAST_ACK),
      (TCP_FIN_WAIT_2, TCP_TIME_WAIT),
      (TCP_CLOSING, TCP_TIME_WAIT),
      (TCP_LAST_ACK, TCP_CLOSED),
      (TCP_TIME_WAIT, TCP_CLOSED),
      (TCP_SYN_RECEIVED, TCP_LISTEN),
      (TCP_FIN_WAIT_1, TCP_TIME_WAIT)]"

definition valid_transition :: "PseudoTcpState \<Rightarrow> PseudoTcpState \<Rightarrow> bool" where
  "valid_transition old_state new_state = ((old_state, new_state) \<in> set transitions)"

definition set_state :: "sock \<Rightarrow> PseudoTcpState \<Rightarrow> sock option" where
  "set_state s new_state =
     (if new_state = state s then Some s
      else do {
        c_assert (valid_transition (state s) new_state);
        Some (s\<lparr>state := new_state\<rparr>)
      })"

text \<open>The first level whose maximum is within the advised MTU, or the last one.\<close>

function mss_level :: "u32 \<Rightarrow> nat \<Rightarrow> nat" where
  "mss_level mtu lvl =
     (if lvl + 1 < length PACKET_MAXIMUMS \<and> PACKET_MAXIMUMS ! (lvl + 1) > 0
      then if PACKET_MAXIMUMS ! lvl \<le> mtu then lvl else mss_level mtu (lvl + 1)
      else lvl)"
  by pat_completeness auto
termination
  by (relation "measure (\<lambda>(mtu, lvl). length PACKET_MAXIMUMS - lvl)") auto

definition adjustMTU :: "sock \<Rightarrow> sock" where
  "adjustMTU s =
     (let m = mtu_advise s - PACKET_OVERHEAD in
      s\<lparr>msslevel := mss_level (mtu_advise s) 0, mss := m, ssthresh := max (ssthresh s) (2 * m),
        cwnd := max (cwnd s) m\<rparr>)"

definition set_state_established :: "sock \<Rightarrow> sock option" where
  "set_state_established s = do {
     s \<leftarrow> set_state s TCP_ESTABLISHED;
     Some (log_event PseudoTcpOpened (adjustMTU s))
   }"

definition set_state_closed :: "sock \<Rightarrow> int \<Rightarrow> sock option" where
  "set_state_closed s err = do {
     s \<leftarrow> set_state s TCP_CLOSED;
     Some (if err \<noteq> 0 then log_event (PseudoTcpClosed err) s else s)
   }"

section \<open>Segments and their addresses\<close>

definition find_seg :: "sock \<Rightarrow> nat \<Rightarrow> SSegment option" where
  "find_seg s i = List.find (\<lambda>g. ss_id g = i) (slist s)"

definition update_seg :: "nat \<Rightarrow> (SSegment \<Rightarrow> SSegment) \<Rightarrow> sock \<Rightarrow> sock" where
  "update_seg i f s = s\<lparr>slist := map (\<lambda>g. if ss_id g = i then f g else g) (slist s)\<rparr>"

text \<open>\<^verbatim>\<open>g_queue_insert_after\<close> behind the element that \<^verbatim>\<open>g_queue_find\<close> finds.\<close>

fun insert_after :: "('a \<Rightarrow> bool) \<Rightarrow> 'a \<Rightarrow> 'a list \<Rightarrow> 'a list option" where
  "insert_after P y [] = None"
| "insert_after P y (x # xs) =
     (if P x then Some (x # y # xs) else map_option ((#) x) (insert_after P y xs))"

section \<open>Queueing\<close>

definition new_segment :: "u32 \<Rightarrow> u8 \<Rightarrow> sock \<Rightarrow> sock" where
  "new_segment n flags s =
     s\<lparr>slist := slist s @ [\<lparr>ss_id = next_seg s,
         ss_seq = snd_una s + word_of_nat (pseudo_tcp_fifo_get_buffered (sbuf s)),
         ss_len = n, ss_xmit = 0, ss_flags = flags\<rparr>],
       unsent_slist := unsent_slist s @ [next_seg s], next_seg := next_seg s + 1\<rparr>"

definition queue :: "sock \<Rightarrow> bytes \<Rightarrow> u8 \<Rightarrow> (nat \<times> sock) option" where
  "queue s data flags = do {
     let available_space = pseudo_tcp_fifo_get_write_remaining (sbuf s);
     data \<leftarrow> (if length data > available_space then do {
                c_assert (flags = FLAG_NONE);
                Some (take available_space data)
              }
              else Some data);
     let n = word_of_nat (length data);
     let s = (if slist s \<noteq> [] \<and> ss_flags (last (slist s)) = flags \<and> ss_xmit (last (slist s)) = 0
              then s\<lparr>slist := butlast (slist s)
                       @ [(last (slist s))\<lparr>ss_len := ss_len (last (slist s)) + n\<rparr>]\<rparr>
              else new_segment n flags s);
     (written, fb) \<leftarrow> pseudo_tcp_fifo_write (sbuf s) data;
     Some (written, s\<lparr>sbuf := fb\<rparr>)
   }"

definition queue_connect_message :: "sock \<Rightarrow> sock option" where
  "queue_connect_message s = do {
     let b = [CTL_CONNECT]
       @ (if support_wnd_scale s then [TCP_OPT_WND_SCALE, 1, rwnd_scale s] else [])
       @ (if support_fin_ack s then [TCP_OPT_FIN_ACK, 1, 0] else []);
     (_, s) \<leftarrow> queue (s\<lparr>snd_wnd := word_of_nat (length b)\<rparr>) b FLAG_CTL;
     Some s
   }"

definition queue_fin_message :: "sock \<Rightarrow> sock option" where
  "queue_fin_message s = do {
     c_assert (support_fin_ack s);
     (_, s) \<leftarrow> queue s [] FLAG_FIN;
     Some s
   }"

definition queue_rst_message :: "sock \<Rightarrow> sock option" where
  "queue_rst_message s = do {
     c_assert (support_fin_ack s);
     (_, s) \<leftarrow> queue s [] FLAG_RST;
     Some s
   }"

section \<open>Packets\<close>

definition packet_header :: "sock \<Rightarrow> u32 \<Rightarrow> u8 \<Rightarrow> u32 \<Rightarrow> bytes" where
  "packet_header s seq flags now =
     be32 (conv s) @ be32 seq @ be32 (rcv_nxt s) @ [0, flags]
     @ be16 (ucast (drop_bit (unat (rwnd_scale s)) (rcv_wnd s)))
     @ be32 now @ be32 (ts_recent s)"

text \<open>The payload, read from the send buffer.\<close>

definition packet_data :: "sock \<Rightarrow> u32 \<Rightarrow> u32 \<Rightarrow> bytes option" where
  "packet_data s offset len =
     (if len \<noteq> 0 then do {
        d \<leftarrow> pseudo_tcp_fifo_read_offset (sbuf s) (unat len) (unat offset);
        c_assert (length d = unat len);
        Some d
      }
      else Some [])"

text \<open>Handing the packet to the callback and what follows.\<close>

definition packet_write ::
  "write_fun \<Rightarrow> sock \<Rightarrow> bytes \<Rightarrow> u32 \<Rightarrow> u32 \<Rightarrow> PseudoTcpWriteResult \<times> sock" where
  "packet_write wp s b len now =
     (let wres = wp (events s) b; s = log_event (WritePacket b) s in
      if wres \<noteq> WR_SUCCESS \<and> len \<noteq> 0 then (wres, s)
      else (WR_SUCCESS,
        s\<lparr>t_ack := 0, lastsend := (if len > 0 then now else lastsend s), last_traffic := now,
          bOutgoing := True\<rparr>))"

definition packet ::
  "write_fun \<Rightarrow> sock \<Rightarrow> u32 \<Rightarrow> u8 \<Rightarrow> u32 \<Rightarrow> u32 \<Rightarrow> u32 \<Rightarrow> (PseudoTcpWriteResult \<times> sock) option" where
  "packet wp s seq flags offset len now = do {
     c_assert (HEADER_SIZE + unat len \<le> MAX_PACKET);
     data \<leftarrow> packet_data s offset len;
     Some (packet_write wp (s\<lparr>ts_lastack := rcv_nxt s\<rparr>) (packet_header s seq flags now @ data) len now)
   }"

text \<open>A packet that carries only an acknowledgement; its result is not looked at.\<close>

definition ack_packet :: "write_fun \<Rightarrow> sock \<Rightarrow> u32 \<Rightarrow> u32 \<Rightarrow> sock option" where
  "ack_packet wp s seq now = map_option snd (packet wp s seq 0 0 0 now)"

section \<open>Transmitting a segment\<close>

text \<open>The inner loop that lowers the segment size: the error to return (0 for none), the new number of
  bytes to transmit, and the socket.\<close>

function reduce_mss :: "sock \<Rightarrow> u32 \<Rightarrow> (int \<times> u32 \<times> sock) option" where
  "reduce_mss s nTransmit =
     (case packet_maximum (msslevel s + 1) of
        None \<Rightarrow> None
      | Some m \<Rightarrow>
          if m = 0 then Some (EMSGSIZE, nTransmit, s)
          else
            let s' = s\<lparr>msslevel := msslevel s + 1, mss := m - PACKET_OVERHEAD,
                       cwnd := 2 * (m - PACKET_OVERHEAD)\<rparr>
            in if m - PACKET_OVERHEAD < nTransmit then Some (0, m - PACKET_OVERHEAD, s')
               else reduce_mss s' nTransmit)"
  by pat_completeness auto
termination
  by (relation "measure (\<lambda>(s, n). length PACKET_MAXIMUMS - msslevel s)")
    (auto simp: packet_maximum_def split: if_splits)

declare reduce_mss.simps [simp del]

lemma reduce_mss_level:
  "reduce_mss s n = Some (0, n', s') \<Longrightarrow>
     msslevel s < msslevel s' \<and> msslevel s' < length PACKET_MAXIMUMS"
  by (induction s n rule: reduce_mss.induct)
    (subst (asm) (2) reduce_mss.simps,
      fastforce simp: packet_maximum_def Let_def split: option.splits if_splits)

lemma packet_write_msslevel: "msslevel (snd (packet_write wp s b len now)) = msslevel s"
  by (simp add: packet_write_def log_event_def Let_def)

lemma packet_Some:
  "packet wp s seq flags offset len now = Some rs \<longleftrightarrow> unat len \<le> 65508 \<and>
     (\<exists>d. packet_data s offset len = Some d
        \<and> rs = packet_write wp (s\<lparr>ts_lastack := rcv_nxt s\<rparr>) (packet_header s seq flags now @ d) len now)"
  by (cases rs) (auto simp: packet_def bind_eq_Some_conv)

lemma packet_msslevel:
  assumes "packet wp s seq flags offset len now = Some (r, s')"
  shows "msslevel s' = msslevel s"
proof -
  from assms obtain d where "(r, s') = packet_write wp (s\<lparr>ts_lastack := rcv_nxt s\<rparr>)
      (packet_header s seq flags now @ d) len now" by (auto simp: packet_Some)
  then have "s' = snd (packet_write wp (s\<lparr>ts_lastack := rcv_nxt s\<rparr>)
      (packet_header s seq flags now @ d) len now)" by (simp add: prod_eq_iff)
  then show ?thesis by (simp add: packet_write_msslevel)
qed

text \<open>The outer loop: send, and on \<^verbatim>\<open>WR_TOO_LARGE\<close> try again with a smaller segment size.\<close>

function transmit_loop ::
  "write_fun \<Rightarrow> sock \<Rightarrow> u32 \<Rightarrow> u8 \<Rightarrow> u32 \<Rightarrow> u32 \<Rightarrow> (int \<times> u32 \<times> sock) option" where
  "transmit_loop wp s seq flags nTransmit now =
     (if unat (seq - snd_una s) \<le> 1024 * 1024 * 64 then
        (case packet wp s seq flags (seq - snd_una s) nTransmit now of
           None \<Rightarrow> None
         | Some (wres, s1) \<Rightarrow>
             (case wres of
                WR_SUCCESS \<Rightarrow> Some (0, nTransmit, s1)
              | WR_FAIL \<Rightarrow> Some (ECONNABORTED, nTransmit, s1)
              | WR_TOO_LARGE \<Rightarrow>
                  (case reduce_mss s1 nTransmit of
                     None \<Rightarrow> None
                   | Some (err, n, s2) \<Rightarrow>
                       if err \<noteq> 0 then Some (err, n, s2)
                       else transmit_loop wp s2 seq flags n now)))
      else None)"
  by pat_completeness auto
termination
  by (relation "measure (\<lambda>(wp, s, seq, flags, n, now). length PACKET_MAXIMUMS - msslevel s)")
    (auto dest!: reduce_mss_level packet_msslevel)

declare transmit_loop.simps [simp del]

text \<open>What remains of a segment that was sent in part becomes a segment of its own behind it.\<close>

definition transmit_split :: "sock \<Rightarrow> SSegment \<Rightarrow> u32 \<Rightarrow> sock option" where
  "transmit_split s seg nTransmit =
     (if nTransmit < ss_len seg then do {
        let sub = \<lparr>ss_id = next_seg s, ss_seq = ss_seq seg + nTransmit,
                   ss_len = ss_len seg - nTransmit, ss_xmit = ss_xmit seg, ss_flags = ss_flags seg\<rparr>;
        let s = update_seg (ss_id seg) (\<lambda>g. g\<lparr>ss_len := nTransmit\<rparr>) s;
        sl \<leftarrow> insert_after (\<lambda>g. ss_id g = ss_id seg) sub (slist s);
        ul \<leftarrow> (if ss_xmit seg = 0
               then insert_after (\<lambda>j. j = ss_id seg) (next_seg s) (unsent_slist s)
               else Some (unsent_slist s));
        Some (s\<lparr>slist := sl, unsent_slist := ul, next_seg := next_seg s + 1\<rparr>)
      }
      else Some s)"

text \<open>A segment sent for the first time leaves the unsent queue; a FIN without data takes one sequence
  number.\<close>

definition transmit_mark :: "sock \<Rightarrow> SSegment \<Rightarrow> u32 \<Rightarrow> sock option" where
  "transmit_mark s seg len =
     (if ss_xmit seg = 0 then do {
        c_assert (unsent_slist s \<noteq> [] \<and> hd (unsent_slist s) = ss_id seg);
        Some (s\<lparr>unsent_slist := tl (unsent_slist s),
                snd_nxt := snd_nxt s + len
                  + (if len = 0 \<and> ss_flags seg AND FLAG_FIN \<noteq> 0 then 1 else 0)\<rparr>)
      }
      else Some s)"

definition transmit :: "write_fun \<Rightarrow> sock \<Rightarrow> nat \<Rightarrow> u32 \<Rightarrow> (int \<times> sock) option" where
  "transmit wp s i now = do {
     seg \<leftarrow> find_seg s i;
     if unat (ss_xmit seg) \<ge> (if state s = TCP_ESTABLISHED then 15 else 30) then Some (ETIMEDOUT, s)
     else do {
       (err, nTransmit, s) \<leftarrow> transmit_loop wp s (ss_seq seg) (ss_flags seg) (min (ss_len seg) (mss s)) now;
       if err \<noteq> 0 then Some (err, s)
       else do {
         s \<leftarrow> transmit_split s seg nTransmit;
         s \<leftarrow> transmit_mark s seg (min nTransmit (ss_len seg));
         let s = update_seg i (\<lambda>g. g\<lparr>ss_xmit := ss_xmit g + 1\<rparr>) s;
         Some (0, if rto_base s = 0 then s\<lparr>rto_base := now\<rparr> else s)
       }
     }
   }"

lemma transmit_cases:
  assumes "transmit wp s i now = Some (e, s')"
  obtains (timeout) seg where "find_seg s i = Some seg" "e = ETIMEDOUT" "s' = s"
  | (failed) seg n where "find_seg s i = Some seg" "e \<noteq> 0"
      "transmit_loop wp s (ss_seq seg) (ss_flags seg) (min (ss_len seg) (mss s)) now = Some (e, n, s')"
  | (sent) seg n s1 s2 s3 where "find_seg s i = Some seg" "e = 0"
      "transmit_loop wp s (ss_seq seg) (ss_flags seg) (min (ss_len seg) (mss s)) now = Some (0, n, s1)"
      "transmit_split s1 seg n = Some s2" "transmit_mark s2 seg (min n (ss_len seg)) = Some s3"
      "s' = update_seg i (\<lambda>g. g\<lparr>ss_xmit := ss_xmit g + 1\<rparr>) s3
       \<or> s' = (update_seg i (\<lambda>g. g\<lparr>ss_xmit := ss_xmit g + 1\<rparr>) s3)\<lparr>rto_base := now\<rparr>"
proof -
  from assms obtain seg where seg: "find_seg s i = Some seg"
    by (cases "find_seg s i") (simp_all add: transmit_def)
  show thesis
  proof (cases "unat (ss_xmit seg) \<ge> (if state s = TCP_ESTABLISHED then 15 else 30)")
    case True
    then show ?thesis using assms seg by (intro timeout [OF seg]) (simp_all add: transmit_def)
  next
    case False
    then obtain err n s1 where
      l: "transmit_loop wp s (ss_seq seg) (ss_flags seg) (min (ss_len seg) (mss s)) now = Some (err, n, s1)"
      using assms seg
      by (cases "transmit_loop wp s (ss_seq seg) (ss_flags seg) (min (ss_len seg) (mss s)) now")
        (auto simp: transmit_def)
    show ?thesis
    proof (cases "err = 0")
      case err: False
      then show ?thesis using assms seg l False by (intro failed [OF seg, of n]) (simp_all add: transmit_def)
    next
      case True
      with assms seg l False obtain s2 s3 where "transmit_split s1 seg n = Some s2"
          "transmit_mark s2 seg (min n (ss_len seg)) = Some s3"
          "(e, s') = (0, let s4 = update_seg i (\<lambda>g. g\<lparr>ss_xmit := ss_xmit g + 1\<rparr>) s3
                         in if rto_base s4 = 0 then s4\<lparr>rto_base := now\<rparr> else s4)"
        by (cases "transmit_split s1 seg n"; cases "transmit_mark (the (transmit_split s1 seg n)) seg (min n (ss_len seg))")
          (simp_all add: transmit_def Let_def)
      then show ?thesis using seg l True by (intro sent [of seg n s1 s2 s3]) (auto simp: Let_def)
    qed
  qed
qed

section \<open>Closing down\<close>

text \<open>The navigation of \<^verbatim>\<open>closedown\<close> through the state machine, fall-throughs included.\<close>

definition closedown_states :: "sock \<Rightarrow> int \<Rightarrow> sock option" where
  "closedown_states s err = do {
     let old = state s;
     s \<leftarrow> (if old = TCP_SYN_RECEIVED \<or> old = TCP_ESTABLISHED then set_state s TCP_FIN_WAIT_1 else Some s);
     s \<leftarrow> (if old = TCP_SYN_RECEIVED \<or> old = TCP_ESTABLISHED \<or> old = TCP_FIN_WAIT_1
           then set_state s TCP_FIN_WAIT_2 else Some s);
     s \<leftarrow> (if old = TCP_SYN_RECEIVED \<or> old = TCP_ESTABLISHED \<or> old = TCP_FIN_WAIT_1
             \<or> old = TCP_FIN_WAIT_2 \<or> old = TCP_CLOSING
           then set_state s TCP_TIME_WAIT else Some s);
     s \<leftarrow> (if old = TCP_CLOSE_WAIT then set_state s TCP_LAST_ACK else Some s);
     set_state_closed s err
   }"

section \<open>The send loop\<close>

text \<open>What the loop computes first in each round: how many bytes may be sent now.\<close>

definition usable_window :: "sock \<Rightarrow> u32 \<times> u32" where
  "usable_window s =
     (let cw = cwnd s + (if dup_acks s = 1 \<or> dup_acks s = 2 then ucast (dup_acks s) * mss s else 0);
          nWindow = min (snd_wnd s) cw;
          nInFlight = snd_nxt s - snd_una s
      in (nWindow, if nInFlight < nWindow then nWindow - nInFlight else 0))"

definition send_available :: "sock \<Rightarrow> u32" where
  "send_available s =
     (let (nWindow, nUseable) = usable_window s;
          nInFlight = snd_nxt s - snd_una s;
          snd_buffered = pseudo_tcp_fifo_get_buffered (sbuf s);
          nAvailable = (if snd_buffered < unat nInFlight then 0
            else word_of_nat (min (snd_buffered - unat nInFlight) (unat (mss s))))
      in if nAvailable > nUseable then if nUseable * 4 < nWindow then 0 else nUseable
         else nAvailable)"

text \<open>Breaking the next segment in two when it is larger than what may be sent.\<close>

definition split_unsent :: "sock \<Rightarrow> nat \<Rightarrow> u32 \<Rightarrow> sock option" where
  "split_unsent s i nAvailable = do {
     seg \<leftarrow> find_seg s i;
     let sub = \<lparr>ss_id = next_seg s, ss_seq = ss_seq seg + nAvailable,
                ss_len = ss_len seg - nAvailable, ss_xmit = 0, ss_flags = ss_flags seg\<rparr>;
     let s = update_seg i (\<lambda>g. g\<lparr>ss_len := nAvailable\<rparr>) s;
     ul \<leftarrow> insert_after (\<lambda>j. j = i) (next_seg s) (unsent_slist s);
     sl \<leftarrow> insert_after (\<lambda>g. ss_id g = i) sub (slist s);
     Some (s\<lparr>slist := sl, unsent_slist := ul, next_seg := next_seg s + 1\<rparr>)
   }"

text \<open>One round of the loop: \<open>Inl\<close> when the function returns, \<open>Inr\<close> when the loop goes on, with the flags of the
  next round.\<close>

definition attempt_send_round :: "write_fun \<Rightarrow> sock \<Rightarrow> SendFlags \<Rightarrow> u32 \<Rightarrow> (sock + sock \<times> SendFlags) option" where
  "attempt_send_round wp s sflags now =
     (let nAvailable = send_available s in
      if sflags = sfDuplicateAck then do {
        s \<leftarrow> ack_packet wp s (snd_nxt s) now;
        Some (Inr (s, sfNone))
      }
      else if nAvailable = 0 \<and> sflags \<noteq> sfFin \<and> sflags \<noteq> sfRst then
        if sflags = sfNone then Some (Inl s)
        else if sflags = sfImmediateAck \<or> t_ack s \<noteq> 0 then map_option Inl (ack_packet wp s (snd_nxt s) now)
        else Some (Inl (s\<lparr>t_ack := now\<rparr>))
      else if use_nagling s \<and> sflags \<noteq> sfFin \<and> sflags \<noteq> sfRst \<and> snd_nxt s > snd_una s
        \<and> nAvailable < mss s
      then Some (Inl s)
      else
        case unsent_slist s of
          [] \<Rightarrow> Some (Inl s)
        | i # _ \<Rightarrow> do {
            seg \<leftarrow> find_seg s i;
            s \<leftarrow> (if ss_len seg > nAvailable \<and> sflags \<noteq> sfFin \<and> sflags \<noteq> sfRst
                  then split_unsent s i nAvailable else Some s);
            (err, s) \<leftarrow> transmit wp s i now;
            if err \<noteq> 0 then map_option Inl (closedown_states s err)
            else Some (Inr (s, if sflags = sfImmediateAck \<or> sflags = sfDelayedAck then sfNone else sflags))
          })"

text \<open>The loop has no bound of its own: with a segment size of zero a FIN behind unsent data keeps it running forever,
  and then its result is \<open>None\<close>.\<close>

partial_function (option) attempt_send_loop :: "write_fun \<Rightarrow> sock \<Rightarrow> SendFlags \<Rightarrow> u32 \<Rightarrow> sock option" where
  "attempt_send_loop wp s sflags now =
     (case attempt_send_round wp s sflags now of
        None \<Rightarrow> None
      | Some r \<Rightarrow> (case r of Inl s' \<Rightarrow> Some s' | Inr q \<Rightarrow> attempt_send_loop wp (fst q) (snd q) now))"

text \<open>What every round keeps, the loop keeps.\<close>

lemma attempt_send_loop_rule:
  assumes "attempt_send_loop wp s f now = Some s'" "I s"
    and "\<And>s f q. I s \<Longrightarrow> attempt_send_round wp s f now = Some (Inr q) \<Longrightarrow> I (fst q)"
    and "\<And>s f s'. I s \<Longrightarrow> attempt_send_round wp s f now = Some (Inl s') \<Longrightarrow> I s'"
  shows "I s'"
proof -
  have "w = wp \<and> n = now \<longrightarrow> I t \<longrightarrow> I t'" if "attempt_send_loop w t g n = Some t'" for w t g n t'
    by (rule attempt_send_loop.raw_induct [where P = "\<lambda>w t g n t'. w = wp \<and> n = now \<longrightarrow> I t \<longrightarrow> I t'", OF _ that])
      (auto split: option.split_asm sum.split_asm dest: assms(3,4))
  then show ?thesis using assms(1,2) by blast
qed

definition attempt_send :: "write_fun \<Rightarrow> sock \<Rightarrow> SendFlags \<Rightarrow> u32 \<Rightarrow> sock option" where
  "attempt_send wp s sflags now =
     (let s = (if time_diff now (lastsend s) > uint (rx_rto s) then s\<lparr>cwnd := mss s\<rparr> else s)
      in attempt_send_loop wp s sflags now)"

definition closedown :: "write_fun \<Rightarrow> sock \<Rightarrow> int \<Rightarrow> ClosedownSource \<Rightarrow> u32 \<Rightarrow> sock option" where
  "closedown wp s err source now = do {
     s \<leftarrow> (if source = CLOSEDOWN_LOCAL \<and> support_fin_ack s then do {
             s \<leftarrow> queue_rst_message s;
             attempt_send wp s sfRst now
           }
           else if source = CLOSEDOWN_LOCAL then Some (s\<lparr>shutdown := SD_FORCEFUL\<rparr>)
           else Some s);
     closedown_states s err
   }"

section \<open>Buffers and options\<close>

definition resize_send_buffer :: "sock \<Rightarrow> u32 \<Rightarrow> sock option" where
  "resize_send_buffer s new_size = do {
     (_, fb) \<leftarrow> pseudo_tcp_fifo_set_capacity (sbuf s) (unat new_size);
     Some (s\<lparr>sbuf_len := new_size, sbuf := fb\<rparr>)
   }"

text \<open>The loop that determines the scale factor.\<close>

function scale_size :: "u32 \<Rightarrow> u8 \<Rightarrow> u32 \<times> u8" where
  "scale_size new_size scale_factor =
     (if new_size > 0xFFFF then scale_size (drop_bit 1 new_size) (scale_factor + 1)
      else (new_size, scale_factor))"
  by pat_completeness auto
termination
proof (relation "measure (\<lambda>(n, f). unat n)")
  fix n :: u32 and f :: u8
  assume "0xFFFF < n"
  then have "0 < unat n" by (simp add: word_less_nat_alt)
  then show "((drop_bit 1 n, f + 1), (n, f)) \<in> measure (\<lambda>(n, f). unat n)"
    by (simp add: unat_drop_bit_eq drop_bit_eq_div unat_div)
qed simp

definition resize_receive_buffer :: "sock \<Rightarrow> u32 \<Rightarrow> sock option" where
  "resize_receive_buffer s new_size =
     (if rbuf_len s = new_size then Some s
      else do {
        let (n, scale_factor) = scale_size new_size 0;
        let new_size = push_bit (unat scale_factor) n;
        (result, fb) \<leftarrow> pseudo_tcp_fifo_set_capacity (rbuf s) (unat new_size);
        c_assert result;
        Some (s\<lparr>rbuf := fb, rbuf_len := new_size, rwnd_scale := scale_factor, ssthresh := new_size,
                rcv_wnd := word_of_nat (pseudo_tcp_fifo_get_write_remaining fb)\<rparr>)
      })"

definition apply_option :: "sock \<Rightarrow> u8 \<Rightarrow> bytes \<Rightarrow> sock" where
  "apply_option s kind data =
     (if kind = TCP_OPT_WND_SCALE then
        if length data \<noteq> 1 then s else s\<lparr>swnd_scale := data ! 0\<rparr>
      else if kind = TCP_OPT_FIN_ACK then s\<lparr>support_fin_ack := True\<rparr>
      else s)"

text \<open>The loop over the options of a connect message: \<open>Inl\<close> where \<^verbatim>\<open>parse_options\<close> returns at once, and
  otherwise the two flags for the options seen.\<close>

function parse_options_loop ::
  "sock \<Rightarrow> bytes \<Rightarrow> bool \<Rightarrow> bool \<Rightarrow> sock + (sock \<times> bool \<times> bool)" where
  "parse_options_loop s data has_ws has_fin =
     (case data of
        [] \<Rightarrow> Inr (s, has_ws, has_fin)
      | kind # rest \<Rightarrow>
          if kind = TCP_OPT_EOL then Inr (s, has_ws, has_fin)
          else if kind = TCP_OPT_NOOP then parse_options_loop s rest has_ws has_fin
          else
            case rest of
              [] \<Rightarrow> Inl s
            | opt_len # rest \<Rightarrow>
                if length rest < unat opt_len then Inl s
                else parse_options_loop (apply_option s kind (take (unat opt_len) rest))
                  (drop (unat opt_len) rest) (has_ws \<or> kind = TCP_OPT_WND_SCALE)
                  (has_fin \<or> kind = TCP_OPT_FIN_ACK))"
  by pat_completeness auto
termination
  by (relation "measure (\<lambda>(s, data, w, f). length data)") auto

declare parse_options_loop.simps [simp del] scale_size.simps [simp del]

definition parse_options :: "sock \<Rightarrow> bytes \<Rightarrow> sock option" where
  "parse_options s data =
     (case parse_options_loop s data False False of
        Inl s \<Rightarrow> Some s
      | Inr (s, has_window_scaling_option, has_fin_ack_option) \<Rightarrow> do {
          s \<leftarrow> (if \<not> has_window_scaling_option \<and> rwnd_scale s > 0 then do {
                  s \<leftarrow> resize_receive_buffer s DEFAULT_RCV_BUF_SIZE;
                  Some (s\<lparr>swnd_scale := 0\<rparr>)
                }
                else Some s);
          Some (if \<not> has_fin_ack_option then s\<lparr>support_fin_ack := False\<rparr> else s)
        })"

end
