(* ===== verification/PseudoTcp_Process.thy ===== *)
theory PseudoTcp_Process
  imports PseudoTcp_Socket
begin

text \<open>
  \<^verbatim>\<open>agent/pseudotcp.c\<close>, the functions that receive and the public interface: parsing a packet, the
  stages of \<^verbatim>\<open>process\<close> in their order, the clock, and connecting, sending, receiving and closing.
\<close>

section \<open>Received segments\<close>

record Segment =
  sg_conv :: u32
  sg_seq :: u32
  sg_ack :: u32
  sg_flags :: u8
  sg_wnd :: u16
  sg_data :: bytes
  sg_tsval :: u32
  sg_tsecr :: u32

definition sg_len :: "Segment \<Rightarrow> u32" where
  "sg_len g = word_of_nat (length (sg_data g))"

definition has_tcp_flag :: "Segment \<Rightarrow> u8 \<Rightarrow> bool" where
  "has_tcp_flag g f = (sg_flags g AND f \<noteq> 0)"

text \<open>Control data: \<open>Inl\<close> the result to return, \<open>Inr\<close> whether it was a connect message.\<close>

definition process_control ::
  "sock \<Rightarrow> Segment \<Rightarrow> ((bool \<times> sock) + (bool \<times> sock)) option" where
  "process_control s g =
     (if has_tcp_flag g FLAG_CTL then
        case sg_data g of
          [] \<Rightarrow> Some (Inl (False, s))
        | c # options \<Rightarrow>
            if c = CTL_CONNECT then do {
              s \<leftarrow> parse_options s options;
              s \<leftarrow> (if state s = TCP_LISTEN then do {
                      s \<leftarrow> set_state s TCP_SYN_RECEIVED;
                      queue_connect_message s
                    }
                    else if state s = TCP_SYN_SENT then set_state_established s
                    else Some s);
              Some (Inr (True, s))
            }
            else Some (Inl (False, s))
      else Some (Inr (False, s)))"

definition process_timestamp :: "sock \<Rightarrow> Segment \<Rightarrow> sock" where
  "process_timestamp s g =
     (if SMALLER_OR_EQUAL (sg_seq g) (ts_lastack s) \<and> SMALLER (ts_lastack s) (sg_seq g + sg_len g)
      then s\<lparr>ts_recent := sg_tsval g\<rparr> else s)"

text \<open>The round-trip time, with the mixed 32- and 64-bit arithmetic of the source; \<open>Inl\<close> for an invalid
  one.\<close>

definition process_rtt :: "sock \<Rightarrow> Segment \<Rightarrow> u32 \<Rightarrow> (sock + sock)" where
  "process_rtt s g now =
     (if sg_tsecr g \<noteq> 0 then
        let rtt = time_diff now (sg_tsecr g) in
        if rtt \<ge> 0 then
          let s = (if rx_srtt s = 0
                   then s\<lparr>rx_srtt := word_of_int rtt, rx_rttvar := word_of_int (rtt div 2)\<rparr>
                   else s\<lparr>rx_rttvar := word_of_int
                            ((uint (3 * rx_rttvar s) + \<bar>rtt - uint (rx_srtt s)\<bar>) div 4),
                          rx_srtt := word_of_int ((uint (7 * rx_srtt s) + rtt) div 8)\<rparr>);
              s = s\<lparr>rx_rto := bound MIN_RTO
                (rx_srtt s + (max 1 (4 * rx_rttvar s))) MAX_RTO\<rparr>
          in Inr (s\<lparr>last_acked_ts := sg_tsecr g\<rparr>)
        else Inl s
      else Inr s)"

text \<open>The loop that frees acknowledged segments: the remaining queue and the largest segment.\<close>

fun free_acked :: "SSegment list \<Rightarrow> u32 \<Rightarrow> u32 \<Rightarrow> (SSegment list \<times> u32) option" where
  "free_acked [] nFree lg = (if nFree = 0 then Some ([], lg) else None)"
| "free_acked (d # ds) nFree lg =
     (if nFree = 0 then Some (d # ds, lg)
      else if nFree < ss_len d
      then Some (d\<lparr>ss_len := ss_len d - nFree, ss_seq := ss_seq d + nFree\<rparr> # ds, lg)
      else free_acked ds (nFree - ss_len d) (if ss_len d > lg then ss_len d else lg))"

definition head_seg :: "sock \<Rightarrow> nat option" where
  "head_seg s = (case slist s of [] \<Rightarrow> None | g # _ \<Rightarrow> Some (ss_id g))"

text \<open>The congestion window after an acknowledgement of new data.\<close>

definition ack_congestion ::
  "write_fun \<Rightarrow> sock \<Rightarrow> u32 \<Rightarrow> u32 \<Rightarrow> ((bool \<times> sock) + sock) option" where
  "ack_congestion wp s nAcked now =
     (if dup_acks s \<ge> 3 then
        if LARGER_OR_EQUAL (snd_una s) (recover s) then
          let nInFlight = snd_nxt s - snd_una s in
          Some (Inr (s\<lparr>cwnd := min (ssthresh s) (max nInFlight (mss s) + mss s),
                       fast_recovery := False, dup_acks := 0\<rparr>))
        else do {
          i \<leftarrow> head_seg s;
          (err, s) \<leftarrow> transmit wp s i now;
          if err \<noteq> 0 then do {
            s \<leftarrow> closedown wp s err CLOSEDOWN_LOCAL now;
            Some (Inl (False, s))
          }
          else Some (Inr (s\<lparr>cwnd := cwnd s + ((if nAcked > mss s then mss s else 0)
                                               - min nAcked (cwnd s))\<rparr>))
        }
      else
        let s = s\<lparr>dup_acks := 0\<rparr> in
        if cwnd s < ssthresh s then Some (Inr (s\<lparr>cwnd := cwnd s + mss s\<rparr>))
        else do {
          c_assert (cwnd s \<noteq> 0);
          Some (Inr (s\<lparr>cwnd := cwnd s + max 1 (mss s * mss s div cwnd s)\<rparr>))
        })"

text \<open>The window of the peer; a shift by 32 or more is undefined.\<close>

definition scaled_window :: "sock \<Rightarrow> Segment \<Rightarrow> u32 option" where
  "scaled_window s g = do {
     c_assert (unat (swnd_scale s) < 32);
     Some (push_bit (unat (swnd_scale s)) (ucast (sg_wnd g)))
   }"

text \<open>What an acknowledgement of new data releases: whether it acknowledges our FIN, the number of bytes,
  and the socket.\<close>

definition ack_release :: "sock \<Rightarrow> Segment \<Rightarrow> u32 \<Rightarrow> (bool \<times> u32 \<times> sock) option" where
  "ack_release s g now = do {
     wnd \<leftarrow> scaled_window s g;
     let nAcked = sg_ack g - snd_una s;
     let is_fin_ack = (unat nAcked = data_length (sbuf s) + 1
                       \<and> pseudo_tcp_state_has_sent_fin (state s));
     let nAcked = (if is_fin_ack then nAcked - 1 else nAcked);
     fb \<leftarrow> pseudo_tcp_fifo_consume_read_data (sbuf s) (unat nAcked);
     (sl, lg) \<leftarrow> free_acked (slist s) nAcked (largest s);
     Some (is_fin_ack, nAcked,
           s\<lparr>snd_wnd := wnd, snd_una := sg_ack g, rto_base := (if sg_ack g = snd_nxt s then 0 else now),
             sbuf := fb, slist := sl, largest := lg\<rparr>)
   }"

text \<open>An acknowledgement of new data: \<open>Inr\<close> tells whether it acknowledges our FIN.\<close>

definition process_new_ack ::
  "write_fun \<Rightarrow> sock \<Rightarrow> Segment \<Rightarrow> u32 \<Rightarrow> ((bool \<times> sock) + (bool \<times> sock)) option" where
  "process_new_ack wp s g now =
     (case process_rtt s g now of
        Inl s \<Rightarrow> Some (Inl (False, s))
      | Inr s \<Rightarrow> do {
          (is_fin_ack, nAcked, s) \<leftarrow> ack_release s g now;
          r \<leftarrow> ack_congestion wp s nAcked now;
          Some (case r of Inl x \<Rightarrow> Inl x | Inr s \<Rightarrow> Inr (is_fin_ack, s))
        })"

text \<open>The third duplicate acknowledgement: the first segment is sent again and fast recovery entered.\<close>

definition fast_retransmit :: "write_fun \<Rightarrow> sock \<Rightarrow> u32 \<Rightarrow> ((bool \<times> sock) + sock) option" where
  "fast_retransmit wp s now = do {
     i \<leftarrow> head_seg s;
     (err, s) \<leftarrow> transmit wp s i now;
     if err \<noteq> 0 then do {
       s \<leftarrow> closedown wp s err CLOSEDOWN_LOCAL now;
       Some (Inl (False, s))
     }
     else
       let nInFlight = snd_nxt s - snd_una s;
           st = max (nInFlight div 2) (2 * mss s)
       in Some (Inr (s\<lparr>recover := snd_nxt s, ssthresh := st, cwnd := st + 3 * mss s,
                       fast_recovery := True\<rparr>))
   }"

definition process_dup_ack ::
  "write_fun \<Rightarrow> sock \<Rightarrow> Segment \<Rightarrow> u32 \<Rightarrow> ((bool \<times> sock) + sock) option" where
  "process_dup_ack wp s g now = do {
     wnd \<leftarrow> scaled_window s g;
     let s = s\<lparr>snd_wnd := wnd\<rparr>;
     if sg_len g > 0 then Some (Inr s)
     else if snd_una s \<noteq> snd_nxt s then do {
       let s = s\<lparr>dup_acks := dup_acks s + 1\<rparr>;
       if dup_acks s = 3 then
         if LARGER_OR_EQUAL (snd_una s) (recover s) \<or> sg_tsecr g = last_acked_ts s
         then fast_retransmit wp s now
         else Some (Inr s)
       else if dup_acks s > 3 \<and> fast_recovery s then Some (Inr (s\<lparr>cwnd := cwnd s + mss s\<rparr>))
       else Some (Inr s)
     }
     else Some (Inr (s\<lparr>dup_acks := 0\<rparr>))
   }"

definition process_ack ::
  "write_fun \<Rightarrow> sock \<Rightarrow> Segment \<Rightarrow> u32 \<Rightarrow> ((bool \<times> sock) + (bool \<times> sock)) option" where
  "process_ack wp s g now =
     (if LARGER (sg_ack g) (snd_una s) \<and> SMALLER_OR_EQUAL (sg_ack g) (snd_nxt s)
      then process_new_ack wp s g now
      else if sg_ack g = snd_una s then do {
        r \<leftarrow> process_dup_ack wp s g now;
        Some (case r of Inl x \<Rightarrow> Inl x | Inr s \<Rightarrow> Inr (False, s))
      }
      else Some (Inr (False, s)))"

text \<open>Connection closure: \<open>Inr\<close> tells whether all octets before a FIN have been received.\<close>

definition fin_transition :: "sock \<Rightarrow> bool \<Rightarrow> bool \<Rightarrow> sock option" where
  "fin_transition s received_fin is_fin_ack =
     (if state s = TCP_ESTABLISHED then
        if received_fin then set_state s TCP_CLOSE_WAIT else Some s
      else if state s = TCP_CLOSING then
        if is_fin_ack then set_state s TCP_TIME_WAIT else Some s
      else if state s = TCP_LAST_ACK then
        if is_fin_ack then set_state_closed s 0 else Some s
      else if state s = TCP_FIN_WAIT_1 then
        if is_fin_ack \<and> received_fin then set_state s TCP_TIME_WAIT
        else if is_fin_ack then set_state s TCP_FIN_WAIT_2
        else if received_fin then set_state s TCP_CLOSING
        else Some s
      else if state s = TCP_FIN_WAIT_2 then
        if received_fin then set_state s TCP_TIME_WAIT else Some s
      else Some s)"

definition process_fin ::
  "sock \<Rightarrow> Segment \<Rightarrow> bool \<Rightarrow> ((bool \<times> sock) + (bool \<times> sock)) option" where
  "process_fin s g is_fin_ack =
     (if support_fin_ack s then
        let s = (if has_tcp_flag g FLAG_FIN then s\<lparr>rcv_fin := sg_seq g\<rparr> else s) in
        if has_tcp_flag g FLAG_FIN \<and> sg_len g \<noteq> 0 then Some (Inl (False, s))
        else do {
          let received_fin = (rcv_nxt s \<noteq> 0 \<and> rcv_nxt s + sg_len g = rcv_fin s);
          s \<leftarrow> fin_transition s received_fin is_fin_ack;
          Some (Inr (received_fin, s))
        }
      else Some (Inr (False, s)))"

definition process_writable :: "sock \<Rightarrow> sock" where
  "process_writable s =
     (let kIdealRefillSize = (sbuf_len s + rbuf_len s) div 2 in
      if bWriteEnable s \<and> pseudo_tcp_fifo_get_buffered (sbuf s) < unat kIdealRefillSize
      then log_event PseudoTcpWritable (s\<lparr>bWriteEnable := False\<rparr>) else s)"

definition ack_flags :: "sock \<Rightarrow> Segment \<Rightarrow> bool \<Rightarrow> SendFlags" where
  "ack_flags s g received_fin =
     (if sg_seq g \<noteq> rcv_nxt s then sfDuplicateAck
      else if sg_len g \<noteq> 0 then if ack_delay s = 0 then sfImmediateAck else sfDelayedAck
      else if received_fin then sfImmediateAck
      else sfNone)"

text \<open>The segment cut to the receive window: what was received before is dropped in front, what does not
  fit behind.\<close>

definition cut_front :: "sock \<Rightarrow> Segment \<Rightarrow> Segment" where
  "cut_front s g =
     (if SMALLER (sg_seq g) (rcv_nxt s) then
        let nAdjust = rcv_nxt s - sg_seq g in
        if nAdjust < sg_len g
        then g\<lparr>sg_seq := sg_seq g + nAdjust, sg_data := drop (unat nAdjust) (sg_data g)\<rparr>
        else g\<lparr>sg_data := []\<rparr>
      else g)"

definition cut_back :: "sock \<Rightarrow> Segment \<Rightarrow> Segment" where
  "cut_back s g =
     (let available_space = pseudo_tcp_fifo_get_write_remaining (rbuf s) in
      if unat (sg_seq g + sg_len g - rcv_nxt s) > available_space then
        let nAdjust = sg_seq g + sg_len g - rcv_nxt s - word_of_nat available_space in
        if nAdjust < sg_len g then g\<lparr>sg_data := take (unat (sg_len g - nAdjust)) (sg_data g)\<rparr>
        else g\<lparr>sg_data := []\<rparr>
      else g)"

text \<open>Segments saved earlier that the new data has reached.\<close>

fun recover_saved :: "RSegment list \<Rightarrow> sock \<Rightarrow> SendFlags \<Rightarrow> (sock \<times> SendFlags) option" where
  "recover_saved [] s sflags = Some (s\<lparr>rlist := []\<rparr>, sflags)"
| "recover_saved (d # ds) s sflags =
     (if SMALLER_OR_EQUAL (rs_seq d) (rcv_nxt s) then
        if LARGER (rs_seq d + rs_len d) (rcv_nxt s) then
          let nAdjust = (rs_seq d + rs_len d) - rcv_nxt s in do {
            fb \<leftarrow> pseudo_tcp_fifo_consume_write_buffer (rbuf s) (unat nAdjust);
            recover_saved ds
              (s\<lparr>rbuf := fb, rcv_nxt := rcv_nxt s + nAdjust, rcv_wnd := rcv_wnd s - nAdjust\<rparr>)
              sfImmediateAck
          }
        else recover_saved ds s sflags
      else Some (s\<lparr>rlist := d # ds\<rparr>, sflags))"

fun insert_saved :: "RSegment \<Rightarrow> RSegment list \<Rightarrow> RSegment list" where
  "insert_saved r [] = [r]"
| "insert_saved r (d # ds) =
     (if SMALLER (rs_seq d) (rs_seq r) then d # insert_saved r ds else r # d # ds)"

text \<open>Storing the data: the socket, whether there is new data for the reader, and the send flags.\<close>

definition process_data ::
  "sock \<Rightarrow> Segment \<Rightarrow> SendFlags \<Rightarrow> (sock \<times> bool \<times> SendFlags) option" where
  "process_data s g sflags =
     (let bIgnoreData = (has_tcp_flag g FLAG_CTL
                         \<or> \<not> support_fin_ack s \<and> shutdown s \<noteq> SD_NONE) in
      if sg_len g > 0 then
        if bIgnoreData then
          Some (if sg_seq g = rcv_nxt s then s\<lparr>rcv_nxt := rcv_nxt s + sg_len g\<rparr> else s, False, sflags)
        else do {
          let nOffset = sg_seq g - rcv_nxt s;
          (res, fb) \<leftarrow> pseudo_tcp_fifo_write_offset (rbuf s) (sg_data g) (unat nOffset);
          c_assert (res = unat (sg_len g));
          if sg_seq g = rcv_nxt s then do {
            fb \<leftarrow> pseudo_tcp_fifo_consume_write_buffer fb (unat (sg_len g));
            (s, sflags) \<leftarrow> recover_saved (rlist s)
              (s\<lparr>rbuf := fb, rcv_nxt := rcv_nxt s + sg_len g, rcv_wnd := rcv_wnd s - sg_len g\<rparr>) sflags;
            Some (s, True, sflags)
          }
          else Some (s\<lparr>rbuf := fb,
                       rlist := insert_saved \<lparr>rs_seq = sg_seq g, rs_len = sg_len g\<rparr> (rlist s)\<rparr>,
                     False, sflags)
        }
      else Some (s, False, sflags))"

definition process_receive ::
  "write_fun \<Rightarrow> sock \<Rightarrow> Segment \<Rightarrow> bool \<Rightarrow> u32 \<Rightarrow> (bool \<times> sock) option" where
  "process_receive wp s g received_fin now = do {
     let sflags = ack_flags s g received_fin;
     let g = cut_back s (cut_front s g);
     (s, bNewData, sflags) \<leftarrow> process_data s g sflags;
     let s = (if received_fin then s\<lparr>rcv_nxt := rcv_nxt s + 1\<rparr> else s);
     s \<leftarrow> attempt_send wp s sflags now;
     Some (True, if bNewData \<and> bReadEnable s then log_event PseudoTcpReadable s else s)
   }"

text \<open>What follows the control data: the acknowledgement, the closing handshake and the data.\<close>

definition process_stages ::
  "write_fun \<Rightarrow> sock \<Rightarrow> Segment \<Rightarrow> bool \<Rightarrow> u32 \<Rightarrow> (bool \<times> sock) option" where
  "process_stages wp s g bConnect now = do {
     r \<leftarrow> process_ack wp (process_timestamp s g) g now;
     case r of Inl x \<Rightarrow> Some x
     | Inr (is_fin_ack, s) \<Rightarrow> do {
         s \<leftarrow> (if state s = TCP_SYN_RECEIVED \<and> \<not> bConnect then set_state_established s else Some s);
         r \<leftarrow> process_fin s g is_fin_ack;
         case r of Inl x \<Rightarrow> Some x
         | Inr (received_fin, s) \<Rightarrow> process_receive wp (process_writable s) g received_fin now
       }
   }"

definition process :: "write_fun \<Rightarrow> sock \<Rightarrow> Segment \<Rightarrow> u32 \<Rightarrow> (bool \<times> sock) option" where
  "process wp s g now =
     (if sg_conv g \<noteq> conv s then Some (False, s)
      else
        let s = s\<lparr>last_traffic := now, lastrecv := now, bOutgoing := False\<rparr> in
        if state s = TCP_CLOSED
           \<or> pseudo_tcp_state_has_received_fin_ack (state s) \<and> sg_len g > 0
        then do {
          s \<leftarrow> (if \<not> has_tcp_flag g FLAG_RST then closedown wp s 0 CLOSEDOWN_LOCAL now else Some s);
          Some (False, s)
        }
        else if has_tcp_flag g FLAG_RST then do {
          s \<leftarrow> closedown wp s ECONNRESET CLOSEDOWN_REMOTE now;
          Some (False, s)
        }
        else do {
          r \<leftarrow> process_control s g;
          case r of Inl x \<Rightarrow> Some x
          | Inr (bConnect, s) \<Rightarrow> process_stages wp s g bConnect now
        })"

definition parse :: "write_fun \<Rightarrow> sock \<Rightarrow> bytes \<Rightarrow> bytes \<Rightarrow> u32 \<Rightarrow> (bool \<times> sock) option" where
  "parse wp s header_buf data_buf now =
     (if length header_buf \<noteq> 24 then Some (False, s)
      else process wp s
        \<lparr>sg_conv = of_be32 (take 4 header_buf), sg_seq = of_be32 (take 4 (drop 4 header_buf)),
         sg_ack = of_be32 (take 4 (drop 8 header_buf)), sg_flags = header_buf ! 13,
         sg_wnd = of_be16 (take 2 (drop 14 header_buf)), sg_data = data_buf,
         sg_tsval = of_be32 (take 4 (drop 16 header_buf)),
         sg_tsecr = of_be32 (take 4 (drop 20 header_buf))\<rparr> now)"

end
