(* ===== verification/PseudoTcp_Api.thy ===== *)
theory PseudoTcp_Api
  imports PseudoTcp_Process
begin

text \<open>
  The public functions of \<^verbatim>\<open>agent/pseudotcp.c\<close>: creating a socket, connecting, feeding packets, the
  clock, sending, receiving, closing, and the queries.
\<close>

section \<open>Creation and properties\<close>

definition empty_fifo_struct :: PseudoTcpFifo where
  "empty_fifo_struct = \<lparr>buf = [], buffer_length = 0, data_length = 0, read_position = 0\<rparr>"

definition pseudo_tcp_socket_init :: sock where
  "pseudo_tcp_socket_init =
     \<lparr>shutdown = SD_NONE, shutdown_reads = False, error = 0, state = TCP_LISTEN, conv = 0,
      bReadEnable = True, bWriteEnable = False, bOutgoing = False, last_traffic = 0, rlist = [],
      rbuf_len = DEFAULT_RCV_BUF_SIZE, rcv_nxt = 0, rcv_wnd = DEFAULT_RCV_BUF_SIZE, lastrecv = 0,
      rwnd_scale = 0, rbuf = pseudo_tcp_fifo_init empty_fifo_struct (unat DEFAULT_RCV_BUF_SIZE),
      rcv_fin = 0, slist = [], unsent_slist = [], sbuf_len = DEFAULT_SND_BUF_SIZE, snd_nxt = 0,
      snd_wnd = 1, lastsend = 0, snd_una = 0, swnd_scale = 0,
      sbuf = pseudo_tcp_fifo_init empty_fifo_struct (unat DEFAULT_SND_BUF_SIZE),
      mss = MIN_PACKET - PACKET_OVERHEAD, msslevel = 0, largest = 0, mtu_advise = DEF_MTU,
      rto_base = 0, ts_recent = 0, ts_lastack = 0, rx_rttvar = 0, rx_srtt = 0, rx_rto = DEF_RTO,
      ssthresh = DEFAULT_RCV_BUF_SIZE, cwnd = 2 * (MIN_PACKET - PACKET_OVERHEAD), dup_acks = 0,
      recover = 0, fast_recovery = False, t_ack = 0, last_acked_ts = 0, use_nagling = True,
      ack_delay = DEFAULT_ACK_DELAY, support_wnd_scale = True, current_time = 0,
      support_fin_ack = True, next_seg = 0, events = []\<rparr>"

definition pseudo_tcp_socket_new :: "u32 \<Rightarrow> sock" where
  "pseudo_tcp_socket_new conversation = pseudo_tcp_socket_init\<lparr>conv := conversation\<rparr>"

datatype tcp_property =
    PROP_CONVERSATION u32
  | PROP_ACK_DELAY u32
  | PROP_NO_DELAY bool
  | PROP_RCV_BUF u32
  | PROP_SND_BUF u32
  | PROP_SUPPORT_FIN_ACK bool

text \<open>\<^verbatim>\<open>g_return_if_fail\<close> returns without doing anything.\<close>

fun pseudo_tcp_socket_set_property :: "sock \<Rightarrow> tcp_property \<Rightarrow> sock option" where
  "pseudo_tcp_socket_set_property s (PROP_CONVERSATION v) = Some (s\<lparr>conv := v\<rparr>)"
| "pseudo_tcp_socket_set_property s (PROP_ACK_DELAY v) = Some (s\<lparr>ack_delay := v\<rparr>)"
| "pseudo_tcp_socket_set_property s (PROP_NO_DELAY v) = Some (s\<lparr>use_nagling := \<not> v\<rparr>)"
| "pseudo_tcp_socket_set_property s (PROP_RCV_BUF v) =
     (if state s = TCP_LISTEN then resize_receive_buffer s v else Some s)"
| "pseudo_tcp_socket_set_property s (PROP_SND_BUF v) =
     (if state s = TCP_LISTEN then resize_send_buffer s v else Some s)"
| "pseudo_tcp_socket_set_property s (PROP_SUPPORT_FIN_ACK v) = Some (s\<lparr>support_fin_ack := v\<rparr>)"

definition pseudo_tcp_socket_set_time :: "sock \<Rightarrow> u32 \<Rightarrow> sock" where
  "pseudo_tcp_socket_set_time s t = s\<lparr>current_time := t\<rparr>"

definition get_current_time :: "sock \<Rightarrow> u32 \<Rightarrow> u32" where
  "get_current_time s clock = (if current_time s \<noteq> 0 then current_time s else clock)"

section \<open>Connecting and the network\<close>

definition pseudo_tcp_socket_connect :: "write_fun \<Rightarrow> sock \<Rightarrow> u32 \<Rightarrow> (bool \<times> sock) option" where
  "pseudo_tcp_socket_connect wp s clock =
     (if state s \<noteq> TCP_LISTEN then Some (False, s\<lparr>error := EINVAL\<rparr>)
      else do {
        s \<leftarrow> set_state s TCP_SYN_SENT;
        s \<leftarrow> queue_connect_message s;
        s \<leftarrow> attempt_send wp s sfNone (get_current_time s clock);
        Some (True, s)
      })"

definition pseudo_tcp_socket_notify_mtu :: "sock \<Rightarrow> u16 \<Rightarrow> sock" where
  "pseudo_tcp_socket_notify_mtu s mtu =
     (let s = s\<lparr>mtu_advise := ucast mtu\<rparr> in
      if state s = TCP_ESTABLISHED then adjustMTU s else s)"

definition pseudo_tcp_socket_notify_packet ::
  "write_fun \<Rightarrow> sock \<Rightarrow> bytes \<Rightarrow> u32 \<Rightarrow> (bool \<times> sock) option" where
  "pseudo_tcp_socket_notify_packet wp s b clock =
     (if length b > MAX_PACKET then Some (False, s\<lparr>error := EMSGSIZE\<rparr>)
      else if length b < HEADER_SIZE then Some (False, s\<lparr>error := EINVAL\<rparr>)
      else parse wp s (take HEADER_SIZE b) (drop HEADER_SIZE b) (get_current_time s clock))"

text \<open>A message in one buffer, or in two with the header in the first; \<open>len\<close> is the length of the
  message, which may be less than the two buffers together.\<close>

definition pseudo_tcp_socket_notify_message ::
  "write_fun \<Rightarrow> sock \<Rightarrow> bytes list \<Rightarrow> nat \<Rightarrow> u32 \<Rightarrow> (bool \<times> sock) option" where
  "pseudo_tcp_socket_notify_message wp s bufs len clock = do {
     c_assert (length bufs > 0);
     if length bufs = 1 then pseudo_tcp_socket_notify_packet wp s (bufs ! 0) clock
     else do {
       c_assert (length bufs = 2);
       c_assert (length (bufs ! 0) = HEADER_SIZE);
       if len > MAX_PACKET then Some (False, s)
       else if len < HEADER_SIZE then Some (False, s)
       else do {
         data \<leftarrow> mem_read (bufs ! 1) 0 (len - length (bufs ! 0));
         parse wp s (bufs ! 0) data (get_current_time s clock)
       }
     }
   }"

section \<open>The clock\<close>

definition clock_fin :: "write_fun \<Rightarrow> sock \<Rightarrow> u32 \<Rightarrow> sock option" where
  "clock_fin wp s now = do {
     s \<leftarrow> (if support_fin_ack s \<and> state s = TCP_TIME_WAIT then set_state_closed s 0 else Some s);
     if support_fin_ack s \<and> state s = TCP_LAST_ACK then do {
       s \<leftarrow> queue_fin_message s;
       attempt_send wp s sfFin now
     }
     else Some s
   }"

text \<open>The retransmission timer: \<open>True\<close> when the function has closed down and returns.\<close>

definition clock_retransmit :: "write_fun \<Rightarrow> sock \<Rightarrow> u32 \<Rightarrow> (bool \<times> sock) option" where
  "clock_retransmit wp s now =
     (if rto_base s \<noteq> 0 \<and> time_diff (rto_base s + rx_rto s) now \<le> 0 then do {
        i \<leftarrow> head_seg s;
        (err, s) \<leftarrow> transmit wp s i now;
        if err \<noteq> 0 then do {
          s \<leftarrow> closedown wp s err CLOSEDOWN_LOCAL now;
          Some (True, s)
        }
        else
          let nInFlight = snd_nxt s - snd_una s;
              rto_limit = (if state s \<in> {TCP_LISTEN, TCP_SYN_SENT, TCP_SYN_RECEIVED} then DEF_RTO
                           else MAX_RTO);
              s = s\<lparr>ssthresh := max (nInFlight div 2) (2 * mss s), cwnd := mss s,
                    rx_rto := min rto_limit (rx_rto s * 2), rto_base := now, recover := snd_nxt s\<rparr>
          in Some (False, if dup_acks s \<ge> 3 then s\<lparr>dup_acks := 0, fast_recovery := False\<rparr> else s)
      }
      else Some (False, s))"

definition clock_probe :: "write_fun \<Rightarrow> sock \<Rightarrow> u32 \<Rightarrow> (bool \<times> sock) option" where
  "clock_probe wp s now =
     (if snd_wnd s = 0 \<and> time_diff (lastsend s + rx_rto s) now \<le> 0 then
        if time_diff now (lastrecv s) \<ge> 15000 then do {
          s \<leftarrow> closedown wp s ECONNABORTED CLOSEDOWN_LOCAL now;
          Some (True, s)
        }
        else do {
          s \<leftarrow> ack_packet wp s (snd_nxt s - 1) now;
          Some (False, s\<lparr>lastsend := now, rx_rto := min MAX_RTO (rx_rto s * 2)\<rparr>)
        }
      else Some (False, s))"

definition clock_delayed_ack :: "write_fun \<Rightarrow> sock \<Rightarrow> u32 \<Rightarrow> sock option" where
  "clock_delayed_ack wp s now =
     (if t_ack s \<noteq> 0 \<and> time_diff (t_ack s + ack_delay s) now \<le> 0
      then ack_packet wp s (snd_nxt s) now else Some s)"

definition pseudo_tcp_socket_notify_clock :: "write_fun \<Rightarrow> sock \<Rightarrow> u32 \<Rightarrow> sock option" where
  "pseudo_tcp_socket_notify_clock wp s clock =
     (let now = get_current_time s clock in
      if state s = TCP_CLOSED then Some s
      else do {
        s \<leftarrow> clock_fin wp s now;
        (ret, s) \<leftarrow> clock_retransmit wp s now;
        if ret then Some s
        else do {
          (ret, s) \<leftarrow> clock_probe wp s now;
          if ret then Some s else clock_delayed_ack wp s now
        }
      })"

text \<open>The next time the clock must be notified; the 64-bit \<^verbatim>\<open>timeout\<close> is an in-out parameter.\<close>

definition pseudo_tcp_socket_get_next_clock ::
  "write_fun \<Rightarrow> sock \<Rightarrow> u64 \<Rightarrow> u32 \<Rightarrow> (bool \<times> u64 \<times> sock) option" where
  "pseudo_tcp_socket_get_next_clock wp s timeout clock =
     (let now = get_current_time s clock in
      if shutdown s = SD_FORCEFUL
         \<or> shutdown s = SD_GRACEFUL \<and> (state s \<noteq> TCP_ESTABLISHED
             \<or> pseudo_tcp_fifo_get_buffered (sbuf s) = 0 \<and> t_ack s = 0)
      then do {
        s \<leftarrow> closedown wp s 0 CLOSEDOWN_REMOTE now;
        Some (False, timeout, s)
      }
      else if support_fin_ack s \<and> state s = TCP_CLOSED then Some (False, timeout, s)
      else
        let closed_timeout = (if support_fin_ack s \<and> state s = TCP_TIME_WAIT then TIME_WAIT_TIMEOUT
                              else CLOSED_TIMEOUT);
            timeout = (if timeout = 0 \<or> timeout < ucast now then ucast (now + closed_timeout)
                       else timeout)
        in
        if support_fin_ack s \<and> state s = TCP_TIME_WAIT
        then Some (True, min timeout (ucast (now + TIME_WAIT_TIMEOUT)), s)
        else if state s = TCP_CLOSED \<and> \<not> support_fin_ack s
        then Some (True, min timeout (ucast (now + CLOSED_TIMEOUT)), s)
        else
          let timeout = min timeout (ucast (now + DEFAULT_TIMEOUT));
              timeout = (if t_ack s \<noteq> 0 then min timeout (ucast (t_ack s + ack_delay s)) else timeout);
              timeout = (if rto_base s \<noteq> 0 then min timeout (ucast (rto_base s + rx_rto s)) else timeout);
              timeout = (if snd_wnd s = 0 then min timeout (ucast (lastsend s + rx_rto s)) else timeout)
          in Some (True, timeout, s))"

section \<open>Sending and receiving\<close>

definition pseudo_tcp_socket_is_closed :: "sock \<Rightarrow> bool" where
  "pseudo_tcp_socket_is_closed s = (state s = TCP_CLOSED)"

definition pseudo_tcp_socket_is_closed_remotely :: "sock \<Rightarrow> bool" where
  "pseudo_tcp_socket_is_closed_remotely s = pseudo_tcp_state_has_received_fin (state s)"

definition pseudo_tcp_socket_get_error :: "sock \<Rightarrow> int" where
  "pseudo_tcp_socket_get_error s = error s"

definition pseudo_tcp_socket_get_available_bytes :: "sock \<Rightarrow> nat" where
  "pseudo_tcp_socket_get_available_bytes s = pseudo_tcp_fifo_get_buffered (rbuf s)"

definition pseudo_tcp_socket_get_available_send_space :: "sock \<Rightarrow> nat \<times> sock" where
  "pseudo_tcp_socket_get_available_send_space s =
     (let ret = (if \<not> pseudo_tcp_state_has_sent_fin (state s)
                 then pseudo_tcp_fifo_get_write_remaining (sbuf s) else 0)
      in (ret, if ret = 0 then s\<lparr>bWriteEnable := True\<rparr> else s))"

definition pseudo_tcp_socket_can_send :: "sock \<Rightarrow> bool \<times> sock" where
  "pseudo_tcp_socket_can_send s =
     (let (n, s) = pseudo_tcp_socket_get_available_send_space s in (n > 0, s))"

text \<open>The result of \<^verbatim>\<open>recv\<close>, and the bytes it has copied to the caller.\<close>

definition pseudo_tcp_socket_recv ::
  "write_fun \<Rightarrow> sock \<Rightarrow> nat \<Rightarrow> u32 \<Rightarrow> (int \<times> bytes \<times> sock) option" where
  "pseudo_tcp_socket_recv wp s len clock =
     (if support_fin_ack s \<and> shutdown_reads s then Some (0, [], s)
      else if \<not> support_fin_ack s \<and> pseudo_tcp_socket_is_closed s then Some (0, [], s)
      else if \<not> support_fin_ack s \<and> state s \<noteq> TCP_ESTABLISHED
      then Some (-1, [], s\<lparr>error := ENOTCONN\<rparr>)
      else if len = 0 then Some (0, [], s)
      else do {
        (out, fb) \<leftarrow> pseudo_tcp_fifo_read (rbuf s) len;
        let s = s\<lparr>rbuf := fb\<rparr>;
        if length out = 0 \<and> \<not> (pseudo_tcp_state_has_received_fin (state s)
                               \<or> pseudo_tcp_state_has_received_fin_ack (state s))
        then Some (-1, [], s\<lparr>bReadEnable := True, error := EWOULDBLOCK\<rparr>)
        else do {
          let available_space = pseudo_tcp_fifo_get_write_remaining (rbuf s);
          s \<leftarrow> (if (word_of_nat available_space - ucast (rcv_wnd s) :: u64)
                   \<ge> ucast (min (rbuf_len s div 2) (mss s))
                then do {
                  let bWasClosed = (rcv_wnd s = 0);
                  let s = s\<lparr>rcv_wnd := word_of_nat available_space\<rparr>;
                  if bWasClosed then attempt_send wp s sfImmediateAck (get_current_time s clock)
                  else Some s
                }
                else Some s);
          Some (int (length out), out, s)
        }
      })"

definition pseudo_tcp_socket_send ::
  "write_fun \<Rightarrow> sock \<Rightarrow> bytes \<Rightarrow> u32 \<Rightarrow> (int \<times> sock) option" where
  "pseudo_tcp_socket_send wp s b clock =
     (if state s \<noteq> TCP_ESTABLISHED
      then Some (-1, s\<lparr>error := (if pseudo_tcp_state_has_sent_fin (state s) then EPIPE else ENOTCONN)\<rparr>)
      else if pseudo_tcp_fifo_get_write_remaining (sbuf s) = 0
      then Some (-1, s\<lparr>bWriteEnable := True, error := EWOULDBLOCK\<rparr>)
      else do {
        (written, s) \<leftarrow> queue s b FLAG_NONE;
        s \<leftarrow> attempt_send wp s sfNone (get_current_time s clock);
        Some (int written,
              if written > 0 \<and> written < length b then s\<lparr>bWriteEnable := True\<rparr> else s)
      })"

section \<open>Closing\<close>

definition pseudo_tcp_socket_shutdown ::
  "write_fun \<Rightarrow> sock \<Rightarrow> PseudoTcpShutdown \<Rightarrow> u32 \<Rightarrow> sock option" where
  "pseudo_tcp_socket_shutdown wp s how clock =
     (let now = get_current_time s clock in
      if \<not> support_fin_ack s
      then Some (if shutdown s = SD_NONE then s\<lparr>shutdown := SD_GRACEFUL\<rparr> else s)
      else
        let s = (if how = PSEUDO_TCP_SHUTDOWN_RD \<or> how = PSEUDO_TCP_SHUTDOWN_RDWR
                 then s\<lparr>shutdown_reads := True\<rparr> else s)
        in
        if how = PSEUDO_TCP_SHUTDOWN_RD then Some s
        else if state s = TCP_LISTEN \<or> state s = TCP_SYN_SENT then set_state_closed s 0
        else if state s = TCP_SYN_RECEIVED \<or> state s = TCP_ESTABLISHED then
          if pseudo_tcp_socket_get_available_bytes s > 0
          then closedown wp s ECONNABORTED CLOSEDOWN_LOCAL now
          else do {
            s \<leftarrow> queue_fin_message s;
            s \<leftarrow> attempt_send wp s sfFin now;
            set_state s TCP_FIN_WAIT_1
          }
        else if state s = TCP_CLOSE_WAIT then do {
          s \<leftarrow> queue_fin_message s;
          s \<leftarrow> attempt_send wp s sfFin now;
          set_state s TCP_LAST_ACK
        }
        else Some s)"

definition pseudo_tcp_socket_close :: "write_fun \<Rightarrow> sock \<Rightarrow> bool \<Rightarrow> u32 \<Rightarrow> sock option" where
  "pseudo_tcp_socket_close wp s force clock =
     (if force \<and> state s \<noteq> TCP_CLOSED
      then closedown wp s ECONNABORTED CLOSEDOWN_LOCAL (get_current_time s clock)
      else pseudo_tcp_socket_shutdown wp s PSEUDO_TCP_SHUTDOWN_RDWR clock)"

end
