(* ===== verification/PseudoTcp_Frame.thy ===== *)
theory PseudoTcp_Frame
  imports PseudoTcp_Api
begin

text \<open>
  What the sending side of a pseudo-TCP socket leaves alone. \<open>rcv_view\<close> is the part of the socket that
  the receiving side works with; queueing, transmitting, the send loop, closing down, the clock and
  the handling of acknowledgements do not touch it.
\<close>

definition rcv_view :: "sock \<Rightarrow> PseudoTcpFifo \<times> RSegment list \<times> u32 \<times> bool \<times> u32" where
  "rcv_view s = (rbuf s, rlist s, rcv_nxt s, support_fin_ack s, rcv_fin s)"

named_theorems frame "operations that keep the receiving side"

lemma rcv_view_log [simp]: "rcv_view (log_event e s) = rcv_view s"
  by (simp add: rcv_view_def log_event_def)

lemma rcv_view_update_seg [simp]: "rcv_view (update_seg i f s) = rcv_view s"
  by (simp add: rcv_view_def update_seg_def)

lemma rcv_view_updates [simp]:
  "rcv_view (s\<lparr>t_ack := a\<rparr>) = rcv_view s" "rcv_view (s\<lparr>state := st\<rparr>) = rcv_view s"
  "rcv_view (s\<lparr>lastsend := a\<rparr>) = rcv_view s" "rcv_view (s\<lparr>last_traffic := a\<rparr>) = rcv_view s"
  "rcv_view (s\<lparr>bOutgoing := x\<rparr>) = rcv_view s" "rcv_view (s\<lparr>ts_lastack := a\<rparr>) = rcv_view s"
  "rcv_view (s\<lparr>msslevel := l\<rparr>) = rcv_view s" "rcv_view (s\<lparr>mss := a\<rparr>) = rcv_view s"
  "rcv_view (s\<lparr>cwnd := a\<rparr>) = rcv_view s" "rcv_view (s\<lparr>slist := sl\<rparr>) = rcv_view s"
  "rcv_view (s\<lparr>unsent_slist := ul\<rparr>) = rcv_view s" "rcv_view (s\<lparr>next_seg := l\<rparr>) = rcv_view s"
  "rcv_view (s\<lparr>snd_nxt := a\<rparr>) = rcv_view s" "rcv_view (s\<lparr>rto_base := a\<rparr>) = rcv_view s"
  "rcv_view (s\<lparr>shutdown := sd\<rparr>) = rcv_view s" "rcv_view (s\<lparr>sbuf := fb\<rparr>) = rcv_view s"
  "rcv_view (s\<lparr>ssthresh := a\<rparr>) = rcv_view s" "rcv_view (s\<lparr>dup_acks := d\<rparr>) = rcv_view s"
  "rcv_view (s\<lparr>fast_recovery := x\<rparr>) = rcv_view s" "rcv_view (s\<lparr>recover := a\<rparr>) = rcv_view s"
  "rcv_view (s\<lparr>snd_wnd := a\<rparr>) = rcv_view s" "rcv_view (s\<lparr>snd_una := a\<rparr>) = rcv_view s"
  "rcv_view (s\<lparr>rx_srtt := a\<rparr>) = rcv_view s" "rcv_view (s\<lparr>rx_rttvar := a\<rparr>) = rcv_view s"
  "rcv_view (s\<lparr>rx_rto := a\<rparr>) = rcv_view s" "rcv_view (s\<lparr>last_acked_ts := a\<rparr>) = rcv_view s"
  "rcv_view (s\<lparr>largest := a\<rparr>) = rcv_view s" "rcv_view (s\<lparr>ts_recent := a\<rparr>) = rcv_view s"
  "rcv_view (s\<lparr>bWriteEnable := x\<rparr>) = rcv_view s" "rcv_view (s\<lparr>bReadEnable := x\<rparr>) = rcv_view s"
  "rcv_view (s\<lparr>lastrecv := a\<rparr>) = rcv_view s" "rcv_view (s\<lparr>error := e\<rparr>) = rcv_view s"
  "rcv_view (s\<lparr>rcv_wnd := a\<rparr>) = rcv_view s" "rcv_view (s\<lparr>shutdown_reads := x\<rparr>) = rcv_view s"
  by (simp_all add: rcv_view_def)

lemma packet_write_view [simp]: "rcv_view (snd (packet_write wp s b len now)) = rcv_view s"
  by (simp add: packet_write_def Let_def)

lemma packet_view [frame]: "packet wp s seq flags offset len now = Some (r, s') \<Longrightarrow> rcv_view s' = rcv_view s"
  by (auto simp: packet_Some) (metis packet_write_view rcv_view_updates(6) snd_conv)

lemma ack_packet_view [frame]: "ack_packet wp s seq now = Some s' \<Longrightarrow> rcv_view s' = rcv_view s"
  by (auto simp: ack_packet_def frame)

lemma set_state_view [frame]: "set_state s st = Some s' \<Longrightarrow> rcv_view s' = rcv_view s"
  by (auto simp: set_state_def bind_eq_Some_conv split: if_splits)

lemma set_state_closed_view [frame]: "set_state_closed s e = Some s' \<Longrightarrow> rcv_view s' = rcv_view s"
  by (auto simp: set_state_closed_def bind_eq_Some_conv frame)

lemma adjustMTU_view [simp]: "rcv_view (adjustMTU s) = rcv_view s"
  by (simp add: adjustMTU_def Let_def)

lemma set_state_established_view [frame]: "set_state_established s = Some s' \<Longrightarrow> rcv_view s' = rcv_view s"
  by (auto simp: set_state_established_def bind_eq_Some_conv frame)

lemma closedown_states_view [frame]: "closedown_states s e = Some s' \<Longrightarrow> rcv_view s' = rcv_view s"
  by (auto simp: closedown_states_def bind_eq_Some_conv Let_def split: if_splits dest!: frame)

lemma reduce_mss_view [frame]: "reduce_mss s n = Some (e, n', s') \<Longrightarrow> rcv_view s' = rcv_view s"
  by (induction s n rule: reduce_mss.induct)
    (subst (asm) (2) reduce_mss.simps, fastforce simp: Let_def split: option.splits if_splits)

lemma transmit_loop_view [frame]:
  "transmit_loop wp s seq flags n now = Some (e, n', s') \<Longrightarrow> rcv_view s' = rcv_view s"
proof (induction wp s seq flags n now rule: transmit_loop.induct)
  case (1 wp s seq flags n now)
  from "1.prems" obtain wres s1 where
    c: "unat (seq - snd_una s) \<le> 1024 * 1024 * 64" and
    p: "packet wp s seq flags (seq - snd_una s) n now = Some (wres, s1)"
    by (subst (asm) transmit_loop.simps) (auto split: if_splits option.splits)
  note v = packet_view [OF p]
  show ?case
  proof (cases wres)
    case WR_TOO_LARGE
    then obtain err n2 s2 where r: "reduce_mss s1 n = Some (err, n2, s2)"
      using "1.prems" c p by (subst (asm) transmit_loop.simps) (auto split: option.splits)
    show ?thesis
      using "1.prems" "1.IH" [OF c p refl WR_TOO_LARGE r refl refl] c p r WR_TOO_LARGE v reduce_mss_view [OF r]
      by (simp add: transmit_loop.simps [of wp s] split: if_splits)
  qed (use "1.prems" c p v in \<open>subst (asm) transmit_loop.simps, simp\<close>)+
qed

lemma transmit_split_view [frame]: "transmit_split s seg n = Some s' \<Longrightarrow> rcv_view s' = rcv_view s"
  by (auto simp: transmit_split_def Let_def bind_eq_Some_conv split: if_splits)

lemma transmit_mark_view [frame]: "transmit_mark s seg n = Some s' \<Longrightarrow> rcv_view s' = rcv_view s"
  by (auto simp: transmit_mark_def Let_def bind_eq_Some_conv split: if_splits)

lemma transmit_view [frame]:
  assumes "transmit wp s i now = Some (e, s')"
  shows "rcv_view s' = rcv_view s"
  using assms by (cases rule: transmit_cases) (use frame in \<open>fastforce+\<close>)

lemma split_unsent_view [frame]: "split_unsent s i n = Some s' \<Longrightarrow> rcv_view s' = rcv_view s"
  by (auto simp: split_unsent_def bind_eq_Some_conv Let_def)

lemma attempt_send_round_view:
  "attempt_send_round wp s f now = Some (Inr q) \<Longrightarrow> rcv_view (fst q) = rcv_view s"
  "attempt_send_round wp s f now = Some (Inl s') \<Longrightarrow> rcv_view s' = rcv_view s"
  by (auto simp: attempt_send_round_def Let_def bind_eq_Some_conv split: if_splits list.splits dest!: frame)

lemma attempt_send_loop_view [frame]: "attempt_send_loop wp s f now = Some s' \<Longrightarrow> rcv_view s' = rcv_view s"
  by (rule attempt_send_loop_rule [where I = "\<lambda>t. rcv_view t = rcv_view s"]) (auto dest: attempt_send_round_view)

lemma attempt_send_view [frame]: "attempt_send wp s f now = Some s' \<Longrightarrow> rcv_view s' = rcv_view s"
  by (auto simp: attempt_send_def Let_def split: if_splits dest!: attempt_send_loop_view)

lemma queue_view [frame]: "queue s d f = Some (n, s') \<Longrightarrow> rcv_view s' = rcv_view s"
  by (auto simp: queue_def new_segment_def Let_def bind_eq_Some_conv split: if_splits)

lemma queue_connect_view [frame]: "queue_connect_message s = Some s' \<Longrightarrow> rcv_view s' = rcv_view s"
  by (auto simp: queue_connect_message_def Let_def bind_eq_Some_conv dest!: queue_view)

lemma queue_fin_view [frame]: "queue_fin_message s = Some s' \<Longrightarrow> rcv_view s' = rcv_view s"
  by (auto simp: queue_fin_message_def bind_eq_Some_conv dest!: queue_view)

lemma queue_rst_view [frame]: "queue_rst_message s = Some s' \<Longrightarrow> rcv_view s' = rcv_view s"
  by (auto simp: queue_rst_message_def bind_eq_Some_conv dest!: queue_view)

lemma closedown_view [frame]: "closedown wp s e src now = Some s' \<Longrightarrow> rcv_view s' = rcv_view s"
  by (auto simp: closedown_def bind_eq_Some_conv split: if_splits dest!: frame)

lemma process_timestamp_view [simp]: "rcv_view (process_timestamp s g) = rcv_view s"
  by (simp add: process_timestamp_def)

lemma process_rtt_view: "process_rtt s g now = Inl s' \<or> process_rtt s g now = Inr s' \<Longrightarrow> rcv_view s' = rcv_view s"
  by (auto simp: process_rtt_def Let_def split: if_splits)

lemma process_writable_view [simp]: "rcv_view (process_writable s) = rcv_view s"
  by (simp add: process_writable_def Let_def)

text \<open>The socket in a result of the stages of \<^verbatim>\<open>process\<close>, whether they return or go on.\<close>

fun stage_sock :: "(bool \<times> sock) + sock \<Rightarrow> sock" where
  "stage_sock (Inl (x, s)) = s"
| "stage_sock (Inr s) = s"

fun flag_sock :: "(bool \<times> sock) + (bool \<times> sock) \<Rightarrow> sock" where
  "flag_sock (Inl (x, s)) = s"
| "flag_sock (Inr (x, s)) = s"

lemma flag_sock_case [simp]: "flag_sock (case r of Inl x \<Rightarrow> Inl x | Inr s \<Rightarrow> Inr (c, s)) = stage_sock r"
  by (cases r rule: stage_sock.cases) simp_all

lemma ack_congestion_view [frame]:
  "ack_congestion wp s n now = Some r \<Longrightarrow> rcv_view (stage_sock r) = rcv_view s"
  by (auto simp: ack_congestion_def Let_def bind_eq_Some_conv split: if_splits dest!: transmit_view closedown_view)

lemma fast_retransmit_view [frame]:
  "fast_retransmit wp s now = Some r \<Longrightarrow> rcv_view (stage_sock r) = rcv_view s"
  by (auto simp: fast_retransmit_def Let_def bind_eq_Some_conv split: if_splits
      dest!: transmit_view closedown_view)

lemma process_dup_ack_view [frame]:
  "process_dup_ack wp s g now = Some r \<Longrightarrow> rcv_view (stage_sock r) = rcv_view s"
  unfolding process_dup_ack_def Let_def
  by (elim bind_SomeE)
    (auto simp only: option.inject stage_sock.simps rcv_view_updates split: if_split_asm
      dest!: fast_retransmit_view)

lemma ack_release_view [frame]: "ack_release s g now = Some (b, n, s') \<Longrightarrow> rcv_view s' = rcv_view s"
  by (clarsimp simp: ack_release_def Let_def bind_eq_Some_conv)

lemma process_new_ack_view [frame]:
  assumes "process_new_ack wp s g now = Some r"
  shows "rcv_view (flag_sock r) = rcv_view s"
proof (cases "process_rtt s g now")
  case (Inl s1)
  then show ?thesis using assms process_rtt_view [of s g now s1] by (auto simp: process_new_ack_def)
next
  case (Inr s1)
  then show ?thesis
    using assms process_rtt_view [of s g now s1]
    by (auto simp: process_new_ack_def bind_eq_Some_conv dest!: ack_release_view ack_congestion_view)
qed

lemma process_ack_view [frame]:
  "process_ack wp s g now = Some r \<Longrightarrow> rcv_view (flag_sock r) = rcv_view s"
  by (auto simp: process_ack_def bind_eq_Some_conv split: if_splits
      dest!: process_new_ack_view process_dup_ack_view)

lemma fin_transition_view [frame]: "fin_transition s a b = Some s' \<Longrightarrow> rcv_view s' = rcv_view s"
  by (auto simp: fin_transition_def split: if_splits dest!: set_state_view set_state_closed_view)

lemma clock_fin_view [frame]: "clock_fin wp s now = Some s' \<Longrightarrow> rcv_view s' = rcv_view s"
  by (auto simp: clock_fin_def bind_eq_Some_conv split: if_splits
      dest!: set_state_closed_view queue_fin_view attempt_send_view)

lemma clock_retransmit_view [frame]: "clock_retransmit wp s now = Some (b, s') \<Longrightarrow> rcv_view s' = rcv_view s"
  by (auto simp: clock_retransmit_def Let_def bind_eq_Some_conv split: if_splits
      dest!: transmit_view closedown_view)

lemma clock_probe_view [frame]: "clock_probe wp s now = Some (b, s') \<Longrightarrow> rcv_view s' = rcv_view s"
  by (auto simp: clock_probe_def bind_eq_Some_conv split: if_splits dest!: closedown_view ack_packet_view)

lemma notify_clock_view [frame]:
  assumes "pseudo_tcp_socket_notify_clock wp s clock = Some s'"
  shows "rcv_view s' = rcv_view s"
proof (cases "state s = TCP_CLOSED")
  case True
  then show ?thesis using assms by (simp add: pseudo_tcp_socket_notify_clock_def)
next
  case False
  let ?now = "get_current_time s clock"
  from False assms obtain s1 r2 s2 where s1: "clock_fin wp s ?now = Some s1"
      and s2: "clock_retransmit wp s1 ?now = Some (r2, s2)"
    by (auto simp: pseudo_tcp_socket_notify_clock_def Let_def bind_eq_Some_conv)
  note v = clock_fin_view [OF s1] clock_retransmit_view [OF s2]
  show ?thesis
  proof (cases r2)
    case True
    then show ?thesis using assms False s1 s2 v by (simp add: pseudo_tcp_socket_notify_clock_def Let_def)
  next
    case r2: False
    with False assms s1 s2 obtain r3 s3 where s3: "clock_probe wp s2 ?now = Some (r3, s3)"
      by (auto simp: pseudo_tcp_socket_notify_clock_def Let_def bind_eq_Some_conv)
    show ?thesis
      using assms False s1 s2 r2 s3 v clock_probe_view [OF s3]
      by (auto simp: pseudo_tcp_socket_notify_clock_def clock_delayed_ack_def Let_def split: if_splits
          dest!: ack_packet_view)
  qed
qed

lemma send_view [frame]: "pseudo_tcp_socket_send wp s d clock = Some (n, s') \<Longrightarrow> rcv_view s' = rcv_view s"
  by (auto simp: pseudo_tcp_socket_send_def bind_eq_Some_conv split: if_splits
      dest!: queue_view attempt_send_view)

lemma fin_sent_view:
  "queue_fin_message s \<bind> (\<lambda>s. attempt_send wp s sfFin now \<bind> (\<lambda>s. set_state s st)) = Some s'
     \<Longrightarrow> rcv_view s' = rcv_view s"
  by (clarsimp simp: bind_eq_Some_conv) (drule queue_fin_view attempt_send_view set_state_view, simp)+

lemma shutdown_view [frame]:
  assumes "pseudo_tcp_socket_shutdown wp s how clock = Some s'"
  shows "rcv_view s' = rcv_view s"
proof -
  let ?s = "if how = PSEUDO_TCP_SHUTDOWN_RD \<or> how = PSEUDO_TCP_SHUTDOWN_RDWR then s\<lparr>shutdown_reads := True\<rparr> else s"
  have "rcv_view ?s = rcv_view s" by simp
  then show ?thesis
    using assms unfolding pseudo_tcp_socket_shutdown_def Let_def
    by (simp only: split: if_splits)
      (auto simp only: option.inject rcv_view_updates dest!: set_state_closed_view closedown_view fin_sent_view)
qed

lemma close_view [frame]: "pseudo_tcp_socket_close wp s force clock = Some s' \<Longrightarrow> rcv_view s' = rcv_view s"
  by (auto simp: pseudo_tcp_socket_close_def split: if_splits dest!: closedown_view shutdown_view)

end
