(* ===== verification/PseudoTcp_Stream.thy ===== *)
theory PseudoTcp_Stream
  imports PseudoTcp_Frame
begin

text \<open>
  The receiving side of a pseudo-TCP socket delivers the stream of the peer. The peer's stream is a
  function from absolute positions to bytes; a segment carries a stretch of it, and the 32-bit
  sequence numbers are the positions modulo \<open>2 ^ 32\<close>. \<open>rcv_ok S r s\<close> relates the receive buffer and
  the list of saved segments to the stream: \<open>r\<close> is the position of the next byte for the reader, the
  buffered bytes are the stream from \<open>r\<close> on, and each saved segment lies beyond them, in order, with
  its bytes already in the ring.
\<close>

section \<open>The ring and the stream\<close>

definition ring_has :: "(nat \<Rightarrow> u8) \<Rightarrow> nat \<Rightarrow> PseudoTcpFifo \<Rightarrow> nat \<Rightarrow> nat \<Rightarrow> bool" where
  "ring_has S r b p l \<longleftrightarrow> r \<le> p \<and> p + l \<le> r + buffer_length b
     \<and> (\<forall>x. p \<le> x \<and> x < p + l \<longrightarrow> fifo_ring b ! (x - r) = S x)"

definition saved_at :: "nat \<times> nat \<Rightarrow> RSegment" where
  "saved_at pl = \<lparr>rs_seq = word_of_nat (fst pl), rs_len = word_of_nat (snd pl)\<rparr>"

definition saved_ok :: "(nat \<Rightarrow> u8) \<Rightarrow> nat \<Rightarrow> PseudoTcpFifo \<Rightarrow> nat \<Rightarrow> (nat \<times> nat) list \<Rightarrow> bool" where
  "saved_ok S r b m ps \<longleftrightarrow> sorted (map fst ps) \<and> (\<forall>pl \<in> set ps. m < fst pl \<and> ring_has S r b (fst pl) (snd pl))"

definition rcv_ok :: "(nat \<Rightarrow> u8) \<Rightarrow> nat \<Rightarrow> sock \<Rightarrow> bool" where
  "rcv_ok S r s \<longleftrightarrow> fifo_ok (rbuf s) \<and> buffer_length (rbuf s) < 2 ^ 30
     \<and> rcv_nxt s = word_of_nat (r + data_length (rbuf s))
     \<and> ring_has S r (rbuf s) r (data_length (rbuf s))
     \<and> (\<exists>ps. rlist s = map saved_at ps \<and> saved_ok S r (rbuf s) (r + data_length (rbuf s)) ps)"

definition carries :: "(nat \<Rightarrow> u8) \<Rightarrow> nat \<Rightarrow> Segment \<Rightarrow> bool" where
  "carries S p g \<longleftrightarrow> sg_seq g = word_of_nat p \<and> length (sg_data g) < 2 ^ 16
     \<and> sg_data g = map S [p..<p + length (sg_data g)]"

lemma unat_of_nat_small: "k < 2 ^ 32 \<Longrightarrow> unat (word_of_nat k :: u32) = k"
  by (simp add: unsigned_of_nat take_bit_nat_eq_self)

lemma ring_has_contents:
  "fifo_ok b \<Longrightarrow> ring_has S r b r (data_length b) \<longleftrightarrow> fifo_contents b = map S [r..<r + data_length b]"
  by (auto simp: fifo_ok_def fifo_contents_def ring_has_def list_eq_iff_nth_eq nth_append)
    (metis add_diff_cancel_left' le_add1 le_Suc_ex nat_add_left_cancel_less)

lemma ring_has_cong:
  "ring_has S r b p l \<Longrightarrow> buffer_length b' = buffer_length b \<Longrightarrow> fifo_ring b' = fifo_ring b \<Longrightarrow> ring_has S r b' p l"
  by (simp add: ring_has_def)

lemma ring_has_extend:
  "ring_has S r b r m \<Longrightarrow> ring_has S r b p l \<Longrightarrow> p \<le> r + m \<Longrightarrow> r + m \<le> p + l \<Longrightarrow> ring_has S r b r (p + l - r)"
  by (auto simp: ring_has_def) (metis leI le_trans)

lemma ring_has_write:
  assumes has: "ring_has S r b p l" and L: "buffer_length b' = buffer_length b"
    and q: "r \<le> q"
    and ring: "\<And>i. i < buffer_length b \<Longrightarrow> fifo_ring b' ! i =
      (if q - r \<le> i \<and> i < q - r + k then map S [q..<q + k] ! (i - (q - r)) else fifo_ring b ! i)"
  shows "ring_has S r b' p l"
  unfolding ring_has_def
proof (intro conjI allI impI)
  show "r \<le> p" "p + l \<le> r + buffer_length b'" using has L by (auto simp: ring_has_def)
  fix x assume x: "p \<le> x \<and> x < p + l"
  then have i: "x - r < buffer_length b" "r \<le> x" using has by (auto simp: ring_has_def)
  have "fifo_ring b ! (x - r) = S x" using has x by (simp add: ring_has_def)
  then show "fifo_ring b' ! (x - r) = S x" using ring [OF i(1)] i(2) q by auto
qed

lemma consume_write_ok:
  assumes "fifo_ok b" "data_length b + k \<le> buffer_length b"
  obtains b' where "pseudo_tcp_fifo_consume_write_buffer b k = Some b'" "fifo_ok b'"
    "fifo_ring b' = fifo_ring b" "buffer_length b' = buffer_length b" "data_length b' = data_length b + k"
proof (rule that [of "b\<lparr>data_length := data_length b + k\<rparr>"])
  have "k \<le> buffer_length b - data_length b" using assms(2) by simp
  then show "pseudo_tcp_fifo_consume_write_buffer b k = Some (b\<lparr>data_length := data_length b + k\<rparr>)"
    by (simp add: pseudo_tcp_fifo_consume_write_buffer_def)
qed (use assms in \<open>simp_all add: fifo_ok_def fifo_ring_def\<close>)

lemma recover_saved_ok:
  assumes "fifo_ok (rbuf s)" "buffer_length (rbuf s) < 2 ^ 30"
    and "rcv_nxt s = word_of_nat (r + data_length (rbuf s))"
    and "ring_has S r (rbuf s) r (data_length (rbuf s))"
    and "sorted (map fst ps)" "\<forall>pl \<in> set ps. ring_has S r (rbuf s) (fst pl) (snd pl)"
  shows "\<exists>s' f'. recover_saved (map saved_at ps) s f = Some (s', f') \<and> rcv_ok S r s'
    \<and> data_length (rbuf s) \<le> data_length (rbuf s') \<and> buffer_length (rbuf s') = buffer_length (rbuf s)"
  using assms
proof (induction ps arbitrary: s f)
  case Nil
  then show ?case by (simp add: rcv_ok_def saved_ok_def)
next
  case (Cons pl ps)
  obtain p l where pl: "pl = (p, l)" by (cases pl)
  let ?n = "r + data_length (rbuf s)"
  have dl: "data_length (rbuf s) \<le> buffer_length (rbuf s)" using Cons.prems(1) by (simp add: fifo_ok_def)
  have h: "ring_has S r (rbuf s) p l" using Cons.prems(6) pl by simp
  then have pb: "r \<le> p" "p + l \<le> r + buffer_length (rbuf s)" by (auto simp: ring_has_def)
  have nb: "p < ?n + 2 ^ 30" "?n < p + 2 ^ 30" "p + l < ?n + 2 ^ 30" "?n < p + l + 2 ^ 30"
    using pb dl Cons.prems(2) by linarith+
  have se: "SMALLER_OR_EQUAL (rs_seq (saved_at pl)) (rcv_nxt s) \<longleftrightarrow> p \<le> ?n"
    using nb by (simp only: Cons.prems(3) saved_at_def pl fst_conv RSegment.select_convs) (rule smaller_or_equal_near; simp)
  have e: "rs_seq (saved_at pl) + rs_len (saved_at pl) = word_of_nat (p + l)" by (simp add: saved_at_def pl)
  have la: "LARGER (rs_seq (saved_at pl) + rs_len (saved_at pl)) (rcv_nxt s) \<longleftrightarrow> ?n < p + l"
    using nb by (simp only: Cons.prems(3) e) (rule larger_near; simp)
  show ?case
  proof (cases "p \<le> ?n")
    case False
    have "saved_ok S r (rbuf s) ?n (pl # ps)"
      using Cons.prems(5,6) False pl by (auto simp: saved_ok_def)
    then have "rcv_ok S r (s\<lparr>rlist := map saved_at (pl # ps)\<rparr>)"
      using Cons.prems by (simp only: rcv_ok_def) (simp, metis list.simps(9))
    with False se show ?thesis by simp
  next
    case True
    show ?thesis
    proof (cases "?n < p + l")
      case False
      then show ?thesis using Cons.IH [of s f] Cons.prems True se la by simp
    next
      case lt: True
      define k where "k = p + l - ?n"
      have k: "?n + k = p + l" "data_length (rbuf s) + k \<le> buffer_length (rbuf s)" "k < 2 ^ 30"
        using lt pb Cons.prems(2) dl by (auto simp: k_def)
      obtain b' where b': "pseudo_tcp_fifo_consume_write_buffer (rbuf s) k = Some b'" "fifo_ok b'"
          "fifo_ring b' = fifo_ring (rbuf s)" "buffer_length b' = buffer_length (rbuf s)"
          "data_length b' = data_length (rbuf s) + k"
        by (rule consume_write_ok [OF Cons.prems(1) k(2)])
      have adj: "rs_seq (saved_at pl) + rs_len (saved_at pl) - rcv_nxt s = word_of_nat k"
        unfolding e Cons.prems(3) by (simp flip: k(1))
      have uk: "unat (word_of_nat k :: u32) = k" using k(3) by (rule unat_of_nat_small [OF less_trans]) simp
      let ?s = "s\<lparr>rbuf := b', rcv_nxt := rcv_nxt s + word_of_nat k, rcv_wnd := rcv_wnd s - word_of_nat k\<rparr>"
      have n: "rcv_nxt ?s = word_of_nat (r + data_length (rbuf ?s))"
        by (simp add: Cons.prems(3) b'(5))
      have hs: "\<forall>x \<in> set ps. ring_has S r (rbuf ?s) (fst x) (snd x)"
        using Cons.prems(6) ring_has_cong [OF _ b'(4) b'(3)] by simp
      have "ring_has S r (rbuf s) r (p + l - r)"
        by (rule ring_has_extend [OF Cons.prems(4) h True]) (use lt in simp)
      moreover have "p + l - r = data_length b'" using k(1) b'(5) by simp
      ultimately have "ring_has S r (rbuf ?s) r (data_length (rbuf ?s))"
        using ring_has_cong [OF _ b'(4) b'(3)] by simp
      from Cons.IH [of ?s sfImmediateAck, OF _ _ n this _ hs] obtain s' f' where
        "recover_saved (map saved_at ps) ?s sfImmediateAck = Some (s', f') \<and> rcv_ok S r s'
          \<and> data_length b' \<le> data_length (rbuf s') \<and> buffer_length (rbuf s') = buffer_length b'"
        using b' Cons.prems(2,5) by auto
      then show ?thesis
        using True lt se la b' uk adj by simp
    qed
  qed
qed

section \<open>Cutting a segment to the window\<close>

text \<open>A position a segment may have: less than half the sequence space away.\<close>

definition near :: "nat \<Rightarrow> nat \<Rightarrow> bool" where
  "near p n \<longleftrightarrow> p < n + 2 ^ 31 \<and> n < p + 2 ^ 31"

lemma sg_len_unat: "length (sg_data g) < 2 ^ 16 \<Longrightarrow> unat (sg_len g) = length (sg_data g)"
  unfolding sg_len_def by (rule unat_of_nat_small) simp

lemma drop_map_upt: "drop k (map S [p..<p + l]) = map S [p + k..<p + l]"
  by (simp add: drop_map)

lemma take_map_upt: "k \<le> l \<Longrightarrow> take k (map S [p..<p + l]) = map S [p..<p + k]"
  by (simp add: take_map)

lemma cut_front_carries:
  assumes c: "carries S p g" and near: "near p n" and n: "rcv_nxt s = word_of_nat n"
  shows "sg_data (cut_front s g) = [] \<and> \<not> (p \<le> n \<and> n < p + length (sg_data g))
    \<or> (\<exists>q. carries S q (cut_front s g) \<and> near q n \<and> n \<le> q
        \<and> (p \<le> n \<and> n < p + length (sg_data g) \<longrightarrow> q = n \<and> sg_data (cut_front s g) \<noteq> []))"
proof -
  have nr: "p < n + 2 ^ 31" "n < p + 2 ^ 31" using near by (auto simp: near_def)
  have seq: "sg_seq g = word_of_nat p" using c by (simp add: carries_def)
  have sm: "SMALLER (sg_seq g) (rcv_nxt s) \<longleftrightarrow> p < n"
    unfolding seq n by (rule smaller_near [OF nr])
  show ?thesis
  proof (cases "p < n")
    case False
    then have "cut_front s g = g" by (simp add: cut_front_def sm)
    then show ?thesis using c near False by (intro disjI2 exI [of _ p]) auto
  next
    case True
    define k where "k = n - p"
    have k: "p + k = n" "k < 2 ^ 32" using True nr by (auto simp: k_def)
    have adj: "rcv_nxt s - sg_seq g = word_of_nat k" unfolding seq n by (simp flip: k(1))
    note uk = unat_of_nat_small [OF k(2)]
    have l: "length (sg_data g) < 2 ^ 16" using c by (simp add: carries_def)
    have less: "word_of_nat k < sg_len g \<longleftrightarrow> k < length (sg_data g)"
      by (simp add: word_less_nat_alt uk sg_len_unat [OF l])
    show ?thesis
    proof (cases "k < length (sg_data g)")
      case False
      then have "sg_data (cut_front s g) = []" by (simp add: cut_front_def sm True adj Let_def less)
      then show ?thesis using False k(1) by (intro disjI1) auto
    next
      case kl: True
      let ?g = "g\<lparr>sg_seq := sg_seq g + word_of_nat k, sg_data := drop k (sg_data g)\<rparr>"
      have "cut_front s g = ?g" using kl by (simp add: cut_front_def sm True adj Let_def less uk)
      moreover have "sg_data g = map S [p..<p + length (sg_data g)]" using c by (simp add: carries_def)
      then have "drop k (sg_data g) = map S [n..<n + (length (sg_data g) - k)]"
        using drop_map_upt [of k S p "length (sg_data g)"] k(1) kl by (metis add.commute add_diff_inverse_nat
            group_cancel.add1 less_imp_le_nat not_less)
      then have "carries S n ?g" using l k(1) seq by (auto simp: carries_def)
      ultimately show ?thesis using kl by (intro disjI2 exI [of _ n]) (simp add: near_def)
    qed
  qed
qed

lemma cut_back_carries:
  assumes c: "carries S q g" and near: "near q n" and q: "n \<le> q" and n: "rcv_nxt s = word_of_nat n"
    and A: "A = pseudo_tcp_fifo_get_write_remaining (rbuf s)" "A < 2 ^ 30"
  shows "(sg_data (cut_back s g) = []
      \<or> carries S q (cut_back s g) \<and> q + length (sg_data (cut_back s g)) \<le> n + A)
    \<and> (q = n \<and> sg_data g \<noteq> [] \<and> 0 < A \<longrightarrow> sg_data (cut_back s g) \<noteq> [])"
proof -
  define l where "l = length (sg_data g)"
  have l: "l < 2 ^ 16" "sg_data g = map S [q..<q + l]" "sg_seq g = word_of_nat q" "sg_len g = word_of_nat l"
    using c by (auto simp: carries_def l_def sg_len_def)
  have nr: "q < n + 2 ^ 31" using near by (simp add: near_def)
  define d where "d = q + l - n"
  have d: "n + d = q + l" "d < 2 ^ 32" "d - A < 2 ^ 32" using q nr l by (auto simp: d_def)
  have e: "sg_seq g + sg_len g - rcv_nxt s = word_of_nat d"
  proof -
    have "sg_seq g + sg_len g = word_of_nat (n + d)" by (simp add: l(3,4) d(1))
    then show ?thesis by (simp add: n)
  qed
  note ud = unat_of_nat_small [OF d(2)]
  show ?thesis
  proof (cases "d > A")
    case False
    then have "cut_back s g = g" by (simp add: cut_back_def Let_def e ud flip: A(1))
    then show ?thesis using c False d(1) l(1) by (simp flip: l_def)
  next
    case True
    have adj: "sg_seq g + sg_len g - rcv_nxt s - word_of_nat A = word_of_nat (d - A)"
      using True by (simp add: e)
    have less: "word_of_nat (d - A) < sg_len g \<longleftrightarrow> d - A < l"
      using unat_of_nat_small [OF d(3)] unat_of_nat_small [of l] l by (simp add: word_less_nat_alt)
    show ?thesis
    proof (cases "d - A < l")
      case False
      then have "\<not> sg_seq g + sg_len g - rcv_nxt s - word_of_nat A < sg_len g" unfolding adj less .
      moreover have "unat (sg_seq g + sg_len g - rcv_nxt s) > A" using True by (simp add: e ud)
      ultimately have "sg_data (cut_back s g) = []" by (simp add: cut_back_def Let_def flip: A(1))
      then show ?thesis using False True d(1) by auto
    next
      case dl: True
      have "sg_len g - word_of_nat (d - A) = word_of_nat (l - (d - A))" using dl by (simp add: l(4))
      moreover have "unat (word_of_nat (l - (d - A)) :: u32) = l - (d - A)"
        by (rule unat_of_nat_small) (use l(1) in simp)
      ultimately have t: "unat (sg_len g - (sg_seq g + sg_len g - rcv_nxt s - word_of_nat A)) = l - (d - A)"
        unfolding adj by simp
      have "(sg_seq g + sg_len g - rcv_nxt s - word_of_nat A < sg_len g) = True"
        unfolding adj less using dl by simp
      moreover have "(unat (sg_seq g + sg_len g - rcv_nxt s) > A) = True" using True by (simp add: e ud)
      ultimately have g: "cut_back s g = g\<lparr>sg_data := take (l - (d - A)) (sg_data g)\<rparr>"
        by (simp only: cut_back_def Let_def A(1) [symmetric] t if_True)
      have "take (l - (d - A)) (sg_data g) = map S [q..<q + (l - (d - A))]"
        using take_map_upt [of "l - (d - A)" l] by (simp add: l(2))
      moreover have "length (sg_data g) = l" by (simp add: l_def)
      moreover have "q + (l - (d - A)) \<le> n + A" using dl True d(1) by linarith
      moreover have "l - (d - A) < 2 ^ 16" "0 < l - (d - A)" using l(1) dl by linarith+
      ultimately show ?thesis using l(3) unfolding g carries_def by (auto simp: min_absorb2)
    qed
  qed
qed

lemma cut_empty: "sg_data g = [] \<Longrightarrow> sg_data (cut_back s g) = []"
  by (simp add: cut_back_def Let_def)

lemma cut_back_flags [simp]: "sg_flags (cut_back s g) = sg_flags g"
  by (simp add: cut_back_def Let_def)

section \<open>Storing the data\<close>

lemma insert_saved_sorted:
  assumes "sorted (map fst ps)" "\<forall>pl \<in> set ps. near (fst pl) q"
  shows "\<exists>ps'. insert_saved (saved_at (q, l)) (map saved_at ps) = map saved_at ps'
    \<and> sorted (map fst ps') \<and> set ps' = insert (q, l) (set ps)"
  using assms
proof (induction ps)
  case Nil
  show ?case by (intro exI [of _ "[(q, l)]"]) simp
next
  case (Cons d ds)
  then obtain ps' where ps': "insert_saved (saved_at (q, l)) (map saved_at ds) = map saved_at ps'"
    "sorted (map fst ps')" "set ps' = insert (q, l) (set ds)" by auto
  have nr: "fst d < q + 2 ^ 31" "q < fst d + 2 ^ 31" using Cons.prems(2) by (auto simp: near_def)
  have sm: "SMALLER (rs_seq (saved_at d)) (rs_seq (saved_at (q, l))) \<longleftrightarrow> fst d < q"
    using smaller_near [OF nr] by (simp add: saved_at_def)
  show ?case
  proof (cases "fst d < q")
    case True
    then show ?thesis using ps' sm Cons.prems(1) by (intro exI [of _ "d # ps'"]) auto
  next
    case False
    then show ?thesis using sm Cons.prems(1) by (intro exI [of _ "(q, l) # d # ds"]) auto
  qed
qed

definition takes_data :: "sock \<Rightarrow> Segment \<Rightarrow> bool" where
  "takes_data s g \<longleftrightarrow> \<not> has_tcp_flag g FLAG_CTL \<and> (support_fin_ack s \<or> shutdown s = SD_NONE)"

lemma process_data_ok:
  assumes ok: "rcv_ok S r s" and c: "carries S q g" and t: "takes_data s g"
    and q: "r + data_length (rbuf s) \<le> q" "q + length (sg_data g) \<le> r + buffer_length (rbuf s)"
    and ne: "sg_data g \<noteq> []"
  shows "\<exists>s' nd f'. process_data s g f = Some (s', nd, f') \<and> rcv_ok S r s'
    \<and> data_length (rbuf s) \<le> data_length (rbuf s')
    \<and> (q = r + data_length (rbuf s) \<longrightarrow> q + length (sg_data g) \<le> r + data_length (rbuf s'))"
proof -
  define b n l where "b = rbuf s" and "n = r + data_length b" and "l = length (sg_data g)"
  obtain ps where f: "fifo_ok b" "buffer_length b < 2 ^ 30" "rcv_nxt s = word_of_nat n"
      "ring_has S r b r (data_length b)" "rlist s = map saved_at ps" "saved_ok S r b n ps"
    using ok by (auto simp: rcv_ok_def b_def n_def)
  have g: "sg_seq g = word_of_nat q" "l < 2 ^ 16" "sg_data g = map S [q..<q + l]" "sg_len g = word_of_nat l" "0 < l"
    using c ne by (auto simp: carries_def l_def sg_len_def)
  have ul: "unat (sg_len g) = l" unfolding g(4) by (rule unat_of_nat_small) (use g(2) in simp)
  have pos: "sg_len g > 0" using ul g(5) by (simp add: word_less_nat_alt)
  have qb: "n \<le> q" "q + l \<le> r + buffer_length b" using q by (simp_all add: n_def b_def l_def)
  define off where "off = q - n"
  have "off < 2 ^ 32" using qb f(2) by (simp add: off_def n_def)
  then have off: "n + off = q" "unat (word_of_nat off :: u32) = off"
    using qb(1) by (simp add: off_def, intro unat_of_nat_small)
  have eo: "sg_seq g - rcv_nxt s = word_of_nat off" by (simp add: g(1) f(3) flip: off(1))
  obtain b1 where b1: "pseudo_tcp_fifo_write_offset b (sg_data g) off
      = Some (min (length (sg_data g)) (buffer_length b - data_length b - off), b1)"
    "fifo_ok b1" "data_length b1 = data_length b" "buffer_length b1 = buffer_length b"
    and ring: "\<And>i. i < buffer_length b \<Longrightarrow> fifo_ring b1 ! i =
      (if data_length b + off \<le> i \<and> i < data_length b + off + length (sg_data g)
       then sg_data g ! (i - (data_length b + off)) else fifo_ring b ! i)"
    by (rule fifo_write_offset_spec [OF f(1), of "sg_data g" off]) simp
  have w: "min (length (sg_data g)) (buffer_length b - data_length b - off) = l"
    using qb(2) off(1) by (simp add: n_def flip: l_def)
  have pq: "q - r = data_length b + off" "r \<le> q" using off(1) by (auto simp: n_def)
  have keep: "ring_has S r b1 p k" if "ring_has S r b p k" for p k
    by (rule ring_has_write [OF that b1(4) pq(2), where k = l]) (simp add: ring pq(1) g(3))
  have new: "ring_has S r b1 q l"
    unfolding ring_has_def
  proof (intro conjI allI impI)
    fix x assume "q \<le> x \<and> x < q + l"
    moreover from this have "x - r < buffer_length b" "x - r - (data_length b + off) = x - q"
        "data_length b + off \<le> x - r" "x - r < data_length b + off + l"
      using pq qb(2) by linarith+
    ultimately show "fifo_ring b1 ! (x - r) = S x" using ring [of "x - r"] by (simp add: g(3))
  qed (use pq qb b1(4) in simp_all)
  have ign: "\<not> (has_tcp_flag g FLAG_CTL \<or> \<not> support_fin_ack s \<and> shutdown s \<noteq> SD_NONE)"
    using t by (auto simp: takes_data_def)
  have data: "process_data s g f = (if sg_seq g = rcv_nxt s then do {
            fb \<leftarrow> pseudo_tcp_fifo_consume_write_buffer b1 l;
            (s, sflags) \<leftarrow> recover_saved (rlist s)
              (s\<lparr>rbuf := fb, rcv_nxt := rcv_nxt s + sg_len g, rcv_wnd := rcv_wnd s - sg_len g\<rparr>) f;
            Some (s, True, sflags)
          }
          else Some (s\<lparr>rbuf := b1,
                       rlist := insert_saved (saved_at (q, l)) (rlist s)\<rparr>,
                     False, f))" for f
  proof -
    have "pseudo_tcp_fifo_write_offset (rbuf s) (sg_data g) (unat (sg_seq g - rcv_nxt s)) = Some (l, b1)"
      using b1(1) w by (simp add: eo off(2) flip: b_def)
    note wo = this
    show ?thesis
      by (simp only: process_data_def Let_def pos ul ign wo if_True if_False Option.bind.bind_lunit
          prod.case c_assert_simps saved_at_def fst_conv snd_conv g(1) [symmetric] g(4) [symmetric] simp_thms)
  qed
  have sorted: "sorted (map fst ps)" "\<forall>pl \<in> set ps. n < fst pl \<and> ring_has S r b (fst pl) (snd pl)"
    using f(6) by (auto simp: saved_ok_def)
  show ?thesis
  proof (cases "q = n")
    case True
    then have eq: "sg_seq g = rcv_nxt s" by (simp add: g(1) f(3))
    have "data_length b1 + l \<le> buffer_length b1" using qb(2) True b1 by (simp add: n_def)
    from consume_write_ok [OF b1(2) this] obtain b2 where
      b2: "pseudo_tcp_fifo_consume_write_buffer b1 l = Some b2" "fifo_ok b2" "fifo_ring b2 = fifo_ring b1"
        "buffer_length b2 = buffer_length b1" "data_length b2 = data_length b1 + l" .
    let ?s = "s\<lparr>rbuf := b2, rcv_nxt := rcv_nxt s + sg_len g, rcv_wnd := rcv_wnd s - sg_len g\<rparr>"
    have "ring_has S r b1 r (q + l - r)"
      by (rule ring_has_extend [OF keep [OF f(4)] new]) (use True in \<open>simp_all add: n_def\<close>)
    then have "ring_has S r (rbuf ?s) r (data_length (rbuf ?s))"
      using True b2 b1(3) by (simp add: ring_has_def n_def)
    moreover have "\<forall>pl \<in> set ps. ring_has S r (rbuf ?s) (fst pl) (snd pl)"
      using sorted(2) keep ring_has_cong [OF _ b2(4) b2(3)] by simp
    moreover have "rcv_nxt ?s = word_of_nat (r + data_length (rbuf ?s))"
      using b2 b1(3) by (simp add: f(3) g(4) n_def)
    ultimately have "\<exists>s' f'. recover_saved (map saved_at ps) ?s f = Some (s', f') \<and> rcv_ok S r s'
      \<and> data_length (rbuf ?s) \<le> data_length (rbuf s') \<and> buffer_length (rbuf s') = buffer_length (rbuf ?s)"
      using b2 b1(4) f(2) sorted(1) by (intro recover_saved_ok) simp_all
    then obtain s' f' where "recover_saved (map saved_at ps) ?s f = Some (s', f')" "rcv_ok S r s'"
      "data_length b + l \<le> data_length (rbuf s')" using b2 b1(3) by auto
    then show ?thesis
      using b2 b1(3) unfolding data
      by (intro exI [of _ s'] exI [of _ True] exI [of _ f']) (simp add: eq f(5) flip: b_def l_def)
  next
    case False
    then have nl: "n < q" using qb(1) by simp
    have "near (fst pl) q" if "pl \<in> set ps" for pl
      using that sorted(2) qb f(2) by (fastforce simp: ring_has_def near_def n_def)
    from insert_saved_sorted [OF sorted(1), of q l] this obtain ps' where
      ps': "insert_saved (saved_at (q, l)) (map saved_at ps) = map saved_at ps'"
        "sorted (map fst ps')" "set ps' = insert (q, l) (set ps)" by blast
    have "word_of_nat off \<noteq> (0 :: u32)" using off nl by (metis add.right_neutral less_irrefl unsigned_0)
    then have ne: "sg_seq g \<noteq> rcv_nxt s" using eo by auto
    have "saved_ok S r b1 n ps'"
      using ps'(2,3) sorted(2) keep new nl by (auto simp: saved_ok_def)
    then have "rcv_ok S r (s\<lparr>rbuf := b1, rlist := insert_saved (saved_at (q, l)) (rlist s)\<rparr>)"
      using f b1 ps'(1) keep [OF f(4)] by (auto simp: rcv_ok_def n_def)
    then show ?thesis unfolding data using ne b1(3) nl
      by (intro exI [of _ "s\<lparr>rbuf := b1, rlist := insert_saved (saved_at (q, l)) (rlist s)\<rparr>"]
          exI [of _ False] exI [of _ f]) (simp add: n_def flip: b_def)
  qed
qed

lemma process_data_empty: "sg_data g = [] \<Longrightarrow> process_data s g f = Some (s, False, f)"
  by (simp add: process_data_def sg_len_def Let_def)

lemma takes_data_cut [simp]: "takes_data s (cut_back s (cut_front s g)) = takes_data s g"
  by (simp add: takes_data_def has_tcp_flag_def cut_front_def Let_def)

text \<open>A segment is cut and stored: the receive side stays in order whatever part of the stream it is, and
  grows when the segment reaches the next byte and there is room.\<close>

lemma receive_stored:
  assumes ok: "rcv_ok S r s" and c: "carries S p g" and t: "takes_data s g"
    and near: "near p (r + data_length (rbuf s))"
  shows "\<exists>s' nd f'. process_data s (cut_back s (cut_front s g)) f = Some (s', nd, f') \<and> rcv_ok S r s'
    \<and> data_length (rbuf s) \<le> data_length (rbuf s')
    \<and> (p \<le> r + data_length (rbuf s) \<and> r + data_length (rbuf s) < p + length (sg_data g)
        \<and> data_length (rbuf s) < buffer_length (rbuf s) \<longrightarrow> data_length (rbuf s) < data_length (rbuf s'))"
proof -
  define n where "n = r + data_length (rbuf s)"
  define A where "A = pseudo_tcp_fifo_get_write_remaining (rbuf s)"
  have f: "rcv_nxt s = word_of_nat n" "fifo_ok (rbuf s)" "buffer_length (rbuf s) < 2 ^ 30"
    using ok by (auto simp: rcv_ok_def n_def)
  have A: "A < 2 ^ 30" "n + A = r + buffer_length (rbuf s)" "0 < A \<longleftrightarrow> data_length (rbuf s) < buffer_length (rbuf s)"
    using f by (auto simp: A_def n_def pseudo_tcp_fifo_get_write_remaining_def fifo_ok_def)
  let ?g = "cut_back s (cut_front s g)" and ?reach = "p \<le> n \<and> n < p + length (sg_data g) \<and> 0 < A"
  have "sg_data ?g = [] \<and> \<not> ?reach \<or> (\<exists>q. n \<le> q \<and> carries S q ?g \<and> q + length (sg_data ?g) \<le> n + A
      \<and> sg_data ?g \<noteq> [] \<and> (?reach \<longrightarrow> q = n))"
    using cut_front_carries [OF c near [folded n_def] f(1)]
      cut_back_carries [OF _ _ _ f(1) A_def A(1)] cut_empty by metis
  then show ?thesis
  proof (elim disjE exE conjE)
    assume "sg_data ?g = []" "\<not> ?reach"
    then show ?thesis using ok A(3)
      by (intro exI [of _ s] exI [of _ False] exI [of _ f]) (simp add: process_data_empty n_def)
  next
    fix q assume q: "n \<le> q" "carries S q ?g" "q + length (sg_data ?g) \<le> n + A" "sg_data ?g \<noteq> []"
      "?reach \<longrightarrow> q = n"
    have "\<exists>s' nd f'. process_data s ?g f = Some (s', nd, f') \<and> rcv_ok S r s'
        \<and> data_length (rbuf s) \<le> data_length (rbuf s')
        \<and> (q = r + data_length (rbuf s) \<longrightarrow> q + length (sg_data ?g) \<le> r + data_length (rbuf s'))"
      by (rule process_data_ok [OF ok q(2)]) (use q t A in \<open>simp_all add: n_def\<close>)
    then obtain s' nd f' where s': "process_data s ?g f = Some (s', nd, f')" "rcv_ok S r s'"
      "data_length (rbuf s) \<le> data_length (rbuf s')"
      "q = r + data_length (rbuf s) \<longrightarrow> q + length (sg_data ?g) \<le> r + data_length (rbuf s')" by blast
    have "0 < length (sg_data ?g)" using q(4) by simp
    then have "?reach \<longrightarrow> data_length (rbuf s) < data_length (rbuf s')"
      using s'(4) q(5) unfolding n_def by linarith
    then show ?thesis using s'(1-3) A(3) unfolding n_def by blast
  qed
qed

text \<open>A segment without data may have any sequence number.\<close>

definition arrives :: "(nat \<Rightarrow> u8) \<Rightarrow> nat \<Rightarrow> nat \<Rightarrow> Segment \<Rightarrow> bool" where
  "arrives S p n g \<longleftrightarrow> sg_data g = [] \<or> carries S p g \<and> near p n"

lemma arrives_stored:
  assumes ok: "rcv_ok S r s" and c: "arrives S p (r + data_length (rbuf s)) g" and t: "takes_data s g"
  shows "\<exists>s' nd f'. process_data s (cut_back s (cut_front s g)) f = Some (s', nd, f') \<and> rcv_ok S r s'
    \<and> data_length (rbuf s) \<le> data_length (rbuf s')"
proof (cases "sg_data g = []")
  case True
  then have "sg_data (cut_back s (cut_front s g)) = []" by (simp add: cut_empty cut_front_def Let_def)
  then show ?thesis using ok by (auto simp: process_data_empty)
next
  case False
  then show ?thesis using receive_stored [OF ok _ t, of p f] c by (auto simp: arrives_def)
qed

section \<open>Reading\<close>

lemma ring_has_consume:
  assumes "ring_has S r b p l" "r + k \<le> p" "buffer_length b' = buffer_length b"
    and "\<And>i. k + i < buffer_length b \<Longrightarrow> fifo_ring b' ! i = fifo_ring b ! (k + i)"
  shows "ring_has S (r + k) b' p l"
  unfolding ring_has_def
proof (intro conjI allI impI)
  fix x assume x: "p \<le> x \<and> x < p + l"
  then have "k + (x - (r + k)) = x - r" "x - r < buffer_length b" using assms(1,2) by (auto simp: ring_has_def)
  then show "fifo_ring b' ! (x - (r + k)) = S x" using assms(4) [of "x - (r + k)"] assms(1) x
    by (simp add: ring_has_def)
qed (use assms in \<open>auto simp: ring_has_def\<close>)

lemma read_stream:
  assumes ok: "rcv_ok S r s" and rd: "pseudo_tcp_fifo_read (rbuf s) len = Some (out, fb)"
  shows "out = map S [r..<r + length out]" "rcv_ok S (r + length out) (s\<lparr>rbuf := fb\<rparr>)"
    "length out + data_length fb = data_length (rbuf s)"
proof -
  define b where "b = rbuf s"
  obtain ps where f: "fifo_ok b" "buffer_length b < 2 ^ 30" "rcv_nxt s = word_of_nat (r + data_length b)"
      "ring_has S r b r (data_length b)" "rlist s = map saved_at ps" "saved_ok S r b (r + data_length b) ps"
    using ok by (auto simp: rcv_ok_def b_def)
  have c: "fifo_contents b = map S [r..<r + data_length b]" using f(1,4) by (simp add: ring_has_contents)
  have out: "out = take len (fifo_contents b)"
    and fb: "fb = b\<lparr>read_position := (read_position b + length out) mod buffer_length b,
                    data_length := data_length b - length out\<rparr>"
    using rd by (auto simp: pseudo_tcp_fifo_read_def fifo_read_offset_spec [OF f(1)] simp flip: b_def)
  have k: "length out \<le> data_length b" using out f(1) by simp
  have "out = take (length out) (fifo_contents b)" unfolding out by (simp add: min_def)
  also have "\<dots> = map S [r..<r + length out]" unfolding c by (rule take_map_upt [OF k])
  finally show "out = map S [r..<r + length out]" .
  show "length out + data_length fb = data_length (rbuf s)" using k by (simp add: fb b_def)
  note ring = fifo_consume_ring [OF f(1) k, folded fb]
  have L: "buffer_length fb = buffer_length b" by (simp add: fb)
  have dl: "r + length out + data_length fb = r + data_length b" using k by (simp add: fb)
  have "ring_has S r b (r + length out) (data_length fb)"
    using f(4) dl by (auto simp: ring_has_def)
  then have h: "ring_has S (r + length out) fb (r + length out) (data_length fb)"
    by (rule ring_has_consume) (use L ring in simp_all)
  have "saved_ok S (r + length out) fb (r + length out + data_length fb) ps"
    using f(6) k unfolding saved_ok_def dl by (auto intro!: ring_has_consume [OF _ _ L ring(3)])
  then show "rcv_ok S (r + length out) (s\<lparr>rbuf := fb\<rparr>)"
    using f ring(1) L h dl [symmetric] unfolding rcv_ok_def by simp metis
qed

section \<open>The whole socket\<close>

lemma rcv_ok_view: "rcv_view s' = rcv_view s \<Longrightarrow> rcv_ok S r s' = rcv_ok S r s"
  by (simp add: rcv_ok_def rcv_view_def)

lemma rcv_ok_nxt: "rcv_ok S r s \<Longrightarrow> rcv_nxt s = word_of_nat (r + data_length (rbuf s))"
  by (simp add: rcv_ok_def)

lemma rcv_kept:
  assumes ok: "rcv_ok S r s" and fa: "support_fin_ack s" and v: "rcv_view s' = rcv_view s"
  shows "rcv_ok S r s' \<and> support_fin_ack s' \<and> rcv_fin s' = rcv_fin s
    \<and> data_length (rbuf s) \<le> data_length (rbuf s')"
proof -
  have "rcv_ok S r s'" using ok rcv_ok_view [OF v] by simp
  then show ?thesis using fa v by (simp add: rcv_view_def)
qed

lemma recover_saved_keeps:
  "recover_saved ds s f = Some (s', f') \<Longrightarrow> support_fin_ack s' = support_fin_ack s \<and> rcv_fin s' = rcv_fin s"
proof (induction ds arbitrary: s f)
  case (Cons d ds)
  from Cons.prems show ?case
    by (auto simp: Let_def bind_eq_Some_conv split: if_splits dest!: Cons.IH)
qed auto

lemma process_data_keeps:
  assumes "process_data s g f = Some (s', nd, f')"
  shows "support_fin_ack s' = support_fin_ack s" "rcv_fin s' = rcv_fin s"
  using assms recover_saved_keeps
  by (fastforce simp: process_data_def Let_def bind_eq_Some_conv split: if_splits)+

text \<open>When the socket takes a segment for the one with which all data before the FIN has been received: the position of
  the FIN, 0 before any has arrived, is the next sequence number plus the length of the segment, whatever the
  position of the segment.\<close>

definition takes_fin :: "sock \<Rightarrow> Segment \<Rightarrow> bool" where
  "takes_fin s g \<longleftrightarrow> rcv_nxt s \<noteq> 0 \<and> rcv_nxt s + sg_len g = (if has_tcp_flag g FLAG_FIN then sg_seq g else rcv_fin s)"

text \<open>What a segment does to the receiving side: the data is stored, and then \<open>fin\<close> tells whether one more sequence
  number is taken.\<close>

definition stores :: "(nat \<Rightarrow> u8) \<Rightarrow> nat \<Rightarrow> sock \<Rightarrow> Segment \<Rightarrow> bool \<Rightarrow> sock \<Rightarrow> bool" where
  "stores S r s g fin s' \<longleftrightarrow> (\<exists>t. rcv_ok S r t \<and> support_fin_ack t \<and> (\<not> has_tcp_flag g FLAG_FIN \<longrightarrow> rcv_fin t = rcv_fin s)
     \<and> data_length (rbuf s) \<le> data_length (rbuf t) \<and> (sg_data (cut_front s g) = [] \<longrightarrow> rbuf t = rbuf s)
     \<and> rcv_view s' = rcv_view (if fin then t\<lparr>rcv_nxt := rcv_nxt t + 1\<rparr> else t))"

lemma stores_kept:
  assumes "rcv_ok S r s" "support_fin_ack s" "rcv_view s' = rcv_view s"
  shows "stores S r s g False s'"
  using assms unfolding stores_def by (intro exI [of _ s]) simp

lemma stores_FalseD:
  assumes "stores S r s g False s'"
  shows "rcv_ok S r s' \<and> support_fin_ack s' \<and> data_length (rbuf s) \<le> data_length (rbuf s')"
    "\<not> has_tcp_flag g FLAG_FIN \<Longrightarrow> rcv_fin s' = rcv_fin s"
proof -
  obtain t where t: "rcv_ok S r t" "support_fin_ack t" "\<not> has_tcp_flag g FLAG_FIN \<longrightarrow> rcv_fin t = rcv_fin s"
    "data_length (rbuf s) \<le> data_length (rbuf t)" and v: "rcv_view s' = rcv_view t" using assms by (auto simp: stores_def)
  have "rcv_ok S r s'" using t(1) rcv_ok_view [OF v] by simp
  moreover have "rbuf s' = rbuf t" "support_fin_ack s' = support_fin_ack t" "rcv_fin s' = rcv_fin t"
    using v by (simp_all add: rcv_view_def)
  ultimately show "rcv_ok S r s' \<and> support_fin_ack s' \<and> data_length (rbuf s) \<le> data_length (rbuf s')"
    "\<not> has_tcp_flag g FLAG_FIN \<Longrightarrow> rcv_fin s' = rcv_fin s" using t by simp_all
qed

lemma process_receive_stream:
  assumes ok: "rcv_ok S r s" and fa: "support_fin_ack s" and c: "arrives S p (r + data_length (rbuf s)) g"
    and ctl: "\<not> has_tcp_flag g FLAG_CTL"
    and run: "process_receive wp s g fin now = Some (ret, s')"
  shows "stores S r s g fin s'"
proof -
  let ?f = "ack_flags s g fin" and ?g = "cut_back s (cut_front s g)"
  have "takes_data s g" using fa ctl by (simp add: takes_data_def)
  from arrives_stored [OF ok c this, of ?f] obtain t nd f1 where
    d: "process_data s ?g ?f = Some (t, nd, f1)" "rcv_ok S r t" "data_length (rbuf s) \<le> data_length (rbuf t)" by blast
  from run d(1) obtain s2 where s2: "attempt_send wp (if fin then t\<lparr>rcv_nxt := rcv_nxt t + 1\<rparr> else t) f1 now = Some s2"
      and s': "s' = (if nd \<and> bReadEnable s2 then log_event PseudoTcpReadable s2 else s2)"
    by (auto simp: process_receive_def Let_def bind_eq_Some_conv)
  have "rcv_view s' = rcv_view (if fin then t\<lparr>rcv_nxt := rcv_nxt t + 1\<rparr> else t)" using attempt_send_view [OF s2] s' by simp
  moreover have "t = s" if "sg_data (cut_front s g) = []"
    using d(1) process_data_empty [where s = s and f = ?f, OF cut_empty [OF that]] by simp
  ultimately show ?thesis using d(2,3) process_data_keeps [OF d(1)] fa unfolding stores_def by (intro exI [of _ t]) auto
qed

lemma process_fin_result:
  assumes "process_fin s g fa = Some x" "support_fin_ack s"
  obtains (refused) t where "x = Inl (False, t)" "rcv_view t = rcv_view (s\<lparr>rcv_fin := sg_seq g\<rparr>)" "has_tcp_flag g FLAG_FIN"
  | (taken) t where "x = Inr (takes_fin s g, t)"
      "rcv_view t = rcv_view (if has_tcp_flag g FLAG_FIN then s\<lparr>rcv_fin := sg_seq g\<rparr> else s)"
  using assms
  by (fastforce simp: process_fin_def takes_fin_def Let_def bind_eq_Some_conv split: if_splits dest!: fin_transition_view)

lemma stores_cong:
  assumes "rcv_view s = rcv_view (if has_tcp_flag g FLAG_FIN then s0\<lparr>rcv_fin := sg_seq g\<rparr> else s0)" "stores S r s g fin s'"
  shows "stores S r s0 g fin s'"
proof -
  have e: "rbuf s = rbuf s0" "rcv_nxt s = rcv_nxt s0" "\<not> has_tcp_flag g FLAG_FIN \<longrightarrow> rcv_fin s = rcv_fin s0"
    using assms(1) by (auto simp: rcv_view_def split: if_splits)
  have cf: "cut_front s g = cut_front s0 g" by (simp add: cut_front_def e(2))
  show ?thesis using assms(2) e(3) unfolding stores_def cf e(1) by metis
qed

lemma process_ack_refused:
  assumes "process_ack wp s g now = Some (Inl (b, t))"
  shows "\<not> b"
proof -
  have c: "\<not> b" if "ack_congestion wp s n now = Some (Inl (b, t))" for s n b t
    using that by (auto simp: ack_congestion_def Let_def bind_eq_Some_conv split: if_splits)
  have f: "\<not> b" if "fast_retransmit wp s now = Some (Inl (b, t))" for s b t
    using that by (auto simp: fast_retransmit_def Let_def bind_eq_Some_conv split: if_splits)
  have d: "\<not> b" if "process_dup_ack wp s g now = Some (Inl (b, t))" for s b t
    using that by (auto simp: process_dup_ack_def Let_def bind_eq_Some_conv split: if_splits dest: f)
  have n: "\<not> b" if "process_new_ack wp s g now = Some (Inl (b, t))" for s b t
    using that unfolding process_new_ack_def
    by (auto elim!: bind_SomeE split: sum.split_asm dest!: c simp del: split_paired_All)
  show ?thesis using assms unfolding process_ack_def
    by (auto elim!: bind_SomeE split: if_splits sum.split_asm dest!: d n)
qed

lemma process_stages_stream:
  assumes ok: "rcv_ok S r s" and fa: "support_fin_ack s" and c: "arrives S p (r + data_length (rbuf s)) g"
    and ctl: "\<not> has_tcp_flag g FLAG_CTL" and run: "process_stages wp s g bc now = Some (ret, s')"
  shows "\<exists>fin. stores S r s g fin s' \<and> (fin \<longrightarrow> takes_fin s g) \<and> (ret \<longrightarrow> fin = takes_fin s g)"
proof -
  obtain r1 where r1: "process_ack wp (process_timestamp s g) g now = Some r1"
    using run unfolding process_stages_def by (elim bind_SomeE)
  have v1: "rcv_view (flag_sock r1) = rcv_view s" using process_ack_view [OF r1] by simp
  show ?thesis
  proof (cases r1)
    case (Inl x)
    then have "s' = flag_sock r1" "\<not> ret" using run r1 process_ack_refused [of wp _ g now] by (auto simp: process_stages_def)
    then show ?thesis using v1 stores_kept [OF ok fa] by (intro exI [of _ False]) auto
  next
    case (Inr x)
    obtain fa' s2 where x: "x = (fa', s2)" by (cases x)
    from run obtain s3 r3 where
      s3: "(if state s2 = TCP_SYN_RECEIVED \<and> \<not> bc then set_state_established s2 else Some s2) = Some s3"
      and r3: "process_fin s3 g fa' = Some r3"
      and k3: "(case r3 of Inl x \<Rightarrow> Some x
          | Inr (received_fin, s) \<Rightarrow> process_receive wp (process_writable s) g received_fin now) = Some (ret, s')"
      unfolding process_stages_def r1 Option.bind.bind_lunit Inr sum.case x prod.case by (elim bind_SomeE)
    have v3: "rcv_view s3 = rcv_view s" using s3 v1 Inr x
      by (auto split: if_splits dest!: set_state_established_view)
    then have f3: "support_fin_ack s3" "takes_fin s3 g = takes_fin s g" using fa by (simp_all add: rcv_view_def takes_fin_def)
    let ?s = "if has_tcp_flag g FLAG_FIN then s\<lparr>rcv_fin := sg_seq g\<rparr> else s"
    from r3 f3(1) show ?thesis
    proof (cases rule: process_fin_result)
      case (refused t)
      then have "s' = t" "\<not> ret" using k3 by auto
      moreover have "rcv_view t = rcv_view ?s" using refused(2,3) v3 by (simp add: rcv_view_def)
      moreover have "rcv_ok S r ?s" "support_fin_ack ?s" using ok fa by (simp_all add: rcv_ok_def)
      ultimately show ?thesis
        using stores_cong [where s = ?s, OF refl] stores_kept [of S r ?s s' g] by (intro exI [of _ False]) auto
    next
      case (taken t)
      let ?t = "process_writable t"
      have "rcv_view t = rcv_view ?s" using taken(2) v3 by (simp add: rcv_view_def split: if_splits)
      then have vt: "rcv_view ?t = rcv_view ?s" by simp
      then have et: "rbuf ?t = rbuf s" "support_fin_ack ?t" "rcv_ok S r ?t"
        using ok fa rcv_ok_view [OF vt, of S r] by (auto simp: rcv_view_def rcv_ok_def split: if_splits)
      have "process_receive wp ?t g (takes_fin s g) now = Some (ret, s')" using k3 taken(1) f3(2) by simp
      from process_receive_stream [OF et(3,2) _ ctl this, of p] c et(1) have "stores S r ?t g (takes_fin s g) s'" by simp
      then show ?thesis using stores_cong [OF vt] by blast
    qed
  qed
qed

lemma process_stores:
  assumes ok: "rcv_ok S r s" and fa: "support_fin_ack s" and c: "arrives S p (r + data_length (rbuf s)) g"
    and ctl: "\<not> has_tcp_flag g FLAG_CTL" and run: "process wp s g now = Some (ret, s')"
  shows "\<exists>fin. stores S r s g fin s' \<and> (fin \<longrightarrow> takes_fin s g) \<and> (ret \<longrightarrow> fin = takes_fin s g)"
proof -
  let ?s = "s\<lparr>last_traffic := now, lastrecv := now, bOutgoing := False\<rparr>"
  let ?closed = "state s = TCP_CLOSED \<or> pseudo_tcp_state_has_received_fin_ack (state s) \<and> sg_len g > 0"
  have kept: ?thesis if "rcv_view s' = rcv_view s" "\<not> ret"
    using stores_kept [OF ok fa that(1)] that(2) by (intro exI [of _ False]) simp
  consider "sg_conv g \<noteq> conv s" | "sg_conv g = conv s" "?closed"
    | "sg_conv g = conv s" "?closed = False" "has_tcp_flag g FLAG_RST"
    | "sg_conv g = conv s" "?closed = False" "\<not> has_tcp_flag g FLAG_RST" by blast
  then show ?thesis
  proof cases
    case 1
    then show ?thesis using run by (intro kept) (simp_all add: process_def)
  next
    case 2
    then show ?thesis using run
      by (intro kept) (auto simp: process_def Let_def bind_eq_Some_conv split: if_splits dest!: closedown_view)
  next
    case 3
    then show ?thesis using run
      by (intro kept) (auto simp: process_def Let_def bind_eq_Some_conv dest!: closedown_view)
  next
    case 4
    have "process_control ?s g = Some (Inr (False, ?s))" using ctl by (simp add: process_control_def)
    then have "process_stages wp ?s g False now = Some (ret, s')" using 4 run
      by (cases "pseudo_tcp_state_has_received_fin_ack (state s)") (simp_all add: process_def Let_def)
    moreover have "stores S r ?s g fin s' \<longleftrightarrow> stores S r s g fin s'" "takes_fin ?s g \<longleftrightarrow> takes_fin s g" for fin
      by (simp_all add: stores_def takes_fin_def cut_front_def)
    ultimately show ?thesis
      using process_stages_stream [of S r ?s p g wp False now ret s'] assms rcv_ok_view [of ?s s S r] by simp
  qed
qed

lemma process_stream:
  assumes "rcv_ok S r s" "support_fin_ack s" "arrives S p (r + data_length (rbuf s)) g"
    and "\<not> has_tcp_flag g FLAG_CTL" "\<not> takes_fin s g" "process wp s g now = Some (ret, s')"
  shows "rcv_ok S r s' \<and> support_fin_ack s' \<and> data_length (rbuf s) \<le> data_length (rbuf s')"
    "\<not> has_tcp_flag g FLAG_FIN \<Longrightarrow> rcv_fin s' = rcv_fin s"
  using process_stores [OF assms(1-4,6)] assms(5) stores_FalseD [of S r s g s'] by auto

lemma recv_stream:
  assumes ok: "rcv_ok S r s" and fa: "support_fin_ack s"
    and run: "pseudo_tcp_socket_recv wp s len clock = Some (n, d, s')"
  shows "d = map S [r..<r + length d] \<and> rcv_ok S (r + length d) s' \<and> support_fin_ack s'
    \<and> rcv_fin s' = rcv_fin s \<and> length d + data_length (rbuf s') = data_length (rbuf s)"
proof (cases "shutdown_reads s \<or> len = 0")
  case True
  then have "d = [] \<and> s' = s"
    using run fa by (cases "shutdown_reads s") (simp_all add: pseudo_tcp_socket_recv_def)
  then show ?thesis using ok fa by simp
next
  case False
  obtain out fb where rd: "pseudo_tcp_fifo_read (rbuf s) len = Some (out, fb)"
    using run False fa by (cases "pseudo_tcp_fifo_read (rbuf s) len") (auto simp: pseudo_tcp_socket_recv_def)
  note st = read_stream [OF ok rd]
  have "d = out \<and> rcv_view s' = rcv_view (s\<lparr>rbuf := fb\<rparr>)"
    using run False fa rd
    by (auto simp: pseudo_tcp_socket_recv_def Let_def bind_eq_Some_conv split: if_splits dest!: attempt_send_view)
  then show ?thesis
    using st fa rcv_ok_view [of s' "s\<lparr>rbuf := fb\<rparr>" S "r + length out"] by (auto simp: rcv_view_def)
qed

text \<open>A socket in use: segments of the peer arrive in any order and any number of times, the application
  reads and sends, the clock runs, and the socket may be shut down or closed. Connect messages are left out, and
  the history ends with the segment that the socket takes for the end of the stream.\<close>

inductive receiving :: "(nat \<Rightarrow> u8) \<Rightarrow> nat \<Rightarrow> sock \<Rightarrow> bytes \<Rightarrow> bool" for S base where
  start: "fifo_ok (rbuf s) \<Longrightarrow> buffer_length (rbuf s) < 2 ^ 30 \<Longrightarrow> data_length (rbuf s) = 0 \<Longrightarrow>
    rcv_nxt s = word_of_nat base \<Longrightarrow> rlist s = [] \<Longrightarrow> support_fin_ack s \<Longrightarrow> receiving S base s []"
| segment: "receiving S base s out \<Longrightarrow> arrives S p (base + length out + data_length (rbuf s)) g \<Longrightarrow>
    \<not> has_tcp_flag g FLAG_CTL \<Longrightarrow> \<not> takes_fin s g \<Longrightarrow>
    process wp s g now = Some (ret, s') \<Longrightarrow> receiving S base s' out"
| recv: "receiving S base s out \<Longrightarrow> pseudo_tcp_socket_recv wp s len clock = Some (n, d, s') \<Longrightarrow>
    receiving S base s' (out @ d)"
| send: "receiving S base s out \<Longrightarrow> pseudo_tcp_socket_send wp s d clock = Some (n, s') \<Longrightarrow>
    receiving S base s' out"
| clock: "receiving S base s out \<Longrightarrow> pseudo_tcp_socket_notify_clock wp s clock = Some s' \<Longrightarrow>
    receiving S base s' out"
| shut: "receiving S base s out \<Longrightarrow> pseudo_tcp_socket_shutdown wp s how clock = Some s' \<Longrightarrow>
    receiving S base s' out"
| close: "receiving S base s out \<Longrightarrow> pseudo_tcp_socket_close wp s force clock = Some s' \<Longrightarrow>
    receiving S base s' out"

lemma receiving_inv:
  "receiving S base s out \<Longrightarrow>
     rcv_ok S (base + length out) s \<and> support_fin_ack s \<and> out = map S [base..<base + length out]"
proof (induction rule: receiving.induct)
  case (start s)
  then show ?case by (auto simp: rcv_ok_def ring_has_def saved_ok_def)
next
  case (segment s out p g wp now ret s')
  then show ?case using process_stream(1) [of S "base + length out" s p g wp now ret s'] by blast
next
  case (recv s out wp len clock n d s')
  then show ?case
    using recv_stream [of S "base + length out" s wp len clock n d s']
    by (metis (no_types, lifting) add.assoc length_append map_append le_add1 upt_add_eq_append)
next
  case (send s out wp d clock n s')
  then show ?case using rcv_kept [OF _ _ send_view] by blast
next
  case (clock s out wp clock s')
  then show ?case using rcv_kept [OF _ _ notify_clock_view] by blast
next
  case (shut s out wp how clock s')
  then show ?case using rcv_kept [OF _ _ shutdown_view] by blast
next
  case (close s out wp force clock s')
  then show ?case using rcv_kept [OF _ _ close_view] by blast
qed

lemma receiving_stream:
  assumes "receiving S base s out"
  shows "out @ fifo_contents (rbuf s) = map S [base..<base + length out + data_length (rbuf s)]
    \<and> rcv_nxt s = word_of_nat (base + length out + data_length (rbuf s))"
proof -
  note inv = receiving_inv [OF assms]
  then have "fifo_contents (rbuf s) = map S [base + length out..<base + length out + data_length (rbuf s)]"
    using ring_has_contents [of "rbuf s" S "base + length out"] by (auto simp: rcv_ok_def)
  then show ?thesis using inv rcv_ok_nxt [of S "base + length out" s]
    by (metis le_add1 map_append upt_add_eq_append)
qed

section \<open>Claims\<close>

text \<open>C7: Whatever order the peer's segments arrive in, however often they are repeated or overlap, and
  whatever is sent, read, retransmitted or closed in between, the bytes an application has read followed
  by the bytes buffered for it are exactly the peer's stream from its start, and the next expected
  sequence number is the position reached, modulo \<open>2 ^ 32\<close>. The history has no connect messages, and it goes up to
  the segment with which the socket takes the FIN of the peer for received (\<open>takes_fin\<close>); FIN segments that come
  before data are part of it. The exclusion is needed: the socket can be mistaken about the end of the stream, when
  an old segment is received again after an early FIN or, without any FIN, when the segment ends at a multiple of
  \<open>2 ^ 32\<close>.\<close>

theorem reader_gets_stream:
  assumes "receiving S base s out"
  shows "out @ fifo_contents (rbuf s) = map S [base..<base + length out + data_length (rbuf s)]
    \<and> rcv_nxt s = word_of_nat (base + length out + data_length (rbuf s))"
  by (rule receiving_stream [OF assms])

text \<open>An example: a stream of the numbers from 0 on, 5 bytes of it received before, and a peer whose
  packets all arrive.\<close>

definition example_socket :: sock where
  "example_socket = (pseudo_tcp_socket_new 1)\<lparr>state := TCP_ESTABLISHED, rcv_nxt := 5, rcv_wnd := 16,
     rbuf := empty_fifo 16, sbuf := empty_fifo 16\<rparr>"

lemma example_socket_code [code]:
  "example_socket =
     \<lparr>shutdown = SD_NONE, shutdown_reads = False, error = 0, state = TCP_ESTABLISHED, conv = 1,
      bReadEnable = True, bWriteEnable = False, bOutgoing = False, last_traffic = 0, rlist = [],
      rbuf_len = 61440, rcv_nxt = 5, rcv_wnd = 16, lastrecv = 0, rwnd_scale = 0, rbuf = empty_fifo 16,
      rcv_fin = 0, slist = [], unsent_slist = [], sbuf_len = 92160, snd_nxt = 0,
      snd_wnd = 1, lastsend = 0, snd_una = 0, swnd_scale = 0, sbuf = empty_fifo 16,
      mss = 180, msslevel = 0, largest = 0, mtu_advise = 1400, rto_base = 0, ts_recent = 0,
      ts_lastack = 0, rx_rttvar = 0, rx_srtt = 0, rx_rto = 1000, ssthresh = 61440, cwnd = 360,
      dup_acks = 0, recover = 0, fast_recovery = False, t_ack = 0, last_acked_ts = 0,
      use_nagling = True, ack_delay = 100, support_wnd_scale = True, current_time = 0,
      support_fin_ack = True, next_seg = 0, events = []\<rparr>"
  by (simp add: example_socket_def pseudo_tcp_socket_new_def pseudo_tcp_socket_init_def)

definition example_segment :: "u32 \<Rightarrow> u8 \<Rightarrow> bytes \<Rightarrow> Segment" where
  "example_segment seq flags data = \<lparr>sg_conv = 1, sg_seq = seq, sg_ack = 0, sg_flags = flags, sg_wnd = 100,
     sg_data = data, sg_tsval = 0, sg_tsecr = 0\<rparr>"

definition all_sent :: write_fun where
  "all_sent es b = WR_SUCCESS"

text \<open>What the simplifier evaluates a run with.\<close>

lemmas tcp_eval = process_def process_stages_def process_control_def process_timestamp_def
  process_ack_def process_dup_ack_def process_fin_def fin_transition_def process_writable_def
  process_receive_def ack_flags_def cut_front_def cut_back_def process_data_def has_tcp_flag_def
  sg_len_def attempt_send_def attempt_send_loop.simps attempt_send_round_def send_available_def usable_window_def ack_packet_def
  packet_def packet_data_def packet_write_def log_event_def scaled_window_def LARGER_def SMALLER_def
  LARGER_OR_EQUAL_def SMALLER_OR_EQUAL_def time_diff_def time_is_between_def to_gint32_def
  set_state_def valid_transition_def transitions_def pseudo_tcp_fifo_get_buffered_def
  pseudo_tcp_fifo_get_write_remaining_def pseudo_tcp_fifo_write_offset_def
  pseudo_tcp_fifo_consume_write_buffer_def pseudo_tcp_fifo_read_def pseudo_tcp_fifo_read_offset_def
  pseudo_tcp_socket_recv_def pseudo_tcp_fifo_init_def g_slice_alloc_def empty_fifo_def mem_read_def
  mem_write_def Let_def example_socket_code example_segment_def all_sent_def

lemma example_receiving: "receiving word_of_nat 5 example_socket []"
  by (rule receiving.start)
    (simp_all add: example_socket_code fifo_init_ok empty_fifo_def, simp_all add: pseudo_tcp_fifo_init_def)

theorem reader_gets_stream_witness:
  "\<exists>s. receiving word_of_nat 5 s [5, 6, 7]
     \<and> [5, 6, 7] @ fifo_contents (rbuf s) = map word_of_nat [5..<5 + 3 + data_length (rbuf s)]
     \<and> data_length (rbuf s) = 2"
proof -
  let ?g1 = "example_segment 8 0 [8, 9]" and ?g2 = "example_segment 3 0 [3, 4, 5, 6, 7]"
  have "\<exists>s1 s2 s3. process all_sent example_socket ?g1 1 = Some (True, s1)
      \<and> rcv_nxt s1 = 5 \<and> rcv_fin s1 = 0 \<and> data_length (rbuf s1) = 0
      \<and> process all_sent s1 ?g2 2 = Some (True, s2)
      \<and> pseudo_tcp_socket_recv all_sent s2 3 3 = Some (3, [5, 6, 7], s3) \<and> data_length (rbuf s3) = 2"
    by (simp add: tcp_eval)
  then obtain s1 s2 s3 where s: "process all_sent example_socket ?g1 1 = Some (True, s1)"
      "rcv_nxt s1 = 5" "rcv_fin s1 = 0" "data_length (rbuf s1) = 0"
      "process all_sent s1 ?g2 2 = Some (True, s2)"
      "pseudo_tcp_socket_recv all_sent s2 3 3 = Some (3, [5, 6, 7], s3)" "data_length (rbuf s3) = 2" by blast
  have "receiving word_of_nat 5 s1 []"
    by (rule receiving.segment [where p = 8, OF example_receiving _ _ _ s(1)])
      (simp_all add: example_segment_def arrives_def carries_def near_def has_tcp_flag_def takes_fin_def upt_rec sg_len_def example_socket_code
        empty_fifo_def pseudo_tcp_fifo_init_def)
  then have "receiving word_of_nat 5 s2 []"
    by (rule receiving.segment [where p = 3, OF _ _ _ _ s(5)])
      (simp_all add: example_segment_def arrives_def carries_def near_def has_tcp_flag_def takes_fin_def upt_rec sg_len_def s)
  then have r: "receiving word_of_nat 5 s3 ([] @ [5, 6, 7])" by (rule receiving.recv [OF _ s(6)])
  show ?thesis using reader_gets_stream [OF r] r s(7) by (intro exI [of _ s3]) simp
qed

text \<open>C12: storing a segment never fails and makes progress. In a socket in use, no assertion and no bound of
  the receive buffer is violated by a segment at any position within half the sequence space, and a
  segment that covers the next expected byte, while there is room, extends the bytes for the reader.\<close>

theorem receive_progress:
  assumes "receiving S base s out" "carries S p g" "\<not> has_tcp_flag g FLAG_CTL"
    and "near p (base + length out + data_length (rbuf s))"
  shows "\<exists>s' nd f'. process_data s (cut_back s (cut_front s g)) f = Some (s', nd, f')
    \<and> data_length (rbuf s) \<le> data_length (rbuf s')
    \<and> (p \<le> base + length out + data_length (rbuf s)
        \<and> base + length out + data_length (rbuf s) < p + length (sg_data g)
        \<and> data_length (rbuf s) < buffer_length (rbuf s) \<longrightarrow> data_length (rbuf s) < data_length (rbuf s'))"
proof -
  have inv: "rcv_ok S (base + length out) s" "takes_data s g"
    using receiving_inv [OF assms(1)] assms(3) by (auto simp: takes_data_def)
  show ?thesis using receive_stored [OF inv(1) assms(2) inv(2) assms(4), of f] by blast
qed

theorem receive_progress_witness:
  "\<exists>s' nd f'. process_data example_socket
       (cut_back example_socket (cut_front example_socket (example_segment 3 0 [3, 4, 5, 6, 7]))) sfNone
     = Some (s', nd, f') \<and> data_length (rbuf example_socket) < data_length (rbuf s')"
proof -
  let ?g = "example_segment 3 0 [3, 4, 5, 6, 7]"
  have e: "data_length (rbuf example_socket) = 0" "buffer_length (rbuf example_socket) = 16"
    by (simp_all add: example_socket_code empty_fifo_def pseudo_tcp_fifo_init_def)
  have c: "carries word_of_nat 3 ?g" "\<not> has_tcp_flag ?g FLAG_CTL" "length (sg_data ?g) = 5"
    by (simp_all add: example_segment_def carries_def has_tcp_flag_def upt_rec)
  show ?thesis using receive_progress [OF example_receiving c(1,2), of sfNone] e c(3) by (simp add: near_def)
qed

lemma cut_front_old:
  assumes "carries S p g" "near p n" "rcv_nxt s = word_of_nat n" "p + length (sg_data g) \<le> n"
  shows "sg_data (cut_front s g) = []"
proof (cases "sg_data g = []")
  case True
  then show ?thesis by (simp add: cut_front_def Let_def)
next
  case False
  then have pn: "p < n" using assms(4) by (cases "sg_data g") auto
  have nr: "p < n + 2 ^ 31" "n < p + 2 ^ 31" using assms(2) by (auto simp: near_def)
  have seq: "sg_seq g = word_of_nat p" "length (sg_data g) < 2 ^ 16" using assms(1) by (simp_all add: carries_def)
  have sm: "SMALLER (sg_seq g) (rcv_nxt s)" unfolding seq assms(3) using smaller_near [OF nr] pn by simp
  have "rcv_nxt s - sg_seq g = word_of_nat (n - p)" using pn by (simp add: seq(1) assms(3))
  moreover have "unat (word_of_nat (n - p) :: u32) = n - p" using nr by (intro unat_of_nat_small) simp
  ultimately have "\<not> rcv_nxt s - sg_seq g < sg_len g"
    using assms(4) by (simp add: word_less_nat_alt sg_len_unat [OF seq(2)])
  then show ?thesis using sm by (simp add: cut_front_def Let_def)
qed

text \<open>C19: What happens at the segment that the socket takes for the end of the stream, when it does not refuse it: the
  bytes for the reader are the stream up to a position \<open>m\<close>, and the socket goes on with the position \<open>m + 1\<close>, as if
  the FIN were at \<open>m\<close>. Nothing in the code makes sure that it is there, although the comment in it says that a FIN
  counts as received only after all segments before it. A segment that was received before, or one
  without data, leaves \<open>m\<close> at the position reached so far, which may be well before the FIN; the byte of the stream at
  this position is then lost: once the application has read the others, what it gets from then on is the stream
  from \<open>m + 1\<close> on.\<close>

theorem early_fin_loses_data:
  assumes "receiving S base s out" "arrives S p (base + length out + data_length (rbuf s)) g"
    and "\<not> has_tcp_flag g FLAG_CTL" "takes_fin s g" "process wp s g now = Some (True, s')"
  shows "\<exists>m. base + length out + data_length (rbuf s) \<le> m
    \<and> out @ fifo_contents (rbuf s') = map S [base..<m] \<and> rcv_nxt s' = word_of_nat (m + 1)
    \<and> (sg_data g = [] \<or> p + length (sg_data g) \<le> base + length out + data_length (rbuf s)
        \<longrightarrow> m = base + length out + data_length (rbuf s))
    \<and> (data_length (rbuf s') = 0 \<and> rlist s' = [] \<longrightarrow> receiving S (m + 1) s' [])"
proof -
  let ?r = "base + length out"
  have inv: "rcv_ok S ?r s" "support_fin_ack s" "out = map S [base..<?r]" using receiving_inv [OF assms(1)] by auto
  have "stores S ?r s g True s'"
    using process_stores [OF inv(1,2) assms(2,3,5)] assms(4) by auto
  then obtain t where t: "rcv_ok S ?r t" "support_fin_ack t" "data_length (rbuf s) \<le> data_length (rbuf t)"
    "sg_data (cut_front s g) = [] \<longrightarrow> rbuf t = rbuf s" and v: "rcv_view s' = rcv_view (t\<lparr>rcv_nxt := rcv_nxt t + 1\<rparr>)"
    by (auto simp: stores_def)
  let ?m = "?r + data_length (rbuf t)"
  have e: "rbuf s' = rbuf t" "rlist s' = rlist t" "support_fin_ack s'" "rcv_nxt s' = word_of_nat (?m + 1)"
    using v t(1,2) by (simp_all add: rcv_view_def rcv_ok_def)
  have "fifo_contents (rbuf t) = map S [?r..<?m]" using t(1) ring_has_contents by (auto simp: rcv_ok_def)
  then have "out @ fifo_contents (rbuf s') = map S [base..<?m]"
    using inv(3) e(1) by (metis le_add1 map_append upt_add_eq_append)
  moreover have "?m = ?r + data_length (rbuf s)" if "sg_data g = [] \<or> p + length (sg_data g) \<le> ?r + data_length (rbuf s)"
  proof -
    have "sg_data (cut_front s g) = []"
    proof (cases "sg_data g = []")
      case True
      then show ?thesis by (simp add: cut_front_def Let_def)
    next
      case False
      then show ?thesis using that assms(2) rcv_ok_nxt [OF inv(1)] by (intro cut_front_old) (auto simp: arrives_def)
    qed
    then show ?thesis using t(4) by simp
  qed
  moreover have "receiving S (?m + 1) s' []" if "data_length (rbuf s') = 0 \<and> rlist s' = []"
    by (rule receiving.start) (use that e t(1) in \<open>simp_all add: rcv_ok_def\<close>)
  ultimately show ?thesis using e(4) t(3) by (intro exI [of _ ?m]) auto
qed

text \<open>Bytes 0 to 4 have been received, the FIN at position 10 comes early, then bytes 0 to 4 come again and bytes 5 to 9
  follow. The application gets bytes 6 to 9, and no error.\<close>

theorem early_fin_loses_data_witness:
  "\<exists>s1 s2 s3 s4. process all_sent example_socket (example_segment 10 FLAG_FIN []) 1 = Some (True, s1)
     \<and> process all_sent s1 (example_segment 0 0 [0, 1, 2, 3, 4]) 2 = Some (True, s2) \<and> receiving word_of_nat 6 s2 []
     \<and> process all_sent s2 (example_segment 5 0 [5, 6, 7, 8, 9]) 3 = Some (True, s3)
     \<and> pseudo_tcp_socket_recv all_sent s3 100 4 = Some (4, [6, 7, 8, 9], s4) \<and> error s4 = 0"
proof -
  let ?f = "example_segment 10 FLAG_FIN []" and ?g = "example_segment 0 0 [0, 1, 2, 3, 4]"
  have "\<exists>s1 s2 s3 s4. process all_sent example_socket ?f 1 = Some (True, s1)
      \<and> process all_sent s1 ?g 2 = Some (True, s2)
      \<and> process all_sent s2 (example_segment 5 0 [5, 6, 7, 8, 9]) 3 = Some (True, s3)
      \<and> pseudo_tcp_socket_recv all_sent s3 100 4 = Some (4, [6, 7, 8, 9], s4) \<and> error s4 = 0
      \<and> rcv_nxt s1 = 5 \<and> rcv_fin s1 = 10 \<and> data_length (rbuf s1) = 0 \<and> data_length (rbuf s2) = 0 \<and> rlist s2 = []"
    by (simp add: tcp_eval)
  then obtain s1 s2 s3 s4 where s: "process all_sent example_socket ?f 1 = Some (True, s1)"
      "process all_sent s1 ?g 2 = Some (True, s2)"
      "process all_sent s2 (example_segment 5 0 [5, 6, 7, 8, 9]) 3 = Some (True, s3)"
      "pseudo_tcp_socket_recv all_sent s3 100 4 = Some (4, [6, 7, 8, 9], s4)" "error s4 = 0"
    and e: "rcv_nxt s1 = 5" "rcv_fin s1 = 10" "data_length (rbuf s1) = 0" "data_length (rbuf s2) = 0" "rlist s2 = []" by blast
  have r: "receiving word_of_nat 5 s1 []"
    by (rule receiving.segment [where p = 10, OF example_receiving _ _ _ s(1)])
      (simp_all add: example_segment_def arrives_def has_tcp_flag_def takes_fin_def sg_len_def example_socket_code)
  have "arrives word_of_nat 0 5 ?g" "takes_fin s1 ?g" "\<not> has_tcp_flag ?g FLAG_CTL" "length (sg_data ?g) = 5"
    by (simp_all add: example_segment_def arrives_def carries_def near_def has_tcp_flag_def takes_fin_def sg_len_def upt_rec e)
  then have "receiving word_of_nat 6 s2 []"
    using early_fin_loses_data [OF r _ _ _ s(2), of 0] e by (auto simp: Suc_eq_plus1 [symmetric])
  then show ?thesis using s by blast
qed

end
