(* ===== verification/PseudoTcp_Sender.thy ===== *)
theory PseudoTcp_Sender
  imports PseudoTcp_Stream
begin

text \<open>
  The sending side of a pseudo-TCP socket. \<open>snd_ok c T s\<close> says that the send buffer of \<open>s\<close> holds the end of
  the stream \<open>T\<close> of everything queued, that its start has the sequence number \<open>snd_una\<close>, and that every
  packet written so far carries the bytes of \<open>T\<close> at the position of its sequence number. Every
  operation keeps it, with the stream extended by what the operation queues.
\<close>

section \<open>The invariant\<close>

definition packet_carries :: "bytes \<Rightarrow> bytes \<Rightarrow> bool" where
  "packet_carries T b \<longleftrightarrow> HEADER_SIZE \<le> length b \<and> length b \<le> MAX_PACKET \<and> (drop HEADER_SIZE b = [] \<or>
     (\<exists>p. of_be32 (take 4 (drop 4 b)) = word_of_nat p \<and> p + length (drop HEADER_SIZE b) \<le> length T
        \<and> drop HEADER_SIZE b = take (length (drop HEADER_SIZE b)) (drop p T)))"

definition packets_ok :: "bytes \<Rightarrow> tcp_event list \<Rightarrow> bool" where
  "packets_ok T es \<longleftrightarrow> (\<forall>b. WritePacket b \<in> set es \<longrightarrow> packet_carries T b)"

text \<open>Once our FIN is acknowledged, \<open>snd_una\<close> is beyond the stream; nothing is queued any more then. The flag
  \<open>c\<close> says that the socket has left the state LISTEN, in which a connect message may still be queued.\<close>

definition snd_ok :: "bool \<Rightarrow> bytes \<Rightarrow> sock \<Rightarrow> bool" where
  "snd_ok c T s \<longleftrightarrow> fifo_ok (sbuf s) \<and> packets_ok T (events s) \<and> (c \<longrightarrow> state s \<noteq> TCP_LISTEN)
     \<and> (\<exists>u \<le> length T. fifo_contents (sbuf s) = drop u T
          \<and> (snd_una s = word_of_nat u \<or> u = length T \<and> pseudo_tcp_state_has_sent_fin (state s)))"

definition snd_keeps :: "sock \<Rightarrow> sock \<Rightarrow> bool" where
  "snd_keeps s s' \<longleftrightarrow> (\<forall>c T. snd_ok c T s \<longrightarrow> snd_ok c T s')"

named_theorems keeps "operations that keep the sending side"

lemma snd_keeps_refl [simp]: "snd_keeps s s"
  by (simp add: snd_keeps_def)

lemma snd_keeps_trans [trans]: "snd_keeps a b \<Longrightarrow> snd_keeps b c \<Longrightarrow> snd_keeps a c"
  by (simp add: snd_keeps_def)

lemma snd_ok_cong:
  assumes "sbuf s' = sbuf s" "snd_una s' = snd_una s" "state s' = state s" "events s' = events s"
  shows "snd_ok c T s' = snd_ok c T s"
  using assms by (simp add: snd_ok_def)

lemma snd_ok_updates [simp]:
  "snd_ok c T (s\<lparr>t_ack := a\<rparr>) = snd_ok c T s" "snd_ok c T (s\<lparr>rcv_fin := a\<rparr>) = snd_ok c T s"
  "snd_ok c T (s\<lparr>lastsend := a\<rparr>) = snd_ok c T s" "snd_ok c T (s\<lparr>last_traffic := a\<rparr>) = snd_ok c T s"
  "snd_ok c T (s\<lparr>bOutgoing := x\<rparr>) = snd_ok c T s" "snd_ok c T (s\<lparr>ts_lastack := a\<rparr>) = snd_ok c T s"
  "snd_ok c T (s\<lparr>msslevel := l\<rparr>) = snd_ok c T s" "snd_ok c T (s\<lparr>mss := a\<rparr>) = snd_ok c T s"
  "snd_ok c T (s\<lparr>cwnd := a\<rparr>) = snd_ok c T s" "snd_ok c T (s\<lparr>slist := sl\<rparr>) = snd_ok c T s"
  "snd_ok c T (s\<lparr>unsent_slist := ul\<rparr>) = snd_ok c T s" "snd_ok c T (s\<lparr>next_seg := l\<rparr>) = snd_ok c T s"
  "snd_ok c T (s\<lparr>snd_nxt := a\<rparr>) = snd_ok c T s" "snd_ok c T (s\<lparr>rto_base := a\<rparr>) = snd_ok c T s"
  "snd_ok c T (s\<lparr>shutdown := sd\<rparr>) = snd_ok c T s" "snd_ok c T (s\<lparr>rbuf := fb\<rparr>) = snd_ok c T s"
  "snd_ok c T (s\<lparr>ssthresh := a\<rparr>) = snd_ok c T s" "snd_ok c T (s\<lparr>dup_acks := d\<rparr>) = snd_ok c T s"
  "snd_ok c T (s\<lparr>fast_recovery := x\<rparr>) = snd_ok c T s" "snd_ok c T (s\<lparr>recover := a\<rparr>) = snd_ok c T s"
  "snd_ok c T (s\<lparr>snd_wnd := a\<rparr>) = snd_ok c T s" "snd_ok c T (s\<lparr>rcv_nxt := a\<rparr>) = snd_ok c T s"
  "snd_ok c T (s\<lparr>rx_srtt := a\<rparr>) = snd_ok c T s" "snd_ok c T (s\<lparr>rx_rttvar := a\<rparr>) = snd_ok c T s"
  "snd_ok c T (s\<lparr>rx_rto := a\<rparr>) = snd_ok c T s" "snd_ok c T (s\<lparr>last_acked_ts := a\<rparr>) = snd_ok c T s"
  "snd_ok c T (s\<lparr>largest := a\<rparr>) = snd_ok c T s" "snd_ok c T (s\<lparr>ts_recent := a\<rparr>) = snd_ok c T s"
  "snd_ok c T (s\<lparr>bWriteEnable := x\<rparr>) = snd_ok c T s" "snd_ok c T (s\<lparr>bReadEnable := x\<rparr>) = snd_ok c T s"
  "snd_ok c T (s\<lparr>lastrecv := a\<rparr>) = snd_ok c T s" "snd_ok c T (s\<lparr>error := e\<rparr>) = snd_ok c T s"
  "snd_ok c T (s\<lparr>rcv_wnd := a\<rparr>) = snd_ok c T s" "snd_ok c T (s\<lparr>shutdown_reads := x\<rparr>) = snd_ok c T s"
  "snd_ok c T (s\<lparr>rlist := rl\<rparr>) = snd_ok c T s" "snd_ok c T (s\<lparr>support_fin_ack := x\<rparr>) = snd_ok c T s"
  "snd_ok c T (s\<lparr>swnd_scale := y\<rparr>) = snd_ok c T s" "snd_ok c T (s\<lparr>rwnd_scale := y\<rparr>) = snd_ok c T s"
  "snd_ok c T (s\<lparr>rbuf_len := a\<rparr>) = snd_ok c T s" "snd_ok c T (s\<lparr>mtu_advise := a\<rparr>) = snd_ok c T s"
  "snd_ok c T (update_seg i f s) = snd_ok c T s"
  by (rule snd_ok_cong; simp add: update_seg_def)+

section \<open>Packets\<close>

lemma packets_ok_append [simp]:
  "packets_ok T (es @ [e]) \<longleftrightarrow> packets_ok T es \<and> (\<forall>b. e = WritePacket b \<longrightarrow> packet_carries T b)"
  by (auto simp: packets_ok_def)

lemma log_event_keeps: "\<forall>b. e \<noteq> WritePacket b \<Longrightarrow> snd_keeps s (log_event e s)"
  by (auto simp: snd_keeps_def snd_ok_def log_event_def)

lemma packet_carries_empty: "packet_carries T (packet_header s seq flags now)"
  by (simp add: packet_carries_def packet_header_def)

lemma packet_header_seq:
  "length (packet_header s seq flags now) = 24"
  "of_be32 (take 4 (drop 4 (packet_header s seq flags now @ d))) = seq"
  by (simp_all add: packet_header_def of_be32_be32)

lemma packet_data_carries:
  assumes ok: "snd_ok c T s" and d: "packet_data s (seq - snd_una s) len = Some d" and l: "unat len \<le> 65508"
  shows "packet_carries T (packet_header s' seq flags now @ d)"
proof (cases "d = []")
  case True
  then show ?thesis by (simp add: packet_carries_empty)
next
  case False
  let ?o = "unat (seq - snd_una s)"
  have ld: "length d = unat len" using d False by (auto simp: packet_data_def bind_eq_Some_conv split: if_splits)
  from ok obtain u where u: "u \<le> length T" "fifo_contents (sbuf s) = drop u T" "fifo_ok (sbuf s)"
      "snd_una s = word_of_nat u \<or> u = length T"
    by (auto simp: snd_ok_def)
  from d False have dd: "d = take (unat len) (drop ?o (drop u T))"
    using fifo_read_offset_spec [OF u(3)] u(2)
    by (auto simp: packet_data_def bind_eq_Some_conv split: if_splits)
  have lt: "u + ?o < length T"
  proof (rule ccontr)
    assume "\<not> u + ?o < length T"
    then have "drop ?o (drop u T) = []" by (simp only: drop_drop drop_eq_Nil)
    then show False using False dd by simp
  qed
  then have "snd_una s = word_of_nat u" using u(4) by auto
  then have "seq = word_of_nat (u + ?o)" by simp
  then show ?thesis
    unfolding packet_carries_def using dd packet_header_seq [of s' seq flags now] lt l ld
    by (intro conjI disjI2 exI [of _ "u + ?o"]) (simp_all add: add.commute)
qed

lemma packet_write_ok:
  assumes "snd_ok c T s" "packet_carries T b"
  shows "snd_ok c T (snd (packet_write wp s b len now))"
  using assms by (simp add: packet_write_def log_event_def Let_def) (simp add: snd_ok_def)

lemma packet_keeps:
  assumes "packet wp s seq flags (seq - snd_una s) len now = Some (r, s')"
  shows "snd_keeps s s'"
proof -
  from assms obtain d where l: "unat len \<le> 65508" and d: "packet_data s (seq - snd_una s) len = Some d"
    "(r, s') = packet_write wp (s\<lparr>ts_lastack := rcv_nxt s\<rparr>) (packet_header s seq flags now @ d) len now"
    by (auto simp: packet_Some)
  show ?thesis unfolding snd_keeps_def
  proof (intro allI impI)
    fix c T assume ok: "snd_ok c T s"
    then have "snd_ok c T (snd (r, s'))"
      unfolding d(2) by (intro packet_write_ok packet_data_carries [OF ok d(1) l]) simp
    then show "snd_ok c T s'" by simp
  qed
qed

lemma ack_packet_keeps [keeps]:
  assumes "ack_packet wp s seq now = Some s'"
  shows "snd_keeps s s'"
proof -
  have "packet_data s offset 0 = Some []" for offset by (simp add: packet_data_def)
  then have "s' = snd (packet_write wp (s\<lparr>ts_lastack := rcv_nxt s\<rparr>) (packet_header s seq 0 now) 0 now)"
    using assms by (simp add: ack_packet_def packet_def)
  then show ?thesis by (auto simp: snd_keeps_def intro!: packet_write_ok packet_carries_empty)
qed

section \<open>Transmitting and closing down\<close>

text \<open>No state is left for LISTEN or SYN-SENT except by connecting, so a socket that has sent a FIN keeps
  having sent it.\<close>

lemma set_state_keeps:
  assumes "set_state s st = Some s'" "st \<notin> {TCP_LISTEN, TCP_SYN_SENT}"
  shows "snd_keeps s s'"
proof (cases "st = state s")
  case True
  then show ?thesis using assms by (simp add: set_state_def)
next
  case False
  then have v: "valid_transition (state s) st" "s' = s\<lparr>state := st\<rparr>"
    using assms(1) by (auto simp: set_state_def bind_eq_Some_conv)
  have "pseudo_tcp_state_has_sent_fin (state s) \<Longrightarrow> pseudo_tcp_state_has_sent_fin st"
    using v(1) assms(2) by (auto simp: valid_transition_def transitions_def)
  then show ?thesis using assms(2) by (auto simp: snd_keeps_def snd_ok_def v(2))
qed

lemma set_state_closed_keeps [keeps]: "set_state_closed s e = Some s' \<Longrightarrow> snd_keeps s s'"
  unfolding set_state_closed_def
  by (elim bind_SomeE) (auto dest!: set_state_keeps intro: snd_keeps_trans log_event_keeps split: if_splits)

lemma adjustMTU_keeps: "snd_keeps s (adjustMTU s)"
  by (simp add: snd_keeps_def adjustMTU_def Let_def)

lemma set_state_established_keeps [keeps]: "set_state_established s = Some s' \<Longrightarrow> snd_keeps s s'"
  unfolding set_state_established_def
  by (elim bind_SomeE)
    (auto dest!: set_state_keeps intro!: snd_keeps_trans [OF _ log_event_keeps] snd_keeps_trans [OF _ adjustMTU_keeps])

lemma closedown_states_keeps [keeps]:
  assumes "closedown_states s e = Some s'"
  shows "snd_keeps s s'"
proof -
  have st: "snd_keeps s s'" if "(if p then set_state s st else Some s) = Some s'" "st \<notin> {TCP_LISTEN, TCP_SYN_SENT}" for p s s' st
    using that by (auto split: if_splits dest: set_state_keeps)
  from assms show ?thesis
    unfolding closedown_states_def Let_def
    by (elim bind_SomeE) (drule st, simp, drule st, simp, drule st, simp, drule st, simp, drule set_state_closed_keeps,
      blast intro: snd_keeps_trans)
qed

lemma reduce_mss_keeps [keeps]: "reduce_mss s n = Some (e, n', s') \<Longrightarrow> snd_keeps s s'"
proof (induction s n rule: reduce_mss.induct)
  case (1 s n)
  from "1.prems" obtain m where m: "packet_maximum (msslevel s + 1) = Some m"
    by (subst (asm) reduce_mss.simps) (auto split: option.splits)
  let ?s = "s\<lparr>msslevel := msslevel s + 1, mss := m - PACKET_OVERHEAD, cwnd := 2 * (m - PACKET_OVERHEAD)\<rparr>"
  have k: "snd_keeps s ?s" by (simp add: snd_keeps_def)
  show ?case
    using "1.prems" [unfolded reduce_mss.simps [of s n]] "1.IH" [OF m _ refl] m k
    by (auto simp: Let_def split: if_splits intro: snd_keeps_trans)
qed

lemma transmit_loop_keeps [keeps]:
  "transmit_loop wp s seq flags n now = Some (e, n', s') \<Longrightarrow> snd_keeps s s'"
proof (induction wp s seq flags n now rule: transmit_loop.induct)
  case (1 wp s seq flags n now)
  from "1.prems" obtain wres s1 where
    c: "unat (seq - snd_una s) \<le> 1024 * 1024 * 64" and
    p: "packet wp s seq flags (seq - snd_una s) n now = Some (wres, s1)"
    by (subst (asm) transmit_loop.simps) (auto split: if_splits option.splits)
  note v = packet_keeps [OF p]
  show ?case
  proof (cases wres)
    case WR_TOO_LARGE
    then obtain err n2 s2 where r: "reduce_mss s1 n = Some (err, n2, s2)"
      using "1.prems" c p by (subst (asm) transmit_loop.simps) (auto split: option.splits)
    show ?thesis
      using "1.prems" "1.IH" [OF c p refl WR_TOO_LARGE r refl refl] c p r WR_TOO_LARGE
        snd_keeps_trans [OF v reduce_mss_keeps [OF r]]
      by (auto simp: transmit_loop.simps [of wp s] split: if_splits intro: snd_keeps_trans)
  qed (use "1.prems" c p v in \<open>subst (asm) transmit_loop.simps, simp\<close>)+
qed

lemma transmit_split_keeps [keeps]: "transmit_split s seg n = Some s' \<Longrightarrow> snd_keeps s s'"
  by (auto simp: transmit_split_def Let_def bind_eq_Some_conv snd_keeps_def split: if_splits)

lemma transmit_mark_keeps [keeps]: "transmit_mark s seg n = Some s' \<Longrightarrow> snd_keeps s s'"
  by (auto simp: transmit_mark_def Let_def bind_eq_Some_conv snd_keeps_def split: if_splits)

lemma transmit_keeps [keeps]:
  assumes "transmit wp s i now = Some (e, s')"
  shows "snd_keeps s s'"
  using assms
proof (cases rule: transmit_cases)
  case (sent seg n s1 s2 s3)
  have "snd_keeps s3 s'" using sent(6) by (auto simp: snd_keeps_def)
  with sent(3-5) show ?thesis
    by (blast intro: snd_keeps_trans transmit_loop_keeps transmit_split_keeps transmit_mark_keeps)
qed (auto intro: transmit_loop_keeps)

lemma split_unsent_keeps [keeps]: "split_unsent s i n = Some s' \<Longrightarrow> snd_keeps s s'"
  by (auto simp: split_unsent_def bind_eq_Some_conv Let_def snd_keeps_def)

lemma attempt_send_round_keeps:
  "attempt_send_round wp s f now = Some (Inr q) \<Longrightarrow> snd_keeps s (fst q)"
  "attempt_send_round wp s f now = Some (Inl s') \<Longrightarrow> snd_keeps s s'"
proof -
  have ta: "snd_keeps s (s\<lparr>t_ack := now\<rparr>)" by (simp add: snd_keeps_def)
  show "attempt_send_round wp s f now = Some (Inr q) \<Longrightarrow> snd_keeps s (fst q)"
    "attempt_send_round wp s f now = Some (Inl s') \<Longrightarrow> snd_keeps s s'"
    by (auto simp: attempt_send_round_def Let_def bind_eq_Some_conv ta split: if_splits list.splits dest!: keeps
        intro: snd_keeps_trans)
qed

lemma attempt_send_loop_keeps [keeps]: "attempt_send_loop wp s f now = Some s' \<Longrightarrow> snd_keeps s s'"
  by (rule attempt_send_loop_rule [where I = "snd_keeps s"])
    (auto dest: attempt_send_round_keeps intro: snd_keeps_trans)

lemma attempt_send_keeps [keeps]: "attempt_send wp s f now = Some s' \<Longrightarrow> snd_keeps s s'"
  unfolding attempt_send_def Let_def
  by (drule attempt_send_loop_keeps) (auto simp: snd_keeps_def split: if_splits)

section \<open>Queueing\<close>

lemma packet_carries_mono: "packet_carries T b \<Longrightarrow> packet_carries (T @ x) b"
  by (auto simp: packet_carries_def)

lemma packets_ok_mono: "packets_ok T es \<Longrightarrow> packets_ok (T @ x) es"
  by (auto simp: packets_ok_def packet_carries_mono)

lemma new_segment_simps [simp]:
  "sbuf (new_segment n f s) = sbuf s" "snd_una (new_segment n f s) = snd_una s"
  "state (new_segment n f s) = state s" "events (new_segment n f s) = events s"
  by (simp_all add: new_segment_def)

text \<open>What \<^verbatim>\<open>queue\<close> does to the send buffer; the segment it adds or extends does not matter here.\<close>

lemma queue_buffer:
  assumes "queue s data f = Some (n, s')" "fifo_ok (sbuf s)"
  shows "n = min (length data) (buffer_length (sbuf s) - data_length (sbuf s))"
    "fifo_ok (sbuf s')" "fifo_contents (sbuf s') = fifo_contents (sbuf s) @ take n data"
    "snd_una s' = snd_una s" "state s' = state s" "events s' = events s"
proof -
  let ?room = "buffer_length (sbuf s) - data_length (sbuf s)"
  obtain d where d2: "(if length data > ?room then do { c_assert (f = FLAG_NONE); Some (take ?room data) }
      else Some data) = Some d"
    using assms(1) unfolding queue_def pseudo_tcp_fifo_get_write_remaining_def Let_def by (elim bind_SomeE)
  then have "d = take ?room data" by (auto simp: bind_eq_Some_conv split: if_splits)
  note d = this d2
  let ?s = "if slist s \<noteq> [] \<and> ss_flags (last (slist s)) = f \<and> ss_xmit (last (slist s)) = 0
     then s\<lparr>slist := butlast (slist s) @ [(last (slist s))\<lparr>ss_len := ss_len (last (slist s)) + word_of_nat (length d)\<rparr>]\<rparr>
     else new_segment (word_of_nat (length d)) f s"
  have same: "sbuf ?s = sbuf s" "snd_una ?s = snd_una s" "state ?s = state s" "events ?s = events s" by auto
  have k: "min (length d) ?room = length d" using d(1) by simp
  obtain b' where bb: "pseudo_tcp_fifo_write (sbuf s) d = Some (min (length d) ?room, b')" "fifo_ok b'"
    "fifo_contents b' = fifo_contents (sbuf s) @ take (min (length d) ?room) d"
    by (rule fifo_write_spec [OF assms(2)])
  have b': "pseudo_tcp_fifo_write (sbuf s) d = Some (length d, b')" "fifo_ok b'"
    "fifo_contents b' = fifo_contents (sbuf s) @ d"
    using bb unfolding k by simp_all
  have "Some (n, s') = Some (length d, ?s\<lparr>sbuf := b'\<rparr>)"
    using assms(1) d(2) b'(1) same(1) unfolding queue_def pseudo_tcp_fifo_get_write_remaining_def Let_def
    by (simp only: Option.bind.bind_lunit prod.case)
  then have r: "n = length d" "s' = ?s\<lparr>sbuf := b'\<rparr>" by simp_all
  show "n = min (length data) ?room" using r d(1) by simp
  then have "take n data = d" using d(1) by (simp add: min_def)
  then show "fifo_contents (sbuf s') = fifo_contents (sbuf s) @ take n data" using r b'(3) by simp
  show "fifo_ok (sbuf s')" using r b'(2) by simp
  show "snd_una s' = snd_una s" "state s' = state s" "events s' = events s" unfolding r using same by simp_all
qed

lemma queue_extends:
  assumes q: "queue s data f = Some (n, s')" and ok: "snd_ok c T s"
    and st: "\<not> pseudo_tcp_state_has_sent_fin (state s) \<or> data = []"
  shows "snd_ok c (T @ take n data) s'"
proof -
  from ok obtain u where u: "fifo_ok (sbuf s)" "u \<le> length T" "fifo_contents (sbuf s) = drop u T"
      "snd_una s = word_of_nat u \<or> u = length T \<and> pseudo_tcp_state_has_sent_fin (state s)"
    by (auto simp: snd_ok_def)
  note b = queue_buffer [OF q u(1)]
  have "fifo_contents (sbuf s') = drop u (T @ take n data)" using b(3) u(2,3) by simp
  moreover have "snd_una s = word_of_nat u \<or> u = length (T @ take n data) \<and> pseudo_tcp_state_has_sent_fin (state s)"
    using u(4) st by auto
  ultimately show ?thesis
    using ok b u(2) packets_ok_mono [of T "events s" "take n data"]
    by (auto simp: snd_ok_def intro!: exI [of _ u])
qed

lemma queue_empty_keeps: "queue s [] f = Some (n, s') \<Longrightarrow> snd_keeps s s'"
  using queue_extends [of s "[]" f n s'] by (auto simp: snd_keeps_def)

lemma queue_fin_keeps [keeps]: "queue_fin_message s = Some s' \<Longrightarrow> snd_keeps s s'"
  by (auto simp: queue_fin_message_def bind_eq_Some_conv dest: queue_empty_keeps)

lemma queue_rst_keeps [keeps]: "queue_rst_message s = Some s' \<Longrightarrow> snd_keeps s s'"
  by (auto simp: queue_rst_message_def bind_eq_Some_conv dest: queue_empty_keeps)

lemma queue_connect_extends:
  assumes "queue_connect_message s = Some s'" "snd_ok c T s" "\<not> pseudo_tcp_state_has_sent_fin (state s)"
  shows "\<exists>x. snd_ok c (T @ x) s' \<and> length x \<le> 7"
proof -
  define b where "b = [CTL_CONNECT] @ (if support_wnd_scale s then [TCP_OPT_WND_SCALE, 1, rwnd_scale s] else [])
       @ (if support_fin_ack s then [TCP_OPT_FIN_ACK, 1, 0] else [])"
  obtain n where "queue (s\<lparr>snd_wnd := word_of_nat (length b)\<rparr>) b FLAG_CTL = Some (n, s')"
    using assms(1) unfolding queue_connect_message_def Let_def b_def [symmetric] by (elim bind_SomeE) auto
  from queue_extends [OF this, of c T] assms(2,3) have "snd_ok c (T @ take n b) s'" by simp
  moreover have "length b \<le> 7" by (simp add: b_def)
  ultimately show ?thesis by (intro exI [of _ "take n b"]) simp
qed

lemma closedown_keeps [keeps]: "closedown wp s e src now = Some s' \<Longrightarrow> snd_keeps s s'"
  unfolding closedown_def
  by (elim bind_SomeE)
    (auto simp: snd_keeps_def split: if_split_asm elim!: bind_SomeE
      dest!: closedown_states_keeps [unfolded snd_keeps_def] queue_rst_keeps [unfolded snd_keeps_def]
        attempt_send_keeps [unfolded snd_keeps_def])

section \<open>Acknowledgements\<close>

lemma ack_release_keeps [keeps]:
  assumes run: "ack_release s g now = Some (fin, n, s')"
  shows "snd_keeps s s'"
  unfolding snd_keeps_def
proof (intro allI impI)
  fix c T assume ok: "snd_ok c T s"
  let ?k = "sg_ack g - snd_una s"
  define f where "f = (unat ?k = data_length (sbuf s) + 1 \<and> pseudo_tcp_state_has_sent_fin (state s))"
  define m where "m = (if f then ?k - 1 else ?k)"
  obtain wnd fb sl lg where r: "pseudo_tcp_fifo_consume_read_data (sbuf s) (unat m) = Some fb"
    "s' = s\<lparr>snd_wnd := wnd, snd_una := sg_ack g, rto_base := (if sg_ack g = snd_nxt s then 0 else now),
             sbuf := fb, slist := sl, largest := lg\<rparr>"
    using run by (auto simp: ack_release_def Let_def bind_eq_Some_conv f_def m_def)
  from ok obtain u where u: "fifo_ok (sbuf s)" "u \<le> length T" "fifo_contents (sbuf s) = drop u T"
      "snd_una s = word_of_nat u \<or> u = length T \<and> pseudo_tcp_state_has_sent_fin (state s)"
    by (auto simp: snd_ok_def)
  have dl: "data_length (sbuf s) = length T - u" using length_fifo_contents [OF u(1)] u(3) by simp
  have le: "unat m \<le> data_length (sbuf s)"
    using r(1) by (auto simp: pseudo_tcp_fifo_consume_read_data_def bind_eq_Some_conv)
  obtain b' where b': "pseudo_tcp_fifo_consume_read_data (sbuf s) (unat m) = Some b'" "fifo_ok b'"
    "fifo_contents b' = drop (unat m) (fifo_contents (sbuf s))"
    by (rule fifo_consume_read_spec [OF u(1) le])
  have fb: "fifo_ok fb" "fifo_contents fb = drop (u + unat m) T"
    using b' r(1) u(3) by (simp_all add: add.commute)
  have le': "u + unat m \<le> length T" using le dl u(2) by simp
  have "sg_ack g = word_of_nat (u + unat m) \<or> u + unat m = length T \<and> pseudo_tcp_state_has_sent_fin (state s)"
  proof (cases f)
    case True
    then have "unat ?k = length T - u + 1" "pseudo_tcp_state_has_sent_fin (state s)" by (simp_all add: f_def dl)
    moreover have "unat m = unat ?k - 1"
    proof -
      have "?k \<noteq> 0" using calculation(1) by auto
      then show ?thesis using True by (simp add: m_def unat_minus_one)
    qed
    ultimately show ?thesis using u(2) by simp
  next
    case False
    then have m: "m = ?k" by (simp add: m_def)
    from u(4) show ?thesis
    proof
      assume "snd_una s = word_of_nat u"
      then show ?thesis by (simp add: m)
    qed (use le' in auto)
  qed
  then show "snd_ok c T s'"
    using ok fb le' by (auto simp: r(2) snd_ok_def)
qed

lemma process_timestamp_keeps: "snd_keeps s (process_timestamp s g)"
  by (simp add: process_timestamp_def snd_keeps_def)

lemma process_rtt_keeps: "process_rtt s g now = Inl s' \<or> process_rtt s g now = Inr s' \<Longrightarrow> snd_keeps s s'"
  by (auto simp: process_rtt_def snd_keeps_def Let_def split: if_splits)

lemma process_writable_keeps: "snd_keeps s (process_writable s)"
proof -
  have "snd_keeps s (s\<lparr>bWriteEnable := False\<rparr>)" by (simp add: snd_keeps_def)
  then show ?thesis
    using snd_keeps_trans [OF _ log_event_keeps [of PseudoTcpWritable]] by (simp add: process_writable_def Let_def)
qed

lemma ack_congestion_keeps [keeps]:
  assumes "ack_congestion wp s n now = Some r"
  shows "snd_keeps s (stage_sock r)"
proof -
  have cw: "snd_keeps s (s\<lparr>cwnd := a, fast_recovery := x, dup_acks := d\<rparr>)" "snd_keeps s (s\<lparr>dup_acks := d, cwnd := a\<rparr>)"
    "snd_keeps s s1 \<Longrightarrow> snd_keeps s (s1\<lparr>cwnd := a\<rparr>)" for a x d s1 by (simp_all add: snd_keeps_def)
  from assms show ?thesis
    unfolding ack_congestion_def Let_def
    by (auto simp: bind_eq_Some_conv cw split: if_split_asm dest!: transmit_keeps closedown_keeps
      intro: snd_keeps_trans)
qed

lemma fast_retransmit_keeps [keeps]:
  assumes "fast_retransmit wp s now = Some r"
  shows "snd_keeps s (stage_sock r)"
proof -
  have cw: "snd_keeps s s1 \<Longrightarrow> snd_keeps s (s1\<lparr>recover := a, ssthresh := b, cwnd := d, fast_recovery := x\<rparr>)" for a b d x s1
    by (simp add: snd_keeps_def)
  from assms show ?thesis
    unfolding fast_retransmit_def Let_def
    by (auto simp: bind_eq_Some_conv cw split: if_split_asm dest!: transmit_keeps closedown_keeps
      intro: snd_keeps_trans)
qed

lemma process_dup_ack_keeps [keeps]:
  assumes "process_dup_ack wp s g now = Some r"
  shows "snd_keeps s (stage_sock r)"
proof -
  have k: "snd_keeps s (s\<lparr>snd_wnd := a\<rparr>)" "snd_keeps s (s\<lparr>snd_wnd := a, dup_acks := d\<rparr>)"
    "snd_keeps s (s\<lparr>snd_wnd := a, dup_acks := d, cwnd := x\<rparr>)" for a d x by (simp_all add: snd_keeps_def)
  from assms show ?thesis
    unfolding process_dup_ack_def Let_def
    by (elim bind_SomeE)
      (auto simp only: option.inject stage_sock.simps k split: if_split_asm
        dest!: fast_retransmit_keeps intro: snd_keeps_trans [OF k(2)])
qed

lemma process_new_ack_keeps [keeps]:
  assumes "process_new_ack wp s g now = Some r"
  shows "snd_keeps s (flag_sock r)"
proof (cases "process_rtt s g now")
  case (Inl s1)
  then show ?thesis using assms process_rtt_keeps [of s g now s1] by (auto simp: process_new_ack_def)
next
  case (Inr s1)
  then obtain fin n s2 r2 where a: "ack_release s1 g now = Some (fin, n, s2)" "ack_congestion wp s2 n now = Some r2"
    "r = (case r2 of Inl x \<Rightarrow> Inl x | Inr s \<Rightarrow> Inr (fin, s))"
    using assms by (auto simp: process_new_ack_def bind_eq_Some_conv)
  have "snd_keeps s s1" using process_rtt_keeps Inr by blast
  also have "snd_keeps s1 s2" by (rule ack_release_keeps [OF a(1)])
  also have "snd_keeps s2 (stage_sock r2)" by (rule ack_congestion_keeps [OF a(2)])
  finally show ?thesis by (simp add: a(3))
qed

lemma process_ack_keeps [keeps]:
  "process_ack wp s g now = Some r \<Longrightarrow> snd_keeps s (flag_sock r)"
  by (auto simp: process_ack_def bind_eq_Some_conv split: if_splits dest!: process_new_ack_keeps process_dup_ack_keeps)

lemma fin_transition_keeps [keeps]: "fin_transition s a b = Some s' \<Longrightarrow> snd_keeps s s'"
  by (auto simp: fin_transition_def split: if_splits dest: set_state_keeps set_state_closed_keeps)

lemma process_fin_keeps [keeps]: "process_fin s g b = Some r \<Longrightarrow> snd_keeps s (flag_sock r)"
proof -
  assume r: "process_fin s g b = Some r"
  have k: "snd_keeps s (s\<lparr>rcv_fin := a\<rparr>)" for a by (simp add: snd_keeps_def)
  from r show ?thesis
    unfolding process_fin_def Let_def
    by (auto simp: bind_eq_Some_conv k split: if_split_asm dest!: fin_transition_keeps intro: snd_keeps_trans [OF k])
qed

section \<open>Data and options\<close>

lemma recover_saved_snd_keeps [keeps]: "recover_saved ds s f = Some (s', f') \<Longrightarrow> snd_keeps s s'"
proof (induction ds s f rule: recover_saved.induct)
  case (2 d ds s f)
  from 2 show ?case by (auto simp: Let_def bind_eq_Some_conv snd_keeps_def split: if_splits)
qed (auto simp: snd_keeps_def)

lemma process_data_snd_keeps [keeps]: "process_data s g f = Some (s', nd, f') \<Longrightarrow> snd_keeps s s'"
proof -
  assume r: "process_data s g f = Some (s', nd, f')"
  have k: "snd_keeps (s\<lparr>rbuf := fb, rcv_nxt := a, rcv_wnd := b\<rparr>) s' \<Longrightarrow> snd_keeps s s'"
    "snd_keeps s (s\<lparr>rbuf := fb, rlist := l\<rparr>)" "snd_keeps s (s\<lparr>rcv_nxt := a\<rparr>)" for fb a b l
    by (simp_all add: snd_keeps_def)
  from r show ?thesis
    unfolding process_data_def Let_def
    by (auto simp: bind_eq_Some_conv k split: if_split_asm dest!: recover_saved_snd_keeps)
qed

lemma process_receive_keeps [keeps]:
  assumes "process_receive wp s g fin now = Some (ret, s')"
  shows "snd_keeps s s'"
proof -
  let ?g = "cut_back s (cut_front s g)"
  obtain s1 nd f where d: "process_data s ?g (ack_flags s g fin) = Some (s1, nd, f)"
    using assms unfolding process_receive_def Let_def
    by (cases "process_data s ?g (ack_flags s g fin)") auto
  let ?s1 = "if fin then s1\<lparr>rcv_nxt := rcv_nxt s1 + 1\<rparr> else s1"
  obtain s2 where a: "attempt_send wp ?s1 f now = Some s2"
    using assms d unfolding process_receive_def Let_def by (cases "attempt_send wp ?s1 f now") auto
  have "snd_keeps s s1" by (rule process_data_snd_keeps [OF d])
  also have "snd_keeps s1 ?s1" by (simp add: snd_keeps_def)
  also have "snd_keeps ?s1 s2" by (rule attempt_send_keeps [OF a])
  also have "snd_keeps s2 s'" using assms d a log_event_keeps [of PseudoTcpReadable s2]
    unfolding process_receive_def Let_def by auto
  finally show ?thesis .
qed

lemma process_stages_keeps [keeps]:
  assumes "process_stages wp s g bc now = Some (ret, s')"
  shows "snd_keeps s s'"
proof -
  obtain r where r: "process_ack wp (process_timestamp s g) g now = Some r"
    using assms unfolding process_stages_def by (elim bind_SomeE)
  have k: "snd_keeps s (flag_sock r)"
    by (rule snd_keeps_trans [OF process_timestamp_keeps process_ack_keeps [OF r]])
  show ?thesis
  proof (cases r)
    case (Inl x)
    then show ?thesis using assms r k by (cases x) (simp add: process_stages_def)
  next
    case (Inr x)
    obtain fa s1 where x: "x = (fa, s1)" by (cases x)
    let ?e = "if state s1 = TCP_SYN_RECEIVED \<and> \<not> bc then set_state_established s1 else Some s1"
    obtain s2 where s2: "?e = Some s2"
      using assms r Inr x by (cases ?e) (auto simp: process_stages_def)
    obtain r2 where r2: "process_fin s2 g fa = Some r2"
      using assms r Inr x s2 by (cases "process_fin s2 g fa") (auto simp: process_stages_def)
    have "snd_keeps s s1" using k Inr x by simp
    also have "snd_keeps s1 s2" using s2 by (auto split: if_splits dest: set_state_established_keeps)
    also have "snd_keeps s2 (flag_sock r2)" by (rule process_fin_keeps [OF r2])
    also have "snd_keeps (flag_sock r2) s'"
    proof (cases r2)
      case (Inl y)
      then show ?thesis using assms r Inr x s2 r2 by (cases y) (simp add: process_stages_def)
    next
      case Inr2: (Inr y)
      obtain fin s3 where y: "y = (fin, s3)" by (cases y)
      have "process_receive wp (process_writable s3) g fin now = Some (ret, s')"
        using assms r Inr x s2 r2 Inr2 y by (simp add: process_stages_def)
      then show ?thesis
        using snd_keeps_trans [OF process_writable_keeps process_receive_keeps] by (simp add: Inr2 y)
    qed
    finally show ?thesis .
  qed
qed

lemma resize_receive_keeps [keeps]: "resize_receive_buffer s n = Some s' \<Longrightarrow> snd_keeps s s'"
  by (auto simp: resize_receive_buffer_def Let_def bind_eq_Some_conv snd_keeps_def split: if_splits prod.splits)

lemma apply_option_keeps: "snd_keeps s (apply_option s kind d)"
  by (simp add: apply_option_def snd_keeps_def)

lemma apply_option_state: "state (apply_option s kind d) = state s"
  by (simp add: apply_option_def)

fun opt_sock :: "sock + (sock \<times> bool \<times> bool) \<Rightarrow> sock" where
  "opt_sock (Inl s) = s"
| "opt_sock (Inr (s, w, f)) = s"

lemma parse_options_loop_keeps:
  "parse_options_loop s data w f = r \<Longrightarrow> snd_keeps s (opt_sock r) \<and> state (opt_sock r) = state s"
proof (induction s data w f rule: parse_options_loop.induct)
  case (1 s data w f)
  note run = "1.prems" [unfolded parse_options_loop.simps [of s data w f]]
  show ?case
  proof (cases data)
    case Nil
    then show ?thesis using run by auto
  next
    case (Cons k rest)
    show ?thesis
    proof (cases "k = TCP_OPT_EOL \<or> k = TCP_OPT_NOOP \<or> rest = []")
      case True
      then show ?thesis using "1.IH"(1) [OF Cons] Cons run by (auto split: if_splits)
    next
      case False
      then obtain l r' where rest: "rest = l # r'" by (cases rest) auto
      show ?thesis
      proof (cases "length r' < unat l")
        case True
        then show ?thesis using False Cons rest run by auto
      next
        case F: False
        from "1.IH"(2) [OF Cons _ _ rest F] False F Cons rest run show ?thesis
          by (auto simp: apply_option_state intro: snd_keeps_trans [OF apply_option_keeps])
      qed
    qed
  qed
qed

lemma parse_options_keeps [keeps]:
  assumes "parse_options s data = Some s'"
  shows "snd_keeps s s' \<and> state s' = state s"
proof (cases "parse_options_loop s data False False")
  case (Inl a)
  then show ?thesis using assms parse_options_loop_keeps [OF Inl] by (simp add: parse_options_def)
next
  case (Inr x)
  obtain s1 w f where x: "x = (s1, w, f)" by (cases x)
  have k: "snd_keeps s s1" "state s1 = state s"
    using parse_options_loop_keeps [OF Inr] x by simp_all
  have rs: "state s3 = state s2" if "resize_receive_buffer s2 n = Some s3" for s2 s3 n
    using that by (auto simp: resize_receive_buffer_def Let_def bind_eq_Some_conv split: if_splits prod.splits)
  obtain s2 where s2: "(if \<not> w \<and> rwnd_scale s1 > 0 then do {
                  s \<leftarrow> resize_receive_buffer s1 DEFAULT_RCV_BUF_SIZE;
                  Some (s\<lparr>swnd_scale := 0\<rparr>)
                }
                else Some s1) = Some s2" "s' = (if \<not> f then s2\<lparr>support_fin_ack := False\<rparr> else s2)"
    using assms unfolding parse_options_def Inr x sum.case prod.case by (elim bind_SomeE) simp
  have z: "snd_keeps s (s\<lparr>swnd_scale := 0\<rparr>)" for s by (simp add: snd_keeps_def)
  have "snd_keeps s1 s2 \<and> state s2 = state s1"
    using s2(1) by (auto split: if_split_asm elim!: bind_SomeE simp: rs
        intro: snd_keeps_trans [OF resize_receive_keeps z])
  moreover have "snd_keeps s2 s' \<and> state s' = state s2" using s2(2) by (auto simp: snd_keeps_def)
  ultimately show ?thesis using k snd_keeps_trans by metis
qed

text \<open>Of the operations on received packets only a connect message in the state LISTEN queues something.\<close>

definition snd_grows :: "sock \<Rightarrow> sock \<Rightarrow> bool" where
  "snd_grows s s' \<longleftrightarrow> (\<forall>c T. snd_ok c T s \<longrightarrow>
     (\<exists>x. snd_ok c (T @ x) s' \<and> (c \<longrightarrow> x = []) \<and> length x \<le> 7 \<and> (x \<noteq> [] \<longrightarrow> snd_ok True (T @ x) s')))"

lemma snd_keeps_grows: "snd_keeps s s' \<Longrightarrow> snd_grows s s'"
  unfolding snd_keeps_def snd_grows_def by (intro allI impI exI [of _ "[]"]) simp

lemma snd_grows_keeps: "snd_grows s s1 \<Longrightarrow> snd_keeps s1 s2 \<Longrightarrow> snd_grows s s2"
  unfolding snd_keeps_def snd_grows_def by blast

lemma snd_keeps_then_grows: "snd_keeps s s1 \<Longrightarrow> snd_grows s1 s2 \<Longrightarrow> snd_grows s s2"
  unfolding snd_keeps_def snd_grows_def by blast

lemma listen_connect_grows:
  assumes "set_state s st = Some s1" "st \<notin> {TCP_LISTEN, TCP_SYN_SENT} \<or> st = TCP_SYN_SENT" "queue_connect_message s1 = Some s2"
    and l: "state s = TCP_LISTEN" and nf: "\<not> pseudo_tcp_state_has_sent_fin st"
  shows "snd_grows s s2"
  unfolding snd_grows_def
proof (intro allI impI)
  fix c T assume ok: "snd_ok c T s"
  then have nc: "\<not> c" using l by (simp add: snd_ok_def)
  have s1: "s1 = s\<lparr>state := st\<rparr>"
    using assms(1,2) l by (auto simp: set_state_def bind_eq_Some_conv split: if_splits)
  have "snd_ok True T s1" using ok l assms(2) by (auto simp: s1 snd_ok_def)
  then obtain x where "snd_ok True (T @ x) s2" "length x \<le> 7"
    using queue_connect_extends [OF assms(3), of True T] nf by (auto simp: s1)
  then show "\<exists>x. snd_ok c (T @ x) s2 \<and> (c \<longrightarrow> x = []) \<and> length x \<le> 7 \<and> (x \<noteq> [] \<longrightarrow> snd_ok True (T @ x) s2)"
    using nc by (intro exI [of _ x]) (simp add: snd_ok_def)
qed

lemma process_control_grows:
  assumes "process_control s g = Some r"
  shows "snd_grows s (flag_sock r)"
proof (cases "\<exists>options. has_tcp_flag g FLAG_CTL \<and> sg_data g = CTL_CONNECT # options")
  case False
  then have "flag_sock r = s"
    using assms by (cases "sg_data g") (auto simp: process_control_def split: if_splits)
  then show ?thesis by (simp add: snd_keeps_grows)
next
  case True
  then obtain options where o: "has_tcp_flag g FLAG_CTL" "sg_data g = CTL_CONNECT # options" by blast
  then obtain s1 where s1: "parse_options s options = Some s1"
    using assms by (cases "parse_options s options") (auto simp: process_control_def)
  note k = parse_options_keeps [OF s1]
  have "snd_grows s1 (flag_sock r)"
  proof (cases "state s1 = TCP_LISTEN")
    case True
    then obtain s2 s3 where "set_state s1 TCP_SYN_RECEIVED = Some s2" "queue_connect_message s2 = Some s3" "r = Inr (True, s3)"
      using assms o s1 by (auto simp: process_control_def bind_eq_Some_conv)
    then show ?thesis using listen_connect_grows [of s1 TCP_SYN_RECEIVED s2 s3] True by simp
  next
    case False
    then show ?thesis using assms o s1
      by (auto simp: process_control_def bind_eq_Some_conv snd_keeps_grows split: if_splits dest: set_state_established_keeps)
  qed
  then show ?thesis using snd_keeps_then_grows k by blast
qed

lemma process_grows:
  assumes "process wp s g now = Some (ret, s')"
  shows "snd_grows s s'"
proof (cases "sg_conv g \<noteq> conv s")
  case True
  then show ?thesis using assms by (simp add: process_def snd_keeps_grows)
next
  case conv: False
  let ?s = "s\<lparr>last_traffic := now, lastrecv := now, bOutgoing := False\<rparr>"
  have k: "snd_keeps s ?s" by (simp add: snd_keeps_def)
  have "snd_grows ?s s'"
  proof (cases "state s = TCP_CLOSED \<or> pseudo_tcp_state_has_received_fin_ack (state s) \<and> sg_len g > 0 \<or> has_tcp_flag g FLAG_RST")
    case True
    then have "s' = ?s \<or> (\<exists>e src. closedown wp ?s e src now = Some s')"
      using assms conv by (auto simp: process_def Let_def bind_eq_Some_conv split: if_splits)
    then show ?thesis by (auto intro!: snd_keeps_grows dest: closedown_keeps)
  next
    case False
    then have run: "(process_control ?s g \<bind> (\<lambda>r. case r of Inl x \<Rightarrow> Some x
        | Inr (bc, s) \<Rightarrow> process_stages wp s g bc now)) = Some (ret, s')"
      using assms conv by (auto simp: process_def split: if_splits)
    then obtain r where r: "process_control ?s g = Some r" by (elim bind_SomeE)
    note g = process_control_grows [OF r]
    show ?thesis
    proof (cases r rule: flag_sock.cases)
      case (1 x s1)
      then show ?thesis using run r g by simp
    next
      case (2 x s1)
      then show ?thesis using run r g by (auto intro: snd_grows_keeps process_stages_keeps)
    qed
  qed
  then show ?thesis using snd_keeps_then_grows [OF k] by blast
qed

section \<open>The public operations\<close>

lemma clock_fin_keeps [keeps]: "clock_fin wp s now = Some s' \<Longrightarrow> snd_keeps s s'"
  unfolding clock_fin_def
  by (elim bind_SomeE)
    (auto split: if_split_asm elim!: bind_SomeE dest!: set_state_closed_keeps queue_fin_keeps attempt_send_keeps
      intro: snd_keeps_trans)

lemma clock_retransmit_keeps [keeps]:
  assumes "clock_retransmit wp s now = Some (r, s')"
  shows "snd_keeps s s'"
proof (cases "rto_base s \<noteq> 0 \<and> time_diff (rto_base s + rx_rto s) now \<le> 0")
  case False
  then show ?thesis using assms by (simp add: clock_retransmit_def if_not_P)
next
  case True
  then obtain i e s1 where t: "head_seg s = Some i" "transmit wp s i now = Some (e, s1)"
    using assms by (auto simp: clock_retransmit_def bind_eq_Some_conv)
  note k = transmit_keeps [OF t(2)]
  show ?thesis
  proof (cases "e = 0")
    case False
    then have "closedown wp s1 e CLOSEDOWN_LOCAL now = Some s'"
      using assms True t by (auto simp: clock_retransmit_def bind_eq_Some_conv)
    then show ?thesis using snd_keeps_trans [OF k closedown_keeps] by blast
  next
    case True2: True
    have "snd_ok c T s' = snd_ok c T s1" for c T
      using assms True t True2 unfolding clock_retransmit_def Let_def
      by (auto simp: if_P split: if_split_asm)
    then show ?thesis using k by (simp add: snd_keeps_def)
  qed
qed

lemma clock_probe_keeps [keeps]: "clock_probe wp s now = Some (r, s') \<Longrightarrow> snd_keeps s s'"
proof -
  have k: "snd_keeps a b \<Longrightarrow> snd_keeps a (b\<lparr>lastsend := x, rx_rto := y\<rparr>)" for a b x y by (simp add: snd_keeps_def)
  assume "clock_probe wp s now = Some (r, s')"
  then show ?thesis
    by (auto simp: clock_probe_def bind_eq_Some_conv split: if_splits dest!: closedown_keeps ack_packet_keeps intro: k)
qed

lemma clock_delayed_ack_keeps [keeps]: "clock_delayed_ack wp s now = Some s' \<Longrightarrow> snd_keeps s s'"
  by (auto simp: clock_delayed_ack_def split: if_splits dest: ack_packet_keeps)

lemma notify_clock_keeps [keeps]:
  assumes "pseudo_tcp_socket_notify_clock wp s clock = Some s'"
  shows "snd_keeps s s'"
proof (cases "state s = TCP_CLOSED")
  case True
  then show ?thesis using assms by (simp add: pseudo_tcp_socket_notify_clock_def)
next
  case False
  let ?now = "get_current_time s clock"
  obtain s1 r2 s2 where s1: "clock_fin wp s ?now = Some s1" and s2: "clock_retransmit wp s1 ?now = Some (r2, s2)"
    using False assms by (auto simp: pseudo_tcp_socket_notify_clock_def Let_def bind_eq_Some_conv)
  note k = snd_keeps_trans [OF clock_fin_keeps [OF s1] clock_retransmit_keeps [OF s2]]
  show ?thesis
  proof (cases r2)
    case True
    then show ?thesis using assms False s1 s2 k by (simp add: pseudo_tcp_socket_notify_clock_def Let_def)
  next
    case r2: False
    with False assms s1 s2 obtain r3 s3 where s3: "clock_probe wp s2 ?now = Some (r3, s3)"
      by (auto simp: pseudo_tcp_socket_notify_clock_def Let_def bind_eq_Some_conv)
    have "s' = s3 \<or> clock_delayed_ack wp s3 ?now = Some s'"
      using assms False s1 s2 r2 s3 by (cases r3) (simp_all add: pseudo_tcp_socket_notify_clock_def Let_def)
    then show ?thesis
      using snd_keeps_trans [OF k clock_probe_keeps [OF s3]] clock_delayed_ack_keeps snd_keeps_trans by blast
  qed
qed

lemma get_next_clock_keeps [keeps]:
  "pseudo_tcp_socket_get_next_clock wp s t clock = Some (r, t', s') \<Longrightarrow> snd_keeps s s'"
  unfolding pseudo_tcp_socket_get_next_clock_def Let_def
  by (simp only: split: if_split_asm) (auto elim!: bind_SomeE dest: closedown_keeps)

lemma recv_keeps [keeps]:
  assumes "pseudo_tcp_socket_recv wp s len clock = Some (n, d, s')"
  shows "snd_keeps s s'"
proof -
  have k: "snd_keeps s (s\<lparr>rbuf := fb\<rparr>)" "snd_keeps s (s\<lparr>rbuf := fb, rcv_wnd := w\<rparr>)"
    "snd_keeps s (s\<lparr>rbuf := fb, bReadEnable := x, error := e\<rparr>)" "snd_keeps s (s\<lparr>error := e\<rparr>)" for fb w x e
    by (simp_all add: snd_keeps_def)
  from assms show ?thesis
    unfolding pseudo_tcp_socket_recv_def Let_def
    by (auto simp: bind_eq_Some_conv k split: if_split_asm dest!: attempt_send_keeps intro: snd_keeps_trans [OF k(2)])
qed

lemma fin_sent_keeps:
  assumes "queue_fin_message s \<bind> (\<lambda>s. attempt_send wp s sfFin now \<bind> (\<lambda>s. set_state s st)) = Some s'"
    and "st \<notin> {TCP_LISTEN, TCP_SYN_SENT}"
  shows "snd_keeps s s'"
  using assms(1)
  by (elim bind_SomeE) (blast intro: snd_keeps_trans queue_fin_keeps attempt_send_keeps set_state_keeps [OF _ assms(2)])

lemma shutdown_keeps [keeps]:
  assumes "pseudo_tcp_socket_shutdown wp s how clock = Some s'"
  shows "snd_keeps s s'"
proof -
  let ?s = "if how = PSEUDO_TCP_SHUTDOWN_RD \<or> how = PSEUDO_TCP_SHUTDOWN_RDWR then s\<lparr>shutdown_reads := True\<rparr> else s"
  have k: "snd_keeps s ?s" "snd_keeps s (s\<lparr>shutdown := SD_GRACEFUL\<rparr>)" by (simp_all add: snd_keeps_def)
  have "s' = s \<or> s' = s\<lparr>shutdown := SD_GRACEFUL\<rparr> \<or> snd_keeps ?s s'"
    using assms unfolding pseudo_tcp_socket_shutdown_def Let_def
    by (simp only: split: if_split_asm)
      (auto dest: set_state_closed_keeps closedown_keeps fin_sent_keeps)
  then show ?thesis
  proof (elim disjE)
    assume "snd_keeps ?s s'"
    then show ?thesis by (rule snd_keeps_trans [OF k(1)])
  qed (simp_all add: k(2))
qed

lemma close_keeps [keeps]: "pseudo_tcp_socket_close wp s force clock = Some s' \<Longrightarrow> snd_keeps s s'"
  by (auto simp: pseudo_tcp_socket_close_def split: if_splits dest: closedown_keeps shutdown_keeps)

lemma resize_send_keeps:
  assumes run: "resize_send_buffer s n = Some s'" and n: "n \<noteq> 0"
  shows "snd_keeps s s'"
  unfolding snd_keeps_def
proof (intro allI impI)
  fix c T assume ok: "snd_ok c T s"
  then have f: "fifo_ok (sbuf s)" by (simp add: snd_ok_def)
  have "0 < unat n" using n by (simp add: unat_gt_0)
  note cap = fifo_set_capacity_spec [OF f this]
  obtain r b where b: "pseudo_tcp_fifo_set_capacity (sbuf s) (unat n) = Some (r, b)" "fifo_ok b"
      "fifo_contents b = fifo_contents (sbuf s)"
    using cap f by (cases "data_length (sbuf s) \<le> unat n") (auto simp: not_le)
  then have "s' = s\<lparr>sbuf_len := n, sbuf := b\<rparr>" using run by (simp add: resize_send_buffer_def)
  then show "snd_ok c T s'" using ok b by (simp add: snd_ok_def)
qed

lemma set_property_keeps:
  assumes "pseudo_tcp_socket_set_property s p = Some s'" "p \<noteq> PROP_SND_BUF 0"
  shows "snd_keeps s s'"
proof -
  have "snd_ok c T (s\<lparr>conv := v\<rparr>) = snd_ok c T s" "snd_ok c T (s\<lparr>ack_delay := v\<rparr>) = snd_ok c T s"
    "snd_ok c T (s\<lparr>use_nagling := x\<rparr>) = snd_ok c T s" for c T v x by (simp_all add: snd_ok_def)
  then show ?thesis using assms
    by (cases p) (auto simp: snd_keeps_def [of s] split: if_splits
        dest: resize_receive_keeps [unfolded snd_keeps_def] resize_send_keeps [unfolded snd_keeps_def])
qed

lemma parse_grows: "parse wp s h d now = Some (r, s') \<Longrightarrow> snd_grows s s'"
  by (auto simp: parse_def snd_keeps_grows split: if_splits dest: process_grows)

lemma notify_packet_grows:
  assumes "pseudo_tcp_socket_notify_packet wp s b clock = Some (r, s')"
  shows "snd_grows s s'"
proof -
  have "snd_keeps s (s\<lparr>error := e\<rparr>)" for e by (simp add: snd_keeps_def)
  then show ?thesis using assms
    by (auto simp: pseudo_tcp_socket_notify_packet_def split: if_splits dest: parse_grows intro: snd_keeps_grows)
qed

lemma connect_grows:
  assumes "pseudo_tcp_socket_connect wp s clock = Some (r, s')"
  shows "snd_grows s s'"
proof (cases "state s = TCP_LISTEN")
  case False
  then show ?thesis using assms by (auto simp: pseudo_tcp_socket_connect_def snd_keeps_def intro!: snd_keeps_grows)
next
  case True
  then obtain s1 s2 where c: "set_state s TCP_SYN_SENT = Some s1" "queue_connect_message s1 = Some s2"
    "attempt_send wp s2 sfNone (get_current_time s2 clock) = Some s'"
    using assms by (auto simp: pseudo_tcp_socket_connect_def bind_eq_Some_conv)
  have "snd_grows s s2" using listen_connect_grows [OF c(1) _ c(2) True] by simp
  then show ?thesis using snd_grows_keeps attempt_send_keeps [OF c(3)] by blast
qed

lemma send_extends:
  assumes run: "pseudo_tcp_socket_send wp s d clock = Some (n, s')" and ok: "snd_ok c T s"
  shows "snd_ok True (T @ take (nat n) d) s' \<or> n = -1 \<and> snd_ok c T s'"
proof (cases "state s = TCP_ESTABLISHED \<and> pseudo_tcp_fifo_get_write_remaining (sbuf s) \<noteq> 0")
  case False
  then show ?thesis using run ok by (auto simp: pseudo_tcp_socket_send_def split: if_splits)
next
  case True
  then have r: "(queue s d FLAG_NONE \<bind> (\<lambda>(written, s). attempt_send wp s sfNone (get_current_time s clock)
      \<bind> (\<lambda>s. Some (int written, if written > 0 \<and> written < length d then s\<lparr>bWriteEnable := True\<rparr> else s)))) = Some (n, s')"
    using run unfolding pseudo_tcp_socket_send_def by simp
  then obtain k s1 where q1: "queue s d FLAG_NONE = Some (k, s1)" by (elim bind_SomeE) auto
  with r obtain s2 where q2: "attempt_send wp s1 sfNone (get_current_time s1 clock) = Some s2"
    by (cases "attempt_send wp s1 sfNone (get_current_time s1 clock)") auto
  have "n = int k" "s' = s2 \<or> s' = s2\<lparr>bWriteEnable := True\<rparr>"
    using r q1 q2 by (auto split: if_splits)
  note q = q1 q2 this
  have "snd_ok True T s" using ok True by (simp add: snd_ok_def)
  then have "snd_ok True (T @ take k d) s1" using queue_extends [OF q(1)] True by simp
  then have "snd_ok True (T @ take k d) s2" using attempt_send_keeps [OF q(2)] by (simp add: snd_keeps_def)
  then show ?thesis using q(3,4) by auto
qed

section \<open>A socket in use\<close>

text \<open>Any sequence of operations on a socket, with any packets arriving, any clock and any results of the
  writes; \<open>app\<close> is what the application has sent.\<close>

inductive sends :: "sock \<Rightarrow> bytes \<Rightarrow> sock \<Rightarrow> bool" for s0 where
  start: "sends s0 [] s0"
| property: "sends s0 app s \<Longrightarrow> pseudo_tcp_socket_set_property s p = Some s' \<Longrightarrow> p \<noteq> PROP_SND_BUF 0 \<Longrightarrow> sends s0 app s'"
| connect: "sends s0 app s \<Longrightarrow> pseudo_tcp_socket_connect wp s clock = Some (r, s') \<Longrightarrow> sends s0 app s'"
| packet: "sends s0 app s \<Longrightarrow> pseudo_tcp_socket_notify_packet wp s b clock = Some (r, s') \<Longrightarrow> sends s0 app s'"
| send: "sends s0 app s \<Longrightarrow> pseudo_tcp_socket_send wp s d clock = Some (n, s') \<Longrightarrow> sends s0 (app @ take (nat n) d) s'"
| recv: "sends s0 app s \<Longrightarrow> pseudo_tcp_socket_recv wp s len clock = Some (n, d, s') \<Longrightarrow> sends s0 app s'"
| clock: "sends s0 app s \<Longrightarrow> pseudo_tcp_socket_notify_clock wp s clock = Some s' \<Longrightarrow> sends s0 app s'"
| next_clock: "sends s0 app s \<Longrightarrow> pseudo_tcp_socket_get_next_clock wp s t clock = Some (r, t', s') \<Longrightarrow> sends s0 app s'"
| shut: "sends s0 app s \<Longrightarrow> pseudo_tcp_socket_shutdown wp s how clock = Some s' \<Longrightarrow> sends s0 app s'"
| close: "sends s0 app s \<Longrightarrow> pseudo_tcp_socket_close wp s force clock = Some s' \<Longrightarrow> sends s0 app s'"

text \<open>The connect message takes at most seven sequence numbers in front of the application's stream; before
  it is queued nothing else is.\<close>

definition sender_inv :: "bytes \<Rightarrow> sock \<Rightarrow> bool" where
  "sender_inv app s \<longleftrightarrow> app = [] \<and> snd_ok False [] s \<or> (\<exists>ctl. length ctl \<le> 7 \<and> snd_ok True (ctl @ app) s)"

lemma sender_inv_keeps: "snd_keeps s s' \<Longrightarrow> sender_inv app s \<Longrightarrow> sender_inv app s'"
  by (auto simp: sender_inv_def snd_keeps_def)

lemma sender_inv_grows:
  assumes g: "snd_grows s s'" and i: "sender_inv app s"
  shows "sender_inv app s'"
  using i unfolding sender_inv_def
proof (elim disjE conjE exE)
  assume "app = []" "snd_ok False [] s"
  with g [unfolded snd_grows_def, rule_format, of False "[]"]
  obtain x where "snd_ok False x s'" "length x \<le> 7" "x \<noteq> [] \<longrightarrow> snd_ok True x s'" by auto
  then show "app = [] \<and> snd_ok False [] s' \<or> (\<exists>ctl. length ctl \<le> 7 \<and> snd_ok True (ctl @ app) s')"
    using \<open>app = []\<close> by (cases "x = []") auto
next
  fix ctl assume "length ctl \<le> 7" "snd_ok True (ctl @ app) s"
  with g show "app = [] \<and> snd_ok False [] s' \<or> (\<exists>ctl. length ctl \<le> 7 \<and> snd_ok True (ctl @ app) s')"
    by (force simp: snd_grows_def)
qed

lemma send_refused: "pseudo_tcp_socket_send wp s d clock = Some (n, s') \<Longrightarrow> snd_ok c T s \<Longrightarrow>
  snd_ok c (T @ take (nat n) d) s'"
  by (drule (1) send_extends) (auto simp: snd_ok_def)

lemma new_socket_inv: "sender_inv [] (pseudo_tcp_socket_new c)"
proof -
  have "fifo_ok (sbuf (pseudo_tcp_socket_new c))" "data_length (sbuf (pseudo_tcp_socket_new c)) = 0"
    by (simp_all add: pseudo_tcp_socket_new_def pseudo_tcp_socket_init_def fifo_init_ok pseudo_tcp_fifo_init_def
        empty_fifo_struct_def fifo_ok_def g_slice_alloc_def)
  then have "snd_ok False [] (pseudo_tcp_socket_new c)"
    by (simp add: snd_ok_def packets_ok_def fifo_contents_def)
      (simp add: pseudo_tcp_socket_new_def pseudo_tcp_socket_init_def)
  then show ?thesis by (simp add: sender_inv_def)
qed

lemma sends_inv: "sends s0 app s \<Longrightarrow> sender_inv [] s0 \<Longrightarrow> sender_inv app s"
proof (induction rule: sends.induct)
  case (send app s wp d clock n s')
  from send.IH [OF send.prems] show ?case
    unfolding sender_inv_def
  proof (elim disjE conjE exE)
    assume "app = []" "snd_ok False [] s"
    with send_extends [OF send.hyps(2), of False "[]"]
    have "snd_ok True (take (nat n) d) s' \<or> n = - 1 \<and> snd_ok False [] s'" by simp
    then show "app @ take (nat n) d = [] \<and> snd_ok False [] s'
        \<or> (\<exists>ctl. length ctl \<le> 7 \<and> snd_ok True (ctl @ app @ take (nat n) d) s')"
      using \<open>app = []\<close> by (auto intro: exI [of _ "[]"])
  next
    fix ctl :: bytes assume "length ctl \<le> 7" "snd_ok True (ctl @ app) s"
    then show "app @ take (nat n) d = [] \<and> snd_ok False [] s'
        \<or> (\<exists>ctl. length ctl \<le> 7 \<and> snd_ok True (ctl @ app @ take (nat n) d) s')"
      using send_refused [OF send.hyps(2), of True "ctl @ app"] by auto
  qed
next
  case (property app s p s')
  then show ?case using sender_inv_keeps [OF set_property_keeps] by blast
qed (blast intro: sender_inv_keeps sender_inv_grows keeps connect_grows notify_packet_grows)+

lemma snd_grows_started: "snd_grows s s' \<Longrightarrow> snd_ok True T s \<Longrightarrow> snd_ok True T s'"
  by (fastforce simp: snd_grows_def)

lemma snd_keeps_ok: "snd_keeps s s' \<Longrightarrow> snd_ok c T s \<Longrightarrow> snd_ok c T s'"
  by (simp add: snd_keeps_def)

text \<open>Once the connect message is queued, the stream grows by what the application sends.\<close>

lemma sends_ok: "sends s0 app s \<Longrightarrow> snd_ok True T s0 \<Longrightarrow> snd_ok True (T @ app) s"
proof (induction rule: sends.induct)
  case (send app s wp d clock n s')
  then show ?case using send_refused [OF send.hyps(2), of True "T @ app"] by simp
next
  case (property app s p s')
  then show ?case using snd_keeps_ok [OF set_property_keeps] by blast
qed (auto intro: snd_keeps_ok keeps snd_grows_started connect_grows notify_packet_grows)

section \<open>Claims\<close>

text \<open>C29: whatever the application does and whatever arrives from the network (any packets, in any order), every
  packet that a socket writes carries exactly the bytes of its stream at the position of its sequence
  number: first a connect message of at most seven bytes, then what the application has sent, in order.
  This includes retransmissions, split segments and packets after a change of the segment size.\<close>

theorem packets_carry_stream:
  assumes "sends (pseudo_tcp_socket_new conversation) app s"
  shows "\<exists>ctl. length ctl \<le> 7 \<and> (\<forall>b. WritePacket b \<in> set (events s) \<longrightarrow> packet_carries (ctl @ app) b)"
proof -
  obtain ctl c where "length ctl \<le> 7" "snd_ok c (ctl @ app) s"
    using sends_inv [OF assms new_socket_inv] unfolding sender_inv_def by (auto intro: that [of "[]"])
  then show ?thesis unfolding snd_ok_def packets_ok_def by blast
qed

text \<open>A connection with small buffers: connecting, the answer of the peer, and three bytes sent.\<close>

definition small_socket :: "sock option" where
  "small_socket = do {
     s \<leftarrow> pseudo_tcp_socket_set_property (pseudo_tcp_socket_new 1) (PROP_RCV_BUF 16);
     pseudo_tcp_socket_set_property s (PROP_SND_BUF 16)
   }"

definition connect_reply :: bytes where
  "connect_reply = [0, 0, 0, 1, 0, 0, 0, 0, 0, 0, 0, 7, 0, 2, 0, 100, 0, 0, 0, 2, 0, 0, 0, 1, 0, 3, 1, 0, 254, 1, 0]"

text \<open>What the evaluation of such a run needs.\<close>

lemmas tcp_run_eval = tcp_eval pseudo_tcp_socket_connect_def queue_connect_message_def queue_def new_segment_def
  pseudo_tcp_fifo_write_def pseudo_tcp_socket_new_def pseudo_tcp_socket_init_def pseudo_tcp_socket_notify_packet_def
  parse_def pseudo_tcp_socket_send_def resize_receive_buffer_def resize_send_buffer_def scale_size.simps
  pseudo_tcp_fifo_set_capacity_def empty_fifo_struct_def get_current_time_def transmit_def transmit_loop.simps
  find_seg_def update_seg_def transmit_split_def transmit_mark_def packet_header_def parse_options_def
  parse_options_loop.simps apply_option_def set_state_established_def adjustMTU_def mss_level.simps
  process_new_ack_def process_rtt_def ack_release_def free_acked.simps ack_congestion_def bound_def
  pseudo_tcp_fifo_consume_read_data_def split_unsent_def head_seg_def be32_def be16_def PACKET_MAXIMUMS_def
  small_socket_def connect_reply_def

lemma example_session:
  obtains s0 s1 s2 s3 s4 where
    "pseudo_tcp_socket_set_property (pseudo_tcp_socket_new 1) (PROP_RCV_BUF 16) = Some s0"
    "pseudo_tcp_socket_set_property s0 (PROP_SND_BUF 16) = Some s1"
    "pseudo_tcp_socket_connect all_sent s1 1 = Some (True, s2)"
    "pseudo_tcp_socket_notify_packet all_sent s2 connect_reply 3 = Some (True, s3)" "state s3 = TCP_ESTABLISHED"
    "snd_una s3 = 7" "data_length (sbuf s3) = 0"
    "pseudo_tcp_socket_send all_sent s3 [1, 2, 3] 4 = Some (3, s4)"
    "WritePacket [0, 0, 0, 1, 0, 0, 0, 7, 0, 0, 0, 7, 0, 0, 0, 16, 0, 0, 0, 4, 0, 0, 0, 2, 1, 2, 3] \<in> set (events s4)"
proof -
  have "(do { s0 \<leftarrow> pseudo_tcp_socket_set_property (pseudo_tcp_socket_new 1) (PROP_RCV_BUF 16);
      s1 \<leftarrow> pseudo_tcp_socket_set_property s0 (PROP_SND_BUF 16);
      (r2, s2) \<leftarrow> pseudo_tcp_socket_connect all_sent s1 1;
      (r3, s3) \<leftarrow> pseudo_tcp_socket_notify_packet all_sent s2 connect_reply 3;
      (n, s4) \<leftarrow> pseudo_tcp_socket_send all_sent s3 [1, 2, 3] 4;
      Some (r2, r3, n, state s3, snd_una s3, data_length (sbuf s3),
        WritePacket [0, 0, 0, 1, 0, 0, 0, 7, 0, 0, 0, 7, 0, 0, 0, 16, 0, 0, 0, 4, 0, 0, 0, 2, 1, 2, 3] \<in> set (events s4)) })
    = Some (True, True, 3, TCP_ESTABLISHED, 7, 0, True)"
    by (simp add: tcp_run_eval)
  then show thesis
    by (elim bind_SomeE, simp only: split_paired_all prod.case)
      (elim bind_SomeE, simp only: split_paired_all prod.case, elim bind_SomeE,
        simp only: split_paired_all prod.case option.inject prod.inject, elim conjE, rule that, simp_all)
qed

theorem packets_carry_stream_witness:
  "\<exists>s. sends (pseudo_tcp_socket_new 1) [1, 2, 3] s
     \<and> WritePacket [0, 0, 0, 1, 0, 0, 0, 7, 0, 0, 0, 7, 0, 0, 0, 16, 0, 0, 0, 4, 0, 0, 0, 2, 1, 2, 3] \<in> set (events s)
     \<and> (\<exists>ctl. length ctl \<le> 7 \<and> (\<forall>b. WritePacket b \<in> set (events s) \<longrightarrow> packet_carries (ctl @ [1, 2, 3]) b))"
proof (rule example_session)
  fix s0 s1 s2 s3 s4
  assume r: "pseudo_tcp_socket_set_property (pseudo_tcp_socket_new 1) (PROP_RCV_BUF 16) = Some s0"
    "pseudo_tcp_socket_set_property s0 (PROP_SND_BUF 16) = Some s1"
    "pseudo_tcp_socket_connect all_sent s1 1 = Some (True, s2)"
    "pseudo_tcp_socket_notify_packet all_sent s2 connect_reply 3 = Some (True, s3)"
    "pseudo_tcp_socket_send all_sent s3 [1, 2, 3] 4 = Some (3, s4)"
    and w: "WritePacket [0, 0, 0, 1, 0, 0, 0, 7, 0, 0, 0, 7, 0, 0, 0, 16, 0, 0, 0, 4, 0, 0, 0, 2, 1, 2, 3] \<in> set (events s4)"
  have "sends (pseudo_tcp_socket_new 1) [] s3"
    by (rule sends.packet [OF sends.connect [OF sends.property [OF sends.property [OF sends.start r(1)] r(2)] r(3)] r(4)]) simp_all
  from sends.send [OF this r(5)] have s: "sends (pseudo_tcp_socket_new 1) [1, 2, 3] s4" by simp
  show ?thesis using packets_carry_stream [OF s] s w by blast
qed

end
