(* ===== verification/PseudoTcp_EndToEnd.thy ===== *)
theory PseudoTcp_EndToEnd
  imports PseudoTcp_Sender "HOL-Library.Sublist"
begin

text \<open>
  Two sockets and the network between them: the packets that a sender has written reach a receiver in any
  order, any number of times or never. The sender's invariant (the packets carry its stream) and the
  receiver's (segments of a stream are delivered as that stream) together give the end-to-end property.
\<close>

section \<open>Packets on the wire\<close>

definition packet_segment :: "bytes \<Rightarrow> Segment" where
  "packet_segment b =
     \<lparr>sg_conv = of_be32 (take 4 b), sg_seq = of_be32 (take 4 (drop 4 b)), sg_ack = of_be32 (take 4 (drop 8 b)),
      sg_flags = b ! 13, sg_wnd = of_be16 (take 2 (drop 14 b)), sg_data = drop HEADER_SIZE b,
      sg_tsval = of_be32 (take 4 (drop 16 b)), sg_tsecr = of_be32 (take 4 (drop 20 b))\<rparr>"

lemma notify_packet_process:
  assumes "HEADER_SIZE \<le> length b" "length b \<le> MAX_PACKET"
  shows "pseudo_tcp_socket_notify_packet wp s b clock = process wp s (packet_segment b) (get_current_time s clock)"
  using assms
  by (simp add: pseudo_tcp_socket_notify_packet_def parse_def packet_segment_def drop_take min_def)

definition extends_stream :: "bytes \<Rightarrow> (nat \<Rightarrow> u8) \<Rightarrow> bool" where
  "extends_stream T S \<longleftrightarrow> (\<forall>i < length T. S i = T ! i)"

lemma packet_arrives:
  assumes b: "packet_carries T b" and S: "extends_stream T S" and n: "n \<le> length T" "length T < 2 ^ 31"
  obtains p where "arrives S p n (packet_segment b)"
proof (cases "drop HEADER_SIZE b = []")
  case True
  then show thesis by (intro that) (simp add: arrives_def packet_segment_def)
next
  case False
  let ?d = "drop HEADER_SIZE b"
  from b False obtain p where p: "of_be32 (take 4 (drop 4 b)) = word_of_nat p" "p + length ?d \<le> length T"
      "?d = take (length ?d) (drop p T)" and l: "length b \<le> MAX_PACKET"
    unfolding packet_carries_def by blast
  have "take (length ?d) (drop p T) = map S [p..<p + length ?d]"
    by (rule nth_equalityI) (use p(2) S in \<open>auto simp: extends_stream_def\<close>)
  then have "?d = map S [p..<p + length ?d]" using p(3) by simp
  moreover have "near p n" using p(2) n by (simp add: near_def)
  moreover have "length ?d < 2 ^ 16" using l by simp
  ultimately have "carries S p (packet_segment b)" using p(1) by (simp only: carries_def packet_segment_def Segment.select_convs simp_thms)
  then show thesis using \<open>near p n\<close> by (intro that [of p]) (simp add: arrives_def)
qed

section \<open>Delivery\<close>

text \<open>A receiver that starts at position \<open>base\<close> of the sender's stream and takes the packets of the log \<open>es\<close>.
  Connect messages and the FIN are left out.\<close>

inductive delivering :: "tcp_event list \<Rightarrow> nat \<Rightarrow> sock \<Rightarrow> bytes \<Rightarrow> bool" for es base where
  start: "fifo_ok (rbuf s) \<Longrightarrow> buffer_length (rbuf s) < 2 ^ 30 \<Longrightarrow> data_length (rbuf s) = 0 \<Longrightarrow>
    rcv_nxt s = word_of_nat base \<Longrightarrow> rlist s = [] \<Longrightarrow> support_fin_ack s \<Longrightarrow> rcv_fin s = 0 \<Longrightarrow> delivering es base s []"
| packet: "delivering es base s out \<Longrightarrow> WritePacket b \<in> set es \<Longrightarrow>
    \<not> has_tcp_flag (packet_segment b) FLAG_CTL \<Longrightarrow> \<not> has_tcp_flag (packet_segment b) FLAG_FIN \<Longrightarrow>
    pseudo_tcp_socket_notify_packet wp s b clock = Some (r, s') \<Longrightarrow> delivering es base s' out"
| recv: "delivering es base s out \<Longrightarrow> pseudo_tcp_socket_recv wp s len clock = Some (n, d, s') \<Longrightarrow>
    delivering es base s' (out @ d)"
| send: "delivering es base s out \<Longrightarrow> pseudo_tcp_socket_send wp s d clock = Some (n, s') \<Longrightarrow> delivering es base s' out"
| clock: "delivering es base s out \<Longrightarrow> pseudo_tcp_socket_notify_clock wp s clock = Some s' \<Longrightarrow> delivering es base s' out"
| shut: "delivering es base s out \<Longrightarrow> pseudo_tcp_socket_shutdown wp s how clock = Some s' \<Longrightarrow> delivering es base s' out"
| close: "delivering es base s out \<Longrightarrow> pseudo_tcp_socket_close wp s force clock = Some s' \<Longrightarrow> delivering es base s' out"

definition receives_all :: "bytes \<Rightarrow> nat \<Rightarrow> sock \<Rightarrow> bytes \<Rightarrow> bool" where
  "receives_all T base s out \<longleftrightarrow> rcv_fin s = 0 \<and> (\<forall>S. extends_stream T S \<longrightarrow> receiving S base s out)"

text \<open>A receiver cannot have got beyond the end of a stream when it has received every extension of it.\<close>

lemma receives_all_bound:
  assumes r: "receives_all T base s out" and base: "base \<le> length T"
  shows "base + length out + data_length (rbuf s) \<le> length T"
proof (rule ccontr)
  let ?m = "base + length out + data_length (rbuf s)"
  assume m: "\<not> ?m \<le> length T"
  let ?S = "\<lambda>c i. if i < length T then T ! i else c"
  have "out @ fifo_contents (rbuf s) = map (?S c) [base..<?m]" for c
    using r receiving_stream [of "?S c" base s out] by (simp add: receives_all_def extends_stream_def)
  then have "map (?S 0) [base..<?m] = map (?S 1) [base..<?m]" by metis
  then have "map (?S 0) [base..<?m] ! (length T - base) = map (?S 1) [base..<?m] ! (length T - base)"
    by (rule arg_cong [where f = "\<lambda>xs. xs ! (length T - base)"])
  then show False using m base by simp
qed

lemma receives_all_prefix:
  assumes r: "receives_all T base s out" and base: "base \<le> length T"
  shows "prefix (out @ fifo_contents (rbuf s)) (drop base T)"
proof -
  let ?m = "length out + data_length (rbuf s)"
  have m: "base + ?m \<le> length T" using receives_all_bound [OF assms] by simp
  have "out @ fifo_contents (rbuf s) = map (\<lambda>i. T ! i) [base..<base + ?m]"
    using r receiving_stream [of "\<lambda>i. T ! i" base s out] by (simp add: receives_all_def extends_stream_def add.assoc)
  also have "\<dots> = take ?m (drop base T)" by (rule nth_equalityI) (use m in auto)
  finally show ?thesis by (simp add: take_is_prefix)
qed

lemma receives_all_view:
  assumes "receives_all T base s out" "rcv_view s' = rcv_view s"
    and "\<And>S. receiving S base s out \<Longrightarrow> receiving S base s' out"
  shows "receives_all T base s' out"
  using assms by (auto simp: receives_all_def rcv_view_def)

lemma sequence_nonzero:
  assumes "0 < n" "n < 2 ^ 31" "l < 2 ^ 16"
  shows "word_of_nat n + word_of_nat l \<noteq> (0 :: u32)"
proof
  assume "word_of_nat n + word_of_nat l = (0 :: u32)"
  then have "unat (word_of_nat (n + l) :: u32) = 0" by simp
  then show False using unat_of_nat_small [of "n + l"] assms by simp
qed

lemma delivering_receives:
  assumes "delivering es base s out" and ok: "packets_ok T es"
    and base: "0 < base" "base \<le> length T" "length T < 2 ^ 31"
  shows "receives_all T base s out"
  using assms(1)
proof (induction rule: delivering.induct)
  case (start s)
  then show ?case by (auto simp: receives_all_def intro: receiving.start)
next
  case (packet s out b wp clock r s')
  let ?g = "packet_segment b" and ?n = "base + length out + data_length (rbuf s)"
  have b: "packet_carries T b" using ok packet.hyps(2) by (simp add: packets_ok_def)
  then have l: "HEADER_SIZE \<le> length b" "length b \<le> MAX_PACKET" by (auto simp: packet_carries_def)
  note run = packet.hyps(5) [unfolded notify_packet_process [OF l]]
  note bound = receives_all_bound [OF packet.IH base(2)]
  have fin: "\<not> takes_fin s ?g" if "receiving S base s out" for S
    using receiving_stream [OF that] packet.IH packet.hyps(4) sequence_nonzero [of ?n "length b - HEADER_SIZE"] base bound l
    by (simp add: takes_fin_def receives_all_def sg_len_def packet_segment_def)
  have step: "receiving S base s' out \<and> rcv_fin s' = rcv_fin s" if S: "extends_stream T S" for S
  proof -
    have rec: "receiving S base s out" using packet.IH S by (simp add: receives_all_def)
    obtain p where p: "arrives S p ?n ?g" using packet_arrives [OF b S bound base(3)] .
    have "rcv_ok S (base + length out) s" "support_fin_ack s" using receiving_inv [OF rec] by auto
    from process_stream(2) [OF this _ packet.hyps(3) fin [OF rec] run packet.hyps(4)] p have "rcv_fin s' = rcv_fin s" by simp
    with receiving.segment [OF rec p packet.hyps(3) fin [OF rec] run] show ?thesis by simp
  qed
  have "extends_stream T (\<lambda>i. T ! i)" by (simp add: extends_stream_def)
  then show ?case using step packet.IH by (auto simp: receives_all_def)
next
  case (recv s out wp len clock n d s')
  have "rcv_fin s' = rcv_fin s" if "receiving S base s out" for S
  proof -
    have "rcv_ok S (base + length out) s" "support_fin_ack s" using receiving_inv [OF that] by auto
    from recv_stream [OF this recv.hyps(2)] show ?thesis by simp
  qed
  moreover have "receiving ((!) T) base s out" using recv.IH by (simp add: receives_all_def extends_stream_def)
  ultimately have "rcv_fin s' = 0" using recv.IH by (simp add: receives_all_def)
  then show ?case using recv.IH unfolding receives_all_def by (blast intro: receiving.recv [OF _ recv.hyps(2)])
next
  case (send s out wp d clock n s')
  show ?case by (rule receives_all_view [OF send.IH send_view [OF send.hyps(2)] receiving.send [OF _ send.hyps(2)]])
next
  case (clock s out wp clock s')
  show ?case by (rule receives_all_view [OF clock.IH notify_clock_view [OF clock.hyps(2)] receiving.clock [OF _ clock.hyps(2)]])
next
  case (shut s out wp how clock s')
  show ?case by (rule receives_all_view [OF shut.IH shutdown_view [OF shut.hyps(2)] receiving.shut [OF _ shut.hyps(2)]])
next
  case (close s out wp force clock s')
  show ?case by (rule receives_all_view [OF close.IH close_view [OF close.hyps(2)] receiving.close [OF _ close.hyps(2)]])
qed

lemma established_base:
  assumes s: "sends (pseudo_tcp_socket_new c) [] s" and e: "state s = TCP_ESTABLISHED"
  obtains ctl where "length ctl \<le> 7" "snd_ok True ctl s" "snd_una s + word_of_nat (data_length (sbuf s)) = word_of_nat (length ctl)"
proof -
  have inv: "sender_inv [] s" by (rule sends_inv [OF s new_socket_inv])
  have "snd_ok True [] s" if "snd_ok False [] s" using that e by (simp add: snd_ok_def)
  with inv obtain ctl where ctl: "length ctl \<le> 7" "snd_ok True ctl s" unfolding sender_inv_def by (auto intro: that [of "[]"])
  then obtain u where u: "fifo_ok (sbuf s)" "u \<le> length ctl" "fifo_contents (sbuf s) = drop u ctl" "snd_una s = word_of_nat u"
    using e by (auto simp: snd_ok_def)
  have "data_length (sbuf s) = length ctl - u" using length_fifo_contents [OF u(1)] u(3) by simp
  then have "snd_una s + word_of_nat (data_length (sbuf s)) = word_of_nat (u + (length ctl - u))" by (simp only: u(4) of_nat_add)
  then show thesis using ctl u(2) by (intro that) simp_all
qed

section \<open>Claims\<close>

text \<open>C1: end-to-end delivery. Take a socket that has been created, connected and established in any way, and
  that from then on sends \<open>app\<close> while any packets arrive, timers run and writes fail or succeed; and a
  receiver that starts at the sender's first byte and gets the packets the sender has written, in any
  order, repeated or never, while it reads, sends and closes in any way. Then what the receiver's
  application has read, followed by what is buffered for it, is a prefix of \<open>app\<close>: nothing is lost,
  duplicated, reordered or altered.\<close>

theorem end_to_end_delivery:
  assumes "sends (pseudo_tcp_socket_new conversation) [] A0" "state A0 = TCP_ESTABLISHED"
    and base: "base = unat (snd_una A0 + word_of_nat (data_length (sbuf A0)))" "0 < base"
    and A: "sends A0 app A" "length app < 2 ^ 31 - 7"
    and B: "delivering (events A) base B out"
  shows "prefix (out @ fifo_contents (rbuf B)) app"
proof -
  obtain ctl where ctl: "length ctl \<le> 7" "snd_ok True ctl A0"
    "snd_una A0 + word_of_nat (data_length (sbuf A0)) = word_of_nat (length ctl)"
    by (rule established_base [OF assms(1,2)])
  have b: "base = length ctl" unfolding base ctl(3) by (rule unat_of_nat_small) (use ctl(1) in simp)
  have "packets_ok (ctl @ app) (events A)" using sends_ok [OF A(1) ctl(2)] by (simp add: snd_ok_def)
  then have "receives_all (ctl @ app) base B out"
    by (rule delivering_receives [OF B]) (use b base(2) ctl(1) A(2) in simp_all)
  from receives_all_prefix [OF this] show ?thesis by (simp add: b)
qed

theorem end_to_end_delivery_witness:
  "\<exists>A B. sends (pseudo_tcp_socket_new 1) [1, 2, 3] A \<and> delivering (events A) 7 B [1, 2]
     \<and> data_length (rbuf B) = 1 \<and> prefix ([1, 2] @ fifo_contents (rbuf B)) [1, 2, 3]"
proof (rule example_session)
  let ?b = "[0, 0, 0, 1, 0, 0, 0, 7, 0, 0, 0, 7, 0, 0, 0, 16, 0, 0, 0, 4, 0, 0, 0, 2, 1, 2, 3] :: bytes"
  let ?B = "example_socket\<lparr>rcv_nxt := 7\<rparr>"
  fix s0 s1 s2 s3 s4
  assume r: "pseudo_tcp_socket_set_property (pseudo_tcp_socket_new 1) (PROP_RCV_BUF 16) = Some s0"
    "pseudo_tcp_socket_set_property s0 (PROP_SND_BUF 16) = Some s1"
    "pseudo_tcp_socket_connect all_sent s1 1 = Some (True, s2)"
    "pseudo_tcp_socket_notify_packet all_sent s2 connect_reply 3 = Some (True, s3)"
    and e: "state s3 = TCP_ESTABLISHED" "snd_una s3 = 7" "data_length (sbuf s3) = 0"
    and s: "pseudo_tcp_socket_send all_sent s3 [1, 2, 3] 4 = Some (3, s4)"
    and w: "WritePacket ?b \<in> set (events s4)"
  have A0: "sends (pseudo_tcp_socket_new 1) [] s3"
    by (rule sends.packet [OF sends.connect [OF sends.property [OF sends.property [OF sends.start r(1)] r(2)] r(3)] r(4)]) simp_all
  have A: "sends (pseudo_tcp_socket_new 1) [1, 2, 3] s4" "sends s3 [1, 2, 3] s4"
    using sends.send [OF A0 s] sends.send [OF sends.start s] by simp_all
  have "\<exists>B1 B2. pseudo_tcp_socket_notify_packet all_sent ?B ?b 5 = Some (True, B1)
      \<and> pseudo_tcp_socket_recv all_sent B1 2 6 = Some (2, [1, 2], B2) \<and> data_length (rbuf B2) = 1"
    by (simp add: tcp_run_eval)
  then obtain B1 B2 where B: "pseudo_tcp_socket_notify_packet all_sent ?B ?b 5 = Some (True, B1)"
    "pseudo_tcp_socket_recv all_sent B1 2 6 = Some (2, [1, 2], B2)" "data_length (rbuf B2) = 1" by blast
  have "delivering (events s4) 7 ?B []"
    by (rule delivering.start)
      (simp_all add: example_socket_code fifo_init_ok empty_fifo_def, simp_all add: pseudo_tcp_fifo_init_def)
  from delivering.packet [OF this w _ _ B(1)] have "delivering (events s4) 7 B1 []"
    by (simp add: has_tcp_flag_def packet_segment_def)
  from delivering.recv [OF this B(2)] have d: "delivering (events s4) 7 B2 [1, 2]" by simp
  have "prefix ([1, 2] @ fifo_contents (rbuf B2)) [1, 2, 3]"
    by (rule end_to_end_delivery [OF A0 e(1) _ _ A(2) _ d]) (simp_all add: e)
  then show ?thesis using A(1) d B(3) by blast
qed

end
