(* ===== verification/Stun_Usage_Ice.thy ===== *)
theory Stun_Usage_Ice
  imports Stun_Agent
begin

text \<open>
  \<^verbatim>\<open>stun/usages/ice.c\<close>: the connectivity checks of ICE as STUN requests and replies. As in
  \<^verbatim>\<open>Stun_Agent\<close>, the package string, the transaction id and the hash functions are parameters; a pointer
  that may be null is an option.
\<close>

datatype StunUsageIceCompatibility =
    STUN_USAGE_ICE_COMPATIBILITY_RFC5245
  | STUN_USAGE_ICE_COMPATIBILITY_GOOGLE
  | STUN_USAGE_ICE_COMPATIBILITY_MSN
  | STUN_USAGE_ICE_COMPATIBILITY_MSICE2

datatype StunUsageIceReturn =
    STUN_USAGE_ICE_RETURN_SUCCESS
  | STUN_USAGE_ICE_RETURN_ERROR
  | STUN_USAGE_ICE_RETURN_INVALID
  | STUN_USAGE_ICE_RETURN_ROLE_CONFLICT
  | STUN_USAGE_ICE_RETURN_INVALID_REQUEST
  | STUN_USAGE_ICE_RETURN_INVALID_METHOD
  | STUN_USAGE_ICE_RETURN_MEMORY_ERROR
  | STUN_USAGE_ICE_RETURN_INVALID_ADDRESS
  | STUN_USAGE_ICE_RETURN_NO_MAPPED_ADDRESS

section \<open>Building a message step by step\<close>

text \<open>The pattern of the create functions: an attribute is appended, when a condition holds, and the function
  returns 0 when that fails.\<close>

definition append_when ::
  "bool \<Rightarrow> (stun_message \<Rightarrow> (StunMessageReturn \<times> stun_message) option) \<Rightarrow> stun_message
   \<Rightarrow> (StunMessageReturn \<times> stun_message) option" where
  "append_when c f msg = (if c then f msg else Some (STUN_MESSAGE_RETURN_SUCCESS, msg))"

definition or_return_0 ::
  "(StunMessageReturn \<times> stun_message) option \<Rightarrow> stun_agent
   \<Rightarrow> (stun_message \<Rightarrow> (nat \<times> stun_agent \<times> stun_message) option)
   \<Rightarrow> (nat \<times> stun_agent \<times> stun_message) option" where
  "or_return_0 m ag k = do {
     (val, msg) \<leftarrow> m;
     if val \<noteq> STUN_MESSAGE_RETURN_SUCCESS then Some (0, ag, msg) else k msg
   }"

section \<open>Requests\<close>

definition ice_role_attribute :: "bool \<Rightarrow> u16" where
  "ice_role_attribute controlling =
     (if controlling then STUN_ATTRIBUTE_ICE_CONTROLLING else STUN_ATTRIBUTE_ICE_CONTROLLED)"

text \<open>The identifier of a candidate, a C string, padded with zero bytes to a multiple of four.\<close>

definition candidate_identifier_bytes :: "bytes \<Rightarrow> bytes" where
  "candidate_identifier_bytes candidate_identifier =
     (let s = takeWhile (\<lambda>c. c \<noteq> 0) candidate_identifier; modulo4 = length s mod 4
      in s @ replicate (if modulo4 \<noteq> 0 then 4 - modulo4 else 0) 0)"

definition stun_usage_ice_conncheck_create ::
  "bytes \<Rightarrow> bytes \<Rightarrow> hmac_fun \<Rightarrow> (bytes \<Rightarrow> bytes) \<Rightarrow> stun_agent \<Rightarrow> stun_message \<Rightarrow> bytes \<Rightarrow> nat
   \<Rightarrow> bytes option \<Rightarrow> bytes option \<Rightarrow> bool \<Rightarrow> bool \<Rightarrow> u32 \<Rightarrow> u64 \<Rightarrow> bytes \<Rightarrow> StunUsageIceCompatibility
   \<Rightarrow> (nat \<times> stun_agent \<times> stun_message) option" where
  "stun_usage_ice_conncheck_create package_string tid hmac md5 ag msg buf blen username password
     cand_use controlling priority tie candidate_identifier cmp = do {
     let ice = (cmp = STUN_USAGE_ICE_COMPATIBILITY_RFC5245 \<or> cmp = STUN_USAGE_ICE_COMPATIBILITY_MSICE2);
     let msice2 = (cmp = STUN_USAGE_ICE_COMPATIBILITY_MSICE2);
     (_, msg) \<leftarrow> stun_agent_init_request package_string tid ag msg buf blen STUN_BINDING;
     or_return_0 (append_when (ice \<and> cand_use)
       (\<lambda>msg. stun_message_append_flag msg STUN_ATTRIBUTE_USE_CANDIDATE) msg) ag (\<lambda>msg.
     or_return_0 (append_when ice
       (\<lambda>msg. stun_message_append32 msg STUN_ATTRIBUTE_PRIORITY priority) msg) ag (\<lambda>msg.
     or_return_0 (append_when ice
       (\<lambda>msg. stun_message_append64 msg (ice_role_attribute controlling) tie) msg) ag (\<lambda>msg.
     or_return_0 (case username of None \<Rightarrow> Some (STUN_MESSAGE_RETURN_SUCCESS, msg)
       | Some u \<Rightarrow> append_when (length u > 0)
           (\<lambda>msg. stun_message_append_bytes msg STUN_ATTRIBUTE_USERNAME u) msg) ag (\<lambda>msg.
     or_return_0 (append_when msice2
       (\<lambda>msg. stun_message_append_bytes msg STUN_ATTRIBUTE_CANDIDATE_IDENTIFIER
                (candidate_identifier_bytes candidate_identifier)) msg) ag (\<lambda>msg.
     or_return_0 (append_when msice2
       (\<lambda>msg. stun_message_append32 msg STUN_ATTRIBUTE_MS_IMPLEMENTATION_VERSION 2) msg) ag (\<lambda>msg.
     stun_agent_finish_message hmac md5 ag msg password))))))
   }"

section \<open>Processing a response\<close>

text \<open>The first word of the transaction id, as the MSN and OC2007 variants use it for a cookie.\<close>

definition transid_cookie :: "stun_message \<Rightarrow> u32 option" where
  "transid_cookie msg = do {
     transid \<leftarrow> stun_message_id msg;
     Some (htonl (of_le32 (take 4 transid)))
   }"

definition stun_usage_ice_conncheck_process ::
  "stun_message \<Rightarrow> sockaddr \<Rightarrow> nat \<Rightarrow> StunUsageIceCompatibility
   \<Rightarrow> (StunUsageIceReturn \<times> sockaddr \<times> nat) option" where
  "stun_usage_ice_conncheck_process msg addr addrlen cmp = do {
     m \<leftarrow> stun_message_get_method msg;
     if m \<noteq> STUN_BINDING then Some (STUN_USAGE_ICE_RETURN_INVALID, addr, addrlen)
     else do {
       cls \<leftarrow> stun_message_get_class msg;
       case cls of
         STUN_REQUEST \<Rightarrow> Some (STUN_USAGE_ICE_RETURN_INVALID, addr, addrlen)
       | STUN_INDICATION \<Rightarrow> Some (STUN_USAGE_ICE_RETURN_INVALID, addr, addrlen)
       | STUN_ERROR \<Rightarrow> do {
           r \<leftarrow> stun_message_find_error msg;
           Some (case r of Inl _ \<Rightarrow> STUN_USAGE_ICE_RETURN_INVALID
                 | Inr code \<Rightarrow>
                     if code = STUN_ERROR_ROLE_CONFLICT then STUN_USAGE_ICE_RETURN_ROLE_CONFLICT
                     else STUN_USAGE_ICE_RETURN_ERROR, addr, addrlen)
         }
       | STUN_RESPONSE \<Rightarrow> do {
           (val, addr, addrlen) \<leftarrow>
             (if cmp = STUN_USAGE_ICE_COMPATIBILITY_MSN then do {
                cookie \<leftarrow> transid_cookie msg;
                stun_message_find_xor_addr_full msg STUN_ATTRIBUTE_XOR_MAPPED_ADDRESS addr addrlen cookie
              }
              else stun_message_find_xor_addr msg STUN_ATTRIBUTE_XOR_MAPPED_ADDRESS addr addrlen);
           if val \<noteq> STUN_MESSAGE_RETURN_SUCCESS then do {
             (val, addr, addrlen) \<leftarrow> stun_message_find_addr msg STUN_ATTRIBUTE_MAPPED_ADDRESS addr addrlen;
             Some (if val \<noteq> STUN_MESSAGE_RETURN_SUCCESS then STUN_USAGE_ICE_RETURN_NO_MAPPED_ADDRESS
                   else STUN_USAGE_ICE_RETURN_SUCCESS, addr, addrlen)
           }
           else Some (STUN_USAGE_ICE_RETURN_SUCCESS, addr, addrlen)
         }
     }
   }"

section \<open>Replies\<close>

text \<open>An error reply; the first component is \<^verbatim>\<open>*plen\<close>.\<close>

definition stun_bind_error ::
  "bytes \<Rightarrow> hmac_fun \<Rightarrow> (bytes \<Rightarrow> bytes) \<Rightarrow> stun_agent \<Rightarrow> stun_message \<Rightarrow> bytes \<Rightarrow> nat \<Rightarrow> stun_message \<Rightarrow> nat
   \<Rightarrow> (nat \<times> stun_agent \<times> stun_message) option" where
  "stun_bind_error package_string hmac md5 ag msg buf len req code = do {
     (val, msg) \<leftarrow> stun_agent_init_error package_string ag msg buf len req code;
     if \<not> val then Some (0, ag, msg)
     else stun_agent_finish_message hmac md5 ag msg None
   }"

text \<open>What a reply does to its caller: the status, \<^verbatim>\<open>*plen\<close>, \<^verbatim>\<open>*control\<close>, the agent and the message.\<close>

record ice_reply =
  ir_return :: StunUsageIceReturn
  ir_plen :: nat
  ir_control :: bool
  ir_agent :: stun_agent
  ir_msg :: stun_message

text \<open>The \<^verbatim>\<open>failure\<close> label: the status of a message that could not be built. A failure with the status
  SUCCESS is an \<^verbatim>\<open>assert (0)\<close>.\<close>

definition ice_reply_failure :: "StunMessageReturn \<Rightarrow> StunUsageIceReturn option" where
  "ice_reply_failure val =
     (case val of
        STUN_MESSAGE_RETURN_NOT_ENOUGH_SPACE \<Rightarrow> Some STUN_USAGE_ICE_RETURN_MEMORY_ERROR
      | STUN_MESSAGE_RETURN_INVALID \<Rightarrow> Some STUN_USAGE_ICE_RETURN_INVALID_ADDRESS
      | STUN_MESSAGE_RETURN_UNSUPPORTED_ADDRESS \<Rightarrow> Some STUN_USAGE_ICE_RETURN_INVALID_ADDRESS
      | STUN_MESSAGE_RETURN_SUCCESS \<Rightarrow> None
      | STUN_MESSAGE_RETURN_NOT_FOUND \<Rightarrow> Some STUN_USAGE_ICE_RETURN_ERROR)"

text \<open>The mapped address of the reply, in the form that the compatibility and the message ask for.\<close>

definition reply_append_address ::
  "StunUsageIceCompatibility \<Rightarrow> stun_message \<Rightarrow> sockaddr \<Rightarrow> nat \<Rightarrow> (StunMessageReturn \<times> stun_message) option" where
  "reply_append_address cmp msg src srclen =
     (if cmp = STUN_USAGE_ICE_COMPATIBILITY_MSN then do {
        cookie \<leftarrow> transid_cookie msg;
        stun_message_append_xor_addr_full msg STUN_ATTRIBUTE_XOR_MAPPED_ADDRESS src srclen cookie
      }
      else do {
        cookie \<leftarrow> stun_message_has_cookie msg;
        if cookie \<and> cmp \<noteq> STUN_USAGE_ICE_COMPATIBILITY_GOOGLE
        then stun_message_append_xor_addr msg STUN_ATTRIBUTE_XOR_MAPPED_ADDRESS src srclen
        else stun_message_append_addr msg STUN_ATTRIBUTE_MAPPED_ADDRESS src srclen
      })"

definition reply_append_username ::
  "stun_message \<Rightarrow> stun_message \<Rightarrow> (StunMessageReturn \<times> stun_message) option" where
  "reply_append_username req msg = do {
     username \<leftarrow> found_bytes req STUN_ATTRIBUTE_USERNAME;
     case username of None \<Rightarrow> Some (STUN_MESSAGE_RETURN_SUCCESS, msg)
     | Some u \<Rightarrow> stun_message_append_bytes msg STUN_ATTRIBUTE_USERNAME u
   }"

text \<open>The response proper, from \<^verbatim>\<open>stun_agent_init_response\<close> on; the result is the status for the failure
  label or the reply with its length.\<close>

definition build_reply ::
  "bytes \<Rightarrow> hmac_fun \<Rightarrow> (bytes \<Rightarrow> bytes) \<Rightarrow> stun_agent \<Rightarrow> stun_message \<Rightarrow> stun_message \<Rightarrow> bytes \<Rightarrow> nat
   \<Rightarrow> sockaddr \<Rightarrow> nat \<Rightarrow> StunUsageIceCompatibility
   \<Rightarrow> ((StunMessageReturn + nat) \<times> stun_agent \<times> stun_message) option" where
  "build_reply package_string hmac md5 ag req msg buf len src srclen cmp = do {
     (ok, msg) \<leftarrow> stun_agent_init_response package_string ag msg buf len req;
     if \<not> ok then Some (Inl STUN_MESSAGE_RETURN_SUCCESS, ag, msg)
     else do {
       (val, msg) \<leftarrow> reply_append_address cmp msg src srclen;
       if val \<noteq> STUN_MESSAGE_RETURN_SUCCESS then Some (Inl val, ag, msg)
       else do {
         (val, msg) \<leftarrow> reply_append_username req msg;
         if val \<noteq> STUN_MESSAGE_RETURN_SUCCESS then Some (Inl val, ag, msg)
         else do {
           (val, msg) \<leftarrow> append_when (cmp = STUN_USAGE_ICE_COMPATIBILITY_MSICE2)
             (\<lambda>msg. stun_message_append32 msg STUN_ATTRIBUTE_MS_IMPLEMENTATION_VERSION 2) msg;
           if val \<noteq> STUN_MESSAGE_RETURN_SUCCESS then Some (Inl val, ag, msg)
           else do {
             (len, ag, msg) \<leftarrow> stun_agent_finish_message hmac md5 ag msg None;
             Some (if len = 0 then Inl STUN_MESSAGE_RETURN_SUCCESS else Inr len, ag, msg)
           }
         }
       }
     }
   }"

text \<open>The role the agent has after it has seen the peer's: \<open>None\<close> when it keeps its role and reports the
  conflict to the peer.\<close>

definition resolve_conflict :: "bool \<Rightarrow> u64 \<Rightarrow> u64 \<Rightarrow> bool option" where
  "resolve_conflict control tie q =
     (if (tie < q \<and> control) \<or> (tie \<ge> q \<and> \<not> control) then Some (\<not> control) else None)"

definition stun_usage_ice_conncheck_create_reply ::
  "bytes \<Rightarrow> hmac_fun \<Rightarrow> (bytes \<Rightarrow> bytes) \<Rightarrow> stun_agent \<Rightarrow> stun_message \<Rightarrow> stun_message \<Rightarrow> bytes \<Rightarrow> nat
   \<Rightarrow> sockaddr \<Rightarrow> nat \<Rightarrow> bool \<Rightarrow> u64 \<Rightarrow> StunUsageIceCompatibility \<Rightarrow> ice_reply option" where
  "stun_usage_ice_conncheck_create_reply package_string hmac md5 ag req msg buf len src srclen control tie cmp = do {
     cls \<leftarrow> stun_message_get_class req;
     m \<leftarrow> stun_message_get_method req;
     if cls \<noteq> STUN_REQUEST
     then Some \<lparr>ir_return = STUN_USAGE_ICE_RETURN_INVALID_REQUEST, ir_plen = 0, ir_control = control,
                ir_agent = ag, ir_msg = msg\<rparr>
     else if m \<noteq> STUN_BINDING then do {
       (len, ag, msg) \<leftarrow> stun_bind_error package_string hmac md5 ag msg buf len req STUN_ERROR_BAD_REQUEST;
       Some \<lparr>ir_return = STUN_USAGE_ICE_RETURN_INVALID_METHOD, ir_plen = len, ir_control = control,
             ir_agent = ag, ir_msg = msg\<rparr>
     }
     else do {
       same \<leftarrow> stun_message_find64 req (ice_role_attribute control);
       _ \<leftarrow> (case same of Inr _ \<Rightarrow> Some same
             | Inl _ \<Rightarrow> stun_message_find64 req (ice_role_attribute (\<not> control)));
       case (case same of Inr q \<Rightarrow> map_option (Pair STUN_USAGE_ICE_RETURN_ROLE_CONFLICT) (resolve_conflict control tie q)
             | Inl _ \<Rightarrow> Some (STUN_USAGE_ICE_RETURN_SUCCESS, control)) of
         None \<Rightarrow> do {
           (len, ag, msg) \<leftarrow> stun_bind_error package_string hmac md5 ag msg buf len req STUN_ERROR_ROLE_CONFLICT;
           Some \<lparr>ir_return = STUN_USAGE_ICE_RETURN_ROLE_CONFLICT, ir_plen = len, ir_control = control,
                 ir_agent = ag, ir_msg = msg\<rparr>
         }
       | Some (ret, control) \<Rightarrow> do {
           (r, ag, msg) \<leftarrow> build_reply package_string hmac md5 ag req msg buf len src srclen cmp;
           case r of
             Inr len \<Rightarrow> Some \<lparr>ir_return = ret, ir_plen = len, ir_control = control, ir_agent = ag, ir_msg = msg\<rparr>
           | Inl val \<Rightarrow> do {
               ret \<leftarrow> ice_reply_failure val;
               Some \<lparr>ir_return = ret, ir_plen = 0, ir_control = control, ir_agent = ag, ir_msg = msg\<rparr>
             }
         }
     }
   }"

section \<open>Reading a request\<close>

definition stun_usage_ice_conncheck_priority :: "stun_message \<Rightarrow> u32 option" where
  "stun_usage_ice_conncheck_priority msg = do {
     r \<leftarrow> stun_message_find32 msg STUN_ATTRIBUTE_PRIORITY;
     Some (case r of Inl _ \<Rightarrow> 0 | Inr value \<Rightarrow> value)
   }"

definition stun_usage_ice_conncheck_use_candidate :: "stun_message \<Rightarrow> bool option" where
  "stun_usage_ice_conncheck_use_candidate msg = do {
     r \<leftarrow> stun_message_find_flag msg STUN_ATTRIBUTE_USE_CANDIDATE;
     Some (r = STUN_MESSAGE_RETURN_SUCCESS)
   }"

end
