(* ===== verification/Stun_Ice_Exchange.thy ===== *)
theory Stun_Ice_Exchange
  imports Stun_Usage_Ice Stun_Agent_Claims
begin

text \<open>
  A connectivity check from one agent to the other and back. The attributes of a message built by
  appending are described by an association list (\<open>built\<close>); requests, responses and error responses of
  \<^verbatim>\<open>stun/usages/ice.c\<close> are such messages, sealed by \<^verbatim>\<open>stun_agent_finish_message\<close> and validated by the
  other side.
\<close>

section \<open>Messages as lists of attributes\<close>

definition same_header :: "stun_message \<Rightarrow> stun_message \<Rightarrow> bool" where
  "same_header msg m \<longleftrightarrow> stun_message_type m = stun_message_type msg \<and> stun_message_id m = stun_message_id msg
     \<and> stun_message_has_cookie m = stun_message_has_cookie msg \<and> buffer m ! 0 = buffer msg ! 0
     \<and> agent m = agent msg \<and> key m = key msg \<and> length (buffer m) = length (buffer msg)"

definition attrs_cost :: "stun_message \<Rightarrow> (u16 \<times> bytes) list \<Rightarrow> nat" where
  "attrs_cost m as = (\<Sum>a\<leftarrow>as. message_cost m (length (snd a)))"

definition built :: "stun_message \<Rightarrow> (u16 \<times> bytes) list \<Rightarrow> stun_message \<Rightarrow> bool" where
  "built m0 as m \<longleftrightarrow> message_attrs m \<noteq> None \<and> same_header m0 m \<and> types_of m = fst ` set as
     \<and> (\<forall>t. attr_value m t = map_of as t) \<and> message_cost m = message_cost m0
     \<and> message_room m = message_room m0 - attrs_cost m0 as"

lemma same_header_trans: "same_header a b \<Longrightarrow> same_header b c \<Longrightarrow> same_header a c"
  by (simp add: same_header_def)

lemma append_bytes_header:
  assumes "message_attrs m = Some as" "message_cost m (length d) \<le> message_room m"
    and "stun_message_append_bytes m t d = Some (r, m')"
  shows "same_header m m'"
proof -
  obtain b where b: "stun_message_append_bytes m t d = Some (STUN_MESSAGE_RETURN_SUCCESS, m\<lparr>buffer := b\<rparr>)"
    "holds_attr m (oc2007_type m t) (length d) b"
    by (rule append_bytes_store [OF assms(1,2)])
  note D = message_attrsD [OF assms(1)]
  have "m' = m\<lparr>buffer := b\<rparr>" using b(1) assms(3) by simp
  then show ?thesis
    using holds_attr_header [OF b(2) D(3,5)] holds_attr_id [OF b(2) D(3,5)]
      b(2)
    by (simp add: same_header_def stun_message_id_def holds_attr_def)
qed

lemma append_all_header:
  assumes "message_attrs m \<noteq> None" "attrs_cost m as \<le> message_room m"
    and "append_all stun_message_append_bytes m as = Some (r, m')"
  shows "same_header m m'"
  using assms
proof (induction as arbitrary: m)
  case Nil
  then show ?case by (simp add: same_header_def)
next
  case (Cons a as)
  obtain t d where a: "a = (t, d)" by (cases a)
  have fit: "message_cost m (length d) \<le> message_room m" using Cons.prems(2) a by (simp add: attrs_cost_def)
  from sm.app_ok [OF Cons.prems(1) fit, of t] obtain m1 where
    m1: "stun_message_append_bytes m t d = Some (STUN_MESSAGE_RETURN_SUCCESS, m1)" "message_attrs m1 \<noteq> None"
      "message_room m1 = message_room m - message_cost m (length d)" "message_cost m1 = message_cost m" by blast
  have "same_header m m1" using Cons.prems(1) append_bytes_header [OF _ fit m1(1)] by auto
  moreover have "same_header m1 m'"
    by (rule Cons.IH [OF m1(2)]) (use Cons.prems(2,3) a m1 in \<open>simp_all add: attrs_cost_def\<close>)
  ultimately show ?case by (rule same_header_trans)
qed

lemma append_all_built:
  assumes m0: "message_attrs m0 = Some []" "stun_message_has_cookie m0 = Some True"
    and room: "attrs_cost m0 as \<le> message_room m0" and d: "distinct (map fst as)"
    and fresh: "STUN_ATTRIBUTE_MESSAGE_INTEGRITY \<notin> fst ` set as" "STUN_ATTRIBUTE_FINGERPRINT \<notin> fst ` set as"
  obtains m where "append_all stun_message_append_bytes m0 as = Some (STUN_MESSAGE_RETURN_SUCCESS, m)" "built m0 as m"
proof -
  have ty: "types_of m0 = {}" and al: "append_alen m0 = (\<lambda>l. l)"
    using m0 by (simp_all add: types_of_def append_alen_def fun_eq_iff)
  have v0: "attr_value m0 t = None" for t
    using stun_message_find_lookup [OF m0(1), of t] by (simp add: attr_value_def)
  have "\<exists>m. append_all stun_message_append_bytes m0 as = Some (STUN_MESSAGE_RETURN_SUCCESS, m) \<and> message_attrs m \<noteq> None
    \<and> message_room m = message_room m0 - (\<Sum>a\<leftarrow>as. message_cost m0 (length (snd a)))
    \<and> types_of m = types_of m0 \<union> fst ` set as \<and> message_cost m = message_cost m0 \<and> append_alen m = append_alen m0
    \<and> (\<forall>a \<in> set as. sm.holds m0 m a) \<and> (\<forall>t. t \<notin> fst ` set as \<longrightarrow> attr_value m t = attr_value m0 t)"
    by (rule sm.append_all_ok) (use m0(1) room d fresh ty in \<open>simp_all add: attrs_cost_def\<close>)
  then obtain m where m: "append_all stun_message_append_bytes m0 as = Some (STUN_MESSAGE_RETURN_SUCCESS, m)"
    "message_attrs m \<noteq> None" "message_room m = message_room m0 - attrs_cost m0 as" "types_of m = fst ` set as"
    "message_cost m = message_cost m0" "\<forall>a \<in> set as. sm.holds m0 m a" "\<forall>t. t \<notin> fst ` set as \<longrightarrow> attr_value m t = None"
    using ty v0 by (auto simp: attrs_cost_def)
  have "attr_value m t = map_of as t" for t
  proof (cases "t \<in> fst ` set as")
    case True
    then obtain x where x: "(t, x) \<in> set as" by auto
    then have "attr_value m t = Some x" using m(6) al by (fastforce simp: sm.holds_def)
    then show ?thesis using x d by simp
  next
    case False
    then show ?thesis using m(7) map_of_eq_None_iff [of as t] by metis
  qed
  moreover have "same_header m0 m" using append_all_header [OF _ room m(1)] m0(1) by simp
  ultimately show thesis using m by (intro that [OF m(1)]) (simp add: built_def)
qed

text \<open>The finder functions on such a message.\<close>

lemma built_finds:
  assumes "message_attrs m = Some as'" "\<And>t. t \<noteq> STUN_ATTRIBUTE_MESSAGE_INTEGRITY \<Longrightarrow> t \<noteq> STUN_ATTRIBUTE_FINGERPRINT \<Longrightarrow>
    attr_value m t = map_of as t"
  shows "map_of as STUN_ATTRIBUTE_PRIORITY = Some (be32 p) \<Longrightarrow> stun_usage_ice_conncheck_priority m = Some p"
    "stun_usage_ice_conncheck_use_candidate m = Some (map_of as STUN_ATTRIBUTE_USE_CANDIDATE = Some [])"
    "stun_message_find64 m (ice_role_attribute c) = Some (case map_of as (ice_role_attribute c) of
        None \<Rightarrow> Inl STUN_MESSAGE_RETURN_NOT_FOUND
      | Some v \<Rightarrow> if length v = 8 then Inr (push_bit 32 (ucast (of_be32 v)) OR ucast (of_be32 (drop 4 v)))
                  else Inl STUN_MESSAGE_RETURN_INVALID)"
  using stun_message_find32_value [OF assms(1), of STUN_ATTRIBUTE_PRIORITY]
    stun_message_find_flag_value [OF assms(1), of STUN_ATTRIBUTE_USE_CANDIDATE]
    stun_message_find64_value [OF assms(1), of "ice_role_attribute c"]
  by (auto simp: assms(2) of_be32_be32 stun_usage_ice_conncheck_priority_def stun_usage_ice_conncheck_use_candidate_def
      ice_role_attribute_def split: option.splits)

section \<open>Requests\<close>

lemma bind_success:
  "(x \<bind> (\<lambda>(r, m). if r \<noteq> STUN_MESSAGE_RETURN_SUCCESS then Some (r, m) else Some (STUN_MESSAGE_RETURN_SUCCESS, m))) = x"
  by (cases x) auto

lemma append_all_single: "append_all app m [(t, d)] = app m t d"
  by (simp only: append_all.simps bind_success)

lemma append_when_all:
  "append_when c (\<lambda>m. stun_message_append_bytes m t d) msg = append_all stun_message_append_bytes msg (if c then [(t, d)] else [])"
  by (cases c) (simp_all only: append_when_def append_all_single append_all.simps(1) if_True if_False)

lemma append_all_append:
  "append_all app m (as @ bs) = (append_all app m as \<bind>
     (\<lambda>(r, m). if r \<noteq> STUN_MESSAGE_RETURN_SUCCESS then Some (r, m) else append_all app m bs))"
proof (induction as arbitrary: m)
  case (Cons a as)
  obtain t d where "a = (t, d)" by (cases a)
  then show ?case using Cons.IH by (auto split: Option.bind_splits)
qed simp

lemma or_return_0_append:
  "or_return_0 (append_all app m as) ag (\<lambda>m. or_return_0 (append_all app m bs) ag k)
     = or_return_0 (append_all app m (as @ bs)) ag k"
  by (auto simp: or_return_0_def append_all_append split: Option.bind_splits)

declare append_all.simps(2) [simp del]

definition conncheck_attrs ::
  "bytes \<Rightarrow> bool \<Rightarrow> bool \<Rightarrow> u32 \<Rightarrow> u64 \<Rightarrow> bytes \<Rightarrow> bool \<Rightarrow> (u16 \<times> bytes) list" where
  "conncheck_attrs u cand_use controlling priority tie ident msice2 =
     (if cand_use then [(STUN_ATTRIBUTE_USE_CANDIDATE, [])] else [])
     @ [(STUN_ATTRIBUTE_PRIORITY, be32 priority),
        (ice_role_attribute controlling, be32 (ucast (drop_bit 32 tie)) @ be32 (ucast tie)),
        (STUN_ATTRIBUTE_USERNAME, u)]
     @ (if msice2 then [(STUN_ATTRIBUTE_CANDIDATE_IDENTIFIER, candidate_identifier_bytes ident),
                        (STUN_ATTRIBUTE_MS_IMPLEMENTATION_VERSION, be32 2)] else [])"

definition ice_compatible :: "StunUsageIceCompatibility \<Rightarrow> bool" where
  "ice_compatible cmp \<longleftrightarrow> cmp = STUN_USAGE_ICE_COMPATIBILITY_RFC5245 \<or> cmp = STUN_USAGE_ICE_COMPATIBILITY_MSICE2"

lemma conncheck_create_attrs:
  assumes "ice_compatible cmp" "u \<noteq> []"
  shows "stun_usage_ice_conncheck_create ps tid hmac md5 ag msg buf blen (Some u) pw cand_use controlling priority tie ident cmp
    = (stun_agent_init_request ps tid ag msg buf blen STUN_BINDING \<bind> (\<lambda>(_, msg).
        or_return_0 (append_all stun_message_append_bytes msg
            (conncheck_attrs u cand_use controlling priority tie ident (cmp = STUN_USAGE_ICE_COMPATIBILITY_MSICE2))) ag
          (\<lambda>msg. stun_agent_finish_message hmac md5 ag msg pw)))"
  using assms
  by (simp add: stun_usage_ice_conncheck_create_def ice_compatible_def stun_message_append_flag_def stun_message_append32_def
      stun_message_append64_def le32_htonl append_when_all or_return_0_append conncheck_attrs_def Let_def)

lemma conncheck_attrs_facts:
  "distinct (map fst (conncheck_attrs u use ctl prio tie ident ms))"
  "STUN_ATTRIBUTE_MESSAGE_INTEGRITY \<notin> fst ` set (conncheck_attrs u use ctl prio tie ident ms)"
  "STUN_ATTRIBUTE_FINGERPRINT \<notin> fst ` set (conncheck_attrs u use ctl prio tie ident ms)"
  "map_of (conncheck_attrs u use ctl prio tie ident ms) STUN_ATTRIBUTE_PRIORITY = Some (be32 prio)"
  "map_of (conncheck_attrs u use ctl prio tie ident ms) STUN_ATTRIBUTE_USE_CANDIDATE = (if use then Some [] else None)"
  "map_of (conncheck_attrs u use ctl prio tie ident ms) STUN_ATTRIBUTE_USERNAME = Some u"
  "map_of (conncheck_attrs u use ctl prio tie ident ms) (ice_role_attribute c)
     = (if c = ctl then Some (be32 (ucast (drop_bit 32 tie)) @ be32 (ucast tie)) else None)"
  by (auto simp: conncheck_attrs_def ice_role_attribute_def)

lemma padded_len_le: "padded_len pad n \<le> n + 3"
  by (simp add: padded_len_def)

lemma message_cost_le: "message_cost m l \<le> l + 7"
  using padded_len_le [of "\<not> no_aligned_attributes m" l] by (simp add: message_cost_def)

lemma conncheck_attrs_cost:
  "attrs_cost m (conncheck_attrs u use ctl prio tie ident ms) \<le> 49 + length u + length ident"
proof -
  let ?i = "candidate_identifier_bytes ident"
  have c: "message_cost m 0 = 4" "message_cost m 4 = 8" "message_cost m 8 = 12"
    by (simp_all add: message_cost_def padded_len_def)
  have "length ?i \<le> length ident + 3" "4 dvd length ?i"
  proof -
    let ?n = "length (takeWhile (\<lambda>c. c \<noteq> 0) ident)"
    have n: "?n \<le> length ident" by (rule length_takeWhile_le)
    have "?n mod 4 < 4" by simp
    then show "length ?i \<le> length ident + 3" using n
      by (auto simp: candidate_identifier_bytes_def Let_def)
    show "4 dvd length ?i"
      by (simp add: candidate_identifier_bytes_def Let_def) presburger
  qed
  then have "message_cost m (length ?i) \<le> length ident + 7"
    by (auto simp: message_cost_def padded_len_def elim!: dvdE)
  then show ?thesis
    using c message_cost_le [of m "length u"] by (auto simp: attrs_cost_def conncheck_attrs_def)
qed

section \<open>Sending a check\<close>

text \<open>An agent for connectivity checks: short-term credentials, and no SOFTWARE attribute.\<close>

definition ice_agent :: "stun_agent \<Rightarrow> bool" where
  "ice_agent ag \<longleftrightarrow> cookie_compat ag \<and> \<not> has_flag ag STUN_AGENT_USAGE_LONG_TERM_CREDENTIALS
     \<and> \<not> has_flag ag STUN_AGENT_USAGE_IGNORE_CREDENTIALS \<and> \<not> has_flag ag STUN_AGENT_USAGE_FORCE_VALIDATER
     \<and> software_attribute ag = None \<and> \<not> has_flag ag STUN_AGENT_USAGE_ADD_SOFTWARE"

definition cookie_id :: "bytes \<Rightarrow> bytes" where
  "cookie_id tid = be32 STUN_MAGIC_COOKIE @ drop 4 tid"

definition empty_message :: "stun_agent \<Rightarrow> StunClass \<Rightarrow> bytes \<Rightarrow> bytes option \<Rightarrow> nat \<Rightarrow> stun_message \<Rightarrow> bool" where
  "empty_message ag cls tid k n m \<longleftrightarrow> message_attrs m = Some [] \<and> agent m = Some (agent_cfg ag)
     \<and> stun_message_get_class m = Some cls \<and> stun_message_get_method m = Some STUN_BINDING
     \<and> stun_message_id m = Some tid \<and> stun_message_has_cookie m = Some True \<and> drop_bit 6 (buffer m ! 0) = 0
     \<and> key m = k \<and> message_room m = n - 20 \<and> length (buffer m) = n"

lemma init_empty_message:
  assumes len: "20 \<le> length (buffer msg)" "buffer_len msg = length (buffer msg)" "length (buffer msg) \<le> 65535"
    and "length tid = 16" "take 4 tid = be32 STUN_MAGIC_COOKIE" "agent msg = Some (agent_cfg ag)"
  obtains m where "stun_message_init msg cls STUN_BINDING tid = Some (True, m)"
    "empty_message ag cls tid (key msg) (length (buffer msg)) m"
proof -
  have tw: "type_word cls 1 \<noteq> 0x0115" by (cases cls) (simp_all add: type_word_def)
  obtain b where b: "stun_message_init msg cls STUN_BINDING tid = Some (True, msg\<lparr>buffer := b\<rparr>)"
    "length b = length (buffer msg)" "take 16 (drop 4 b) = tid" "drop_bit 6 (b ! 0) = 0"
    "message_end (msg\<lparr>buffer := b\<rparr>) = 20" "message_attrs (msg\<lparr>buffer := b\<rparr>) = Some []"
    "stun_message_id (msg\<lparr>buffer := b\<rparr>) = Some tid"
    "type_word cls 1 \<noteq> 0x0115 \<longrightarrow> stun_message_get_class (msg\<lparr>buffer := b\<rparr>) = Some cls
       \<and> stun_message_get_method (msg\<lparr>buffer := b\<rparr>) = Some STUN_BINDING"
    by (rule stun_message_init_facts [OF len(1,2) assms(4), of STUN_BINDING cls]) simp_all
  have "message_room (msg\<lparr>buffer := b\<rparr>) = length (buffer msg) - 20"
    using b(2,5) len(3) by (simp add: message_room_def)
  then show thesis using b tw assms(5,6)
    by (intro that [OF b(1)]) (simp add: empty_message_def stun_message_has_cookie_def le32_htonl)
qed

lemma init_request_empty:
  assumes ag: "ice_agent ag" and len: "20 \<le> length buf" "length buf \<le> 65535" "length tid = 16"
  obtains m where "stun_agent_init_request ps tid ag msg buf (length buf) STUN_BINDING = Some (True, m)"
    "empty_message ag STUN_REQUEST (cookie_id tid) None (length buf) m"
proof -
  let ?m = "fresh_message ag msg buf (length buf)"
  have f: "buffer ?m = buf" "buffer_len ?m = length buf" "key ?m = None" "agent ?m = Some (agent_cfg ag)"
    by (simp_all add: fresh_message_def)
  have ci: "length (cookie_id tid) = 16" "take 4 (cookie_id tid) = be32 STUN_MAGIC_COOKIE"
    using len(3) by (simp_all add: cookie_id_def be32_def)
  obtain m where m: "stun_message_init ?m STUN_REQUEST STUN_BINDING (cookie_id tid) = Some (True, m)"
    "empty_message ag STUN_REQUEST (cookie_id tid) None (length buf) m"
    using init_empty_message [of ?m "cookie_id tid" ag STUN_REQUEST] f len(1,2) ci by metis
  have "stun_message_init ?m STUN_REQUEST STUN_BINDING tid \<bind> (\<lambda>(r, m). put_cookie ag m) = Some m"
    using m(1) ag f len(1,3) ci(1)
    by (simp add: stun_message_init_buffer put_cookie_def ice_agent_def mem_write_def le32_htonl cookie_id_def be32_def
        del: drop_drop)
  then have "stun_agent_init_request ps tid ag msg buf (length buf) STUN_BINDING = Some (True, m)"
    using ag f len
    by (auto simp: stun_agent_init_request_def stun_message_init_buffer put_software_def ice_agent_def)
  then show thesis using m(2) by (rule that)
qed

lemma built_open:
  assumes "built m0 as m" "STUN_ATTRIBUTE_MESSAGE_INTEGRITY \<notin> fst ` set as" "STUN_ATTRIBUTE_FINGERPRINT \<notin> fst ` set as"
  shows "open_for m STUN_ATTRIBUTE_MESSAGE_INTEGRITY"
  using assms by (simp add: built_def open_for_def)

lemma built_header:
  assumes "built m0 as m" "empty_message ag cls tid k n m0"
  shows "agent m = Some (agent_cfg ag)" "stun_message_get_class m = Some cls"
    "stun_message_get_method m = Some STUN_BINDING" "stun_message_id m = Some tid"
    "stun_message_has_cookie m = Some True" "drop_bit 6 (buffer m ! 0) = 0" "key m = k"
  using assms
  by (simp_all add: built_def empty_message_def same_header_def stun_message_get_class_def stun_message_get_method_def)

lemma seal_cost: "message_cost m 20 + (if p then message_cost m 4 else 0) \<le> 32"
  by (simp add: message_cost_def padded_len_def)

text \<open>What the receiver of a message knows when it was built from the attributes \<open>as\<close>.\<close>

definition carries_attrs :: "(u16 \<times> bytes) list \<Rightarrow> StunClass \<Rightarrow> bytes \<Rightarrow> stun_message \<Rightarrow> bool" where
  "carries_attrs as cls tid m \<longleftrightarrow> message_attrs m \<noteq> None \<and> stun_message_get_class m = Some cls
     \<and> stun_message_get_method m = Some STUN_BINDING \<and> stun_message_id m = Some tid
     \<and> stun_message_has_cookie m = Some True
     \<and> (\<forall>t. t \<noteq> STUN_ATTRIBUTE_MESSAGE_INTEGRITY \<longrightarrow> t \<noteq> STUN_ATTRIBUTE_FINGERPRINT \<longrightarrow> attr_value m t = map_of as t)"

lemma keeps_carries:
  assumes "built m0 as msg" "empty_message ag cls tid k n m0" "keeps msg m" "message_attrs m = Some as'"
  shows "carries_attrs as cls tid m"
  using assms(1,3,4) built_header [OF assms(1,2)]
  by (simp add: carries_attrs_def keeps_def built_def stun_message_get_class_def stun_message_get_method_def
      stun_message_has_cookie_def)

lemma first_index_update:
  assumes "i < length xs" "P y" "\<forall>x \<in> set xs. \<not> P x"
  shows "first_index P (xs[i := y]) = Some i"
  using assms by (induction xs arbitrary: i) (auto split: nat.splits)

text \<open>The transaction \<open>tid\<close> is pending in the table, and nothing else is with that id.\<close>

definition pending_check :: "stun_agent \<Rightarrow> bytes \<Rightarrow> bytes \<Rightarrow> bool" where
  "pending_check ag tid kb \<longleftrightarrow> (\<exists>i. first_index (sent_id_matches STUN_BINDING tid) (sent_ids ag) = Some i
     \<and> sid_key (sent_ids ag ! i) = Some kb)"

lemma conncheck_sent:
  assumes a: "ice_agent a" and cmp: "ice_compatible cmp" and u: "u \<noteq> []" and kb: "kb \<noteq> []"
    and len: "length tid = 16" "104 + length u + length ident \<le> length buf" "length buf \<le> 65535"
    and hmac: "\<And>k d. length (hmac k d) = 20"
    and slot: "\<exists>s \<in> set (sent_ids a). \<not> sid_valid s"
    and fresh: "\<forall>s \<in> set (sent_ids a). sid_valid s \<longrightarrow> sid_id s \<noteq> cookie_id tid"
    and peer: "agent_cfg b = agent_cfg a" and vld: "\<And>m. f b m (Some u) None = Some (Some kb)"
  obtains n a1 req st b1 m1 where
    "stun_usage_ice_conncheck_create ps tid hmac md5 a msg buf (length buf) (Some u) (Some kb) use ctl prio tie ident cmp
       = Some (n, a1, req)"
    "stun_agent_validate hmac md5 b m0 (take n (buffer req)) (Some f) = Some (st, b1, m1)" "accepted st"
    "carries_attrs (conncheck_attrs u use ctl prio tie ident (cmp = STUN_USAGE_ICE_COMPATIBILITY_MSICE2))
       STUN_REQUEST (cookie_id tid) m1"
    "key m1 = Some kb" "same_setup b b1" "agent_cfg a1 = agent_cfg a" "pending_check a1 (cookie_id tid) kb"
proof -
  let ?as = "conncheck_attrs u use ctl prio tie ident (cmp = STUN_USAGE_ICE_COMPATIBILITY_MSICE2)"
  note A = conncheck_attrs_facts [of u use ctl prio tie ident "cmp = STUN_USAGE_ICE_COMPATIBILITY_MSICE2"]
  obtain e where e: "stun_agent_init_request ps tid a msg buf (length buf) STUN_BINDING = Some (True, e)"
    "empty_message a STUN_REQUEST (cookie_id tid) None (length buf) e"
    by (rule init_request_empty [OF a _ len(3,1)]) (use len(2) in simp)
  have e': "message_attrs e = Some []" "stun_message_has_cookie e = Some True" "message_room e = length buf - 20"
    using e(2) by (simp_all add: empty_message_def)
  note cost = conncheck_attrs_cost [of e u use ctl prio tie ident "cmp = STUN_USAGE_ICE_COMPATIBILITY_MSICE2"]
  obtain m where m: "append_all stun_message_append_bytes e ?as = Some (STUN_MESSAGE_RETURN_SUCCESS, m)" "built e ?as m"
    by (rule append_all_built [OF e'(1,2) _ A(1,2,3)]) (use cost e'(3) len(2) in simp)
  note H = built_header [OF m(2) e(2)]
  obtain as where as: "message_attrs m = Some as" using m(2) by (auto simp: built_def)
  have "32 \<le> message_room m" using m(2) e'(3) cost len(2) by (simp add: built_def)
  note fits = le_trans [OF seal_cost [of m "uses_fingerprint a"] this]
  have flags: "\<not> has_flag a STUN_AGENT_USAGE_LONG_TERM_CREDENTIALS" "\<not> has_flag a STUN_AGENT_USAGE_IGNORE_CREDENTIALS"
    using a by (simp_all add: ice_agent_def)
  have user: "attr_value m STUN_ATTRIBUTE_USERNAME = Some u" using m(2) A(6) by (simp add: built_def)
  obtain n a1 req st b1 m1 as1 where r: "stun_agent_finish_message hmac md5 a m (Some kb) = Some (n, a1, req)"
    "stun_agent_validate hmac md5 b m0 (take n (buffer req)) (Some f) = Some (st, b1, m1)"
    "accepted st" "message_attrs m1 = Some as1" "keeps m m1" "keeps m req" "key req = Some kb" "key m1 = Some kb"
    "same_setup b b1" "sent_ids b1 = sent_ids b" "0 < n"
    by (rule finished_request_received [where hmac = hmac and f = f and ?md5.0 = md5 and ?m0.0 = m0,
          OF as H(1,2,6) _ fits built_open [OF m(2) A(2,3)] user flags H(7) slot hmac peer vld kb])
      (use H(5) in simp_all)
  have create: "stun_usage_ice_conncheck_create ps tid hmac md5 a msg buf (length buf) (Some u) (Some kb) use ctl prio tie ident cmp
      = Some (n, a1, req)"
    using e(1) m(1) r(1) by (simp add: conncheck_create_attrs [OF cmp u] or_return_0_def)
  have rem: "finish_remember a m = Some True"
    using H(2,3) a by (auto simp: finish_remember_def ice_agent_def cookie_compat_def)
  have hq: "stun_message_id req = Some (cookie_id tid)" "stun_message_get_method req = Some STUN_BINDING"
    using r(6) H(3,4) by (simp_all add: keeps_def stun_message_get_method_def)
  from finish_message_table [OF r(1) rem] r(11,7) hq obtain i where i:
    "first_index (\<lambda>s. \<not> sid_valid s) (sent_ids a) = Some i"
    "a1 = a\<lparr>sent_ids := (sent_ids a)[i := \<lparr>sid_id = cookie_id tid, sid_method = STUN_BINDING, sid_key = Some kb,
       sid_long_term_key = long_term_key req, sid_long_term_valid = long_term_valid req, sid_valid = True\<rparr>]\<rparr>" by auto
  have "i < length (sent_ids a)" using first_index_Some [OF i(1)] by simp
  moreover from this have "first_index (sent_id_matches STUN_BINDING (cookie_id tid)) (sent_ids a1) = Some i"
    unfolding i(2) stun_agent.select_convs stun_agent.update_convs
    by (simp, intro first_index_update) (use fresh in \<open>auto simp: sent_id_matches_def\<close>)
  ultimately have "pending_check a1 (cookie_id tid) kb" by (simp add: pending_check_def i(2))
  moreover have "agent_cfg a1 = agent_cfg a" by (simp add: i(2) agent_cfg_def)
  ultimately show thesis
    using that [OF create r(2,3) keeps_carries [OF m(2) e(2) r(5,4)] r(8,9)] by blast
qed

section \<open>Answering a check\<close>

definition addr_bytes :: "sockaddr \<Rightarrow> bytes" where
  "addr_bytes y = (case y of SA_INET p a \<Rightarrow> [0, 1] @ le16 p @ le32 a | SA_INET6 p a \<Rightarrow> [0, 2] @ le16 p @ a | SA_OTHER \<Rightarrow> [])"

lemma addr_bytes_facts:
  assumes "sockaddr_ok y" "y \<noteq> SA_OTHER"
  shows "length (addr_bytes y) \<le> 20"
    "sockaddr_len y \<le> n \<Longrightarrow> decode_addr (addr_bytes y) x n = (STUN_MESSAGE_RETURN_SUCCESS, y, sockaddr_len y)"
    "sockaddr_len y \<le> n \<Longrightarrow> stun_message_append_addr m t y n = stun_message_append_bytes m t (addr_bytes y)"
  using assms decode_encode_addr append_addr_encoded [of n y m t]
  by (cases y; simp add: addr_bytes_def)+

definition reply_attrs :: "sockaddr \<Rightarrow> bytes \<Rightarrow> bool \<Rightarrow> (u16 \<times> bytes) list" where
  "reply_attrs y u msice2 =
     (STUN_ATTRIBUTE_XOR_MAPPED_ADDRESS, addr_bytes y) # (STUN_ATTRIBUTE_USERNAME, u)
       # (if msice2 then [(STUN_ATTRIBUTE_MS_IMPLEMENTATION_VERSION, be32 2)] else [])"

definition conflict_attrs :: "(u16 \<times> bytes) list" where
  "conflict_attrs = [(STUN_ATTRIBUTE_ERROR_CODE, [0, 0, 4, 87] @ map of_char (stun_strerror STUN_ERROR_ROLE_CONFLICT))]"

lemma init_reply_empty:
  assumes b: "ice_agent b" and req: "carries_attrs as STUN_REQUEST (cookie_id tid) req" "key req = Some kb"
    and len: "20 \<le> length buf" "length buf \<le> 65535" "length tid = 16"
  obtains e where "stun_message_init (reply_message b msg buf (length buf) req) cls STUN_BINDING (cookie_id tid) = Some (True, e)"
    "empty_message b cls (cookie_id tid) (Some kb) (length buf) e"
proof -
  let ?m = "reply_message b msg buf (length buf) req"
  have "length (cookie_id tid) = 16" "take 4 (cookie_id tid) = be32 STUN_MAGIC_COOKIE"
    using len(3) by (simp_all add: cookie_id_def be32_def)
  then obtain e where "stun_message_init ?m cls STUN_BINDING (cookie_id tid) = Some (True, e)"
    "empty_message b cls (cookie_id tid) (key ?m) (length (buffer ?m)) e"
    using init_empty_message [of ?m "cookie_id tid" b cls] len by (auto simp: reply_message_def)
  then show thesis using req(2) by (intro that) (simp_all add: reply_message_def)
qed

lemma init_response_empty:
  assumes b: "ice_agent b" and req: "carries_attrs as STUN_REQUEST (cookie_id tid) req" "key req = Some kb"
    and len: "20 \<le> length buf" "length buf \<le> 65535" "length tid = 16"
  obtains e where "stun_agent_init_response ps b msg buf (length buf) req = Some (True, e)"
    "empty_message b STUN_RESPONSE (cookie_id tid) (Some kb) (length buf) e"
proof (rule init_reply_empty [OF assms, of msg STUN_RESPONSE])
  fix e assume e: "stun_message_init (reply_message b msg buf (length buf) req) STUN_RESPONSE STUN_BINDING (cookie_id tid) = Some (True, e)"
    "empty_message b STUN_RESPONSE (cookie_id tid) (Some kb) (length buf) e"
  then have "stun_agent_init_response ps b msg buf (length buf) req = Some (True, e)"
    using b req(1) by (simp add: stun_agent_init_response_def carries_attrs_def put_software_def ice_agent_def)
  then show thesis using e(2) by (rule that)
qed

lemma init_error_empty:
  assumes b: "ice_agent b" and req: "carries_attrs as STUN_REQUEST (cookie_id tid) req" "key req = Some kb"
    and len: "20 \<le> length buf" "length buf \<le> 65535" "length tid = 16"
  obtains e where "stun_agent_init_error ps b msg buf (length buf) req STUN_ERROR_ROLE_CONFLICT
      = map_option (\<lambda>(r, m). (r = STUN_MESSAGE_RETURN_SUCCESS, m)) (append_all stun_message_append_bytes e conflict_attrs)"
    "empty_message b STUN_ERROR (cookie_id tid) (Some kb) (length buf) e"
proof (rule init_reply_empty [OF assms, of msg STUN_ERROR])
  fix e assume e: "stun_message_init (reply_message b msg buf (length buf) req) STUN_ERROR STUN_BINDING (cookie_id tid) = Some (True, e)"
    "empty_message b STUN_ERROR (cookie_id tid) (Some kb) (length buf) e"
  have "stun_message_append_error e STUN_ERROR_ROLE_CONFLICT = append_all stun_message_append_bytes e conflict_attrs"
    by (simp add: append_error_encoded conflict_attrs_def append_all_single)
  then have "stun_agent_init_error ps b msg buf (length buf) req STUN_ERROR_ROLE_CONFLICT
      = map_option (\<lambda>(r, m). (r = STUN_MESSAGE_RETURN_SUCCESS, m)) (append_all stun_message_append_bytes e conflict_attrs)"
    using b req(1) e(1)
    by (cases "append_all stun_message_append_bytes e conflict_attrs")
      (auto simp: stun_agent_init_error_def carries_attrs_def put_software_def ice_agent_def)
  then show thesis using e(2) by (rule that)
qed

text \<open>A reply built from \<open>as\<close> and sealed is accepted by the agent that waits for it.\<close>

lemma reply_received:
  assumes b: "ice_agent b" and a: "agent_cfg a = agent_cfg b" "pending_check a tid kb" and kb: "kb \<noteq> []"
    and e: "empty_message b cls tid (Some kb) n0 e"
    and fresh: "STUN_ATTRIBUTE_MESSAGE_INTEGRITY \<notin> fst ` set as" "STUN_ATTRIBUTE_FINGERPRINT \<notin> fst ` set as"
    and room: "attrs_cost e as + 52 \<le> n0" and built: "built e as m" and hmac: "\<And>k d. length (hmac k d) = 20"
    and cls: "cls = STUN_RESPONSE \<or> cls = STUN_ERROR \<and> (\<exists>code. stun_message_find_error m = Some (Inr code) \<and> code \<notin> {400, 401, 438})"
  obtains n msg1 st a1 m1 where "stun_agent_finish_message hmac md5 b m None = Some (n, b, msg1)"
    "stun_agent_validate hmac md5 a m0 (take n (buffer msg1)) vld = Some (st, a1, m1)"
    "accepted st" "carries_attrs as cls tid m1" "0 < n"
proof -
  note H = built_header [OF built e]
  obtain as' where as': "message_attrs m = Some as'" using built by (auto simp: built_def)
  have "32 \<le> message_room m" using built e room by (simp add: built_def empty_message_def)
  note fits = le_trans [OF seal_cost [of m "uses_fingerprint b"] this]
  obtain i where i: "first_index (sent_id_matches STUN_BINDING tid) (sent_ids a) = Some i" "sid_key (sent_ids a ! i) = Some kb"
    using a(2) by (auto simp: pending_check_def)
  have flags: "\<not> has_flag b STUN_AGENT_USAGE_LONG_TERM_CREDENTIALS" "\<not> has_flag b STUN_AGENT_USAGE_IGNORE_CREDENTIALS"
    "\<not> has_flag b STUN_AGENT_USAGE_FORCE_VALIDATER"
    using b by (simp_all add: ice_agent_def)
  obtain n msg1 st a1 m1 as1 where r: "stun_agent_finish_message hmac md5 b m None = Some (n, b, msg1)"
    "stun_agent_validate hmac md5 a m0 (take n (buffer msg1)) vld = Some (st, a1, m1)"
    "accepted st" "message_attrs m1 = Some as1" "keeps m m1" "0 < n"
    "sent_ids a1 = (sent_ids a)[i := (sent_ids a ! i)\<lparr>sid_valid := False\<rparr>]"
    by (rule finished_reply_received [where ?md5.0 = md5 and ?m0.0 = m0 and vld = vld and k = None and hmac = hmac,
          OF as' H(1,2,6) _ cls fits built_open [OF built fresh] flags H(7) kb hmac a(1) H(3,4) i])
      (use H(5) in simp_all)
  show thesis by (rule that [OF r(1-3) keeps_carries [OF built e r(5,4)] r(6)])
qed

lemma conflict_answered:
  assumes b: "ice_agent b" and a: "agent_cfg a = agent_cfg b" "pending_check a (cookie_id tid) kb" and kb: "kb \<noteq> []"
    and req: "carries_attrs as STUN_REQUEST (cookie_id tid) req" "key req = Some kb"
    and len: "104 \<le> length buf" "length buf \<le> 65535" "length tid = 16" and hmac: "\<And>k d. length (hmac k d) = 20"
  obtains n msg1 st a1 m1 where
    "stun_bind_error ps hmac md5 b msg buf (length buf) req STUN_ERROR_ROLE_CONFLICT = Some (n, b, msg1)"
    "stun_agent_validate hmac md5 a m0 (take n (buffer msg1)) vld = Some (st, a1, m1)" "accepted st"
    "stun_usage_ice_conncheck_process m1 addr addrlen cmp = Some (STUN_USAGE_ICE_RETURN_ROLE_CONFLICT, addr, addrlen)"
proof -
  obtain e where e: "stun_agent_init_error ps b msg buf (length buf) req STUN_ERROR_ROLE_CONFLICT
      = map_option (\<lambda>(r, m). (r = STUN_MESSAGE_RETURN_SUCCESS, m)) (append_all stun_message_append_bytes e conflict_attrs)"
    "empty_message b STUN_ERROR (cookie_id tid) (Some kb) (length buf) e"
    by (rule init_error_empty [OF b req _ len(2,3)]) (use len(1) in simp)
  have e': "message_attrs e = Some []" "stun_message_has_cookie e = Some True" "message_room e = length buf - 20"
    using e(2) by (simp_all add: empty_message_def)
  have str: "length (stun_strerror STUN_ERROR_ROLE_CONFLICT) = 13"
    by (simp add: stun_strerror_def stun_strerror_tab_def)
  then have cost: "attrs_cost e conflict_attrs \<le> 24"
    using message_cost_le [of e 17] by (simp add: attrs_cost_def conflict_attrs_def)
  have fr: "STUN_ATTRIBUTE_MESSAGE_INTEGRITY \<notin> fst ` set conflict_attrs" "STUN_ATTRIBUTE_FINGERPRINT \<notin> fst ` set conflict_attrs"
    "distinct (map fst conflict_attrs)" by (simp_all add: conflict_attrs_def)
  obtain m where m: "append_all stun_message_append_bytes e conflict_attrs = Some (STUN_MESSAGE_RETURN_SUCCESS, m)"
    "built e conflict_attrs m"
    by (rule append_all_built [OF e'(1,2) _ fr(3,1,2)]) (use cost e'(3) len(1) in simp)
  have code: "stun_message_find_error x = Some (Inr STUN_ERROR_ROLE_CONFLICT)"
    if "message_attrs x \<noteq> None" "attr_value x STUN_ATTRIBUTE_ERROR_CODE = map_of conflict_attrs STUN_ATTRIBUTE_ERROR_CODE" for x
    using that by (auto simp: stun_message_find_error_value conflict_attrs_def)
  have cd: "stun_message_find_error m = Some (Inr STUN_ERROR_ROLE_CONFLICT)" using m(2) by (intro code) (auto simp: built_def)
  obtain n msg1 st a1 m1 where r: "stun_agent_finish_message hmac md5 b m None = Some (n, b, msg1)"
    "stun_agent_validate hmac md5 a m0 (take n (buffer msg1)) vld = Some (st, a1, m1)"
    "accepted st" "carries_attrs conflict_attrs STUN_ERROR (cookie_id tid) m1" "0 < n"
    by (rule reply_received [where hmac = hmac and ?md5.0 = md5 and ?m0.0 = m0 and vld = vld,
          OF b a kb e(2) fr(1,2) _ m(2)]) (use cost len(1) cd hmac in auto)
  have "stun_message_find_error m1 = Some (Inr STUN_ERROR_ROLE_CONFLICT)"
    using r(4) by (intro code) (auto simp: carries_attrs_def)
  then have "stun_usage_ice_conncheck_process m1 addr addrlen cmp = Some (STUN_USAGE_ICE_RETURN_ROLE_CONFLICT, addr, addrlen)"
    using r(4) by (simp add: stun_usage_ice_conncheck_process_def carries_attrs_def)
  then show thesis using e(1) m(1) r(1) by (intro that [OF _ r(2,3)]) (simp_all add: stun_bind_error_def)
qed

text \<open>The size of the response to a user \<open>u\<close> at the address \<open>src\<close> before it is sealed, and the size of the seal: the
  attributes MESSAGE-INTEGRITY and, if it is used, FINGERPRINT.\<close>

definition reply_size :: "stun_agent \<Rightarrow> sockaddr \<Rightarrow> bytes \<Rightarrow> StunUsageIceCompatibility \<Rightarrow> nat" where
  "reply_size b src u cmp = 20 + (4 + length (addr_bytes src))
     + (4 + padded_len (\<not> has_flag b STUN_AGENT_USAGE_NO_ALIGNED_ATTRIBUTES) (length u))
     + (if cmp = STUN_USAGE_ICE_COMPATIBILITY_MSICE2 then 8 else 0)"

definition seal_size :: "stun_agent \<Rightarrow> nat" where
  "seal_size b = 24 + (if uses_fingerprint b then 8 else 0)"

lemma reply_size_le: "reply_size b src u cmp \<le> length (addr_bytes src) + length u + 42"
  using padded_len_le [of "\<not> has_flag b STUN_AGENT_USAGE_NO_ALIGNED_ATTRIBUTES" "length u"] by (simp add: reply_size_def)

text \<open>The reply before it is sealed.\<close>

lemma reply_built:
  assumes b: "ice_agent b" and cmp: "ice_compatible cmp"
    and req: "carries_attrs as STUN_REQUEST (cookie_id tid) req" "key req = Some kb" "map_of as STUN_ATTRIBUTE_USERNAME = Some u"
    and len: "reply_size b src u cmp \<le> length buf" "length buf \<le> 65535" "length tid = 16"
    and src: "sockaddr_ok src" "src \<noteq> SA_OTHER" "sockaddr_len src \<le> srclen" "srclen \<le> sizeof_sockaddr_storage"
  obtains e y m where "empty_message b STUN_RESPONSE (cookie_id tid) (Some kb) (length buf) e"
    "built e (reply_attrs y u (cmp = STUN_USAGE_ICE_COMPATIBILITY_MSICE2)) m" "sockaddr_ok y" "y \<noteq> SA_OTHER"
    "sockaddr_len y = sockaddr_len src" "length (addr_bytes y) = length (addr_bytes src)"
    "stun_xor_address (buffer e) y (sockaddr_len y) STUN_MAGIC_COOKIE = Some (STUN_MESSAGE_RETURN_SUCCESS, src)"
    "20 + attrs_cost e (reply_attrs y u (cmp = STUN_USAGE_ICE_COMPATIBILITY_MSICE2)) = reply_size b src u cmp"
    "build_reply ps hmac md5 b req msg buf (length buf) src srclen cmp = (stun_agent_finish_message hmac md5 b m None
       \<bind> (\<lambda>(len, ag, msg). Some (if len = 0 then Inl STUN_MESSAGE_RETURN_SUCCESS else Inr len, ag, msg)))"
proof -
  obtain e where e: "stun_agent_init_response ps b msg buf (length buf) req = Some (True, e)"
    "empty_message b STUN_RESPONSE (cookie_id tid) (Some kb) (length buf) e"
    by (rule init_response_empty [OF b req(1,2) _ len(2,3)]) (use len(1) in \<open>simp add: reply_size_def\<close>)
  have e': "message_attrs e = Some []" "stun_message_has_cookie e = Some True" "message_room e = length buf - 20"
    using e(2) by (simp_all add: empty_message_def)
  obtain y where y: "stun_xor_address (buffer e) src srclen STUN_MAGIC_COOKIE = Some (STUN_MESSAGE_RETURN_SUCCESS, y)"
    "sockaddr_ok y" "y \<noteq> SA_OTHER" "sockaddr_len y = sockaddr_len src" "addr_attr_len y = addr_attr_len src"
    "stun_xor_address (buffer e) y (sockaddr_len y) STUN_MAGIC_COOKIE = Some (STUN_MESSAGE_RETURN_SUCCESS, src)"
    using stun_xor_address_ok [OF src(1-3) message_attrsD(2) [OF e'(1)]] by metis
  have yl: "length (addr_bytes y) = length (addr_bytes src)"
    using y(2,3,5) src(1,2) by (cases y; cases src; simp add: addr_bytes_def)
  note Y = addr_bytes_facts [OF y(2,3)]
  let ?ms = "cmp = STUN_USAGE_ICE_COMPATIBILITY_MSICE2"
  let ?as = "reply_attrs y u ?ms"
  have cost: "20 + attrs_cost e ?as = reply_size b src u cmp"
  proof -
    have "4 dvd length (addr_bytes y)" using y(2,3) by (cases y) (simp_all add: addr_bytes_def)
    then have "message_cost e (length (addr_bytes y)) = length (addr_bytes y) + 4" "message_cost e 4 = 8"
      by (auto simp: message_cost_def padded_len_def elim!: dvdE)
    moreover have "no_aligned_attributes e = has_flag b STUN_AGENT_USAGE_NO_ALIGNED_ATTRIBUTES"
      using e(2) by (intro has_flag_cfg) (simp add: empty_message_def)
    ultimately show ?thesis using yl by (simp add: attrs_cost_def reply_attrs_def reply_size_def message_cost_def)
  qed
  have fr: "STUN_ATTRIBUTE_MESSAGE_INTEGRITY \<notin> fst ` set ?as" "STUN_ATTRIBUTE_FINGERPRINT \<notin> fst ` set ?as"
    "distinct (map fst ?as)" by (auto simp: reply_attrs_def)
  obtain m where m: "append_all stun_message_append_bytes e ?as = Some (STUN_MESSAGE_RETURN_SUCCESS, m)" "built e ?as m"
    by (rule append_all_built [OF e'(1,2) _ fr(3,1,2)]) (use cost e'(3) len(1) in simp)
  have addr: "reply_append_address cmp e src srclen
      = stun_message_append_bytes e STUN_ATTRIBUTE_XOR_MAPPED_ADDRESS (addr_bytes y)"
    using cmp e'(2) y(1,4) src(3,4) Y(3) [of srclen e STUN_ATTRIBUTE_XOR_MAPPED_ADDRESS]
    by (auto simp: reply_append_address_def ice_compatible_def stun_message_append_xor_addr_def Let_def)
  have user: "reply_append_username req x = stun_message_append_bytes x STUN_ATTRIBUTE_USERNAME u" for x
  proof -
    have "attr_value req STUN_ATTRIBUTE_USERNAME = Some u" using req(1,3) by (simp add: carries_attrs_def)
    then show ?thesis
      by (auto simp: reply_append_username_def found_bytes_def attr_value_def split: option.split_asm)
  qed
  obtain x1 x2 where x: "stun_message_append_bytes e STUN_ATTRIBUTE_XOR_MAPPED_ADDRESS (addr_bytes y) = Some (STUN_MESSAGE_RETURN_SUCCESS, x1)"
    "stun_message_append_bytes x1 STUN_ATTRIBUTE_USERNAME u = Some (STUN_MESSAGE_RETURN_SUCCESS, x2)"
    "append_all stun_message_append_bytes x2 (if ?ms then [(STUN_ATTRIBUTE_MS_IMPLEMENTATION_VERSION, be32 2)] else [])
       = Some (STUN_MESSAGE_RETURN_SUCCESS, m)"
    using m(1) unfolding reply_attrs_def append_all.simps
    by (auto elim!: bind_SomeE split: if_split_asm)
  have "build_reply ps hmac md5 b req msg buf (length buf) src srclen cmp = (stun_agent_finish_message hmac md5 b m None
       \<bind> (\<lambda>(len, ag, msg). Some (if len = 0 then Inl STUN_MESSAGE_RETURN_SUCCESS else Inr len, ag, msg)))"
    using e(1) addr user x
    by (simp add: build_reply_def stun_message_append32_def le32_htonl append_when_all)
  then show thesis by (rule that [OF e(2) m(2) y(2-4) yl y(6) cost])
qed

lemma success_answered:
  assumes b: "ice_agent b" and a: "agent_cfg a = agent_cfg b" "pending_check a (cookie_id tid) kb" and kb: "kb \<noteq> []"
    and cmp: "ice_compatible cmp"
    and req: "carries_attrs as STUN_REQUEST (cookie_id tid) req" "key req = Some kb" "map_of as STUN_ATTRIBUTE_USERNAME = Some u"
    and len: "104 + length u \<le> length buf" "length buf \<le> 65535" "length tid = 16" and hmac: "\<And>k d. length (hmac k d) = 20"
    and src: "sockaddr_ok src" "src \<noteq> SA_OTHER" "sockaddr_len src \<le> srclen" "srclen \<le> sizeof_sockaddr_storage"
    and addrlen: "sizeof_sockaddr_in6 \<le> addrlen"
  obtains n msg1 st a1 m1 where
    "build_reply ps hmac md5 b req msg buf (length buf) src srclen cmp = Some (Inr n, b, msg1)"
    "stun_agent_validate hmac md5 a m0 (take n (buffer msg1)) vld = Some (st, a1, m1)" "accepted st"
    "stun_usage_ice_conncheck_process m1 addr addrlen cmp = Some (STUN_USAGE_ICE_RETURN_SUCCESS, src, sockaddr_len src)"
proof -
  let ?ms = "cmp = STUN_USAGE_ICE_COMPATIBILITY_MSICE2"
  have sl: "length (addr_bytes src) \<le> 20" by (rule addr_bytes_facts(1) [OF src(1,2)])
  obtain e y m where E: "empty_message b STUN_RESPONSE (cookie_id tid) (Some kb) (length buf) e"
    "built e (reply_attrs y u ?ms) m" "sockaddr_ok y" "y \<noteq> SA_OTHER"
    "sockaddr_len y = sockaddr_len src" "length (addr_bytes y) = length (addr_bytes src)"
    "stun_xor_address (buffer e) y (sockaddr_len y) STUN_MAGIC_COOKIE = Some (STUN_MESSAGE_RETURN_SUCCESS, src)"
    "20 + attrs_cost e (reply_attrs y u ?ms) = reply_size b src u cmp"
    "build_reply ps hmac md5 b req msg buf (length buf) src srclen cmp = (stun_agent_finish_message hmac md5 b m None
       \<bind> (\<lambda>(len, ag, msg). Some (if len = 0 then Inl STUN_MESSAGE_RETURN_SUCCESS else Inr len, ag, msg)))"
    by (rule reply_built [where hmac = hmac, OF b cmp req _ len(2,3) src])
      (use len(1) sl reply_size_le [of b src u cmp] in simp)
  let ?as = "reply_attrs y u ?ms"
  obtain n msg1 st a1 m1 where r: "stun_agent_finish_message hmac md5 b m None = Some (n, b, msg1)"
    "stun_agent_validate hmac md5 a m0 (take n (buffer msg1)) vld = Some (st, a1, m1)"
    "accepted st" "carries_attrs ?as STUN_RESPONSE (cookie_id tid) m1" "0 < n"
    by (rule reply_received [where hmac = hmac and ?md5.0 = md5 and ?m0.0 = m0 and vld = vld,
          OF b a kb E(1) _ _ _ E(2)]) (use E(8) reply_size_le [of b src u cmp] sl len(1) hmac in \<open>auto simp: reply_attrs_def\<close>)
  have "attr_value m1 STUN_ATTRIBUTE_XOR_MAPPED_ADDRESS = Some (addr_bytes y)"
    using r(4) by (simp add: carries_attrs_def reply_attrs_def)
  moreover obtain as1 where "message_attrs m1 = Some as1" using r(4) by (auto simp: carries_attrs_def)
  moreover have "sockaddr_len y \<le> addrlen" using addrlen by (cases y) auto
  ultimately have f: "stun_message_find_addr m1 STUN_ATTRIBUTE_XOR_MAPPED_ADDRESS addr addrlen
      = Some (STUN_MESSAGE_RETURN_SUCCESS, y, sockaddr_len y)"
    using stun_message_find_addr_value [of m1 as1 STUN_ATTRIBUTE_XOR_MAPPED_ADDRESS addr addrlen]
      addr_bytes_facts(2) [OF E(3,4)] by simp
  have "mem_read (buffer m1) 4 16 = mem_read (buffer e) 4 16"
    using r(4) E(1) by (simp add: carries_attrs_def empty_message_def stun_message_id_def)
  from stun_xor_address_id [OF this]
  have "stun_xor_address (buffer m1) y (sockaddr_len y) STUN_MAGIC_COOKIE = Some (STUN_MESSAGE_RETURN_SUCCESS, src)"
    using E(7) by metis
  with f E(5) have "stun_message_find_xor_addr m1 STUN_ATTRIBUTE_XOR_MAPPED_ADDRESS addr addrlen
      = Some (STUN_MESSAGE_RETURN_SUCCESS, src, sockaddr_len src)" by (simp add: stun_message_find_xor_addr_def)
  moreover have "stun_message_get_class m1 = Some STUN_RESPONSE" "stun_message_get_method m1 = Some STUN_BINDING"
    using r(4) by (simp_all add: carries_attrs_def)
  moreover have "cmp \<noteq> STUN_USAGE_ICE_COMPATIBILITY_MSN" using cmp by (auto simp: ice_compatible_def)
  ultimately have "stun_usage_ice_conncheck_process m1 addr addrlen cmp
      = Some (STUN_USAGE_ICE_RETURN_SUCCESS, src, sockaddr_len src)"
    by (simp add: stun_usage_ice_conncheck_process_def)
  then show thesis using E(9) r(1,5) by (intro that [OF _ r(2,3)]) simp_all
qed

text \<open>Sealing a message: it fails without an error status when the seal does not fit.\<close>

lemma finish_full:
  assumes b: "ice_agent b" and wf: "message_attrs m = Some as" and k: "key m = Some kb"
    and cls: "stun_message_get_class m = Some STUN_RESPONSE" and hmac: "\<And>k d. length (hmac k d) = 20"
    and room: "message_room m < seal_size b" "length (buffer m) \<le> 65535"
  shows "\<exists>msg1. stun_agent_finish_message hmac md5 b m None = Some (0, b, msg1)"
proof -
  note D = message_attrsD [OF wf]
  have bl: "buffer_len m = length (buffer m)" by (rule D(1))
  obtain ty where "stun_message_type m = Some ty" using header_defined [OF wf] by blast
  then have rem: "finish_remember b m = Some False"
    using cls by (simp add: finish_remember_def stun_message_get_method_def)
  have short: "\<not> has_flag b STUN_AGENT_USAGE_LONG_TERM_CREDENTIALS" using b by (simp add: ice_agent_def)
  have c: "message_cost m 20 = 24" by (simp add: message_cost_def padded_len_def)
  show ?thesis
  proof (cases "message_room m < 24")
    case True
    then have "stun_message_append m STUN_ATTRIBUTE_MESSAGE_INTEGRITY 20 = Some (None, m)"
      using stun_message_append_full [OF wf, of 20] room(2) bl by (simp add: message_room_def)
    then have "finish_integrity hmac md5 b m (Some kb) = Some (False, m)"
      using short by (simp add: finish_integrity_def finish_credentials_def)
    then show ?thesis using rem k by (simp add: stun_agent_finish_message_def)
  next
    case False
    then have fp: "uses_fingerprint b" "message_room m < 32" using room(1) by (auto simp: seal_size_def split: if_splits)
    have f20: "message_cost m 20 \<le> message_room m" using False c by simp
    obtain x sha where x: "finish_integrity hmac md5 b m (Some kb) = Some (True, m\<lparr>buffer := x\<rparr>)"
      "holds_attr m STUN_ATTRIBUTE_MESSAGE_INTEGRITY 20 x"
      by (rule finish_integrity_ok [OF wf f20 short hmac])
    have af: "attr_fits m 20" using attr_fits_room [OF wf] f20 by simp
    note h = holds_attr_message [OF wf af x(2)]
    have "message_end (m\<lparr>buffer := x\<rparr>) = message_end m + 24" "length x = length (buffer m)"
      using h(2) x(2) by (simp_all add: padded_len_def holds_attr_def)
    then have "stun_message_append (m\<lparr>buffer := x\<rparr>) STUN_ATTRIBUTE_FINGERPRINT 4 = Some (None, m\<lparr>buffer := x\<rparr>)"
      using stun_message_append_full [OF h(1), of 4] fp(2) room(2) bl by (simp add: message_room_def)
    then have "finish_fingerprint b (m\<lparr>buffer := x\<rparr>) = Some (False, m\<lparr>buffer := x\<rparr>)"
      using fp(1) by (simp add: finish_fingerprint_def uses_fingerprint_def)
    then show ?thesis using rem k x(1) by (simp add: stun_agent_finish_message_def)
  qed
qed

lemma finish_fits:
  assumes b: "ice_agent b" and wf: "message_attrs m = Some as" and k: "key m = Some kb"
    and cls: "stun_message_get_class m = Some STUN_RESPONSE" and hmac: "\<And>k d. length (hmac k d) = 20"
    and op: "open_for m STUN_ATTRIBUTE_MESSAGE_INTEGRITY" and room: "seal_size b \<le> message_room m"
  shows "\<exists>n msg1. stun_agent_finish_message hmac md5 b m None = Some (n, b, msg1) \<and> 0 < n"
proof -
  obtain ty where "stun_message_type m = Some ty" using header_defined [OF wf] by blast
  then have rem: "finish_remember b m = Some False"
    using cls by (simp add: finish_remember_def stun_message_get_method_def)
  have fits: "message_cost m 20 + (if uses_fingerprint b then message_cost m 4 else 0) \<le> message_room m"
    using room by (cases "uses_fingerprint b") (simp_all add: seal_size_def message_cost_def padded_len_def)
  obtain ag1 msg1 as' where f: "stun_agent_finish_message hmac md5 b m None = Some (message_end msg1, ag1, msg1)"
    "message_attrs msg1 = Some as'"
    by (rule finish_message_sealed [OF wf fits op _ hmac, where k = None and kb = kb]) (use b k rem in \<open>simp_all add: ice_agent_def\<close>)
  have "ag1 = b" by (rule finish_message_agent [OF f(1) rem])
  moreover have "0 < message_end msg1" using message_attrsD [OF f(2)] by simp
  ultimately show ?thesis using f(1) by blast
qed

section \<open>Claims\<close>

text \<open>C5: a connectivity check works end to end. An agent sends a check, the peer that knows the password of
  the user validates it and answers, and the agent validates the answer. Then the peer has read the
  priority and the nomination flag that were sent, and the agent learns the address the check came from.
  If both agents had taken the same role, exactly one of them is told to give it up, and it is the one that
  the tie-breakers designate: either the peer has changed its role and the check still succeeds, or the
  peer keeps its role and the agent's answer is a role conflict. The buffers have room for the attributes,
  and the transaction table has a free slot.\<close>

theorem conncheck_exchange:
  assumes a: "ice_agent a" and cmp: "ice_compatible cmp" and u: "u \<noteq> []" and kb: "kb \<noteq> []"
    and len: "length tid = 16" "104 + length u + length ident \<le> length buf" "length buf \<le> 65535"
    and len': "104 + length u \<le> length buf'" "length buf' \<le> 65535"
    and hmac: "\<And>k d. length (hmac k d) = 20"
    and slot: "\<exists>s \<in> set (sent_ids a). \<not> sid_valid s"
    and fresh: "\<forall>s \<in> set (sent_ids a). sid_valid s \<longrightarrow> sid_id s \<noteq> cookie_id tid"
    and b: "ice_agent b" "agent_cfg b = agent_cfg a" and vld: "\<And>m. f b m (Some u) None = Some (Some kb)"
    and src: "sockaddr_ok src" "src \<noteq> SA_OTHER" "sockaddr_len src \<le> srclen" "srclen \<le> sizeof_sockaddr_storage"
    and addrlen: "sizeof_sockaddr_in6 \<le> addrlen"
  shows "\<exists>n a1 req st b1 m1 r st2 a2 m2.
    stun_usage_ice_conncheck_create ps tid hmac md5 a msg buf (length buf) (Some u) (Some kb) use ctl prio tie ident cmp
      = Some (n, a1, req)
    \<and> stun_agent_validate hmac md5 b m0 (take n (buffer req)) (Some f) = Some (st, b1, m1) \<and> accepted st
    \<and> stun_usage_ice_conncheck_priority m1 = Some prio \<and> stun_usage_ice_conncheck_use_candidate m1 = Some use
    \<and> stun_usage_ice_conncheck_create_reply ps hmac md5 b1 m1 msg' buf' (length buf') src srclen control tie' cmp = Some r
    \<and> stun_agent_validate hmac md5 a1 m0' (take (ir_plen r) (buffer (ir_msg r))) vld' = Some (st2, a2, m2) \<and> accepted st2
    \<and> (if control = ctl \<and> resolve_conflict control tie' tie = None
       then ir_return r = STUN_USAGE_ICE_RETURN_ROLE_CONFLICT \<and> ir_control r = control
         \<and> stun_usage_ice_conncheck_process m2 addr addrlen cmp = Some (STUN_USAGE_ICE_RETURN_ROLE_CONFLICT, addr, addrlen)
       else ir_return r = (if control = ctl then STUN_USAGE_ICE_RETURN_ROLE_CONFLICT else STUN_USAGE_ICE_RETURN_SUCCESS)
         \<and> ir_control r = (\<not> ctl)
         \<and> stun_usage_ice_conncheck_process m2 addr addrlen cmp = Some (STUN_USAGE_ICE_RETURN_SUCCESS, src, sockaddr_len src))"
proof -
  let ?as = "conncheck_attrs u use ctl prio tie ident (cmp = STUN_USAGE_ICE_COMPATIBILITY_MSICE2)"
  note A = conncheck_attrs_facts [of u use ctl prio tie ident "cmp = STUN_USAGE_ICE_COMPATIBILITY_MSICE2"]
  obtain n a1 req st b1 m1 where s:
    "stun_usage_ice_conncheck_create ps tid hmac md5 a msg buf (length buf) (Some u) (Some kb) use ctl prio tie ident cmp
       = Some (n, a1, req)"
    "stun_agent_validate hmac md5 b m0 (take n (buffer req)) (Some f) = Some (st, b1, m1)" "accepted st"
    "carries_attrs ?as STUN_REQUEST (cookie_id tid) m1"
    "key m1 = Some kb" "same_setup b b1" "agent_cfg a1 = agent_cfg a" "pending_check a1 (cookie_id tid) kb"
    by (rule conncheck_sent [where f = f and hmac = hmac and ?md5.0 = md5 and ?m0.0 = m0 and ps = ps and msg = msg and use = use
          and ctl = ctl and prio = prio and tie = tie, OF a cmp u kb len hmac slot fresh b(2) vld])
  have cfg: "agent_cfg b1 = agent_cfg b" using s(6) by (simp add: same_setup_def)
  have b1: "ice_agent b1" using b(1) s(6) same_cfg_simps [OF cfg] by (simp add: ice_agent_def same_setup_def)
  have a1: "agent_cfg a1 = agent_cfg b1" using s(7) cfg b(2) by simp
  obtain as1 where as1: "message_attrs m1 = Some as1" using s(4) by (auto simp: carries_attrs_def)
  have val: "attr_value m1 t = map_of ?as t" if "t \<noteq> STUN_ATTRIBUTE_MESSAGE_INTEGRITY" "t \<noteq> STUN_ATTRIBUTE_FINGERPRINT" for t
    using s(4) that by (simp add: carries_attrs_def)
  note F = built_finds [OF as1, of ?as, OF val]
  have prio: "stun_usage_ice_conncheck_priority m1 = Some prio" "stun_usage_ice_conncheck_use_candidate m1 = Some use"
    using F(1) [OF _ _ A(4)] F(2) A(5) by auto
  have role: "stun_message_find64 m1 (ice_role_attribute c) = Some (if c = ctl then Inr tie else Inl STUN_MESSAGE_RETURN_NOT_FOUND)" for c
    using F(3) [of c] A(7) [of c] be64_halves [of tie] by auto
  have cm: "stun_message_get_class m1 = Some STUN_REQUEST" "stun_message_get_method m1 = Some STUN_BINDING"
    using s(4) by (simp_all add: carries_attrs_def)
  show ?thesis
  proof (cases "control = ctl \<and> resolve_conflict control tie' tie = None")
    case True
    then have c: "control = ctl" "resolve_conflict ctl tie' tie = None" by auto
    obtain n' msg1 st2 a2 m2 where r:
      "stun_bind_error ps hmac md5 b1 msg' buf' (length buf') m1 STUN_ERROR_ROLE_CONFLICT = Some (n', b1, msg1)"
      "stun_agent_validate hmac md5 a1 m0' (take n' (buffer msg1)) vld' = Some (st2, a2, m2)" "accepted st2"
      "stun_usage_ice_conncheck_process m2 addr addrlen cmp = Some (STUN_USAGE_ICE_RETURN_ROLE_CONFLICT, addr, addrlen)"
      by (rule conflict_answered [where hmac = hmac, OF b1 a1 s(8) kb s(4,5) _ len'(2) len(1)]) (use len'(1) hmac in auto)
    have "stun_usage_ice_conncheck_create_reply ps hmac md5 b1 m1 msg' buf' (length buf') src srclen control tie' cmp
        = Some \<lparr>ir_return = STUN_USAGE_ICE_RETURN_ROLE_CONFLICT, ir_plen = n', ir_control = control, ir_agent = b1, ir_msg = msg1\<rparr>"
      using c cm role r(1) by (simp add: stun_usage_ice_conncheck_create_reply_def)
    then show ?thesis using s(1-3) prio r True by force
  next
    case False
    obtain n' msg1 st2 a2 m2 where r:
      "build_reply ps hmac md5 b1 m1 msg' buf' (length buf') src srclen cmp = Some (Inr n', b1, msg1)"
      "stun_agent_validate hmac md5 a1 m0' (take n' (buffer msg1)) vld' = Some (st2, a2, m2)" "accepted st2"
      "stun_usage_ice_conncheck_process m2 addr addrlen cmp = Some (STUN_USAGE_ICE_RETURN_SUCCESS, src, sockaddr_len src)"
      by (rule success_answered [where hmac = hmac, OF b1 a1 s(8) kb cmp s(4,5) A(6) len' len(1) _ src addrlen]) (use hmac in auto)
    let ?ret = "if control = ctl then STUN_USAGE_ICE_RETURN_ROLE_CONFLICT else STUN_USAGE_ICE_RETURN_SUCCESS"
    have "resolve_conflict control tie' tie = Some (\<not> ctl)" if "control = ctl"
      using False that by (auto simp: resolve_conflict_def split: if_splits)
    then have "stun_usage_ice_conncheck_create_reply ps hmac md5 b1 m1 msg' buf' (length buf') src srclen control tie' cmp
        = Some \<lparr>ir_return = ?ret, ir_plen = n', ir_control = (\<not> ctl), ir_agent = b1, ir_msg = msg1\<rparr>"
      using cm role r(1) by (cases "control = ctl") (simp_all add: stun_usage_ice_conncheck_create_reply_def)
    then show ?thesis using s(1-3) prio r False by force
  qed
qed

text \<open>Two agents that both think they are controlling; the peer has the higher tie-breaker.\<close>

theorem conncheck_exchange_witness:
  "\<exists>n a1 req st b1 m1 r st2 a2 m2.
    stun_usage_ice_conncheck_create [] (replicate 16 7) example_hmac id example_agent example_request (replicate 200 0) 200
        (Some [0x75, 0x73, 0x65, 0x72]) (Some [1, 2, 3]) True True 0x6e001eff 5 [] STUN_USAGE_ICE_COMPATIBILITY_RFC5245
      = Some (n, a1, req)
    \<and> stun_agent_validate example_hmac id example_agent example_request (take n (buffer req)) (Some example_validater)
      = Some (st, b1, m1) \<and> accepted st
    \<and> stun_usage_ice_conncheck_priority m1 = Some 0x6e001eff \<and> stun_usage_ice_conncheck_use_candidate m1 = Some True
    \<and> stun_usage_ice_conncheck_create_reply [] example_hmac id b1 m1 example_request (replicate 200 0) 200
        (SA_INET 0x3412 0x0100a8c0) 16 True 9 STUN_USAGE_ICE_COMPATIBILITY_RFC5245 = Some r
    \<and> stun_agent_validate example_hmac id a1 example_request (take (ir_plen r) (buffer (ir_msg r))) None = Some (st2, a2, m2)
    \<and> accepted st2 \<and> ir_return r = STUN_USAGE_ICE_RETURN_ROLE_CONFLICT \<and> ir_control r = True
    \<and> stun_usage_ice_conncheck_process m2 SA_OTHER 128 STUN_USAGE_ICE_COMPATIBILITY_RFC5245
      = Some (STUN_USAGE_ICE_RETURN_ROLE_CONFLICT, SA_OTHER, 128)"
proof -
  have ag: "ice_agent example_agent"
    by (simp add: ice_agent_def example_agent_def stun_agent_init_def has_flag_def cookie_compat_def)
  have fresh: "\<forall>s \<in> set (sent_ids example_agent). sid_valid s \<longrightarrow> sid_id s \<noteq> cookie_id (replicate 16 7)"
    by (simp add: example_agent_def stun_agent_init_def empty_saved_id_def)
  have none: "resolve_conflict True 9 5 = None" by (simp add: resolve_conflict_def)
  show ?thesis
    using conncheck_exchange [where hmac = example_hmac and f = example_validater and u = "[0x75, 0x73, 0x65, 0x72]"
        and kb = "[1, 2, 3]" and tid = "replicate 16 7" and buf = "replicate 200 0" and buf' = "replicate 200 0"
        and ident = "[]" and src = "SA_INET 0x3412 0x0100a8c0" and srclen = 16 and addrlen = 128 and ps = "[]"
        and msg = example_request and msg' = example_request and ?m0.0 = example_request and m0' = example_request
        and use = True and ctl = True and control = True and prio = "0x6e001eff" and tie = 5 and tie' = 9
        and addr = SA_OTHER and vld' = None and ?md5.0 = id and cmp = STUN_USAGE_ICE_COMPATIBILITY_RFC5245,
        OF ag _ _ _ _ _ _ _ _ _ example_agent_flags(4) fresh ag] none
    by (simp add: ice_compatible_def example_hmac_def example_validater_def stun_agent_default_validater_def)
qed

text \<open>C37: What happens to the reply to a check when the attributes of the response fit into the buffer, for each
  size of the buffer. If MESSAGE-INTEGRITY and, where it is used, FINGERPRINT fit behind them the reply is built. If
  they do not, the response fails with the status SUCCESS of the last attribute, which the failure branch takes
  for impossible: the message is built without leaving the buffer, and then the process aborts at the \<^verbatim>\<open>assert (0)\<close>
  of \<open>ice_reply_failure\<close>.\<close>

theorem reply_without_room_aborts:
  assumes b: "ice_agent b" and cmp: "ice_compatible cmp"
    and req: "carries_attrs as STUN_REQUEST (cookie_id tid) req" "key req = Some kb" "map_of as STUN_ATTRIBUTE_USERNAME = Some u"
    and role: "map_of as (ice_role_attribute control) = None" and hmac: "\<And>k d. length (hmac k d) = 20"
    and len: "reply_size b src u cmp \<le> length buf" "length buf \<le> 65535" "length tid = 16"
    and src: "sockaddr_ok src" "src \<noteq> SA_OTHER" "sockaddr_len src \<le> srclen" "srclen \<le> sizeof_sockaddr_storage"
  shows "if length buf < reply_size b src u cmp + seal_size b
    then (\<exists>m. build_reply ps hmac md5 b req msg buf (length buf) src srclen cmp = Some (Inl STUN_MESSAGE_RETURN_SUCCESS, b, m))
      \<and> ice_reply_failure STUN_MESSAGE_RETURN_SUCCESS = None
      \<and> stun_usage_ice_conncheck_create_reply ps hmac md5 b req msg buf (length buf) src srclen control tie cmp = None
    else \<exists>n m. 0 < n
      \<and> stun_usage_ice_conncheck_create_reply ps hmac md5 b req msg buf (length buf) src srclen control tie cmp
        = Some \<lparr>ir_return = STUN_USAGE_ICE_RETURN_SUCCESS, ir_plen = n, ir_control = control, ir_agent = b, ir_msg = m\<rparr>"
proof -
  let ?ms = "cmp = STUN_USAGE_ICE_COMPATIBILITY_MSICE2"
  obtain e y m where E: "empty_message b STUN_RESPONSE (cookie_id tid) (Some kb) (length buf) e"
    "built e (reply_attrs y u ?ms) m" "20 + attrs_cost e (reply_attrs y u ?ms) = reply_size b src u cmp"
    "build_reply ps hmac md5 b req msg buf (length buf) src srclen cmp = (stun_agent_finish_message hmac md5 b m None
       \<bind> (\<lambda>(len, ag, msg). Some (if len = 0 then Inl STUN_MESSAGE_RETURN_SUCCESS else Inr len, ag, msg)))"
    by (rule reply_built [where hmac = hmac, OF b cmp req len src])
  obtain as' where as': "message_attrs m = Some as'" using E(2) by (auto simp: built_def)
  have room: "message_room m = length buf - reply_size b src u cmp" "length (buffer m) = length buf"
    using E(1-3) by (simp_all add: built_def empty_message_def same_header_def)
  note H = built_header [OF E(2,1)]
  have op: "open_for m STUN_ATTRIBUTE_MESSAGE_INTEGRITY"
    by (rule built_open [OF E(2)]) (auto simp: reply_attrs_def)
  obtain as1 where as1: "message_attrs req = Some as1" using req(1) by (auto simp: carries_attrs_def)
  have roles: "stun_message_find64 req (ice_role_attribute control) = Some (Inl STUN_MESSAGE_RETURN_NOT_FOUND)"
    "stun_message_find64 req (ice_role_attribute (\<not> control)) \<noteq> None"
    using stun_message_find64_value [OF as1] role req(1)
    by (auto simp: carries_attrs_def ice_role_attribute_def split: if_splits)
  show ?thesis
  proof (cases "length buf < reply_size b src u cmp + seal_size b")
    case True
    then have "message_room m < seal_size b" using room(1) len(1) by simp
    then obtain msg1 where "stun_agent_finish_message hmac md5 b m None = Some (0, b, msg1)"
      using finish_full [where hmac = hmac and ?md5.0 = md5, OF b as' H(7,2) hmac] room len(2) by auto
    then have br: "build_reply ps hmac md5 b req msg buf (length buf) src srclen cmp
        = Some (Inl STUN_MESSAGE_RETURN_SUCCESS, b, msg1)" using E(4) by simp
    then show ?thesis using True roles req(1)
      by (auto simp: stun_usage_ice_conncheck_create_reply_def carries_attrs_def ice_reply_failure_def)
  next
    case False
    then have "seal_size b \<le> message_room m" using room(1) by simp
    then obtain n msg1 where "stun_agent_finish_message hmac md5 b m None = Some (n, b, msg1)" "0 < n"
      using finish_fits [where hmac = hmac and ?md5.0 = md5, OF b as' H(7,2) hmac op] room by auto
    then have "build_reply ps hmac md5 b req msg buf (length buf) src srclen cmp = Some (Inr n, b, msg1)" using E(4) by simp
    then show ?thesis using False roles req(1) \<open>0 < n\<close>
      by (auto simp: stun_usage_ice_conncheck_create_reply_def carries_attrs_def)
  qed
qed

text \<open>The request of the examples, received with its key, and a buffer of 60 bytes.\<close>

theorem reply_without_room_aborts_witness:
  "stun_usage_ice_conncheck_create_reply [] example_hmac id example_agent (example_request\<lparr>key := Some [1, 2, 3]\<rparr>) example_message
     (replicate 60 0) 60 (SA_INET 0x3412 0x0100a8c0) 16 True 9 STUN_USAGE_ICE_COMPATIBILITY_RFC5245 = None"
proof -
  let ?u = "[0x75, 0x73, 0x65, 0x72] :: bytes" and ?r = "example_request\<lparr>key := Some [1, 2, 3]\<rparr>"
  have ag: "ice_agent example_agent"
    by (simp add: ice_agent_def example_agent_def stun_agent_init_def has_flag_def cookie_compat_def)
  have v: "attr_value ?r t = map_of [(STUN_ATTRIBUTE_USERNAME, ?u)] t" for t
  proof (cases "t = STUN_ATTRIBUTE_USERNAME")
    case True
    then show ?thesis using example_request_facts(6) by (simp only: set_key_derived) simp
  next
    case False
    have "oc2007_type example_request t = t"
      by (simp add: oc2007_type_def example_request_def agent_cfg_def example_agent_def stun_agent_init_def)
    then show ?thesis using False stun_message_find_lookup [OF example_request_facts(2), of t]
      by (simp only: set_key_derived) (simp add: attr_value_def)
  qed
  have id: "stun_message_id example_request = Some (cookie_id (replicate 16 7))"
    "stun_message_get_method example_request = Some STUN_BINDING"
    by (simp_all add: stun_message_id_def example_request_def mem_read_def cookie_id_def be32_def stun_message_get_method_def
        stun_message_type_def stun_getw_def rd8_def)
  have "carries_attrs [(STUN_ATTRIBUTE_USERNAME, ?u)] STUN_REQUEST (cookie_id (replicate 16 7)) ?r"
    using v id example_request_facts
    by (simp add: carries_attrs_def stun_message_get_class_def stun_message_get_method_def stun_message_has_cookie_def set_key_simps)
  moreover have "length (example_hmac k d) = 20" for k d by (simp add: example_hmac_def)
  moreover have "reply_size example_agent (SA_INET 0x3412 0x0100a8c0) ?u STUN_USAGE_ICE_COMPATIBILITY_RFC5245 = 40"
    "24 \<le> seal_size example_agent"
    by (simp_all add: reply_size_def seal_size_def addr_bytes_def padded_len_def)
  ultimately show ?thesis
    using reply_without_room_aborts [where hmac = example_hmac and as = "[(STUN_ATTRIBUTE_USERNAME, ?u)]"
        and tid = "replicate 16 7" and kb = "[1, 2, 3]" and u = ?u and control = True and buf = "replicate 60 0" and srclen = 16
        and src = "SA_INET 0x3412 0x0100a8c0" and ps = "[]" and ?md5.0 = id and msg = example_message and tie = 9
        and req = ?r and cmp = STUN_USAGE_ICE_COMPATIBILITY_RFC5245, OF ag]
    by (simp add: ice_compatible_def ice_role_attribute_def)
qed

end
