(* ===== verification/Stun_Usage_Bind.thy ===== *)
theory Stun_Usage_Bind
  imports Stun_Usage_Ice Stun_Timer
begin







definition stun_usage_bind_keepalive ::
  "bytes \<Rightarrow> hmac_fun \<Rightarrow> (bytes \<Rightarrow> bytes) \<Rightarrow> stun_agent \<Rightarrow> stun_message \<Rightarrow> bytes \<Rightarrow> nat
   \<Rightarrow> (nat \<times> stun_agent \<times> stun_message) option" where
  "stun_usage_bind_keepalive tid hmac md5 ag msg buf len = do {
     (_, msg) \<leftarrow> stun_agent_init_indication tid ag msg buf len STUN_BINDING;
     stun_agent_finish_message hmac md5 ag msg None
   }"

section \<open>Blocking discovery\<close>








section \<open>The loop ends\<close>











section \<open>Claims\<close>





end
