(* ===== verification/Stun_Usage_Turn.thy ===== *)
theory Stun_Usage_Turn
  imports Stun_Usage_Ice
begin

text \<open>
  \<^verbatim>\<open>stun/usages/turn.c\<close>: allocations on a TURN server, their refreshes, permissions, and the processing of
  the server's responses.
\<close>

datatype StunUsageTurnRequestPorts =
    STUN_USAGE_TURN_REQUEST_PORT_NORMAL
  | STUN_USAGE_TURN_REQUEST_PORT_EVEN
  | STUN_USAGE_TURN_REQUEST_PORT_EVEN_AND_RESERVE

datatype StunUsageTurnCompatibility =
    STUN_USAGE_TURN_COMPATIBILITY_DRAFT9
  | STUN_USAGE_TURN_COMPATIBILITY_GOOGLE
  | STUN_USAGE_TURN_COMPATIBILITY_MSN
  | STUN_USAGE_TURN_COMPATIBILITY_OC2007
  | STUN_USAGE_TURN_COMPATIBILITY_RFC5766

datatype StunUsageTurnReturn =
    STUN_USAGE_TURN_RETURN_RELAY_SUCCESS
  | STUN_USAGE_TURN_RETURN_MAPPED_SUCCESS
  | STUN_USAGE_TURN_RETURN_ERROR
  | STUN_USAGE_TURN_RETURN_INVALID
  | STUN_USAGE_TURN_RETURN_ALTERNATE_SERVER

abbreviation (input) REQUESTED_PROPS_E :: u32 where "REQUESTED_PROPS_E \<equiv> 0x80000000"
abbreviation (input) REQUESTED_PROPS_R :: u32 where "REQUESTED_PROPS_R \<equiv> 0x40000000"
abbreviation (input) STUN_ATTRIBUTE_MSN_MAPPED_ADDRESS :: u16 where "STUN_ATTRIBUTE_MSN_MAPPED_ADDRESS \<equiv> 0x8000"
abbreviation (input) TURN_REQUESTED_TRANSPORT_UDP :: u32 where "TURN_REQUESTED_TRANSPORT_UDP \<equiv> 0x11000000"

definition turn_rfc :: "StunUsageTurnCompatibility \<Rightarrow> bool" where
  "turn_rfc cmp = (cmp = STUN_USAGE_TURN_COMPATIBILITY_DRAFT9 \<or> cmp = STUN_USAGE_TURN_COMPATIBILITY_RFC5766)"

section \<open>Requests\<close>

text \<open>A copy of an attribute of the previous response, when it is there.\<close>

definition append_copy ::
  "u16 \<Rightarrow> stun_message \<Rightarrow> stun_message \<Rightarrow> (StunMessageReturn \<times> stun_message) option" where
  "append_copy t resp msg = do {
     v \<leftarrow> found_bytes resp t;
     case v of None \<Rightarrow> Some (STUN_MESSAGE_RETURN_SUCCESS, msg)
     | Some b \<Rightarrow> stun_message_append_bytes msg t b
   }"

definition append_reservation ::
  "stun_message \<Rightarrow> stun_message \<Rightarrow> (StunMessageReturn \<times> stun_message) option" where
  "append_reservation resp msg = do {
     r \<leftarrow> stun_message_find64 resp STUN_ATTRIBUTE_RESERVATION_TOKEN;
     case r of Inl _ \<Rightarrow> Some (STUN_MESSAGE_RETURN_SUCCESS, msg)
     | Inr reservation \<Rightarrow> stun_message_append64 msg STUN_ATTRIBUTE_RESERVATION_TOKEN reservation
   }"

definition append_from ::
  "stun_message option \<Rightarrow> (stun_message \<Rightarrow> stun_message \<Rightarrow> (StunMessageReturn \<times> stun_message) option)
   \<Rightarrow> stun_message \<Rightarrow> (StunMessageReturn \<times> stun_message) option" where
  "append_from previous f msg =
     (case previous of None \<Rightarrow> Some (STUN_MESSAGE_RETURN_SUCCESS, msg) | Some resp \<Rightarrow> f resp msg)"

text \<open>The user name, when there is one that is not empty and the credentials ask for it.\<close>

definition append_username ::
  "stun_agent \<Rightarrow> stun_message option \<Rightarrow> bytes option \<Rightarrow> stun_message \<Rightarrow> (StunMessageReturn \<times> stun_message) option" where
  "append_username ag previous username msg =
     (case username of None \<Rightarrow> Some (STUN_MESSAGE_RETURN_SUCCESS, msg)
      | Some u \<Rightarrow> append_when (length u > 0
            \<and> (has_flag ag STUN_AGENT_USAGE_SHORT_TERM_CREDENTIALS \<or> previous \<noteq> None))
          (\<lambda>msg. stun_message_append_bytes msg STUN_ATTRIBUTE_USERNAME u) msg)"

definition requested_props :: "StunUsageTurnRequestPorts \<Rightarrow> u32" where
  "requested_props props =
     (case props of
        STUN_USAGE_TURN_REQUEST_PORT_NORMAL \<Rightarrow> 0
      | STUN_USAGE_TURN_REQUEST_PORT_EVEN \<Rightarrow> REQUESTED_PROPS_E
      | STUN_USAGE_TURN_REQUEST_PORT_EVEN_AND_RESERVE \<Rightarrow> REQUESTED_PROPS_R OR REQUESTED_PROPS_E)"

text \<open>\<^verbatim>\<open>bandwidth\<close> and \<^verbatim>\<open>lifetime\<close> are signed; a negative value leaves the attribute out. The result of
  appending MS-VERSION is ignored by the source.\<close>

definition stun_usage_turn_create ::
  "bytes \<Rightarrow> bytes \<Rightarrow> hmac_fun \<Rightarrow> (bytes \<Rightarrow> bytes) \<Rightarrow> stun_agent \<Rightarrow> stun_message \<Rightarrow> bytes \<Rightarrow> nat
   \<Rightarrow> stun_message option \<Rightarrow> StunUsageTurnRequestPorts \<Rightarrow> int \<Rightarrow> int \<Rightarrow> bytes option \<Rightarrow> bytes option
   \<Rightarrow> StunUsageTurnCompatibility \<Rightarrow> (nat \<times> stun_agent \<times> stun_message) option" where
  "stun_usage_turn_create package_string tid hmac md5 ag msg buf blen previous props bandwidth lifetime
     username password cmp = do {
     (_, msg) \<leftarrow> stun_agent_init_request package_string tid ag msg buf blen STUN_ALLOCATE;
     or_return_0
       (if turn_rfc cmp
        then stun_message_append32 msg STUN_ATTRIBUTE_REQUESTED_TRANSPORT TURN_REQUESTED_TRANSPORT_UDP
        else stun_message_append32 msg STUN_ATTRIBUTE_MAGIC_COOKIE TURN_MAGIC_COOKIE) ag (\<lambda>msg.
     or_return_0 (append_when (turn_rfc cmp \<and> bandwidth \<ge> 0)
       (\<lambda>msg. stun_message_append32 msg STUN_ATTRIBUTE_BANDWIDTH (word_of_int bandwidth)) msg) ag (\<lambda>msg. do {
     (_, msg) \<leftarrow> append_when (cmp = STUN_USAGE_TURN_COMPATIBILITY_OC2007)
       (\<lambda>msg. stun_message_append32 msg STUN_ATTRIBUTE_MS_VERSION 1) msg;
     or_return_0 (append_when (lifetime \<ge> 0)
       (\<lambda>msg. stun_message_append32 msg STUN_ATTRIBUTE_LIFETIME (word_of_int lifetime)) msg) ag (\<lambda>msg.
     or_return_0 (append_when (turn_rfc cmp \<and> props \<noteq> STUN_USAGE_TURN_REQUEST_PORT_NORMAL)
       (\<lambda>msg. stun_message_append32 msg STUN_ATTRIBUTE_REQUESTED_PORT_PROPS (requested_props props)) msg) ag (\<lambda>msg.
     or_return_0 (append_from previous (append_copy STUN_ATTRIBUTE_REALM) msg) ag (\<lambda>msg.
     or_return_0 (append_from previous (append_copy STUN_ATTRIBUTE_NONCE) msg) ag (\<lambda>msg.
     or_return_0 (append_from previous append_reservation msg) ag (\<lambda>msg.
     or_return_0 (append_username ag previous username msg) ag (\<lambda>msg.
     stun_agent_finish_message hmac md5 ag msg password))))))
   }))}"

definition stun_usage_turn_create_refresh ::
  "bytes \<Rightarrow> bytes \<Rightarrow> hmac_fun \<Rightarrow> (bytes \<Rightarrow> bytes) \<Rightarrow> stun_agent \<Rightarrow> stun_message \<Rightarrow> bytes \<Rightarrow> nat
   \<Rightarrow> stun_message option \<Rightarrow> int \<Rightarrow> bytes option \<Rightarrow> bytes option
   \<Rightarrow> StunUsageTurnCompatibility \<Rightarrow> (nat \<times> stun_agent \<times> stun_message) option" where
  "stun_usage_turn_create_refresh package_string tid hmac md5 ag msg buf blen previous lifetime username password cmp =
     (if \<not> turn_rfc cmp
      then stun_usage_turn_create package_string tid hmac md5 ag msg buf blen previous
             STUN_USAGE_TURN_REQUEST_PORT_NORMAL 0 lifetime username password cmp
      else do {
        (_, msg) \<leftarrow> stun_agent_init_request package_string tid ag msg buf blen STUN_REFRESH;
        or_return_0 (append_when (lifetime \<ge> 0)
          (\<lambda>msg. stun_message_append32 msg STUN_ATTRIBUTE_LIFETIME (word_of_int lifetime)) msg) ag (\<lambda>msg.
        or_return_0 (append_from previous (append_copy STUN_ATTRIBUTE_REALM) msg) ag (\<lambda>msg.
        or_return_0 (append_from previous (append_copy STUN_ATTRIBUTE_NONCE) msg) ag (\<lambda>msg.
        or_return_0 (append_username ag previous username msg) ag (\<lambda>msg.
        stun_agent_finish_message hmac md5 ag msg password))))
      })"

definition append_given :: "u16 \<Rightarrow> bytes option \<Rightarrow> stun_message \<Rightarrow> (StunMessageReturn \<times> stun_message) option" where
  "append_given t v msg =
     (case v of None \<Rightarrow> Some (STUN_MESSAGE_RETURN_SUCCESS, msg) | Some b \<Rightarrow> stun_message_append_bytes msg t b)"

definition stun_usage_turn_create_permission ::
  "bytes \<Rightarrow> bytes \<Rightarrow> hmac_fun \<Rightarrow> (bytes \<Rightarrow> bytes) \<Rightarrow> stun_agent \<Rightarrow> stun_message \<Rightarrow> bytes \<Rightarrow> nat
   \<Rightarrow> bytes option \<Rightarrow> bytes option \<Rightarrow> bytes option \<Rightarrow> bytes option \<Rightarrow> sockaddr option
   \<Rightarrow> (nat \<times> stun_agent \<times> stun_message) option" where
  "stun_usage_turn_create_permission package_string tid hmac md5 ag msg buf blen username password realm nonce peer =
     (case peer of None \<Rightarrow> Some (0, ag, msg)
      | Some p \<Rightarrow> do {
          (_, msg) \<leftarrow> stun_agent_init_request package_string tid ag msg buf blen STUN_CREATEPERMISSION;
          or_return_0 (stun_message_append_xor_addr msg STUN_ATTRIBUTE_XOR_PEER_ADDRESS p sizeof_sockaddr_storage) ag (\<lambda>msg.
          or_return_0 (append_given STUN_ATTRIBUTE_NONCE nonce msg) ag (\<lambda>msg.
          or_return_0 (append_given STUN_ATTRIBUTE_REALM realm msg) ag (\<lambda>msg.
          or_return_0 (append_given STUN_ATTRIBUTE_USERNAME
              (if has_flag ag STUN_AGENT_USAGE_SHORT_TERM_CREDENTIALS \<or> (nonce \<noteq> None \<and> realm \<noteq> None)
               then username else None) msg) ag (\<lambda>msg.
          stun_agent_finish_message hmac md5 ag msg password))))
        })"

section \<open>Responses\<close>

text \<open>The out-parameters of \<^verbatim>\<open>stun_usage_turn_process\<close>.\<close>

record turn_result =
  tr_relay :: "sockaddr \<times> nat"
  tr_mapped :: "sockaddr \<times> nat"
  tr_alternate :: "(sockaddr \<times> nat) option"
  tr_bandwidth :: u32
  tr_lifetime :: u32

type_synonym addr_finder = "stun_message \<Rightarrow> u16 \<Rightarrow> sockaddr \<Rightarrow> nat \<Rightarrow> (StunMessageReturn \<times> sockaddr \<times> nat) option"

definition find_mapped :: "addr_finder \<Rightarrow> stun_message \<Rightarrow> u16 \<Rightarrow> turn_result \<Rightarrow> (bool \<times> turn_result) option" where
  "find_mapped finder msg t res = do {
     (val, a, l) \<leftarrow> finder msg t (fst (tr_mapped res)) (snd (tr_mapped res));
     Some (val = STUN_MESSAGE_RETURN_SUCCESS, res\<lparr>tr_mapped := (a, l)\<rparr>)
   }"

definition find_relay :: "addr_finder \<Rightarrow> stun_message \<Rightarrow> u16 \<Rightarrow> turn_result \<Rightarrow> (bool \<times> turn_result) option" where
  "find_relay finder msg t res = do {
     (val, a, l) \<leftarrow> finder msg t (fst (tr_relay res)) (snd (tr_relay res));
     Some (val = STUN_MESSAGE_RETURN_SUCCESS, res\<lparr>tr_relay := (a, l)\<rparr>)
   }"

text \<open>The addresses of a success response, in the attributes of the server's dialect: whether a mapped and
  whether a relayed address was found.\<close>

definition turn_addresses ::
  "stun_message \<Rightarrow> StunUsageTurnCompatibility \<Rightarrow> turn_result \<Rightarrow> (bool \<times> bool \<times> turn_result) option" where
  "turn_addresses msg cmp res =
     (if turn_rfc cmp then do {
        (mapped, res) \<leftarrow> find_mapped stun_message_find_xor_addr msg STUN_ATTRIBUTE_XOR_MAPPED_ADDRESS res;
        (relay, res) \<leftarrow> find_relay stun_message_find_xor_addr msg STUN_ATTRIBUTE_RELAY_ADDRESS res;
        Some (mapped, relay, res)
      }
      else if cmp = STUN_USAGE_TURN_COMPATIBILITY_GOOGLE then do {
        (relay, res) \<leftarrow> find_relay stun_message_find_addr msg STUN_ATTRIBUTE_MAPPED_ADDRESS res;
        Some (False, relay, res)
      }
      else if cmp = STUN_USAGE_TURN_COMPATIBILITY_MSN then do {
        (mapped, res) \<leftarrow> find_mapped stun_message_find_addr msg STUN_ATTRIBUTE_MSN_MAPPED_ADDRESS res;
        (relay, res) \<leftarrow> find_relay stun_message_find_addr msg STUN_ATTRIBUTE_MAPPED_ADDRESS res;
        Some (mapped, relay, res)
      }
      else do {
        cookie \<leftarrow> transid_cookie msg;
        (mapped, res) \<leftarrow> find_mapped (\<lambda>msg t a l. stun_message_find_xor_addr_full msg t a l cookie) msg
          STUN_ATTRIBUTE_MS_XOR_MAPPED_ADDRESS res;
        (relay, res) \<leftarrow> find_relay stun_message_find_addr msg STUN_ATTRIBUTE_MAPPED_ADDRESS res;
        Some (mapped, relay, res)
      })"

definition read32 :: "stun_message \<Rightarrow> u16 \<Rightarrow> u32 \<Rightarrow> u32 option" where
  "read32 msg t old = map_option (\<lambda>r. case r of Inl _ \<Rightarrow> old | Inr v \<Rightarrow> v) (stun_message_find32 msg t)"

definition turn_process_error ::
  "stun_message \<Rightarrow> StunUsageTurnCompatibility \<Rightarrow> turn_result \<Rightarrow> (StunUsageTurnReturn \<times> turn_result) option" where
  "turn_process_error msg cmp res = do {
     r \<leftarrow> stun_message_find_error msg;
     case r of Inl _ \<Rightarrow> Some (STUN_USAGE_TURN_RETURN_INVALID, res)
     | Inr code \<Rightarrow> do {
         alternate \<leftarrow>
           (case tr_alternate res of
              Some (a, l) \<Rightarrow>
                if cmp = STUN_USAGE_TURN_COMPATIBILITY_OC2007 then do {
                  (_, a, l) \<leftarrow> stun_message_find_addr msg STUN_ATTRIBUTE_MS_ALTERNATE_SERVER a l;
                  Some (Some (a, l))
                }
                else Some (Some (a, l))
            | None \<Rightarrow> Some None);
         if code div 100 = 3 then
           (case alternate of
              Some (a, l) \<Rightarrow> do {
                (val, a, l) \<leftarrow> stun_message_find_addr msg STUN_ATTRIBUTE_ALTERNATE_SERVER a l;
                Some (if val \<noteq> STUN_MESSAGE_RETURN_SUCCESS then STUN_USAGE_TURN_RETURN_ERROR
                      else STUN_USAGE_TURN_RETURN_ALTERNATE_SERVER, res\<lparr>tr_alternate := Some (a, l)\<rparr>)
              }
            | None \<Rightarrow> do {
                found \<leftarrow> stun_message_has_attribute msg STUN_ATTRIBUTE_ALTERNATE_SERVER;
                Some (if found then STUN_USAGE_TURN_RETURN_ALTERNATE_SERVER else STUN_USAGE_TURN_RETURN_ERROR, res)
              })
         else Some (STUN_USAGE_TURN_RETURN_ERROR, res\<lparr>tr_alternate := alternate\<rparr>)
       }
   }"

definition stun_usage_turn_process ::
  "stun_message \<Rightarrow> StunUsageTurnCompatibility \<Rightarrow> turn_result \<Rightarrow> (StunUsageTurnReturn \<times> turn_result) option" where
  "stun_usage_turn_process msg cmp res = do {
     m \<leftarrow> stun_message_get_method msg;
     if m \<noteq> STUN_ALLOCATE then Some (STUN_USAGE_TURN_RETURN_INVALID, res)
     else do {
       cls \<leftarrow> stun_message_get_class msg;
       case cls of
         STUN_REQUEST \<Rightarrow> Some (STUN_USAGE_TURN_RETURN_INVALID, res)
       | STUN_INDICATION \<Rightarrow> Some (STUN_USAGE_TURN_RETURN_INVALID, res)
       | STUN_ERROR \<Rightarrow> turn_process_error msg cmp res
       | STUN_RESPONSE \<Rightarrow> do {
           (mapped, relay, res) \<leftarrow> turn_addresses msg cmp res;
           if \<not> relay then Some (STUN_USAGE_TURN_RETURN_ERROR, res)
           else do {
             lifetime \<leftarrow> read32 msg STUN_ATTRIBUTE_LIFETIME (tr_lifetime res);
             bandwidth \<leftarrow> read32 msg STUN_ATTRIBUTE_BANDWIDTH (tr_bandwidth res);
             Some (if mapped then STUN_USAGE_TURN_RETURN_MAPPED_SUCCESS else STUN_USAGE_TURN_RETURN_RELAY_SUCCESS,
                   res\<lparr>tr_lifetime := lifetime, tr_bandwidth := bandwidth\<rparr>)
           }
         }
     }
   }"

definition stun_usage_turn_refresh_process ::
  "stun_message \<Rightarrow> u32 \<Rightarrow> StunUsageTurnCompatibility \<Rightarrow> (StunUsageTurnReturn \<times> u32) option" where
  "stun_usage_turn_refresh_process msg lifetime cmp = do {
     m \<leftarrow> stun_message_get_method msg;
     if m \<noteq> (if turn_rfc cmp then STUN_REFRESH else STUN_ALLOCATE)
     then Some (STUN_USAGE_TURN_RETURN_INVALID, lifetime)
     else do {
       cls \<leftarrow> stun_message_get_class msg;
       case cls of
         STUN_REQUEST \<Rightarrow> Some (STUN_USAGE_TURN_RETURN_INVALID, lifetime)
       | STUN_INDICATION \<Rightarrow> Some (STUN_USAGE_TURN_RETURN_INVALID, lifetime)
       | STUN_ERROR \<Rightarrow> do {
           r \<leftarrow> stun_message_find_error msg;
           Some (case r of Inl _ \<Rightarrow> STUN_USAGE_TURN_RETURN_INVALID | Inr _ \<Rightarrow> STUN_USAGE_TURN_RETURN_ERROR, lifetime)
         }
       | STUN_RESPONSE \<Rightarrow> do {
           lifetime \<leftarrow> read32 msg STUN_ATTRIBUTE_LIFETIME lifetime;
           Some (STUN_USAGE_TURN_RETURN_RELAY_SUCCESS, lifetime)
         }
     }
   }"

end
