(* ===== verification/Nice_Address.thy ===== *)
theory Nice_Address
  imports Nice_Prelude
begin

text \<open>
  Network addresses (\<^verbatim>\<open>agent/address.c\<close>). A \<^verbatim>\<open>NiceAddress\<close> is a union of socket address structures that
  the family tells apart; ports and IPv4 addresses are kept in network byte order, as in the source. The
  conversions to and from text are those of the C library and are parameters.

  Proved here: which addresses count as private, as ranges of addresses, and that comparing addresses is
  reflexive and symmetric, but an equivalence only between addresses that agree on having a scope.
\<close>

section \<open>Addresses\<close>

datatype NiceAddress =
    NA_UNSPEC
  | NA_INET (sin_port: u16) (s_addr: u32)
  | NA_INET6 (sin6_port: u16) (s6_addr: bytes) (sin6_scope_id: u32)

datatype sa_family = AF_UNSPEC | AF_INET | AF_INET6

definition family :: "NiceAddress \<Rightarrow> sa_family" where
  "family a = (case a of NA_UNSPEC \<Rightarrow> AF_UNSPEC | NA_INET _ _ \<Rightarrow> AF_INET | NA_INET6 _ _ _ \<Rightarrow> AF_INET6)"

definition nice_address_init :: "NiceAddress \<Rightarrow> NiceAddress" where
  "nice_address_init addr = NA_UNSPEC"

definition nice_address_new :: NiceAddress where
  "nice_address_new = nice_address_init NA_UNSPEC"

definition nice_address_set_ipv4 :: "NiceAddress \<Rightarrow> u32 \<Rightarrow> NiceAddress" where
  "nice_address_set_ipv4 addr addr_ipv4 = NA_INET 0 (if addr_ipv4 \<noteq> 0 then htonl addr_ipv4 else 0)"

definition nice_address_set_ipv6 :: "NiceAddress \<Rightarrow> bytes \<Rightarrow> NiceAddress option" where
  "nice_address_set_ipv6 addr addr_ipv6 = do {
     a \<leftarrow> mem_read addr_ipv6 0 16;
     Some (NA_INET6 0 a 0)
   }"

text \<open>\<^verbatim>\<open>g_return_if_reached\<close> logs a warning and returns, so that an address without a family is left alone.\<close>

definition nice_address_set_port :: "NiceAddress \<Rightarrow> u32 \<Rightarrow> NiceAddress" where
  "nice_address_set_port addr port =
     (case addr of
        NA_INET _ a \<Rightarrow> NA_INET (htons (ucast port)) a
      | NA_INET6 _ a s \<Rightarrow> NA_INET6 (htons (ucast port)) a s
      | NA_UNSPEC \<Rightarrow> NA_UNSPEC)"

definition nice_address_get_port :: "NiceAddress \<Rightarrow> u32" where
  "nice_address_get_port addr =
     (case addr of
        NA_INET p _ \<Rightarrow> ucast (htons p)
      | NA_INET6 p _ _ \<Rightarrow> ucast (htons p)
      | NA_UNSPEC \<Rightarrow> 0)"

text \<open>The source address is a \<^verbatim>\<open>struct sockaddr\<close>, with the same members.\<close>

definition nice_address_set_from_sockaddr :: "NiceAddress \<Rightarrow> NiceAddress \<Rightarrow> NiceAddress" where
  "nice_address_set_from_sockaddr addr sa = (if family sa = AF_UNSPEC then addr else sa)"

definition nice_address_copy_to_sockaddr :: "NiceAddress \<Rightarrow> NiceAddress \<Rightarrow> NiceAddress" where
  "nice_address_copy_to_sockaddr addr sa = (if family addr = AF_UNSPEC then sa else addr)"

text \<open>\<open>getaddrinfo\<close> gives the address of a numeric host name; \<open>inet_ntop\<close> the text of an address.\<close>

definition nice_address_set_from_string ::
  "(string \<Rightarrow> NiceAddress option) \<Rightarrow> NiceAddress \<Rightarrow> string \<Rightarrow> bool \<times> NiceAddress" where
  "nice_address_set_from_string getaddrinfo addr str =
     (case getaddrinfo str of
        None \<Rightarrow> (False, addr)
      | Some res \<Rightarrow> (True, nice_address_set_from_sockaddr addr res))"

definition nice_address_to_string ::
  "(NiceAddress \<Rightarrow> string) \<Rightarrow> NiceAddress \<Rightarrow> string \<Rightarrow> string" where
  "nice_address_to_string inet_ntop addr dst = (if family addr = AF_UNSPEC then dst else inet_ntop addr)"

definition nice_address_equal :: "NiceAddress \<Rightarrow> NiceAddress \<Rightarrow> bool" where
  "nice_address_equal a b =
     (case (a, b) of
        (NA_INET p x, NA_INET q y) \<Rightarrow> x = y \<and> p = q
      | (NA_INET6 p x s, NA_INET6 q y t) \<Rightarrow> x = y \<and> p = q \<and> (s = 0 \<or> t = 0 \<or> s = t)
      | _ \<Rightarrow> False)"

definition nice_address_dup :: "NiceAddress \<Rightarrow> NiceAddress" where
  "nice_address_dup a = a"

definition ipv4_address_is_private :: "u32 \<Rightarrow> bool" where
  "ipv4_address_is_private a =
     (let addr = htonl a in
      addr AND 0xff000000 = 0x0a000000 \<or>
      addr AND 0xfff00000 = 0xac100000 \<or>
      addr AND 0xffff0000 = 0xc0a80000 \<or>
      addr AND 0xff000000 = 0x7f000000)"

definition ipv6_address_is_private :: "bytes \<Rightarrow> bool" where
  "ipv6_address_is_private addr =
     ((addr ! 0 = 0xfe \<and> addr ! 1 AND 0xc0 = 0x80) \<or>
      addr ! 0 AND 0xfe = 0xfc \<or>
      take 16 addr = [0, 0, 0, 0, 0, 0, 0, 0, 0, 0, 0, 0, 0, 0, 0, 1])"

definition nice_address_is_private :: "NiceAddress \<Rightarrow> bool" where
  "nice_address_is_private a =
     (case a of
        NA_INET _ x \<Rightarrow> ipv4_address_is_private x
      | NA_INET6 _ x _ \<Rightarrow> ipv6_address_is_private x
      | NA_UNSPEC \<Rightarrow> False)"

definition nice_address_is_valid :: "NiceAddress \<Rightarrow> bool" where
  "nice_address_is_valid a = (family a \<noteq> AF_UNSPEC)"

definition nice_address_ip_version :: "NiceAddress \<Rightarrow> nat" where
  "nice_address_ip_version addr = (case family addr of AF_INET \<Rightarrow> 4 | AF_INET6 \<Rightarrow> 6 | AF_UNSPEC \<Rightarrow> 0)"

definition nice_address_equal_no_port :: "NiceAddress \<Rightarrow> NiceAddress \<Rightarrow> bool" where
  "nice_address_equal_no_port a b =
     (case (a, b) of
        (NA_INET _ x, NA_INET _ y) \<Rightarrow> x = y
      | (NA_INET6 _ x s, NA_INET6 _ y t) \<Rightarrow> x = y \<and> (s = 0 \<or> t = 0 \<or> s = t)
      | _ \<Rightarrow> False)"

section \<open>Comparing addresses\<close>

lemma nice_address_equal_refl: "nice_address_is_valid a \<Longrightarrow> nice_address_equal a a"
  by (cases a) (simp_all add: nice_address_equal_def nice_address_is_valid_def family_def)

lemma nice_address_equal_sym: "nice_address_equal a b = nice_address_equal b a"
  by (cases a; cases b) (auto simp: nice_address_equal_def)

lemma nice_address_equal_no_port_sym: "nice_address_equal_no_port a b = nice_address_equal_no_port b a"
  by (cases a; cases b) (auto simp: nice_address_equal_no_port_def)

lemma nice_address_equal_family: "nice_address_equal a b \<Longrightarrow> family a = family b \<and> nice_address_is_valid a"
  by (cases a; cases b) (auto simp: nice_address_equal_def family_def nice_address_is_valid_def)

lemma ucast_u16_u32_eq [simp]: "(ucast (x :: u16) :: u32) = ucast y \<longleftrightarrow> x = y"
proof
  assume *: "(ucast x :: u32) = ucast y"
  have "unat (ucast z :: u32) = unat z" for z :: u16
    using unat_u16_less [of z] by (simp add: unsigned_ucast_eq take_bit_nat_eq_self)
  then show "x = y" using * by (metis word_unat_eq_iff)
qed simp

text \<open>Equal addresses are equal without their ports, and the other way round when the ports agree.\<close>

lemma nice_address_equal_ports:
  "nice_address_equal a b \<longleftrightarrow> nice_address_equal_no_port a b \<and> nice_address_get_port a = nice_address_get_port b"
  by (cases a; cases b)
    (auto simp: nice_address_equal_def nice_address_equal_no_port_def nice_address_get_port_def)

definition scope :: "NiceAddress \<Rightarrow> u32" where
  "scope a = (case a of NA_INET6 _ _ s \<Rightarrow> s | _ \<Rightarrow> 0)"

text \<open>Comparison is transitive through an address that has a scope, or between addresses without one;
  through an address without a scope it is not, since a missing scope matches every scope.\<close>

lemma nice_address_equal_trans:
  assumes "nice_address_equal a b" "nice_address_equal b c" "scope b \<noteq> 0 \<or> scope a = 0 \<or> scope c = 0"
  shows "nice_address_equal a c"
  using assms by (cases a; cases b; cases c) (auto simp: nice_address_equal_def scope_def)

lemma nice_address_equal_not_transitive:
  "\<exists>a b c. nice_address_equal a b \<and> nice_address_equal b c \<and> \<not> nice_address_equal a c"
proof (intro exI conjI)
  let ?a = "\<lambda>s. NA_INET6 0 (replicate 16 0) s"
  show "nice_address_equal (?a 1) (?a 0)" "nice_address_equal (?a 0) (?a 2)" "\<not> nice_address_equal (?a 1) (?a 2)"
    by (simp_all add: nice_address_equal_def)
qed

section \<open>Private addresses\<close>

text \<open>Masking the high bits of a word compares its prefix.\<close>

lemma and_mask_eq_iff:
  fixes x :: "'a :: len word"
  assumes "n < LENGTH('a)" "unat c < 2 ^ (LENGTH('a) - n)"
  shows "x AND NOT (mask n) = push_bit n c \<longleftrightarrow> unat x div 2 ^ n = unat c"
proof -
  have "x AND NOT (mask n) = push_bit n (drop_bit n x)"
    by (rule bit_word_eqI) (auto simp: bit_simps)
  moreover have "push_bit n (drop_bit n x) = push_bit n c \<longleftrightarrow> drop_bit n x = c"
  proof
    assume *: "push_bit n (drop_bit n x) = push_bit n c"
    have "bit (drop_bit n x) i = bit c i" if "i < LENGTH('a)" for i
    proof (cases "n + i < LENGTH('a)")
      case True
      then show ?thesis using arg_cong [OF *, of "\<lambda>w. bit w (n + i)"] by (simp add: bit_simps)
    next
      case False
      have "\<not> bit (unat c) i"
        using assms(2) False
        by (metis bit_take_bit_iff diff_le_mono2 le_diff_conv2 less_or_eq_imp_le linorder_not_less not_le_imp_less
            take_bit_nat_eq_self add.commute le_diff_conv)
      then have "\<not> bit c i" by (simp add: bit_unsigned_iff that)
      moreover have "\<not> bit (drop_bit n x) i" using False by (auto simp: bit_simps dest: bit_imp_le_length)
      ultimately show ?thesis by simp
    qed
    then show "drop_bit n x = c" by (rule bit_word_eqI)
  qed simp
  moreover have "drop_bit n x = c \<longleftrightarrow> unat x div 2 ^ n = unat c"
    by (simp only: word_unat_eq_iff unat_drop_bit_eq) (simp only: drop_bit_eq_div)
  ultimately show ?thesis by simp
qed

lemma div_eq_iff_range: "(n :: nat) div 2 ^ k = c \<longleftrightarrow> c * 2 ^ k \<le> n \<and> n < (c + 1) * 2 ^ k"
  using div_nat_eqI [of "2 ^ k" c n] by (auto simp: algebra_simps dividend_less_times_div)

lemma prefix_range:
  fixes x :: "'a :: len word"
  assumes "n < LENGTH('a)" "c < 2 ^ (LENGTH('a) - n)" "m = NOT (mask n)" "p = push_bit n (word_of_nat c)"
  shows "x AND m = p \<longleftrightarrow> c * 2 ^ n \<le> unat x \<and> unat x < (c + 1) * 2 ^ n"
proof -
  have "c < 2 ^ LENGTH('a)" by (rule less_le_trans [OF assms(2)]) (rule power_increasing, simp_all)
  then have "unat (word_of_nat c :: 'a word) = c" by (simp add: unsigned_of_nat take_bit_nat_eq_self)
  then show ?thesis
    using and_mask_eq_iff [of n "word_of_nat c :: 'a word" x] assms by (simp add: div_eq_iff_range)
qed

lemma ipv4_private:
  "nice_address_is_private (nice_address_set_ipv4 addr x) \<longleftrightarrow>
     0x0a000000 \<le> x \<and> x \<le> 0x0affffff \<or> 0xac100000 \<le> x \<and> x \<le> 0xac1fffff \<or>
     0xc0a80000 \<le> x \<and> x \<le> 0xc0a8ffff \<or> 0x7f000000 \<le> x \<and> x \<le> 0x7fffffff"
proof -
  have "(if x \<noteq> 0 then htonl x else 0) = htonl x" by (simp add: htonl_def of_be32.simps le32_def)
  then have "nice_address_is_private (nice_address_set_ipv4 addr x) \<longleftrightarrow>
     x AND 0xff000000 = 0x0a000000 \<or> x AND 0xfff00000 = 0xac100000 \<or>
     x AND 0xffff0000 = 0xc0a80000 \<or> x AND 0xff000000 = 0x7f000000"
    by (simp add: nice_address_is_private_def nice_address_set_ipv4_def ipv4_address_is_private_def Let_def)
  also have "\<dots> \<longleftrightarrow> (0x0a * 2 ^ 24 \<le> unat x \<and> unat x < (0x0a + 1) * 2 ^ 24) \<or>
     (0xac1 * 2 ^ 20 \<le> unat x \<and> unat x < (0xac1 + 1) * 2 ^ 20) \<or>
     (0xc0a8 * 2 ^ 16 \<le> unat x \<and> unat x < (0xc0a8 + 1) * 2 ^ 16) \<or>
     (0x7f * 2 ^ 24 \<le> unat x \<and> unat x < (0x7f + 1) * 2 ^ 24)"
    by (intro disj_cong refl prefix_range) (simp_all add: mask_eq_exp_minus_1 push_bit_eq_mult)
  also have "\<dots> \<longleftrightarrow> 0x0a000000 \<le> x \<and> x \<le> 0x0affffff \<or> 0xac100000 \<le> x \<and> x \<le> 0xac1fffff \<or>
     0xc0a80000 \<le> x \<and> x \<le> 0xc0a8ffff \<or> 0x7f000000 \<le> x \<and> x \<le> 0x7fffffff"
    by (simp add: word_le_nat_alt) linarith
  finally show ?thesis .
qed

lemma unat_of_be16: "unat (of_be16 (a # b # bs)) = 256 * unat a + unat b"
proof -
  have "push_bit 8 (ucast a :: u16) AND ucast b = 0"
    by (rule bit_word_eqI) (auto simp: bit_simps dest: bit_imp_le_length)
  then have "of_be16 (a # b # bs) = push_bit 8 (ucast a) + ucast b"
    by (simp add: disjunctive_add_eq_or)
  also have "\<dots> = word_of_nat (256 * unat a + unat b)" by (simp add: push_bit_eq_mult)
  finally have "unat (of_be16 (a # b # bs)) = unat (word_of_nat (256 * unat a + unat b) :: u16)" by simp
  also have "\<dots> = 256 * unat a + unat b"
    using unat_u8_less [of a] unat_u8_less [of b]
    by (simp only: unsigned_of_nat) (simp add: take_bit_nat_eq_self)
  finally show ?thesis .
qed

lemma fe80_range: "v < 256 \<Longrightarrow> 65152 \<le> 256 * u + v \<and> 256 * u + v \<le> 65215 \<longleftrightarrow> u = 254 \<and> 128 \<le> v \<and> v < (192 :: nat)"
  by presburger

lemma fc00_range: "v < 256 \<Longrightarrow> 64512 \<le> 256 * u + v \<and> 256 * u + v \<le> 65023 \<longleftrightarrow> 252 \<le> u \<and> u < (254 :: nat)"
  by auto

lemma ipv6_private:
  assumes "length b = 16"
  shows "ipv6_address_is_private b \<longleftrightarrow>
     0xfe80 \<le> of_be16 b \<and> of_be16 b \<le> 0xfebf \<or> 0xfc00 \<le> of_be16 b \<and> of_be16 b \<le> 0xfdff \<or>
     b = replicate 15 0 @ [1]"
proof -
  from assms obtain x y bs where b: "b = x # y # bs" by (auto simp: length_Suc_conv numeral_eq_Suc)
  have x: "x AND 0xfe = 0xfc \<longleftrightarrow> 0x7e * 2 ^ 1 \<le> unat x \<and> unat x < (0x7e + 1) * 2 ^ 1"
    by (rule prefix_range) (simp_all add: mask_eq_exp_minus_1 push_bit_eq_mult)
  have y: "y AND 0xc0 = 0x80 \<longleftrightarrow> 2 * 2 ^ 6 \<le> unat y \<and> unat y < (2 + 1) * 2 ^ 6"
    by (rule prefix_range) (simp_all add: mask_eq_exp_minus_1 push_bit_eq_mult)
  have fe: "x = 0xfe \<longleftrightarrow> unat x = 0xfe" by (simp add: word_unat_eq_iff)
  have "take 16 b = b" "replicate 15 0 @ [1] = [0, 0, 0, 0, 0, 0, 0, 0, 0, 0, 0, 0, 0, 0, 0, 1 :: u8]"
    using assms by (simp_all add: numeral_eq_Suc)
  then have "ipv6_address_is_private b \<longleftrightarrow> (unat x = 0xfe \<and> 128 \<le> unat y \<and> unat y < 192) \<or>
      252 \<le> unat x \<and> unat x < 254 \<or> b = replicate 15 0 @ [1]"
    by (simp add: ipv6_address_is_private_def b x y fe)
  then show ?thesis
    using unat_u8_less [of y]
    by (simp add: b word_le_nat_alt unat_of_be16 fe80_range fc00_range del: of_be16.simps)
qed

text \<open>C40: an IPv4 address (in host byte order) counts as private exactly when it lies in 10.0.0.0/8,
  172.16.0.0/12, 192.168.0.0/16 or 127.0.0.0/8, an IPv6 address exactly when it is the loopback address ::1
  or its first sixteen bits are in fe80..febf (link-local) or fc00..fdff (unique local).\<close>

theorem private_ranges:
  assumes "length b = 16"
  shows "(nice_address_is_private (nice_address_set_ipv4 addr x) \<longleftrightarrow>
     0x0a000000 \<le> x \<and> x \<le> 0x0affffff \<or> 0xac100000 \<le> x \<and> x \<le> 0xac1fffff \<or>
     0xc0a80000 \<le> x \<and> x \<le> 0xc0a8ffff \<or> 0x7f000000 \<le> x \<and> x \<le> 0x7fffffff)
   \<and> (\<exists>a. nice_address_set_ipv6 addr b = Some a \<and> (nice_address_is_private a \<longleftrightarrow>
     0xfe80 \<le> of_be16 b \<and> of_be16 b \<le> 0xfebf \<or> 0xfc00 \<le> of_be16 b \<and> of_be16 b \<le> 0xfdff \<or>
     b = replicate 15 0 @ [1]))"
  using ipv6_private [OF assms] assms
  by (simp add: ipv4_private nice_address_set_ipv6_def mem_simps) (simp add: nice_address_is_private_def)

theorem private_ranges_witness:
  "nice_address_is_private (nice_address_set_ipv4 NA_UNSPEC 0xc0a80101)
   \<and> nice_address_is_private (NA_INET6 0 (replicate 15 0 @ [1]) 0)"
  using private_ranges [where b = "replicate 15 0 @ [1]" and addr = NA_UNSPEC and x = "0xc0a80101"]
  by (auto simp: nice_address_set_ipv6_def mem_simps)

end
