(* ===== verification/Nice_Candidate.thy ===== *)
theory Nice_Candidate
  imports Nice_Address
begin

text \<open>
  Candidates and their priorities (\<^verbatim>\<open>agent/candidate.c\<close>, \<^verbatim>\<open>agent/candidate.h\<close>). Pointers that the source
  compares (sockets and TURN servers) are numbers. The list of local IP addresses and the text of an address
  come from the operating system and are parameters.

  Proved here: candidate priorities are in the range the source names and order candidates by type
  preference, then local preference, then component; and pair priorities order pairs as the ICE formula asks
  when both priorities are below \<open>2 ^ 31\<close>, but not above.
\<close>

section \<open>Candidates\<close>

datatype NiceCandidateType =
    NICE_CANDIDATE_TYPE_HOST
  | NICE_CANDIDATE_TYPE_SERVER_REFLEXIVE
  | NICE_CANDIDATE_TYPE_PEER_REFLEXIVE
  | NICE_CANDIDATE_TYPE_RELAYED

datatype NiceCandidateTransport =
    NICE_CANDIDATE_TRANSPORT_UDP
  | NICE_CANDIDATE_TRANSPORT_TCP_ACTIVE
  | NICE_CANDIDATE_TRANSPORT_TCP_PASSIVE
  | NICE_CANDIDATE_TRANSPORT_TCP_SO

datatype NiceRelayType = NICE_RELAY_TYPE_TURN_UDP | NICE_RELAY_TYPE_TURN_TCP | NICE_RELAY_TYPE_TURN_TLS

text \<open>\<open>turn_ref\<close> is the address of the object; the reference count is left out.\<close>

record TurnServer =
  turn_ref :: nat
  turn_server :: NiceAddress
  turn_username :: string
  turn_password :: string
  turn_type :: NiceRelayType

record NiceCandidate =
  c_type :: NiceCandidateType
  c_transport :: NiceCandidateTransport
  c_addr :: NiceAddress
  c_base_addr :: NiceAddress
  c_priority :: u32
  c_stream_id :: nat
  c_component_id :: nat
  c_foundation :: string
  c_username :: "string option"
  c_password :: "string option"
  c_turn :: "TurnServer option"
  c_sockptr :: "nat option"

definition nice_candidate_new :: "NiceCandidateType \<Rightarrow> NiceCandidate" where
  "nice_candidate_new type =
     \<lparr>c_type = type, c_transport = NICE_CANDIDATE_TRANSPORT_UDP, c_addr = NA_UNSPEC, c_base_addr = NA_UNSPEC,
      c_priority = 0, c_stream_id = 0, c_component_id = 0, c_foundation = '''', c_username = None,
      c_password = None, c_turn = None, c_sockptr = None\<rparr>"

section \<open>Priorities\<close>

abbreviation (input) NICE_CANDIDATE_TYPE_PREF_HOST :: u8 where "NICE_CANDIDATE_TYPE_PREF_HOST \<equiv> 120"
abbreviation (input) NICE_CANDIDATE_TYPE_PREF_PEER_REFLEXIVE :: u8 where "NICE_CANDIDATE_TYPE_PREF_PEER_REFLEXIVE \<equiv> 110"
abbreviation (input) NICE_CANDIDATE_TYPE_PREF_NAT_ASSISTED :: u8 where "NICE_CANDIDATE_TYPE_PREF_NAT_ASSISTED \<equiv> 105"
abbreviation (input) NICE_CANDIDATE_TYPE_PREF_SERVER_REFLEXIVE :: u8 where "NICE_CANDIDATE_TYPE_PREF_SERVER_REFLEXIVE \<equiv> 100"
abbreviation (input) NICE_CANDIDATE_TYPE_PREF_RELAYED_UDP :: u8 where "NICE_CANDIDATE_TYPE_PREF_RELAYED_UDP \<equiv> 30"
abbreviation (input) NICE_CANDIDATE_TYPE_PREF_RELAYED :: u8 where "NICE_CANDIDATE_TYPE_PREF_RELAYED \<equiv> 20"
abbreviation (input) NICE_CANDIDATE_TRANSPORT_MS_PREF_UDP :: u8 where "NICE_CANDIDATE_TRANSPORT_MS_PREF_UDP \<equiv> 15"
abbreviation (input) NICE_CANDIDATE_TRANSPORT_MS_PREF_TCP :: u8 where "NICE_CANDIDATE_TRANSPORT_MS_PREF_TCP \<equiv> 6"
abbreviation (input) NICE_CANDIDATE_DIRECTION_MS_PREF_PASSIVE :: u8 where "NICE_CANDIDATE_DIRECTION_MS_PREF_PASSIVE \<equiv> 2"
abbreviation (input) NICE_CANDIDATE_DIRECTION_MS_PREF_ACTIVE :: u8 where "NICE_CANDIDATE_DIRECTION_MS_PREF_ACTIVE \<equiv> 5"

definition nice_candidate_jingle_priority :: "NiceCandidate \<Rightarrow> u32" where
  "nice_candidate_jingle_priority candidate =
     (case c_type candidate of
        NICE_CANDIDATE_TYPE_HOST \<Rightarrow> 1000
      | NICE_CANDIDATE_TYPE_SERVER_REFLEXIVE \<Rightarrow> 900
      | NICE_CANDIDATE_TYPE_PEER_REFLEXIVE \<Rightarrow> 900
      | NICE_CANDIDATE_TYPE_RELAYED \<Rightarrow> 500)"

definition nice_candidate_msn_priority :: "NiceCandidate \<Rightarrow> u32" where
  "nice_candidate_msn_priority candidate =
     (case c_type candidate of
        NICE_CANDIDATE_TYPE_HOST \<Rightarrow> 830
      | NICE_CANDIDATE_TYPE_SERVER_REFLEXIVE \<Rightarrow> 550
      | NICE_CANDIDATE_TYPE_PEER_REFLEXIVE \<Rightarrow> 550
      | NICE_CANDIDATE_TYPE_RELAYED \<Rightarrow> 450)"

definition nice_candidate_ice_priority_full :: "u32 \<Rightarrow> u32 \<Rightarrow> u32 \<Rightarrow> u32" where
  "nice_candidate_ice_priority_full type_preference local_preference component_id =
     0x1000000 * type_preference + 0x100 * local_preference + (0x100 - component_id)"

definition nice_candidate_ice_local_preference_full :: "u32 \<Rightarrow> u32 \<Rightarrow> u32" where
  "nice_candidate_ice_local_preference_full direction_preference other_preference =
     0x2000 * direction_preference + other_preference"

text \<open>The position of the candidate's address in the list of local addresses, counted in eight bits. (For an
  address without a family the source compares an uninitialised string; here the empty one.)\<close>

definition nice_candidate_ip_local_preference ::
  "string list \<Rightarrow> (NiceAddress \<Rightarrow> string) \<Rightarrow> NiceCandidate \<Rightarrow> u8" where
  "nice_candidate_ip_local_preference ips inet_ntop candidate =
     (let ip_string = nice_address_to_string inet_ntop
            (if c_type candidate = NICE_CANDIDATE_TYPE_HOST then c_addr candidate else c_base_addr candidate) ''''
      in word_of_nat (length (takeWhile (\<lambda>ip. ip \<noteq> ip_string) ips)))"

definition nice_candidate_ice_local_preference ::
  "string list \<Rightarrow> (NiceAddress \<Rightarrow> string) \<Rightarrow> NiceCandidate \<Rightarrow> u16" where
  "nice_candidate_ice_local_preference ips inet_ntop candidate =
     (let mapped = (c_type candidate = NICE_CANDIDATE_TYPE_SERVER_REFLEXIVE \<or>
                    c_type candidate = NICE_CANDIDATE_TYPE_HOST);
          full = (\<lambda>direction_preference.
            ucast (nice_candidate_ice_local_preference_full direction_preference
              (ucast (nice_candidate_ip_local_preference ips inet_ntop candidate))))
      in case c_transport candidate of
           NICE_CANDIDATE_TRANSPORT_TCP_ACTIVE \<Rightarrow> full (if mapped then 4 else 6)
         | NICE_CANDIDATE_TRANSPORT_TCP_PASSIVE \<Rightarrow> full (if mapped then 2 else 4)
         | NICE_CANDIDATE_TRANSPORT_TCP_SO \<Rightarrow> full (if mapped then 6 else 2)
         | NICE_CANDIDATE_TRANSPORT_UDP \<Rightarrow> 1)"

definition nice_candidate_ms_ice_local_preference_full :: "u32 \<Rightarrow> u32 \<Rightarrow> u32 \<Rightarrow> u32" where
  "nice_candidate_ms_ice_local_preference_full transport_preference direction_preference other_preference =
     0x1000 * transport_preference + 0x200 * direction_preference + 0x1 * other_preference"

definition nice_candidate_ms_ice_local_preference ::
  "string list \<Rightarrow> (NiceAddress \<Rightarrow> string) \<Rightarrow> NiceCandidate \<Rightarrow> u32" where
  "nice_candidate_ms_ice_local_preference ips inet_ntop candidate =
     (let (transport_preference, direction_preference) =
        (case c_transport candidate of
           NICE_CANDIDATE_TRANSPORT_TCP_SO \<Rightarrow> (NICE_CANDIDATE_TRANSPORT_MS_PREF_TCP, NICE_CANDIDATE_DIRECTION_MS_PREF_ACTIVE)
         | NICE_CANDIDATE_TRANSPORT_TCP_ACTIVE \<Rightarrow> (NICE_CANDIDATE_TRANSPORT_MS_PREF_TCP, NICE_CANDIDATE_DIRECTION_MS_PREF_ACTIVE)
         | NICE_CANDIDATE_TRANSPORT_TCP_PASSIVE \<Rightarrow> (NICE_CANDIDATE_TRANSPORT_MS_PREF_TCP, NICE_CANDIDATE_DIRECTION_MS_PREF_PASSIVE)
         | NICE_CANDIDATE_TRANSPORT_UDP \<Rightarrow> (NICE_CANDIDATE_TRANSPORT_MS_PREF_UDP, 0))
      in nice_candidate_ms_ice_local_preference_full (ucast transport_preference) (ucast direction_preference)
           (ucast (nice_candidate_ip_local_preference ips inet_ntop candidate)))"

text \<open>\<open>None\<close> when a relayed candidate has no TURN server, which the source dereferences.\<close>

definition nice_candidate_ice_type_preference :: "NiceCandidate \<Rightarrow> bool \<Rightarrow> bool \<Rightarrow> u8 option" where
  "nice_candidate_ice_type_preference candidate reliable nat_assisted = do {
     type_preference \<leftarrow>
       (case c_type candidate of
          NICE_CANDIDATE_TYPE_HOST \<Rightarrow> Some NICE_CANDIDATE_TYPE_PREF_HOST
        | NICE_CANDIDATE_TYPE_PEER_REFLEXIVE \<Rightarrow> Some NICE_CANDIDATE_TYPE_PREF_PEER_REFLEXIVE
        | NICE_CANDIDATE_TYPE_SERVER_REFLEXIVE \<Rightarrow>
            Some (if nat_assisted then NICE_CANDIDATE_TYPE_PREF_NAT_ASSISTED else NICE_CANDIDATE_TYPE_PREF_SERVER_REFLEXIVE)
        | NICE_CANDIDATE_TYPE_RELAYED \<Rightarrow> do {
            turn \<leftarrow> c_turn candidate;
            Some (if turn_type turn = NICE_RELAY_TYPE_TURN_UDP then NICE_CANDIDATE_TYPE_PREF_RELAYED_UDP
                  else NICE_CANDIDATE_TYPE_PREF_RELAYED)
          });
     Some (if (reliable \<and> c_transport candidate = NICE_CANDIDATE_TRANSPORT_UDP)
              \<or> (\<not> reliable \<and> c_transport candidate \<noteq> NICE_CANDIDATE_TRANSPORT_UDP)
           then type_preference div 2 else type_preference)
   }"

definition nice_candidate_ice_priority ::
  "string list \<Rightarrow> (NiceAddress \<Rightarrow> string) \<Rightarrow> NiceCandidate \<Rightarrow> bool \<Rightarrow> bool \<Rightarrow> u32 option" where
  "nice_candidate_ice_priority ips inet_ntop candidate reliable nat_assisted = do {
     type_preference \<leftarrow> nice_candidate_ice_type_preference candidate reliable nat_assisted;
     let local_preference = nice_candidate_ice_local_preference ips inet_ntop candidate;
     Some (nice_candidate_ice_priority_full (ucast type_preference) (ucast local_preference)
             (word_of_nat (c_component_id candidate)))
   }"

definition nice_candidate_ms_ice_priority ::
  "string list \<Rightarrow> (NiceAddress \<Rightarrow> string) \<Rightarrow> NiceCandidate \<Rightarrow> bool \<Rightarrow> bool \<Rightarrow> u32 option" where
  "nice_candidate_ms_ice_priority ips inet_ntop candidate reliable nat_assisted = do {
     type_preference \<leftarrow> nice_candidate_ice_type_preference candidate reliable nat_assisted;
     let local_preference = (ucast (nice_candidate_ms_ice_local_preference ips inet_ntop candidate) :: u16);
     Some (nice_candidate_ice_priority_full (ucast type_preference) (ucast local_preference)
             (word_of_nat (c_component_id candidate)))
   }"

text \<open>The product with \<open>2\<close> is computed in 32 bits, as \<^verbatim>\<open>max\<close> is a \<^verbatim>\<open>guint32\<close>.\<close>

definition nice_candidate_pair_priority :: "u32 \<Rightarrow> u32 \<Rightarrow> u64" where
  "nice_candidate_pair_priority o_prio a_prio =
     (let max = (if o_prio > a_prio then o_prio else a_prio);
          min = (if o_prio < a_prio then o_prio else a_prio)
      in push_bit 32 1 * ucast min + ucast (2 * max) + (if o_prio > a_prio then 1 else 0))"

definition nice_candidate_copy :: "NiceCandidate \<Rightarrow> NiceCandidate" where
  "nice_candidate_copy candidate = candidate\<lparr>c_turn := None\<rparr>"

definition nice_candidate_equal_target :: "NiceCandidate \<Rightarrow> NiceCandidate \<Rightarrow> bool" where
  "nice_candidate_equal_target candidate1 candidate2 =
     (c_transport candidate1 = c_transport candidate2 \<and>
      nice_address_equal (c_addr candidate1) (c_addr candidate2))"

section \<open>The order of candidates\<close>

lemma unat_ucast_u8_u32 [simp]: "unat (ucast (x :: u8) :: u32) = unat x"
  using unat_u8_less [of x] by (simp add: unsigned_ucast_eq take_bit_nat_eq_self)

lemma unat_ucast_u16_u32 [simp]: "unat (ucast (x :: u16) :: u32) = unat x"
  using unat_u16_less [of x] by (simp add: unsigned_ucast_eq take_bit_nat_eq_self)

lemma unat_word_of_nat_u32: "n < 4294967296 \<Longrightarrow> unat (word_of_nat n :: u32) = n"
  by (simp add: unsigned_of_nat take_bit_nat_eq_self)

lemma unat_word_of_nat_u64: "n < 18446744073709551616 \<Longrightarrow> unat (word_of_nat n :: u64) = n"
  by (simp add: unsigned_of_nat take_bit_nat_eq_self)

lemma unat_priority_full:
  assumes "unat t < 128" "unat l < 65536" "1 \<le> c" "c \<le> 256"
  shows "unat (nice_candidate_ice_priority_full t l (word_of_nat c)) = 2 ^ 24 * unat t + 2 ^ 8 * unat l + (256 - c)"
proof -
  have "word_of_nat (2 ^ 24 * unat t + 2 ^ 8 * unat l + (256 - c)) = nice_candidate_ice_priority_full t l (word_of_nat c)"
    using assms(4) by (simp add: nice_candidate_ice_priority_full_def of_nat_diff)
  moreover have "2 ^ 24 * unat t + 2 ^ 8 * unat l + (256 - c) < 4294967296" using assms by simp
  ultimately show ?thesis by (metis unat_word_of_nat_u32)
qed

lemma type_preference_range:
  assumes "nice_candidate_ice_type_preference candidate reliable nat_assisted = Some t"
  shows "10 \<le> unat t \<and> unat t \<le> 120"
  using assms
  by (auto simp: nice_candidate_ice_type_preference_def bind_eq_Some_conv unat_div split: NiceCandidateType.splits)

lemma unat_local_preference:
  assumes "unat d \<le> 6"
  shows "unat (ucast (nice_candidate_ice_local_preference_full d (ucast (p :: u8))) :: u16) = 8192 * unat d + unat p"
proof -
  have b: "8192 * unat d + unat p < 65536" using assms unat_u8_less [of p] by simp
  have "word_of_nat (8192 * unat d + unat p) = nice_candidate_ice_local_preference_full d (ucast p)"
    by (simp add: nice_candidate_ice_local_preference_full_def)
  then have "unat (nice_candidate_ice_local_preference_full d (ucast p)) = 8192 * unat d + unat p"
    using unat_word_of_nat_u32 [of "8192 * unat d + unat p"] b by simp
  then show ?thesis using b by (simp add: unsigned_ucast_eq take_bit_nat_eq_self)
qed

text \<open>C39: the priority of a candidate whose component id is in the range the ICE specification allows is
  between 1 and 0x7effffff, and priorities order candidates lexicographically: a higher type preference
  wins, then a higher local preference, then the lower component id.\<close>

theorem ice_priority_order:
  assumes "nice_candidate_ice_priority ips ntop c rel assisted = Some p"
    and "nice_candidate_ice_priority ips ntop c' rel' assisted' = Some p'"
    and "1 \<le> c_component_id c" "c_component_id c \<le> 256" "1 \<le> c_component_id c'" "c_component_id c' \<le> 256"
  shows "1 \<le> p \<and> p \<le> 0x7effffff
    \<and> (\<exists>t t'. nice_candidate_ice_type_preference c rel assisted = Some t
        \<and> nice_candidate_ice_type_preference c' rel' assisted' = Some t'
        \<and> (p < p' \<longleftrightarrow> t < t' \<or> t = t' \<and>
             (nice_candidate_ice_local_preference ips ntop c < nice_candidate_ice_local_preference ips ntop c' \<or>
              nice_candidate_ice_local_preference ips ntop c = nice_candidate_ice_local_preference ips ntop c' \<and>
              c_component_id c > c_component_id c')))"
proof -
  let ?l = "nice_candidate_ice_local_preference ips ntop c" and ?l' = "nice_candidate_ice_local_preference ips ntop c'"
  from assms(1) obtain t where t: "nice_candidate_ice_type_preference c rel assisted = Some t"
    "p = nice_candidate_ice_priority_full (ucast t) (ucast ?l) (word_of_nat (c_component_id c))"
    by (auto simp: nice_candidate_ice_priority_def bind_eq_Some_conv)
  from assms(2) obtain t' where t': "nice_candidate_ice_type_preference c' rel' assisted' = Some t'"
    "p' = nice_candidate_ice_priority_full (ucast t') (ucast ?l') (word_of_nat (c_component_id c'))"
    by (auto simp: nice_candidate_ice_priority_def bind_eq_Some_conv)
  note r = type_preference_range [OF t(1)] type_preference_range [OF t'(1)]
  have p: "unat p = 2 ^ 24 * unat t + 2 ^ 8 * unat ?l + (256 - c_component_id c)"
    unfolding t(2) by (subst unat_priority_full) (use assms r unat_u16_less [of ?l] in simp_all)
  have p': "unat p' = 2 ^ 24 * unat t' + 2 ^ 8 * unat ?l' + (256 - c_component_id c')"
    unfolding t'(2) by (subst unat_priority_full) (use assms r unat_u16_less [of ?l'] in simp_all)
  have "1 \<le> p \<and> p \<le> 0x7effffff"
    unfolding word_le_nat_alt p using r assms(3,4) unat_u16_less [of ?l] by simp linarith
  moreover have "p < p' \<longleftrightarrow> t < t' \<or> t = t' \<and> (?l < ?l' \<or> ?l = ?l' \<and> c_component_id c > c_component_id c')"
    unfolding word_less_nat_alt word_unat_eq_iff p p'
    using assms(3-6) unat_u16_less [of ?l] unat_u16_less [of ?l'] by simp linarith
  ultimately show ?thesis using t(1) t'(1) by blast
qed

definition bare_candidate :: "NiceCandidateType \<Rightarrow> NiceCandidate" where
  "bare_candidate ty = (nice_candidate_new ty)\<lparr>c_component_id := 1\<rparr>"

theorem ice_priority_order_witness:
  "\<exists>p p'. nice_candidate_ice_priority [] (\<lambda>_. []) (bare_candidate NICE_CANDIDATE_TYPE_PEER_REFLEXIVE) False False = Some p
    \<and> nice_candidate_ice_priority [] (\<lambda>_. []) (bare_candidate NICE_CANDIDATE_TYPE_HOST) False False = Some p'
    \<and> p < p'"
proof -
  let ?f = "\<lambda>ty. nice_candidate_ice_priority [] (\<lambda>_. []) (bare_candidate ty) False False"
  have f: "?f NICE_CANDIDATE_TYPE_PEER_REFLEXIVE = Some 0x6e0001ff" "?f NICE_CANDIDATE_TYPE_HOST = Some 0x780001ff"
    by (simp_all add: nice_candidate_ice_priority_def nice_candidate_ice_type_preference_def nice_candidate_new_def
        nice_candidate_ice_local_preference_def nice_candidate_ice_priority_full_def bare_candidate_def)
  from ice_priority_order [OF f] f show ?thesis
    by (simp add: nice_candidate_ice_type_preference_def nice_candidate_new_def bare_candidate_def)
qed

section \<open>The order of pairs\<close>

lemma unat_pair_priority:
  assumes "unat x < 2 ^ 31" "unat y < 2 ^ 31"
  shows "unat (nice_candidate_pair_priority x y) =
    2 ^ 32 * min (unat x) (unat y) + 2 * max (unat x) (unat y) + (if x > y then 1 else 0)"
proof -
  let ?M = "if x > y then x else y" and ?m = "if x < y then x else y"
  have M: "unat ?M = max (unat x) (unat y)" and m: "unat ?m = min (unat x) (unat y)"
    by (auto simp: word_less_nat_alt max_def min_def)
  have "2 * ?M = word_of_nat (2 * unat ?M)" by simp
  moreover have "2 * unat ?M < 4294967296" unfolding M using assms by simp
  ultimately have M2: "unat (2 * ?M) = 2 * unat ?M" by (metis unat_word_of_nat_u32)
  let ?n = "2 ^ 32 * unat ?m + unat (2 * ?M) + (if x > y then 1 else 0)"
  have "nice_candidate_pair_priority x y = word_of_nat ?n"
    by (simp add: nice_candidate_pair_priority_def Let_def push_bit_eq_mult)
  moreover have "?n < 18446744073709551616" unfolding M2 M m using assms by (auto simp: min_def max_def)
  ultimately have "unat (nice_candidate_pair_priority x y) = ?n" by (metis unat_word_of_nat_u64)
  then show ?thesis unfolding M2 M m .
qed

lemma pair_lexicographic:
  assumes "M < 2 ^ 31" "M' < 2 ^ 31" "b \<le> 1" "b' \<le> (1 :: nat)"
  shows "2 ^ 32 * m + 2 * M + b < 2 ^ 32 * m' + 2 * M' + b' \<longleftrightarrow> m < m' \<or> m = m' \<and> (M < M' \<or> M = M' \<and> b < b')"
  using assms by simp linarith

text \<open>C38: when both candidate priorities are below \<open>2 ^ 31\<close>, as the ICE specification asks, a pair priority
  is the value of the ICE formula \<open>2^32 * min + 2 * max + (1 if o_prio > a_prio)\<close>, and therefore pairs are
  ordered by the smaller priority first, then by the larger one, then by the side of the larger one. The
  product is computed in 32 bits: with a priority of \<open>2 ^ 31\<close> the larger priority loses.\<close>

theorem pair_priority_order:
  assumes "unat o1 < 2 ^ 31" "unat a1 < 2 ^ 31" "unat o2 < 2 ^ 31" "unat a2 < 2 ^ 31"
  shows "(nice_candidate_pair_priority o1 a1 < nice_candidate_pair_priority o2 a2 \<longleftrightarrow>
      min o1 a1 < min o2 a2 \<or> min o1 a1 = min o2 a2 \<and>
        (max o1 a1 < max o2 a2 \<or> max o1 a1 = max o2 a2 \<and> \<not> o1 > a1 \<and> o2 > a2))
    \<and> unat (nice_candidate_pair_priority o1 a1) =
        2 ^ 32 * min (unat o1) (unat a1) + 2 * max (unat o1) (unat a1) + (if o1 > a1 then 1 else 0)
    \<and> nice_candidate_pair_priority (2 ^ 31) 1 < nice_candidate_pair_priority (2 ^ 31 - 1) 1"
proof -
  have mm: "unat (min x y) = min (unat x) (unat y)" "unat (max x y) = max (unat x) (unat y)" for x y :: u32
    by (auto simp: min_def max_def word_le_nat_alt)
  have lt: "min x y < min z w \<longleftrightarrow> min (unat x) (unat y) < min (unat z) (unat w)"
    "max x y < max z w \<longleftrightarrow> max (unat x) (unat y) < max (unat z) (unat w)"
    "min x y = min z w \<longleftrightarrow> min (unat x) (unat y) = min (unat z) (unat w)"
    "max x y = max z w \<longleftrightarrow> max (unat x) (unat y) = max (unat z) (unat w)" for x y z w :: u32
    by (simp_all only: word_less_nat_alt word_unat_eq_iff mm)
  have "nice_candidate_pair_priority o1 a1 < nice_candidate_pair_priority o2 a2 \<longleftrightarrow>
      min (unat o1) (unat a1) < min (unat o2) (unat a2) \<or> min (unat o1) (unat a1) = min (unat o2) (unat a2) \<and>
        (max (unat o1) (unat a1) < max (unat o2) (unat a2) \<or> max (unat o1) (unat a1) = max (unat o2) (unat a2) \<and>
         (if o1 > a1 then 1 else 0 :: nat) < (if o2 > a2 then 1 else 0))"
    unfolding word_less_nat_alt [of "nice_candidate_pair_priority o1 a1"] unat_pair_priority [OF assms(1,2)]
      unat_pair_priority [OF assms(3,4)]
    by (rule pair_lexicographic) (use assms in auto)
  moreover have "(if o1 > a1 then 1 else 0 :: nat) < (if o2 > a2 then 1 else 0) \<longleftrightarrow> \<not> o1 > a1 \<and> o2 > a2" by simp
  moreover have "nice_candidate_pair_priority (2 ^ 31) 1 < nice_candidate_pair_priority (2 ^ 31 - 1) 1"
    by (simp add: nice_candidate_pair_priority_def Let_def)
  ultimately show ?thesis using unat_pair_priority [OF assms(1,2)] by (simp only: lt simp_thms)
qed

theorem pair_priority_order_witness:
  "nice_candidate_pair_priority 1 5 < nice_candidate_pair_priority 2 3
   \<and> unat (nice_candidate_pair_priority 1 5) = 2 ^ 32 + 10"
  using pair_priority_order [of 1 5 2 3] by simp

end
