(* ===== verification/Conncheck_Data.thy ===== *)
theory Conncheck_Data
  imports Nice_Candidate Stun_Usage_Ice Stun_Timer
begin

text \<open>
  The state of the connectivity checks (\<^verbatim>\<open>agent/conncheck.c\<close>, \<^verbatim>\<open>agent/conncheck.h\<close>, with the parts of
  \<^verbatim>\<open>agent-priv.h\<close>, \<^verbatim>\<open>stream.h\<close>, \<^verbatim>\<open>component.h\<close> and \<^verbatim>\<open>agent.c\<close> it works on) and the operations on single
  objects.

  The source shares candidate pairs between the check list of a stream, the queue of triggered checks and
  the links between a pair and the pair it was discovered from. The model therefore has an explicit store:
  pairs, components, streams and candidates are numbers (addresses), and the agent maps them to records.
  Pairs can be freed; the store then has no record for them, an access through a dangling pointer is \<open>None\<close>,
  and an address is never used again. As in the other theories \<open>None\<close> also stands for a failed assertion.
  Signals and datagrams are recorded in the list \<open>ag_events\<close>. What the code learns from outside (the clock,
  random transaction ids, the crypto and base64 functions, the local addresses, properties of sockets) are
  the members of \<open>cc_env\<close>.
\<close>

section \<open>Types\<close>

datatype NiceCheckState =
    NICE_CHECK_WAITING
  | NICE_CHECK_IN_PROGRESS
  | NICE_CHECK_SUCCEEDED
  | NICE_CHECK_FAILED
  | NICE_CHECK_FROZEN
  | NICE_CHECK_DISCOVERED

datatype NiceComponentState =
    NICE_COMPONENT_STATE_DISCONNECTED
  | NICE_COMPONENT_STATE_GATHERING
  | NICE_COMPONENT_STATE_CONNECTING
  | NICE_COMPONENT_STATE_CONNECTED
  | NICE_COMPONENT_STATE_READY
  | NICE_COMPONENT_STATE_FAILED

datatype NiceCompatibility =
    NICE_COMPATIBILITY_RFC5245
  | NICE_COMPATIBILITY_GOOGLE
  | NICE_COMPATIBILITY_MSN
  | NICE_COMPATIBILITY_WLM2009
  | NICE_COMPATIBILITY_OC2007
  | NICE_COMPATIBILITY_OC2007R2

datatype NiceNominationMode = NICE_NOMINATION_MODE_REGULAR | NICE_NOMINATION_MODE_AGGRESSIVE

text \<open>\<open>tr_message\<close> is \<open>None\<close> while the buffer of the message is \<^verbatim>\<open>NULL\<close>.\<close>

record StunTransaction =
  tr_next_tick :: timeval
  tr_timer :: StunTimer
  tr_message :: "stun_message option"

record CandidateCheckPair =
  cp_stream_id :: nat
  cp_component_id :: nat
  cp_local :: nat
  cp_remote :: nat
  cp_sockptr :: "nat option"
  cp_foundation :: string
  cp_state :: NiceCheckState
  cp_nominated :: bool
  cp_valid :: bool
  cp_use_candidate_on_next_check :: bool
  cp_mark_nominated_on_response_arrival :: bool
  cp_retransmit :: bool
  cp_discovered_pair :: "nat option"
  cp_succeeded_pair :: "nat option"
  cp_priority :: u64
  cp_prflx_priority :: u32
  cp_stun_transactions :: "StunTransaction list"

record CandidatePair =
  sel_local :: "nat option"
  sel_remote :: "nat option"
  sel_priority :: u64
  sel_prflx_priority :: u32

record IncomingCheck =
  ic_from :: NiceAddress
  ic_local_socket :: "nat option"
  ic_priority :: u32
  ic_use_candidate :: bool
  ic_username :: bytes

record NiceComponent =
  cm_id :: nat
  cm_state :: NiceComponentState
  cm_local_candidates :: "nat list"
  cm_remote_candidates :: "nat list"
  cm_valid_candidates :: "NiceCandidate list"
  cm_incoming_checks :: "IncomingCheck list"
  cm_selected_pair :: CandidatePair
  cm_fallback_mode :: bool
  cm_turn_candidate :: "nat option"
  cm_stream :: nat
  cm_stun_agent :: stun_agent

record NiceStream =
  st_id :: nat
  st_name :: "string option"
  st_n_components :: nat
  st_components :: "nat list"
  st_conncheck_list :: "nat list"
  st_local_ufrag :: string
  st_local_password :: string
  st_remote_ufrag :: string
  st_remote_password :: string
  st_tick_counter :: nat

datatype cc_event =
    StateChanged nat nat NiceComponentState NiceComponentState
  | NewSelectedPair nat nat nat nat
  | KeepaliveTick
  | SocketSend "nat option" NiceAddress bytes
  | LegacySend "nat option" NiceAddress
  | SocketAttached nat nat
  | NewCandidate nat
  | NewRemoteCandidate nat

record NiceAgent =
  ag_compatibility :: NiceCompatibility
  ag_nomination_mode :: NiceNominationMode
  ag_controlling_mode :: bool
  ag_tie_breaker :: u64
  ag_max_conn_checks :: nat
  ag_force_relay :: bool
  ag_use_ice_udp :: bool
  ag_use_ice_tcp :: bool
  ag_reliable :: bool
  ag_timer_ta :: u32
  ag_stun_max_retransmissions :: u32
  ag_stun_reliable_timeout :: u32
  ag_discovery_list :: "(nat \<times> bool) list"
  ag_conncheck_timer :: bool
  ag_keepalive_timer :: bool
  ag_grace_period :: u32
  ag_streams :: "nat list"
  ag_triggered_check_queue :: "nat list"
  ag_stream :: "nat \<Rightarrow> NiceStream"
  ag_component :: "nat \<Rightarrow> NiceComponent"
  ag_candidate :: "nat \<Rightarrow> NiceCandidate"
  ag_pairs :: "nat \<rightharpoonup> CandidateCheckPair"
  ag_next_pair :: nat
  ag_next_candidate :: nat
  ag_next_candidate_id :: u32
  ag_random :: nat
  ag_events :: "cc_event list"

record cc_env =
  env_now :: timeval
  env_random :: "nat \<Rightarrow> bytes"
  env_random_bytes :: "nat \<Rightarrow> nat \<Rightarrow> bytes"
  env_random_print :: "nat \<Rightarrow> nat \<Rightarrow> string"
  env_hmac :: hmac_fun
  env_md5 :: "bytes \<Rightarrow> bytes"
  env_base64_decode :: "string \<Rightarrow> bytes"
  env_base64_encode :: "bytes \<Rightarrow> string"
  env_package_string :: bytes
  env_local_ips :: "string list"
  env_inet_ntop :: "NiceAddress \<Rightarrow> string"
  env_socket_addr :: "nat option \<Rightarrow> NiceAddress"
  env_socket_is_udp :: "nat option \<Rightarrow> bool"
  env_socket_is_reliable :: "nat option \<Rightarrow> bool"
  env_socket_must_connect :: "nat option \<Rightarrow> bool"
  env_tcp_connect :: "nat option \<Rightarrow> NiceAddress \<Rightarrow> nat option"

section \<open>The store\<close>

definition upd_pair :: "nat \<Rightarrow> (CandidateCheckPair \<Rightarrow> CandidateCheckPair) \<Rightarrow> NiceAgent \<Rightarrow> NiceAgent option" where
  "upd_pair p f s = (case ag_pairs s p of None \<Rightarrow> None | Some x \<Rightarrow> Some (s\<lparr>ag_pairs := (ag_pairs s)(p \<mapsto> f x)\<rparr>))"

definition upd_stream :: "nat \<Rightarrow> (NiceStream \<Rightarrow> NiceStream) \<Rightarrow> NiceAgent \<Rightarrow> NiceAgent" where
  "upd_stream st f s = s\<lparr>ag_stream := (ag_stream s)(st := f (ag_stream s st))\<rparr>"

definition upd_component :: "nat \<Rightarrow> (NiceComponent \<Rightarrow> NiceComponent) \<Rightarrow> NiceAgent \<Rightarrow> NiceAgent" where
  "upd_component c f s = s\<lparr>ag_component := (ag_component s)(c := f (ag_component s c))\<rparr>"

definition emit :: "cc_event \<Rightarrow> NiceAgent \<Rightarrow> NiceAgent" where
  "emit e s = s\<lparr>ag_events := ag_events s @ [e]\<rparr>"

definition checklist :: "NiceAgent \<Rightarrow> nat \<Rightarrow> nat list" where
  "checklist s st = st_conncheck_list (ag_stream s st)"

definition set_checklist :: "nat \<Rightarrow> nat list \<Rightarrow> NiceAgent \<Rightarrow> NiceAgent" where
  "set_checklist st ps = upd_stream st (\<lambda>x. x\<lparr>st_conncheck_list := ps\<rparr>)"

text \<open>Loops over lists of pairs: a test with early exit, a search, and a loop with a body.\<close>

fun any_pair :: "NiceAgent \<Rightarrow> (CandidateCheckPair \<Rightarrow> bool) \<Rightarrow> nat list \<Rightarrow> bool option" where
  "any_pair s P [] = Some False"
| "any_pair s P (p # ps) = do {
     x \<leftarrow> ag_pairs s p;
     if P x then Some True else any_pair s P ps
   }"

fun first_pair :: "NiceAgent \<Rightarrow> (CandidateCheckPair \<Rightarrow> bool) \<Rightarrow> nat list \<Rightarrow> nat option option" where
  "first_pair s P [] = Some None"
| "first_pair s P (p # ps) = do {
     x \<leftarrow> ag_pairs s p;
     if P x then Some (Some p) else first_pair s P ps
   }"

fun count_pairs :: "NiceAgent \<Rightarrow> (CandidateCheckPair \<Rightarrow> bool) \<Rightarrow> nat list \<Rightarrow> nat option" where
  "count_pairs s P [] = Some 0"
| "count_pairs s P (p # ps) = do {
     x \<leftarrow> ag_pairs s p;
     n \<leftarrow> count_pairs s P ps;
     Some (if P x then Suc n else n)
   }"

fun for_each :: "('a \<Rightarrow> NiceAgent \<Rightarrow> NiceAgent option) \<Rightarrow> 'a list \<Rightarrow> NiceAgent \<Rightarrow> NiceAgent option" where
  "for_each f [] s = Some s"
| "for_each f (x # xs) s = do { s \<leftarrow> f x s; for_each f xs s }"

section \<open>Finding streams and components\<close>

definition agent_find_stream :: "NiceAgent \<Rightarrow> nat \<Rightarrow> nat option" where
  "agent_find_stream s stream_id = find (\<lambda>st. st_id (ag_stream s st) = stream_id) (ag_streams s)"

definition nice_stream_find_component_by_id :: "NiceAgent \<Rightarrow> nat \<Rightarrow> nat \<Rightarrow> nat option" where
  "nice_stream_find_component_by_id s st i = find (\<lambda>c. cm_id (ag_component s c) = i) (st_components (ag_stream s st))"

definition agent_find_component :: "NiceAgent \<Rightarrow> nat \<Rightarrow> nat \<Rightarrow> (nat \<times> nat) option" where
  "agent_find_component s stream_id component_id =
     (case agent_find_stream s stream_id of
        None \<Rightarrow> None
      | Some st \<Rightarrow> map_option (\<lambda>c. (st, c)) (nice_stream_find_component_by_id s st component_id))"

section \<open>The state of a component\<close>

definition allowed_transition :: "NiceComponentState \<Rightarrow> NiceComponentState \<Rightarrow> bool" where
  "allowed_transition old_state new_state =
     ((old_state, new_state) \<in> set
       [(NICE_COMPONENT_STATE_DISCONNECTED, NICE_COMPONENT_STATE_FAILED),
        (NICE_COMPONENT_STATE_GATHERING, NICE_COMPONENT_STATE_FAILED),
        (NICE_COMPONENT_STATE_CONNECTING, NICE_COMPONENT_STATE_FAILED),
        (NICE_COMPONENT_STATE_CONNECTED, NICE_COMPONENT_STATE_FAILED),
        (NICE_COMPONENT_STATE_READY, NICE_COMPONENT_STATE_FAILED),
        (NICE_COMPONENT_STATE_DISCONNECTED, NICE_COMPONENT_STATE_GATHERING),
        (NICE_COMPONENT_STATE_GATHERING, NICE_COMPONENT_STATE_CONNECTING),
        (NICE_COMPONENT_STATE_CONNECTING, NICE_COMPONENT_STATE_CONNECTED),
        (NICE_COMPONENT_STATE_CONNECTED, NICE_COMPONENT_STATE_READY),
        (NICE_COMPONENT_STATE_READY, NICE_COMPONENT_STATE_CONNECTED),
        (NICE_COMPONENT_STATE_FAILED, NICE_COMPONENT_STATE_CONNECTING),
        (NICE_COMPONENT_STATE_FAILED, NICE_COMPONENT_STATE_GATHERING),
        (NICE_COMPONENT_STATE_DISCONNECTED, NICE_COMPONENT_STATE_CONNECTING)])"

text \<open>The queue of received packets that a reliable agent hands to its pseudo-TCP socket after a change of
  state is not part of this model.\<close>

definition agent_signal_component_state_change ::
  "nat \<Rightarrow> nat \<Rightarrow> NiceComponentState \<Rightarrow> NiceAgent \<Rightarrow> NiceAgent option" where
  "agent_signal_component_state_change stream_id component_id new_state s =
     (case agent_find_component s stream_id component_id of
        None \<Rightarrow> Some s
      | Some (st, c) \<Rightarrow>
          let old_state = cm_state (ag_component s c) in
          if new_state = old_state then Some s
          else do {
            c_assert (allowed_transition old_state new_state);
            Some (emit (StateChanged stream_id component_id old_state new_state)
                   (upd_component c (\<lambda>x. x\<lparr>cm_state := new_state\<rparr>) s))
          })"

definition agent_candidate_pair_priority :: "NiceAgent \<Rightarrow> nat \<Rightarrow> nat \<Rightarrow> u64" where
  "agent_candidate_pair_priority s l r =
     (if ag_controlling_mode s
      then nice_candidate_pair_priority (c_priority (ag_candidate s l)) (c_priority (ag_candidate s r))
      else nice_candidate_pair_priority (c_priority (ag_candidate s r)) (c_priority (ag_candidate s l)))"

definition agent_to_ice_compatibility :: "NiceAgent \<Rightarrow> StunUsageIceCompatibility" where
  "agent_to_ice_compatibility s =
     (case ag_compatibility s of
        NICE_COMPATIBILITY_GOOGLE \<Rightarrow> STUN_USAGE_ICE_COMPATIBILITY_GOOGLE
      | NICE_COMPATIBILITY_MSN \<Rightarrow> STUN_USAGE_ICE_COMPATIBILITY_MSN
      | NICE_COMPATIBILITY_WLM2009 \<Rightarrow> STUN_USAGE_ICE_COMPATIBILITY_MSICE2
      | NICE_COMPATIBILITY_OC2007 \<Rightarrow> STUN_USAGE_ICE_COMPATIBILITY_MSN
      | NICE_COMPATIBILITY_OC2007R2 \<Rightarrow> STUN_USAGE_ICE_COMPATIBILITY_MSICE2
      | NICE_COMPATIBILITY_RFC5245 \<Rightarrow> STUN_USAGE_ICE_COMPATIBILITY_RFC5245)"

definition rfc5245_or_oc2007r2 :: "NiceAgent \<Rightarrow> bool" where
  "rfc5245_or_oc2007r2 s =
     (ag_compatibility s = NICE_COMPATIBILITY_RFC5245 \<or> ag_compatibility s = NICE_COMPATIBILITY_OC2007R2)"

section \<open>Timers\<close>

definition priv_timer_expired :: "timeval \<Rightarrow> timeval \<Rightarrow> bool" where
  "priv_timer_expired timer now =
     (if tv_sec now = tv_sec timer then tv_usec now \<ge> tv_usec timer else tv_sec now \<ge> tv_sec timer)"

definition priv_timer_remainder :: "timeval \<Rightarrow> timeval \<Rightarrow> u32" where
  "priv_timer_remainder timer now =
     (if tv_sec now > tv_sec timer \<or> (tv_sec now = tv_sec timer \<and> tv_usec now > tv_usec timer) then 0
      else word_of_int ((tv_sec timer - tv_sec now) * 1000) + word_of_int (c_div (tv_usec timer - tv_usec now) 1000))"

text \<open>\<^verbatim>\<open>g_time_val_add\<close> of GLib, for a number of microseconds that is not negative.\<close>

definition g_time_val_add :: "timeval \<Rightarrow> u32 \<Rightarrow> timeval" where
  "g_time_val_add t us =
     (let u = tv_usec t + uint us mod 1000000; sec = tv_sec t + uint us div 1000000
      in if u \<ge> 1000000 then \<lparr>tv_sec = sec + 1, tv_usec = u - 1000000\<rparr> else \<lparr>tv_sec = sec, tv_usec = u\<rparr>)"

section \<open>The queue of triggered checks\<close>

definition priv_add_pair_to_triggered_check_queue :: "nat \<Rightarrow> NiceAgent \<Rightarrow> NiceAgent option" where
  "priv_add_pair_to_triggered_check_queue p s = do {
     s \<leftarrow> upd_pair p (\<lambda>x. x\<lparr>cp_state := NICE_CHECK_IN_PROGRESS\<rparr>) s;
     Some (if p \<in> set (ag_triggered_check_queue s) then s
           else s\<lparr>ag_triggered_check_queue := ag_triggered_check_queue s @ [p]\<rparr>)
   }"

definition priv_remove_pair_from_triggered_check_queue :: "nat \<Rightarrow> NiceAgent \<Rightarrow> NiceAgent" where
  "priv_remove_pair_from_triggered_check_queue p s =
     s\<lparr>ag_triggered_check_queue := remove1 p (ag_triggered_check_queue s)\<rparr>"

definition priv_get_pair_from_triggered_check_queue :: "NiceAgent \<Rightarrow> nat option \<times> NiceAgent" where
  "priv_get_pair_from_triggered_check_queue s =
     (case ag_triggered_check_queue s of
        [] \<Rightarrow> (None, s)
      | p # _ \<Rightarrow> (Some p, priv_remove_pair_from_triggered_check_queue p s))"

section \<open>The state of a check list\<close>

definition priv_is_checklist_active :: "NiceAgent \<Rightarrow> nat \<Rightarrow> bool option" where
  "priv_is_checklist_active s st =
     any_pair s (\<lambda>x. cp_state x = NICE_CHECK_WAITING \<or> cp_state x = NICE_CHECK_IN_PROGRESS) (checklist s st)"

definition priv_is_checklist_frozen :: "NiceAgent \<Rightarrow> nat \<Rightarrow> bool option" where
  "priv_is_checklist_frozen s st =
     (if checklist s st = [] then Some False
      else map_option Not (any_pair s (\<lambda>x. cp_state x \<noteq> NICE_CHECK_FROZEN) (checklist s st)))"

fun components_have_valid_pair :: "NiceAgent \<Rightarrow> nat list \<Rightarrow> nat list \<Rightarrow> bool option" where
  "components_have_valid_pair s ps [] = Some True"
| "components_have_valid_pair s ps (i # is) = do {
     found \<leftarrow> any_pair s (\<lambda>x. cp_component_id x = i \<and> cp_valid x) ps;
     if found then components_have_valid_pair s ps is else Some False
   }"

definition priv_all_components_have_valid_pair :: "NiceAgent \<Rightarrow> nat \<Rightarrow> bool option" where
  "priv_all_components_have_valid_pair s st =
     components_have_valid_pair s (checklist s st) [1..<Suc (st_n_components (ag_stream s st))]"

definition priv_foundation_matches_a_valid_pair :: "NiceAgent \<Rightarrow> string \<Rightarrow> nat \<Rightarrow> bool option" where
  "priv_foundation_matches_a_valid_pair s foundation st =
     any_pair s (\<lambda>x. cp_valid x \<and> cp_foundation x = foundation) (checklist s st)"

definition priv_conn_check_find_next_waiting :: "NiceAgent \<Rightarrow> nat list \<Rightarrow> nat option option" where
  "priv_conn_check_find_next_waiting s ps = first_pair s (\<lambda>x. cp_state x = NICE_CHECK_WAITING) ps"

definition priv_conn_check_find_next_frozen :: "NiceAgent \<Rightarrow> nat list \<Rightarrow> nat option option" where
  "priv_conn_check_find_next_frozen s ps = first_pair s (\<lambda>x. cp_state x = NICE_CHECK_FROZEN) ps"

fun count_active :: "NiceAgent \<Rightarrow> nat list \<Rightarrow> nat option" where
  "count_active s [] = Some 0"
| "count_active s (st # sts) = do {
     a \<leftarrow> priv_is_checklist_active s st;
     n \<leftarrow> count_active s sts;
     Some (if a then Suc n else n)
   }"

definition priv_number_of_active_check_lists :: "NiceAgent \<Rightarrow> nat option" where
  "priv_number_of_active_check_lists s = count_active s (ag_streams s)"

fun first_frozen :: "NiceAgent \<Rightarrow> nat list \<Rightarrow> nat option option" where
  "first_frozen s [] = Some None"
| "first_frozen s (st # sts) = do {
     f \<leftarrow> priv_is_checklist_frozen s st;
     if f then Some (Some st) else first_frozen s sts
   }"

definition priv_find_first_frozen_check_list :: "NiceAgent \<Rightarrow> nat option option" where
  "priv_find_first_frozen_check_list s = first_frozen s (ag_streams s)"

end
