(* ===== verification/Conncheck_Pairs.thy ===== *)
theory Conncheck_Pairs
  imports Conncheck_Data
begin

text \<open>
  The operations of \<^verbatim>\<open>agent/conncheck.c\<close> on candidate pairs and check lists: unfreezing, STUN transactions
  of a pair, freeing and pruning, the selected pair and the state of a component, and new pairs.
\<close>

section \<open>Unfreezing\<close>

text \<open>The inner loop of \<^verbatim>\<open>priv_conn_check_unfreeze_next\<close>: its pair \<^verbatim>\<open>p2\<close> is taken from the outer loop
  variable, so every round looks at the same pair.\<close>

definition unfreeze_pick :: "nat \<Rightarrow> CandidateCheckPair \<Rightarrow> nat \<Rightarrow> nat list \<Rightarrow> nat option" where
  "unfreeze_pick p1 x1 n_components ps =
     fst (fold (\<lambda>_ (pair, lowest_component_id, highest_priority).
                  if cp_component_id x1 < lowest_component_id
                     \<or> (cp_component_id x1 = lowest_component_id \<and> cp_priority x1 > highest_priority)
                  then (Some p1, cp_component_id x1, cp_priority x1)
                  else (pair, lowest_component_id, highest_priority))
            ps (None, n_components + 1, 0))"

fun unfreeze_loop ::
  "nat \<Rightarrow> nat list \<Rightarrow> string list \<Rightarrow> nat list \<Rightarrow> bool \<Rightarrow> NiceAgent \<Rightarrow> (bool \<times> NiceAgent) option" where
  "unfreeze_loop n_components all found [] result s = Some (result, s)"
| "unfreeze_loop n_components all found (p1 # ps) result s = do {
     x1 \<leftarrow> ag_pairs s p1;
     if cp_foundation x1 \<in> set found then unfreeze_loop n_components all found ps result s
     else (case unfreeze_pick p1 x1 n_components all of
             None \<Rightarrow> unfreeze_loop n_components all (cp_foundation x1 # found) ps result s
           | Some pair \<Rightarrow> do {
               s \<leftarrow> upd_pair pair (\<lambda>x. x\<lparr>cp_state := NICE_CHECK_WAITING\<rparr>) s;
               unfreeze_loop n_components all (cp_foundation x1 # found) ps True s
             })
   }"

definition priv_conn_check_unfreeze_next :: "nat \<Rightarrow> NiceAgent \<Rightarrow> (bool \<times> NiceAgent) option" where
  "priv_conn_check_unfreeze_next st s =
     unfreeze_loop (st_n_components (ag_stream s st)) (checklist s st) [] (checklist s st) False s"

definition unfreeze_same_foundation :: "CandidateCheckPair \<Rightarrow> nat \<Rightarrow> NiceAgent \<Rightarrow> NiceAgent option" where
  "unfreeze_same_foundation ok p s = do {
     x \<leftarrow> ag_pairs s p;
     if cp_stream_id x = cp_stream_id ok \<and> cp_state x = NICE_CHECK_FROZEN \<and> cp_foundation x = cp_foundation ok
     then upd_pair p (\<lambda>x. x\<lparr>cp_state := NICE_CHECK_WAITING\<rparr>) s
     else Some s
   }"

text \<open>The loop over another check list; the first component tells whether a foundation matched.\<close>

fun unfreeze_matching ::
  "bool \<Rightarrow> nat \<Rightarrow> nat list \<Rightarrow> bool \<Rightarrow> NiceAgent \<Rightarrow> (bool \<times> NiceAgent) option" where
  "unfreeze_matching only_frozen st [] matched s = Some (matched, s)"
| "unfreeze_matching only_frozen st (p # ps) matched s = do {
     x \<leftarrow> ag_pairs s p;
     m \<leftarrow> (if only_frozen \<and> cp_state x \<noteq> NICE_CHECK_FROZEN then Some False
          else priv_foundation_matches_a_valid_pair s (cp_foundation x) st);
     s \<leftarrow> (if m then upd_pair p (\<lambda>x. x\<lparr>cp_state := NICE_CHECK_WAITING\<rparr>) s else Some s);
     unfreeze_matching only_frozen st ps (matched \<or> m) s
   }"

definition unfreeze_other_stream :: "nat \<Rightarrow> nat \<Rightarrow> nat \<Rightarrow> NiceAgent \<Rightarrow> NiceAgent option" where
  "unfreeze_other_stream stream_id st other s =
     (if st_id (ag_stream s other) = stream_id then Some s
      else do {
        active \<leftarrow> priv_is_checklist_active s other;
        if active then map_option snd (unfreeze_matching True st (checklist s other) False s)
        else do {
          frozen \<leftarrow> priv_is_checklist_frozen s other;
          if \<not> frozen then Some s
          else do {
            (match_found, s) \<leftarrow> unfreeze_matching False st (checklist s other) False s;
            if match_found then Some s else map_option snd (priv_conn_check_unfreeze_next other s)
          }
        }
      })"

definition priv_conn_check_unfreeze_related :: "nat \<Rightarrow> nat \<Rightarrow> NiceAgent \<Rightarrow> NiceAgent option" where
  "priv_conn_check_unfreeze_related st ok_check s = do {
     ok \<leftarrow> ag_pairs s ok_check;
     c_assert (cp_state ok = NICE_CHECK_SUCCEEDED);
     c_assert (st_id (ag_stream s st) = cp_stream_id ok);
     s \<leftarrow> for_each (unfreeze_same_foundation ok) (checklist s st) s;
     st \<leftarrow> agent_find_stream s (cp_stream_id ok);
     all_valid \<leftarrow> priv_all_components_have_valid_pair s st;
     if all_valid then for_each (unfreeze_other_stream (cp_stream_id ok) st) (ag_streams s) s
     else Some s
   }"

section \<open>STUN transactions of a pair\<close>

definition priv_forget_stun_transaction :: "nat \<Rightarrow> StunTransaction \<Rightarrow> NiceAgent \<Rightarrow> NiceAgent option" where
  "priv_forget_stun_transaction c t s =
     (case tr_message t of
        None \<Rightarrow> Some s
      | Some m \<Rightarrow> do {
          i \<leftarrow> stun_message_id m;
          Some (upd_component c (\<lambda>x. x\<lparr>cm_stun_agent := snd (stun_agent_forget_transaction (cm_stun_agent x) i)\<rparr>) s)
        })"

definition priv_free_all_stun_transactions :: "nat \<Rightarrow> nat option \<Rightarrow> NiceAgent \<Rightarrow> NiceAgent option" where
  "priv_free_all_stun_transactions p c s = do {
     x \<leftarrow> ag_pairs s p;
     s \<leftarrow> (case c of None \<Rightarrow> Some s | Some c \<Rightarrow> for_each (priv_forget_stun_transaction c) (cp_stun_transactions x) s);
     upd_pair p (\<lambda>x. x\<lparr>cp_stun_transactions := []\<rparr>) s
   }"

text \<open>The transaction at position \<open>k\<close> of the list.\<close>

definition priv_remove_stun_transaction :: "nat \<Rightarrow> nat \<Rightarrow> nat \<Rightarrow> NiceAgent \<Rightarrow> NiceAgent option" where
  "priv_remove_stun_transaction p k c s = do {
     x \<leftarrow> ag_pairs s p;
     c_assert (k < length (cp_stun_transactions x));
     s \<leftarrow> priv_forget_stun_transaction c (cp_stun_transactions x ! k) s;
     upd_pair p (\<lambda>x. x\<lparr>cp_stun_transactions := take k (cp_stun_transactions x) @ drop (Suc k) (cp_stun_transactions x)\<rparr>) s
   }"

definition candidate_check_pair_fail :: "nat \<Rightarrow> nat \<Rightarrow> NiceAgent \<Rightarrow> NiceAgent option" where
  "candidate_check_pair_fail st p s = do {
     x \<leftarrow> ag_pairs s p;
     s \<leftarrow> upd_pair p (\<lambda>x. x\<lparr>cp_state := NICE_CHECK_FAILED\<rparr>) s;
     priv_free_all_stun_transactions p (nice_stream_find_component_by_id s st (cp_component_id x)) s
   }"

section \<open>Removing pairs\<close>

definition conn_check_free_item :: "nat \<Rightarrow> NiceAgent \<Rightarrow> NiceAgent option" where
  "conn_check_free_item p s = do {
     _ \<leftarrow> ag_pairs s p;
     let s = priv_remove_pair_from_triggered_check_queue p s;
     s \<leftarrow> priv_free_all_stun_transactions p None s;
     Some (s\<lparr>ag_pairs := (ag_pairs s)(p := None)\<rparr>)
   }"

text \<open>Freeing a pair and deleting its link from the check list.\<close>

definition remove_pair :: "nat \<Rightarrow> nat \<Rightarrow> NiceAgent \<Rightarrow> NiceAgent option" where
  "remove_pair st p s = do {
     s \<leftarrow> conn_check_free_item p s;
     Some (set_checklist st (remove1 p (checklist s st)) s)
   }"

definition priv_limit_conn_check_list_size :: "nat \<Rightarrow> nat \<Rightarrow> NiceAgent \<Rightarrow> NiceAgent option" where
  "priv_limit_conn_check_list_size st upper_limit s =
     for_each (remove_pair st) (drop upper_limit (checklist s st)) s"

definition highest_nominated :: "NiceAgent \<Rightarrow> nat \<Rightarrow> nat list \<Rightarrow> u64 option" where
  "highest_nominated s component_id ps =
     fold (\<lambda>p acc. do {
             h \<leftarrow> acc;
             x \<leftarrow> ag_pairs s p;
             Some (if cp_component_id x = component_id \<and> cp_valid x \<and> cp_nominated x \<and> cp_priority x > h
                   then cp_priority x else h)
           }) ps (Some 0)"

fun prune_loop :: "nat \<Rightarrow> nat \<Rightarrow> u64 \<Rightarrow> nat list \<Rightarrow> nat \<Rightarrow> NiceAgent \<Rightarrow> (nat \<times> NiceAgent) option" where
  "prune_loop st component_id h [] in_progress s = Some (in_progress, s)"
| "prune_loop st component_id h (p # ps) in_progress s = do {
     x \<leftarrow> ag_pairs s p;
     if cp_component_id x \<noteq> component_id then prune_loop st component_id h ps in_progress s
     else if cp_state x = NICE_CHECK_FROZEN \<or> cp_state x = NICE_CHECK_WAITING then do {
       s \<leftarrow> remove_pair st p s;
       prune_loop st component_id h ps in_progress s
     }
     else if cp_state x = NICE_CHECK_IN_PROGRESS then
       (if cp_priority x < h then do {
          s \<leftarrow> upd_pair p (\<lambda>x. x\<lparr>cp_retransmit := False\<rparr>) s;
          prune_loop st component_id h ps in_progress s
        }
        else prune_loop st component_id h ps (Suc in_progress) s)
     else prune_loop st component_id h ps in_progress s
   }"

definition priv_prune_pending_checks :: "nat \<Rightarrow> nat \<Rightarrow> NiceAgent \<Rightarrow> (nat \<times> NiceAgent) option" where
  "priv_prune_pending_checks st component_id s = do {
     h \<leftarrow> highest_nominated s component_id (checklist s st);
     prune_loop st component_id h (checklist s st) 0 s
   }"

definition conn_check_stop :: "NiceAgent \<Rightarrow> NiceAgent" where
  "conn_check_stop s = (if \<not> ag_conncheck_timer s then s else s\<lparr>ag_conncheck_timer := False, ag_grace_period := 0\<rparr>)"

definition free_checklist :: "nat \<Rightarrow> NiceAgent \<Rightarrow> NiceAgent option" where
  "free_checklist st s = do {
     s \<leftarrow> for_each conn_check_free_item (checklist s st) s;
     Some (set_checklist st [] s)
   }"

definition conn_check_free :: "NiceAgent \<Rightarrow> NiceAgent option" where
  "conn_check_free s = map_option conn_check_stop (for_each free_checklist (ag_streams s) s)"

definition conn_check_prune_stream :: "nat \<Rightarrow> NiceAgent \<Rightarrow> NiceAgent option" where
  "conn_check_prune_stream st s = do {
     s \<leftarrow> free_checklist st s;
     Some (if list_ex (\<lambda>st. checklist s st \<noteq> []) (ag_streams s) then s else conn_check_stop s)
   }"

definition prune_socket_pair :: "nat \<Rightarrow> nat option \<Rightarrow> nat \<Rightarrow> NiceAgent \<Rightarrow> NiceAgent option" where
  "prune_socket_pair st sock p s = do {
     x \<leftarrow> ag_pairs s p;
     if c_sockptr (ag_candidate s (cp_local x)) = sock \<or> c_sockptr (ag_candidate s (cp_remote x)) = sock
        \<or> cp_sockptr x = sock
     then do { s \<leftarrow> candidate_check_pair_fail st p s; remove_pair st p s }
     else Some s
   }"

definition conn_check_prune_socket :: "nat \<Rightarrow> nat \<Rightarrow> nat option \<Rightarrow> NiceAgent \<Rightarrow> NiceAgent option" where
  "conn_check_prune_socket st c sock s = do {
     s \<leftarrow> (case sel_local (cm_selected_pair (ag_component s c)) of
           None \<Rightarrow> Some s
         | Some l \<Rightarrow>
             if c_sockptr (ag_candidate s l) = sock \<and> cm_state (ag_component s c) = NICE_COMPONENT_STATE_READY
             then agent_signal_component_state_change (st_id (ag_stream s st)) (cm_id (ag_component s c))
                    NICE_COMPONENT_STATE_FAILED s
             else Some s);
     for_each (prune_socket_pair st sock) (checklist s st) s
   }"

end
