(* ===== verification/Conncheck_State.thy ===== *)
theory Conncheck_State
  imports Conncheck_Pairs
begin

text \<open>
  The selected pair and the state of a component (\<^verbatim>\<open>agent/conncheck.c\<close> and \<^verbatim>\<open>agent/component.c\<close>), and new
  pairs of the check list.
\<close>

section \<open>The selected pair\<close>

abbreviation (input) NICE_COMPONENT_MAX_VALID_CANDIDATES :: nat where "NICE_COMPONENT_MAX_VALID_CANDIDATES \<equiv> 50"

definition add_valid_candidate :: "NiceCandidate \<Rightarrow> NiceCandidate list \<Rightarrow> NiceCandidate list" where
  "add_valid_candidate candidate cands =
     (if list_ex (\<lambda>cand. nice_candidate_equal_target cand candidate) cands then cands
      else nice_candidate_copy candidate #
           (if length cands > NICE_COMPONENT_MAX_VALID_CANDIDATES then butlast cands else cands))"

definition nice_component_add_valid_candidate :: "nat \<Rightarrow> nat \<Rightarrow> NiceAgent \<Rightarrow> NiceAgent" where
  "nice_component_add_valid_candidate c candidate s =
     upd_component c (\<lambda>x. x\<lparr>cm_valid_candidates :=
       add_valid_candidate (ag_candidate s candidate) (cm_valid_candidates x)\<rparr>) s"

text \<open>Whether data from an address is accepted; the candidate found moves to the front of the list.
  \<open>tcp_bsd\<close> tells whether the socket is a TCP socket.\<close>

definition nice_component_verify_remote_candidate ::
  "NiceAddress \<Rightarrow> bool \<Rightarrow> NiceComponent \<Rightarrow> bool \<times> NiceComponent" where
  "nice_component_verify_remote_candidate address tcp_bsd component =
     (if cm_fallback_mode component then (True, component)
      else
        let ok = (\<lambda>cand. ((tcp_bsd \<and> c_transport cand \<noteq> NICE_CANDIDATE_TRANSPORT_UDP)
                          \<or> c_transport cand = NICE_CANDIDATE_TRANSPORT_UDP) \<and> nice_address_equal address (c_addr cand));
            l = cm_valid_candidates component
        in case dropWhile (Not \<circ> ok) l of
             [] \<Rightarrow> (False, component)
           | cand # rest \<Rightarrow> (True, component\<lparr>cm_valid_candidates := cand # takeWhile (Not \<circ> ok) l @ rest\<rparr>))"

text \<open>When the selected local candidate was kept only for the selected pair (\<^verbatim>\<open>turn_candidate\<close>), it is dropped
  with its socket. The lists of refreshes, discoveries and socket sources are not part of the model.\<close>

definition nice_component_update_selected_pair :: "nat \<Rightarrow> CandidatePair \<Rightarrow> NiceAgent \<Rightarrow> NiceAgent option" where
  "nice_component_update_selected_pair c pair s = do {
     s \<leftarrow> (let component = ag_component s c in
         case sel_local (cm_selected_pair component) of
           None \<Rightarrow> Some s
         | Some l \<Rightarrow>
             if cm_turn_candidate component = Some l then do {
               s \<leftarrow> conn_check_prune_socket (cm_stream component) c (c_sockptr (ag_candidate s l)) s;
               Some (upd_component c (\<lambda>x. x\<lparr>cm_turn_candidate := None\<rparr>) s)
             }
             else Some s);
     remote \<leftarrow> sel_remote pair;
     Some (nice_component_add_valid_candidate c remote (upd_component c (\<lambda>x. x\<lparr>cm_selected_pair := pair\<rparr>) s))
   }"

text \<open>The keepalive messages are not part of the model. The signal reads the pair again.\<close>

definition priv_update_selected_pair :: "nat \<Rightarrow> nat \<Rightarrow> NiceAgent \<Rightarrow> NiceAgent option" where
  "priv_update_selected_pair c p s = do {
     x \<leftarrow> ag_pairs s p;
     if cp_priority x > sel_priority (cm_selected_pair (ag_component s c)) then do {
       s \<leftarrow> nice_component_update_selected_pair c
             \<lparr>sel_local = Some (cp_local x), sel_remote = Some (cp_remote x), sel_priority = cp_priority x,
              sel_prflx_priority = 0\<rparr> s;
       x \<leftarrow> ag_pairs s p;
       Some (emit (NewSelectedPair (cp_stream_id x) (cm_id (ag_component s c)) (cp_local x) (cp_remote x))
              (emit KeepaliveTick s))
     }
     else Some s
   }"

section \<open>The state of a component\<close>

fun scan_completed :: "NiceAgent \<Rightarrow> nat \<Rightarrow> nat \<Rightarrow> nat list \<Rightarrow> nat \<Rightarrow> bool \<Rightarrow> (nat \<times> bool) option" where
  "scan_completed s stream_id i [] nominated completed = Some (nominated, completed)"
| "scan_completed s stream_id i (p # ps) nominated completed = do {
     x \<leftarrow> ag_pairs s p;
     c_assert (cp_stream_id x = stream_id);
     if cp_component_id x = i then
       scan_completed s stream_id i ps (if cp_nominated x then Suc nominated else nominated)
         (completed \<and> cp_state x \<in> {NICE_CHECK_FAILED, NICE_CHECK_SUCCEEDED, NICE_CHECK_DISCOVERED})
     else scan_completed s stream_id i ps nominated completed
   }"

definition fail_component :: "nat \<Rightarrow> nat \<Rightarrow> NiceAgent \<Rightarrow> NiceAgent option" where
  "fail_component st i s =
     (let stream_id = st_id (ag_stream s st) in
      case agent_find_component s stream_id i of
        None \<Rightarrow> Some s
      | Some (_, c) \<Rightarrow> do {
          (nominated, completed) \<leftarrow> scan_completed s stream_id i (checklist s st) 0 True;
          if completed \<and> nominated = 0 \<and> cm_remote_candidates (ag_component s c) \<noteq> []
          then agent_signal_component_state_change stream_id i NICE_COMPONENT_STATE_FAILED s
          else Some s
        })"

definition priv_update_check_list_failed_components :: "nat \<Rightarrow> NiceAgent \<Rightarrow> NiceAgent option" where
  "priv_update_check_list_failed_components st s =
     (if list_ex (\<lambda>(d, finished). d = st \<and> \<not> finished) (ag_discovery_list s) then Some s
      else if ag_discovery_list s \<noteq> [] then Some s
      else for_each (fail_component st) [1..<Suc (st_n_components (ag_stream s st))] s)"

fun component_state_num :: "NiceComponentState \<Rightarrow> nat" where
  "component_state_num NICE_COMPONENT_STATE_DISCONNECTED = 0"
| "component_state_num NICE_COMPONENT_STATE_GATHERING = 1"
| "component_state_num NICE_COMPONENT_STATE_CONNECTING = 2"
| "component_state_num NICE_COMPONENT_STATE_CONNECTED = 3"
| "component_state_num NICE_COMPONENT_STATE_READY = 4"
| "component_state_num NICE_COMPONENT_STATE_FAILED = 5"

definition state_before :: "NiceComponentState \<Rightarrow> NiceComponentState \<Rightarrow> bool" where
  "state_before a b = (component_state_num a < component_state_num b)"

text \<open>The steps to \<^verbatim>\<open>READY\<close>, each through the states before it.\<close>

definition signal_ready :: "nat \<Rightarrow> nat \<Rightarrow> NiceAgent \<Rightarrow> NiceAgent option" where
  "signal_ready st c s =
     (let change = (\<lambda>new s. agent_signal_component_state_change (st_id (ag_stream s st)) (cm_id (ag_component s c)) new s);
          state = (\<lambda>s. cm_state (ag_component s c))
      in do {
        s \<leftarrow> (if state_before (state s) NICE_COMPONENT_STATE_CONNECTING \<or> state s = NICE_COMPONENT_STATE_FAILED
             then change NICE_COMPONENT_STATE_CONNECTING s else Some s);
        s \<leftarrow> (if state_before (state s) NICE_COMPONENT_STATE_CONNECTED
             then change NICE_COMPONENT_STATE_CONNECTED s else Some s);
        change NICE_COMPONENT_STATE_READY s
      })"

definition priv_update_check_list_state_for_ready :: "nat \<Rightarrow> nat \<Rightarrow> NiceAgent \<Rightarrow> NiceAgent option" where
  "priv_update_check_list_state_for_ready st c s = do {
     let i = cm_id (ag_component s c);
     nominated \<leftarrow> count_pairs s (\<lambda>x. cp_component_id x = i \<and> cp_valid x \<and> cp_nominated x) (checklist s st);
     if nominated > 0 then do {
       (n, s) \<leftarrow> priv_prune_pending_checks st i s;
       if n = 0 then signal_ready st c s else Some s
     }
     else Some s
   }"

text \<open>
  A loop \<^verbatim>\<open>for (i = list; i; i = i->next)\<close> over a check list whose body can delete links: later links that
  were deleted are not reached, and the link of the loop itself has to survive the body.
\<close>

fun for_links :: "nat \<Rightarrow> (nat \<Rightarrow> NiceAgent \<Rightarrow> NiceAgent option) \<Rightarrow> nat list \<Rightarrow> NiceAgent \<Rightarrow> NiceAgent option" where
  "for_links st f [] s = Some s"
| "for_links st f (p # ps) s =
     (if p \<notin> set (checklist s st) then for_links st f ps s
      else do {
        s \<leftarrow> f p s;
        c_assert (p \<in> set (checklist s st));
        for_links st f ps s
      })"

definition nominated_target :: "nat \<Rightarrow> CandidateCheckPair \<Rightarrow> NiceAgent \<Rightarrow> nat option" where
  "nominated_target p x s =
     (case cp_discovered_pair x of
        None \<Rightarrow> Some p
      | Some d \<Rightarrow>
          if cp_state x \<noteq> NICE_CHECK_SUCCEEDED then Some p
          else do {
            y \<leftarrow> ag_pairs s d;
            c_assert (cp_state y = NICE_CHECK_DISCOVERED);
            Some d
          })"

definition nominate_valid :: "nat \<Rightarrow> nat \<Rightarrow> nat \<Rightarrow> NiceAgent \<Rightarrow> NiceAgent option" where
  "nominate_valid st c p s =
     (let change = (\<lambda>new s. agent_signal_component_state_change (st_id (ag_stream s st)) (cm_id (ag_component s c)) new s);
          state = (\<lambda>s. cm_state (ag_component s c))
      in do {
        s \<leftarrow> (if state s = NICE_COMPONENT_STATE_FAILED then change NICE_COMPONENT_STATE_CONNECTING s else Some s);
        s \<leftarrow> priv_update_selected_pair c p s;
        if state s = NICE_COMPONENT_STATE_CONNECTING then change NICE_COMPONENT_STATE_CONNECTED s else Some s
      })"

definition mark_nominated_pair :: "nat \<Rightarrow> nat \<Rightarrow> nat option \<Rightarrow> nat option \<Rightarrow> nat \<Rightarrow> NiceAgent \<Rightarrow> NiceAgent option" where
  "mark_nominated_pair st c localcand remotecand p s = do {
     x \<leftarrow> ag_pairs s p;
     if Some (cp_local x) = localcand \<and> Some (cp_remote x) = remotecand then do {
       p \<leftarrow> nominated_target p x s;
       s \<leftarrow> upd_pair p (\<lambda>x.
             (let x = (if rfc5245_or_oc2007r2 s \<and> cp_state x = NICE_CHECK_IN_PROGRESS
                       then x\<lparr>cp_mark_nominated_on_response_arrival := True\<rparr> else x)
              in if cp_valid x \<or> \<not> rfc5245_or_oc2007r2 s then x\<lparr>cp_nominated := True\<rparr> else x)) s;
       x \<leftarrow> ag_pairs s p;
       s \<leftarrow> (if cp_valid x then nominate_valid st c p s else Some s);
       x \<leftarrow> ag_pairs s p;
       if cp_nominated x then priv_update_check_list_state_for_ready st c s else Some s
     }
     else Some s
   }"

definition priv_mark_pair_nominated :: "nat \<Rightarrow> nat \<Rightarrow> nat option \<Rightarrow> nat option \<Rightarrow> NiceAgent \<Rightarrow> NiceAgent option" where
  "priv_mark_pair_nominated st c localcand remotecand s =
     (if rfc5245_or_oc2007r2 s \<and> ag_controlling_mode s then Some s
      else for_links st (mark_nominated_pair st c localcand remotecand) (checklist s st) s)"

section \<open>New pairs\<close>

definition conn_check_compare :: "CandidateCheckPair \<Rightarrow> CandidateCheckPair \<Rightarrow> int" where
  "conn_check_compare a b =
     (if cp_priority a > cp_priority b then -1 else if cp_priority a < cp_priority b then 1 else 0)"

text \<open>\<^verbatim>\<open>g_slist_insert_sorted\<close>: before the first element that does not compare smaller.\<close>

fun insert_sorted :: "NiceAgent \<Rightarrow> nat \<Rightarrow> CandidateCheckPair \<Rightarrow> nat list \<Rightarrow> nat list option" where
  "insert_sorted s p x [] = Some [p]"
| "insert_sorted s p x (q # qs) = do {
     y \<leftarrow> ag_pairs s q;
     if conn_check_compare x y > 0 then map_option (Cons q) (insert_sorted s p x qs)
     else Some (p # q # qs)
   }"

text \<open>The loop of \<^verbatim>\<open>ensure_unique_priority\<close> on the priorities in use.\<close>

partial_function (option) unique_priority :: "u32 list \<Rightarrow> u32 \<Rightarrow> u32 option" where
  "unique_priority used priority =
     (let priority = (if priority = 0 then priority - 1 else priority) in
      if priority \<in> set used then unique_priority used (priority - 1) else Some priority)"

declare unique_priority.simps [code]

fun prflx_priorities :: "NiceAgent \<Rightarrow> nat \<Rightarrow> nat list \<Rightarrow> u32 list option" where
  "prflx_priorities s i [] = Some []"
| "prflx_priorities s i (p # ps) = do {
     x \<leftarrow> ag_pairs s p;
     us \<leftarrow> prflx_priorities s i ps;
     Some (if cp_component_id x = i then cp_prflx_priority x # us else us)
   }"

definition ensure_unique_priority :: "NiceAgent \<Rightarrow> nat \<Rightarrow> u32 \<Rightarrow> u32 option" where
  "ensure_unique_priority s c priority = do {
     let component = ag_component s c;
     us \<leftarrow> prflx_priorities s (cm_id component) (checklist s (cm_stream component));
     unique_priority (map (\<lambda>l. c_priority (ag_candidate s l)) (cm_local_candidates component) @ us) priority
   }"

text \<open>The priority of a candidate in the dialect of the agent, as each function that creates candidates has it.\<close>

definition candidate_priority :: "cc_env \<Rightarrow> NiceAgent \<Rightarrow> bool \<Rightarrow> NiceCandidate \<Rightarrow> u32 option" where
  "candidate_priority env s nat_assisted candidate =
     (case ag_compatibility s of
        NICE_COMPATIBILITY_GOOGLE \<Rightarrow> Some (nice_candidate_jingle_priority candidate)
      | NICE_COMPATIBILITY_MSN \<Rightarrow> Some (nice_candidate_msn_priority candidate)
      | NICE_COMPATIBILITY_OC2007 \<Rightarrow> Some (nice_candidate_msn_priority candidate)
      | NICE_COMPATIBILITY_OC2007R2 \<Rightarrow>
          nice_candidate_ms_ice_priority (env_local_ips env) (env_inet_ntop env) candidate (ag_reliable s) nat_assisted
      | _ \<Rightarrow> nice_candidate_ice_priority (env_local_ips env) (env_inet_ntop env) candidate (ag_reliable s) nat_assisted)"

definition peer_reflexive_candidate_priority :: "cc_env \<Rightarrow> NiceAgent \<Rightarrow> nat \<Rightarrow> u32 option" where
  "peer_reflexive_candidate_priority env s l =
     candidate_priority env s False
       ((nice_candidate_new NICE_CANDIDATE_TYPE_PEER_REFLEXIVE)
         \<lparr>c_transport := c_transport (ag_candidate s l), c_component_id := c_component_id (ag_candidate s l),
          c_base_addr := c_addr (ag_candidate s l)\<rparr>)"

definition pair_foundation :: "NiceAgent \<Rightarrow> nat \<Rightarrow> nat \<Rightarrow> string" where
  "pair_foundation s l r = take 65 (c_foundation (ag_candidate s l) @ '':'' @ c_foundation (ag_candidate s r))"

definition new_pair :: "NiceAgent \<Rightarrow> nat \<Rightarrow> nat \<Rightarrow> nat \<Rightarrow> nat \<Rightarrow> NiceCheckState \<Rightarrow> CandidateCheckPair" where
  "new_pair s stream_id component_id l r st =
     \<lparr>cp_stream_id = stream_id, cp_component_id = component_id, cp_local = l, cp_remote = r, cp_sockptr = None,
      cp_foundation = pair_foundation s l r, cp_state = st, cp_nominated = False, cp_valid = False,
      cp_use_candidate_on_next_check = False, cp_mark_nominated_on_response_arrival = False,
      cp_retransmit = False, cp_discovered_pair = None, cp_succeeded_pair = None, cp_priority = 0,
      cp_prflx_priority = 0, cp_stun_transactions = []\<rparr>"

text \<open>Storing a new pair and inserting it into the check list.\<close>

definition insert_pair :: "nat \<Rightarrow> CandidateCheckPair \<Rightarrow> NiceAgent \<Rightarrow> (nat \<times> NiceAgent) option" where
  "insert_pair st x s = do {
     let p = ag_next_pair s;
     ps \<leftarrow> insert_sorted s p x (checklist s st);
     Some (p, set_checklist st ps (s\<lparr>ag_pairs := (ag_pairs s)(p \<mapsto> x), ag_next_pair := Suc p\<rparr>))
   }"

definition priv_add_new_check_pair ::
  "cc_env \<Rightarrow> nat \<Rightarrow> nat \<Rightarrow> nat \<Rightarrow> nat \<Rightarrow> NiceCheckState \<Rightarrow> NiceAgent \<Rightarrow> (nat \<times> NiceAgent) option" where
  "priv_add_new_check_pair env stream_id c l r initial_state s = do {
     st \<leftarrow> agent_find_stream s stream_id;
     prflx \<leftarrow> peer_reflexive_candidate_priority env s l;
     prflx \<leftarrow> ensure_unique_priority s c prflx;
     let x = (new_pair s stream_id (cm_id (ag_component s c)) l r initial_state)
           \<lparr>cp_sockptr :=
              (if c_transport (ag_candidate s l) = NICE_CANDIDATE_TRANSPORT_TCP_PASSIVE
                  \<and> c_type (ag_candidate s r) = NICE_CANDIDATE_TYPE_PEER_REFLEXIVE
               then c_sockptr (ag_candidate s r) else c_sockptr (ag_candidate s l)),
            cp_priority := agent_candidate_pair_priority s l r,
            cp_prflx_priority := prflx\<rparr>;
     (p, s) \<leftarrow> insert_pair st x s;
     s \<leftarrow> (if ag_compatibility s = NICE_COMPATIBILITY_RFC5245
          then priv_limit_conn_check_list_size st (ag_max_conn_checks s) s else Some s);
     Some (p, s)
   }"

fun conn_check_match_transport :: "NiceCandidateTransport \<Rightarrow> NiceCandidateTransport" where
  "conn_check_match_transport NICE_CANDIDATE_TRANSPORT_TCP_ACTIVE = NICE_CANDIDATE_TRANSPORT_TCP_PASSIVE"
| "conn_check_match_transport NICE_CANDIDATE_TRANSPORT_TCP_PASSIVE = NICE_CANDIDATE_TRANSPORT_TCP_ACTIVE"
| "conn_check_match_transport t = t"

definition priv_conn_check_add_for_candidate_pair_matched ::
  "cc_env \<Rightarrow> nat \<Rightarrow> nat \<Rightarrow> nat \<Rightarrow> nat \<Rightarrow> NiceCheckState \<Rightarrow> NiceAgent \<Rightarrow> (nat \<times> NiceAgent) option" where
  "priv_conn_check_add_for_candidate_pair_matched env stream_id c l r initial_state s = do {
     (p, s) \<leftarrow> priv_add_new_check_pair env stream_id c l r initial_state s;
     let component = ag_component s c;
     s \<leftarrow> agent_signal_component_state_change stream_id (cm_id component)
           (if cm_state component = NICE_COMPONENT_STATE_CONNECTED \<or> cm_state component = NICE_COMPONENT_STATE_READY
            then NICE_COMPONENT_STATE_CONNECTED else NICE_COMPONENT_STATE_CONNECTING) s;
     Some (p, s)
   }"

definition conn_check_add_for_candidate_pair ::
  "cc_env \<Rightarrow> nat \<Rightarrow> nat \<Rightarrow> nat \<Rightarrow> nat \<Rightarrow> NiceAgent \<Rightarrow> (bool \<times> NiceAgent) option" where
  "conn_check_add_for_candidate_pair env stream_id c l r s =
     (let loc = ag_candidate s l; remote = ag_candidate s r in
      if ag_compatibility s \<in> {NICE_COMPATIBILITY_RFC5245, NICE_COMPATIBILITY_WLM2009, NICE_COMPATIBILITY_OC2007R2}
         \<and> c_type loc = NICE_CANDIDATE_TYPE_SERVER_REFLEXIVE then Some (False, s)
      else if c_transport loc = NICE_CANDIDATE_TRANSPORT_TCP_PASSIVE then Some (False, s)
      else if c_transport loc = conn_check_match_transport (c_transport remote)
              \<and> family (c_addr loc) = family (c_addr remote)
      then do {
        (_, s) \<leftarrow> priv_conn_check_add_for_candidate_pair_matched env stream_id c l r NICE_CHECK_FROZEN s;
        Some (True, s)
      }
      else Some (False, s))"

fun add_pairs :: "cc_env \<Rightarrow> nat \<Rightarrow> nat \<Rightarrow> (nat \<times> nat) list \<Rightarrow> nat \<Rightarrow> NiceAgent \<Rightarrow> (nat \<times> NiceAgent) option" where
  "add_pairs env stream_id c [] added s = Some (added, s)"
| "add_pairs env stream_id c ((l, r) # lrs) added s = do {
     (ret, s) \<leftarrow> conn_check_add_for_candidate_pair env stream_id c l r s;
     add_pairs env stream_id c lrs (if ret then Suc added else added) s
   }"

definition conn_check_add_for_candidate :: "cc_env \<Rightarrow> nat \<Rightarrow> nat \<Rightarrow> nat \<Rightarrow> NiceAgent \<Rightarrow> (nat \<times> NiceAgent) option" where
  "conn_check_add_for_candidate env stream_id c remote s =
     (if ag_compatibility s = NICE_COMPATIBILITY_RFC5245
         \<and> c_type (ag_candidate s remote) = NICE_CANDIDATE_TYPE_PEER_REFLEXIVE then Some (0, s)
      else add_pairs env stream_id c
             (map (\<lambda>l. (l, remote))
               (filter (\<lambda>l. \<not> (ag_force_relay s \<and> c_type (ag_candidate s l) \<noteq> NICE_CANDIDATE_TYPE_RELAYED))
                 (cm_local_candidates (ag_component s c)))) 0 s)"

definition conn_check_add_for_local_candidate ::
  "cc_env \<Rightarrow> nat \<Rightarrow> nat \<Rightarrow> nat \<Rightarrow> NiceAgent \<Rightarrow> (nat \<times> NiceAgent) option" where
  "conn_check_add_for_local_candidate env stream_id c l s =
     (if ag_compatibility s = NICE_COMPATIBILITY_RFC5245
         \<and> c_type (ag_candidate s l) = NICE_CANDIDATE_TYPE_PEER_REFLEXIVE then Some (0, s)
      else add_pairs env stream_id c (map (\<lambda>r. (l, r)) (cm_remote_candidates (ag_component s c))) 0 s)"

end
