(* ===== verification/Conncheck_Send.thy ===== *)
theory Conncheck_Send
  imports Conncheck_State
begin

text \<open>
  Sending checks (\<^verbatim>\<open>conn_check_send\<close> of \<^verbatim>\<open>agent/conncheck.c\<close> with the user names it uses) and the timer
  that paces them (\<^verbatim>\<open>priv_conn_check_tick_unlocked\<close>).
\<close>

section \<open>Credentials\<close>

definition str_bytes :: "string \<Rightarrow> bytes" where
  "str_bytes = map of_char"

fun dec_digits :: "nat \<Rightarrow> string" where
  "dec_digits n = (if n < 10 then [char_of (48 + n)] else dec_digits (n div 10) @ [char_of (48 + n mod 10)])"

declare dec_digits.simps [simp del]

abbreviation (input) NICE_STREAM_MAX_UNAME :: nat where "NICE_STREAM_MAX_UNAME \<equiv> 514"

definition priv_gen_username ::
  "cc_env \<Rightarrow> NiceAgent \<Rightarrow> nat \<Rightarrow> string \<Rightarrow> string \<Rightarrow> nat \<Rightarrow> bytes" where
  "priv_gen_username env s component_id remote loc dest_len =
     (let remote_len = length remote; local_len = length loc; colon = str_bytes '':'' in
      if remote_len > 0 \<and> local_len > 0 then
        (case ag_compatibility s of
           NICE_COMPATIBILITY_RFC5245 \<Rightarrow>
             (if dest_len \<ge> remote_len + local_len + 1 then str_bytes remote @ colon @ str_bytes loc else [])
         | NICE_COMPATIBILITY_WLM2009 \<Rightarrow>
             (if dest_len \<ge> remote_len + local_len + 4 then
                (let u = str_bytes remote @ colon @ str_bytes loc
                 in u @ replicate (if length u mod 4 \<noteq> 0 then 4 - length u mod 4 else 0) 0)
              else [])
         | NICE_COMPATIBILITY_OC2007R2 \<Rightarrow>
             (if dest_len \<ge> remote_len + local_len + 4 then
                (let u = str_bytes remote @ colon @ str_bytes loc
                 in u @ replicate (if length u mod 4 \<noteq> 0 then 4 - length u mod 4 else 0) 0)
              else [])
         | NICE_COMPATIBILITY_GOOGLE \<Rightarrow>
             (if dest_len \<ge> remote_len + local_len then str_bytes remote @ str_bytes loc else [])
         | _ \<Rightarrow>
             (let component_str = str_bytes (take 9 (dec_digits component_id));
                  local_decoded = env_base64_decode env loc;
                  remote_decoded = env_base64_decode env remote;
                  total_len = length remote_decoded + length local_decoded + 3 + 2 * length component_str;
                  padding = 4 - total_len mod 4
              in if dest_len \<ge> total_len + padding then
                   remote_decoded @ colon @ component_str @ colon @ local_decoded @ colon @ component_str
                     @ replicate padding 0
                 else []))
      else [])"

definition priv_create_username ::
  "cc_env \<Rightarrow> NiceAgent \<Rightarrow> nat \<Rightarrow> nat \<Rightarrow> nat option \<Rightarrow> nat option \<Rightarrow> nat \<Rightarrow> bool \<Rightarrow> bytes" where
  "priv_create_username env s st component_id remote loc dest_len inbound =
     (let username = (\<lambda>c default. case c of None \<Rightarrow> default
                        | Some x \<Rightarrow> (case c_username (ag_candidate s x) of None \<Rightarrow> default | Some u \<Rightarrow> u));
          remote_username = username remote (st_remote_ufrag (ag_stream s st));
          local_username = username loc (st_local_ufrag (ag_stream s st))
      in if inbound then priv_gen_username env s component_id local_username remote_username dest_len
         else priv_gen_username env s component_id remote_username local_username dest_len)"

definition priv_get_password :: "NiceAgent \<Rightarrow> nat \<Rightarrow> nat \<Rightarrow> string option" where
  "priv_get_password s st remote =
     (if ag_compatibility s = NICE_COMPATIBILITY_GOOGLE then None
      else case c_password (ag_candidate s remote) of
             Some p \<Rightarrow> Some p
           | None \<Rightarrow> Some (st_remote_password (ag_stream s st)))"

definition priv_compute_conncheck_timer :: "NiceAgent \<Rightarrow> nat \<Rightarrow> u32 option" where
  "priv_compute_conncheck_timer s st = do {
     w \<leftarrow> count_pairs s (\<lambda>x. cp_state x = NICE_CHECK_IN_PROGRESS \<or> cp_state x = NICE_CHECK_WAITING) (checklist s st);
     n \<leftarrow> priv_number_of_active_check_lists s;
     let rto = ag_timer_ta s * word_of_nat n * word_of_nat w;
     Some (max rto (if ag_reliable s then 500 else 100))
   }"

section \<open>Sending a check\<close>

definition zero_message :: stun_message where
  "zero_message = \<lparr>agent = None, buffer = [], buffer_len = 0, key = None, long_term_key = replicate 16 0,
     long_term_valid = False\<rparr>"

definition use_candidate_flag :: "NiceAgent \<Rightarrow> CandidateCheckPair \<Rightarrow> bool" where
  "use_candidate_flag s x =
     (if rfc5245_or_oc2007r2 s then
        (case ag_nomination_mode s of
           NICE_NOMINATION_MODE_REGULAR \<Rightarrow> cp_use_candidate_on_next_check x
         | NICE_NOMINATION_MODE_AGGRESSIVE \<Rightarrow> ag_controlling_mode s)
      else ag_controlling_mode s)"

text \<open>A TCP-active candidate connects first; the new socket belongs to the pair.\<close>

definition connect_pair_socket :: "cc_env \<Rightarrow> nat \<Rightarrow> nat \<Rightarrow> NiceAgent \<Rightarrow> NiceAgent option" where
  "connect_pair_socket env p c s = do {
     x \<leftarrow> ag_pairs s p;
     if env_socket_must_connect env (cp_sockptr x)
        \<and> c_transport (ag_candidate s (cp_local x)) = NICE_CANDIDATE_TRANSPORT_TCP_ACTIVE
     then (case env_tcp_connect env (cp_sockptr x) (c_addr (ag_candidate s (cp_remote x))) of
             None \<Rightarrow> Some s
           | Some sock \<Rightarrow> do {
               s \<leftarrow> upd_pair p (\<lambda>x. x\<lparr>cp_sockptr := Some sock\<rparr>) s;
               Some (emit (SocketAttached c sock) s)
             })
     else Some s
   }"

definition conn_check_timer :: "cc_env \<Rightarrow> nat \<Rightarrow> CandidateCheckPair \<Rightarrow> NiceAgent \<Rightarrow> (timeval \<times> StunTimer) option" where
  "conn_check_timer env st x s =
     (if env_socket_is_reliable env (cp_sockptr x) then
        (let timeout = ag_stun_reliable_timeout s
         in Some (g_time_val_add (env_now env) (timeout * 1000), stun_timer_start_reliable (env_now env) timeout))
      else do {
        timeout \<leftarrow> priv_compute_conncheck_timer s st;
        Some (g_time_val_add (env_now env) (timeout * 1000),
              stun_timer_start (env_now env) timeout (ag_stun_max_retransmissions s))
      })"

definition conn_check_send :: "cc_env \<Rightarrow> nat \<Rightarrow> NiceAgent \<Rightarrow> (bool \<times> NiceAgent) option" where
  "conn_check_send env p s = do {
     x \<leftarrow> ag_pairs s p;
     case agent_find_component s (cp_stream_id x) (cp_component_id x) of
       None \<Rightarrow> Some (False, s)
     | Some (st, c) \<Rightarrow> do {
         let controlling = ag_controlling_mode s;
         let uname = priv_create_username env s st (cp_component_id x) (Some (cp_remote x)) (Some (cp_local x))
               NICE_STREAM_MAX_UNAME False;
         let password = map_option (\<lambda>w. if ag_compatibility s \<in> {NICE_COMPATIBILITY_MSN, NICE_COMPATIBILITY_OC2007}
               then env_base64_decode env w else str_bytes w) (priv_get_password s st (cp_remote x));
         let cand_use = use_candidate_flag s x;
         s \<leftarrow> (if \<not> rfc5245_or_oc2007r2 s \<and> cand_use
              then upd_pair p (\<lambda>x. x\<lparr>cp_nominated := controlling\<rparr>) s else Some s);
         if uname = [] then Some (False, s)
         else do {
           (len, ag, m) \<leftarrow> stun_usage_ice_conncheck_create (env_package_string env) (env_random env (ag_random s))
             (env_hmac env) (env_md5 env) (cm_stun_agent (ag_component s c)) zero_message (replicate 1280 0) 1280
             (Some uname) password cand_use controlling (cp_prflx_priority x) (ag_tie_breaker s)
             (str_bytes (c_foundation (ag_candidate s (cp_local x)))) (agent_to_ice_compatibility s);
           let s = upd_component c (\<lambda>y. y\<lparr>cm_stun_agent := ag\<rparr>) (s\<lparr>ag_random := Suc (ag_random s)\<rparr>);
           let t = \<lparr>tr_next_tick = \<lparr>tv_sec = 0, tv_usec = 0\<rparr>,
                    tr_timer = \<lparr>deadline = \<lparr>tv_sec = 0, tv_usec = 0\<rparr>, delay = 0, retransmissions = 0, max_retransmissions = 0\<rparr>,
                    tr_message = Some m\<rparr>;
           s \<leftarrow> upd_pair p (\<lambda>x. x\<lparr>cp_stun_transactions := t # cp_stun_transactions x, cp_retransmit := True\<rparr>) s;
           if len = 0 then do {
             s \<leftarrow> priv_remove_stun_transaction p 0 c s;
             Some (False, s)
           }
           else do {
             (next_tick, timer) \<leftarrow> conn_check_timer env st x s;
             s \<leftarrow> upd_pair p (\<lambda>x. x\<lparr>cp_stun_transactions :=
                   t\<lparr>tr_next_tick := next_tick, tr_timer := timer\<rparr> # tl (cp_stun_transactions x)\<rparr>) s;
             s \<leftarrow> connect_pair_socket env p c s;
             x \<leftarrow> ag_pairs s p;
             let addr = c_addr (ag_candidate s (cp_remote x));
             let s = emit (SocketSend (cp_sockptr x) addr (take len (buffer m))) s;
             Some (True, if ag_compatibility s = NICE_COMPATIBILITY_OC2007R2
                         then emit (LegacySend (cp_sockptr x) addr) s else s)
           }
         }
       }
   }"

definition priv_conn_check_initiate :: "cc_env \<Rightarrow> nat \<Rightarrow> NiceAgent \<Rightarrow> NiceAgent option" where
  "priv_conn_check_initiate env p s = do {
     s \<leftarrow> upd_pair p (\<lambda>x. x\<lparr>cp_state := NICE_CHECK_IN_PROGRESS\<rparr>) s;
     (_, s) \<leftarrow> conn_check_send env p s;
     Some s
   }"

section \<open>The timer\<close>

text \<open>A transaction that is not the first of its pair: \<open>None\<close> when it has timed out.\<close>

definition tick_later_transaction :: "timeval \<Rightarrow> StunTransaction \<Rightarrow> StunTransaction option" where
  "tick_later_transaction now t =
     (if priv_timer_expired (tr_next_tick t) now then
        (case stun_timer_refresh now (tr_timer t) of
           (STUN_USAGE_TIMER_RETURN_TIMEOUT, _) \<Rightarrow> None
         | (STUN_USAGE_TIMER_RETURN_RETRANSMIT, timer) \<Rightarrow>
             Some (t\<lparr>tr_timer := timer, tr_next_tick := g_time_val_add now (stun_timer_remainder now timer * 1000)\<rparr>)
         | (STUN_USAGE_TIMER_RETURN_SUCCESS, timer) \<Rightarrow> Some (t\<lparr>tr_timer := timer\<rparr>))
      else Some t)"

definition tick_later_transactions :: "timeval \<Rightarrow> nat \<Rightarrow> nat \<Rightarrow> NiceAgent \<Rightarrow> NiceAgent option" where
  "tick_later_transactions now p c s = do {
     x \<leftarrow> ag_pairs s p;
     let later = tl (cp_stun_transactions x);
     s \<leftarrow> for_each (priv_forget_stun_transaction c) (filter (\<lambda>t. tick_later_transaction now t = None) later) s;
     upd_pair p (\<lambda>x. x\<lparr>cp_stun_transactions :=
       hd (cp_stun_transactions x) # List.map_filter (tick_later_transaction now) later\<rparr>) s
   }"

definition set_first_transaction :: "StunTransaction \<Rightarrow> CandidateCheckPair \<Rightarrow> CandidateCheckPair" where
  "set_first_transaction t x = x\<lparr>cp_stun_transactions := t # tl (cp_stun_transactions x)\<rparr>"

text \<open>The first transaction of a pair in progress. The flags of the result: whether the function returns at once
  (a retransmission was sent), and whether the timer has to keep going.\<close>

definition tick_first_transaction ::
  "cc_env \<Rightarrow> nat \<Rightarrow> nat \<Rightarrow> nat \<Rightarrow> NiceAgent \<Rightarrow> (bool \<times> bool \<times> NiceAgent) option" where
  "tick_first_transaction env st p c s = do {
     x \<leftarrow> ag_pairs s p;
     let now = env_now env;
     let t = hd (cp_stun_transactions x);
     if cp_state x \<noteq> NICE_CHECK_IN_PROGRESS \<or> \<not> priv_timer_expired (tr_next_tick t) now then Some (False, False, s)
     else do {
       let (r, timer) = stun_timer_refresh now (tr_timer t);
       let t = t\<lparr>tr_timer := timer\<rparr>;
       s \<leftarrow> upd_pair p (set_first_transaction t) s;
       let tick = g_time_val_add now (stun_timer_remainder now timer * 1000);
       case r of
         STUN_USAGE_TIMER_RETURN_SUCCESS \<Rightarrow> do {
           s \<leftarrow> upd_pair p (set_first_transaction (t\<lparr>tr_next_tick := tick\<rparr>)) s;
           Some (False, True, s)
         }
       | _ \<Rightarrow>
           if r = STUN_USAGE_TIMER_RETURN_RETRANSMIT \<and> cp_retransmit x then do {
             m \<leftarrow> tr_message t;
             len \<leftarrow> stun_message_length m;
             let s = emit (SocketSend (cp_sockptr x) (c_addr (ag_candidate s (cp_remote x))) (take (unat len) (buffer m))) s;
             s \<leftarrow> upd_pair p (set_first_transaction (t\<lparr>tr_next_tick := tick\<rparr>)) s;
             Some (True, True, s)
           }
           else do {
             s \<leftarrow> candidate_check_pair_fail st p s;
             s \<leftarrow> priv_update_check_list_state_for_ready st c s;
             Some (False, False, s)
           }
     }
   }"

fun tick_transactions ::
  "cc_env \<Rightarrow> nat \<Rightarrow> nat list \<Rightarrow> bool \<Rightarrow> NiceAgent \<Rightarrow> (bool \<times> bool \<times> NiceAgent) option" where
  "tick_transactions env st [] keep_timer_going s = Some (False, keep_timer_going, s)"
| "tick_transactions env st (p # ps) keep_timer_going s =
     (if p \<notin> set (checklist s st) then tick_transactions env st ps keep_timer_going s
      else do {
        x \<leftarrow> ag_pairs s p;
        if cp_stun_transactions x = [] then tick_transactions env st ps keep_timer_going s
        else case agent_find_component s (cp_stream_id x) (cp_component_id x) of
          None \<Rightarrow> tick_transactions env st ps keep_timer_going s
        | Some (_, c) \<Rightarrow> do {
            s \<leftarrow> tick_later_transactions (env_now env) p c s;
            (returned, keep, s) \<leftarrow> tick_first_transaction env st p c s;
            if returned then Some (True, True, s)
            else do {
              c_assert (p \<in> set (checklist s st));
              tick_transactions env st ps (keep_timer_going \<or> keep) s
            }
          }
      })"

definition priv_conn_check_tick_stream :: "cc_env \<Rightarrow> nat \<Rightarrow> NiceAgent \<Rightarrow> (bool \<times> NiceAgent) option" where
  "priv_conn_check_tick_stream env st s = do {
     (returned, keep_timer_going, s) \<leftarrow> tick_transactions env st (checklist s st) False s;
     if returned then Some (True, s)
     else do {
       waiting \<leftarrow> priv_conn_check_find_next_waiting s (checklist s st);
       case waiting of
         Some p \<Rightarrow> do {
           s \<leftarrow> priv_conn_check_initiate env p s;
           Some (True, s)
         }
       | None \<Rightarrow> do {
           all_frozen \<leftarrow> priv_is_checklist_frozen s st;
           if all_frozen then Some (keep_timer_going, s)
           else do {
             frozen \<leftarrow> priv_conn_check_find_next_frozen s (checklist s st);
             case frozen of
               Some p \<Rightarrow> do {
                 s \<leftarrow> upd_pair p (\<lambda>x. x\<lparr>cp_state := NICE_CHECK_WAITING\<rparr>) s;
                 s \<leftarrow> priv_conn_check_initiate env p s;
                 Some (True, s)
               }
             | None \<Rightarrow> Some (keep_timer_going, s)
           }
         }
     }
   }"

section \<open>Nomination\<close>

definition succeeded :: "CandidateCheckPair \<Rightarrow> bool" where
  "succeeded x = (cp_state x = NICE_CHECK_SUCCEEDED \<or> cp_state x = NICE_CHECK_DISCOVERED)"

abbreviation (input) NICE_MIN_NUMBER_OF_VALID_PAIRS :: nat where "NICE_MIN_NUMBER_OF_VALID_PAIRS \<equiv> 2"

definition stopping_criterion :: "NiceAgent \<Rightarrow> nat \<Rightarrow> nat \<Rightarrow> bool option" where
  "stopping_criterion s st i = do {
     let count = (\<lambda>P. count_pairs s (\<lambda>x. cp_component_id x = i \<and> P x) (checklist s st));
     p_frozen \<leftarrow> count (\<lambda>x. cp_state x = NICE_CHECK_FROZEN);
     p_waiting \<leftarrow> count (\<lambda>x. cp_state x = NICE_CHECK_WAITING);
     p_inprogress \<leftarrow> count (\<lambda>x. cp_state x = NICE_CHECK_IN_PROGRESS);
     p_valid \<leftarrow> count cp_valid;
     p_host_host_valid \<leftarrow> count (\<lambda>x. cp_valid x
       \<and> c_type (ag_candidate s (cp_local x)) = NICE_CANDIDATE_TYPE_HOST
       \<and> c_type (ag_candidate s (cp_remote x)) = NICE_CANDIDATE_TYPE_HOST);
     Some (p_host_host_valid > 0 \<or> p_valid \<ge> NICE_MIN_NUMBER_OF_VALID_PAIRS
           \<or> (p_waiting = 0 \<and> p_inprogress = 0 \<and> p_frozen = 0))
   }"

text \<open>Regular nomination for one component: the check that produced the best valid pair is sent again, with
  the flag USE-CANDIDATE. The flag of the result tells whether the timer has to keep going.\<close>

definition nominate_regular :: "nat \<Rightarrow> nat \<Rightarrow> NiceAgent \<Rightarrow> (bool \<times> NiceAgent) option" where
  "nominate_regular st c s = do {
     let i = cm_id (ag_component s c);
     already_done \<leftarrow> any_pair s (\<lambda>x. cp_component_id x = i \<and> cp_use_candidate_on_next_check x) (checklist s st);
     stop \<leftarrow> stopping_criterion s st i;
     if already_done \<or> \<not> stop then Some (False, s)
     else do {
       r \<leftarrow> first_pair s (\<lambda>x. cp_component_id x = i \<and> \<not> cp_nominated x \<and> \<not> cp_use_candidate_on_next_check x \<and> cp_valid x)
             (checklist s st);
       case r of
         None \<Rightarrow> Some (False, s)
       | Some p \<Rightarrow> do {
           x \<leftarrow> ag_pairs s p;
           p \<leftarrow> (case cp_succeeded_pair x of
                 None \<Rightarrow> Some p
               | Some q \<Rightarrow> do { c_assert (cp_state x = NICE_CHECK_DISCOVERED); Some q });
           x \<leftarrow> ag_pairs s p;
           c_assert (cp_state x = NICE_CHECK_SUCCEEDED);
           s \<leftarrow> upd_pair p (\<lambda>x. x\<lparr>cp_use_candidate_on_next_check := True\<rparr>) s;
           s \<leftarrow> priv_add_pair_to_triggered_check_queue p s;
           Some (True, s)
         }
     }
   }"

text \<open>Nomination in the dialects without the two nomination modes.\<close>

definition nominate_legacy :: "nat \<Rightarrow> nat \<Rightarrow> NiceAgent \<Rightarrow> (bool \<times> NiceAgent) option" where
  "nominate_legacy st c s = do {
     let i = cm_id (ag_component s c);
     r \<leftarrow> first_pair s (\<lambda>x. cp_component_id x = i \<and> succeeded x) (checklist s st);
     case r of
       None \<Rightarrow> Some (False, s)
     | Some p \<Rightarrow> do {
         s \<leftarrow> upd_pair p (\<lambda>x. x\<lparr>cp_nominated := True\<rparr>) s;
         s \<leftarrow> priv_update_selected_pair c p s;
         s \<leftarrow> priv_add_pair_to_triggered_check_queue p s;
         Some (True, s)
       }
   }"

fun nominate_components ::
  "(nat \<Rightarrow> NiceAgent \<Rightarrow> (bool \<times> NiceAgent) option) \<Rightarrow> nat list \<Rightarrow> bool \<Rightarrow> NiceAgent \<Rightarrow> (bool \<times> NiceAgent) option" where
  "nominate_components f [] keep s = Some (keep, s)"
| "nominate_components f (c # cs) keep s = do {
     (k, s) \<leftarrow> f c s;
     nominate_components f cs (keep \<or> k) s
   }"

definition priv_conn_check_tick_stream_nominate :: "nat \<Rightarrow> NiceAgent \<Rightarrow> (bool \<times> NiceAgent) option" where
  "priv_conn_check_tick_stream_nominate st s = do {
     s_inprogress \<leftarrow> count_pairs s (\<lambda>x. cp_state x = NICE_CHECK_IN_PROGRESS) (checklist s st);
     s_nominated \<leftarrow> count_pairs s (\<lambda>x. succeeded x \<and> cp_nominated x) (checklist s st);
     s_waiting_for_nomination \<leftarrow> count_pairs s (\<lambda>x. succeeded x \<and> \<not> cp_nominated x) (checklist s st);
     let keep_timer_going = (s_inprogress > 0);
     (keep_timer_going, s) \<leftarrow>
       (if s_nominated < st_n_components (ag_stream s st) \<and> s_waiting_for_nomination > 0 then
          if rfc5245_or_oc2007r2 s then
            if ag_nomination_mode s = NICE_NOMINATION_MODE_REGULAR \<and> ag_controlling_mode s
            then nominate_components (nominate_regular st) (st_components (ag_stream s st)) keep_timer_going s
            else Some (keep_timer_going, s)
          else if ag_controlling_mode s
          then nominate_components (nominate_legacy st) (st_components (ag_stream s st)) keep_timer_going s
          else Some (keep_timer_going, s)
        else Some (keep_timer_going, s));
     Some (keep_timer_going, upd_stream st (\<lambda>x. x\<lparr>st_tick_counter := Suc (st_tick_counter x)\<rparr>) s)
   }"

section \<open>One tick of the timer\<close>

fun tick_streams :: "cc_env \<Rightarrow> nat list \<Rightarrow> bool \<Rightarrow> NiceAgent \<Rightarrow> (bool \<times> NiceAgent) option" where
  "tick_streams env [] keep s = Some (keep, s)"
| "tick_streams env (st # sts) keep s = do {
     (k1, s) \<leftarrow> priv_conn_check_tick_stream env st s;
     (k2, s) \<leftarrow> priv_conn_check_tick_stream_nominate st s;
     tick_streams env sts (keep \<or> k1 \<or> k2) s
   }"

fun unfreeze_streams :: "nat list \<Rightarrow> bool \<Rightarrow> NiceAgent \<Rightarrow> (bool \<times> NiceAgent) option" where
  "unfreeze_streams [] keep s = Some (keep, s)"
| "unfreeze_streams (st # sts) keep s = do {
     frozen \<leftarrow> priv_is_checklist_frozen s st;
     if frozen then do {
       (keep, s) \<leftarrow> priv_conn_check_unfreeze_next st s;
       unfreeze_streams sts keep s
     }
     else unfreeze_streams sts keep s
   }"

abbreviation (input) NICE_AGENT_MAX_TIMER_GRACE_PERIOD :: u32 where "NICE_AGENT_MAX_TIMER_GRACE_PERIOD \<equiv> 1000"

definition finish_stream :: "nat \<Rightarrow> NiceAgent \<Rightarrow> NiceAgent option" where
  "finish_stream st s = do {
     s \<leftarrow> priv_update_check_list_failed_components st s;
     for_each (priv_update_check_list_state_for_ready st) (st_components (ag_stream s st)) s
   }"

definition tick_start :: "NiceAgent \<Rightarrow> NiceAgent option" where
  "tick_start s = do {
     n \<leftarrow> priv_number_of_active_check_lists s;
     if n = 0 then do {
       f \<leftarrow> priv_find_first_frozen_check_list s;
       case f of None \<Rightarrow> Some s | Some st \<Rightarrow> map_option snd (priv_conn_check_unfreeze_next st s)
     }
     else Some s
   }"

definition tick_end :: "bool \<Rightarrow> NiceAgent \<Rightarrow> (bool \<times> NiceAgent) option" where
  "tick_end keep_timer_going s = do {
     (keep_timer_going, s) \<leftarrow>
       (if keep_timer_going then Some (True, s) else unfreeze_streams (ag_streams s) False s);
     let s = s\<lparr>ag_grace_period := (if keep_timer_going then 0 else ag_grace_period s + ag_timer_ta s)\<rparr>;
     if \<not> keep_timer_going \<and> ag_grace_period s \<ge> NICE_AGENT_MAX_TIMER_GRACE_PERIOD then do {
       s \<leftarrow> for_each finish_stream (ag_streams s) s;
       Some (False, conn_check_stop s)
     }
     else Some (True, s)
   }"

definition priv_conn_check_tick_unlocked :: "cc_env \<Rightarrow> NiceAgent \<Rightarrow> (bool \<times> NiceAgent) option" where
  "priv_conn_check_tick_unlocked env s = do {
     s \<leftarrow> tick_start s;
     let (pair, s) = priv_get_pair_from_triggered_check_queue s;
     case pair of
       Some p \<Rightarrow> do {
         (_, s) \<leftarrow> conn_check_send env p s;
         Some (True, s)
       }
     | None \<Rightarrow> do {
         (keep, s) \<leftarrow> tick_streams env (ag_streams s) False s;
         tick_end keep s
       }
   }"

end
