(* ===== verification/Conncheck_Discovery.thy ===== *)
theory Conncheck_Discovery
  imports Conncheck_Send
begin

text \<open>
  New candidates (\<^verbatim>\<open>agent/discovery.c\<close>): pruning of redundant candidates, foundations, credentials, and the
  functions that create host, server reflexive, relayed and peer reflexive candidates. Sockets are created by
  the caller of the model: their addresses are arguments.
\<close>

section \<open>Foundations\<close>

definition priv_add_local_candidate_pruned ::
  "cc_env \<Rightarrow> nat \<Rightarrow> nat \<Rightarrow> nat \<Rightarrow> NiceAgent \<Rightarrow> (bool \<times> NiceAgent) option" where
  "priv_add_local_candidate_pruned env stream_id c cand s =
     (let candidate = ag_candidate s cand in
      if list_ex (\<lambda>n. let x = ag_candidate s n in
            nice_address_equal (c_base_addr x) (c_base_addr candidate) \<and>
            nice_address_equal (c_addr x) (c_addr candidate) \<and> c_transport x = c_transport candidate)
           (cm_local_candidates (ag_component s c))
      then Some (False, s)
      else do {
        let s = upd_component c (\<lambda>x. x\<lparr>cm_local_candidates := cm_local_candidates x @ [cand]\<rparr>) s;
        (_, s) \<leftarrow> conn_check_add_for_local_candidate env stream_id c cand s;
        Some (True, s)
      })"

text \<open>The search for a free number of a remote foundation.\<close>

definition remote_foundation :: "nat \<Rightarrow> string" where
  "remote_foundation n = ''remote-'' @ dec_digits n"

partial_function (option) free_remote_foundation :: "string list \<Rightarrow> nat \<Rightarrow> nat option" where
  "free_remote_foundation taken highest =
     (if remote_foundation highest \<in> set taken then free_remote_foundation taken (Suc highest) else Some highest)"

declare free_remote_foundation.simps [code]

definition priv_highest_remote_foundation :: "NiceAgent \<Rightarrow> nat \<Rightarrow> nat option" where
  "priv_highest_remote_foundation s c =
     free_remote_foundation (map (\<lambda>r. c_foundation (ag_candidate s r)) (cm_remote_candidates (ag_component s c))) 1"

definition priv_compare_turn_servers :: "TurnServer option \<Rightarrow> TurnServer option \<Rightarrow> bool" where
  "priv_compare_turn_servers turn1 turn2 =
     (case (turn1, turn2) of
        (None, None) \<Rightarrow> True
      | (Some t1, Some t2) \<Rightarrow> turn_ref t1 = turn_ref t2 \<or> nice_address_equal_no_port (turn_server t1) (turn_server t2)
      | _ \<Rightarrow> False)"

text \<open>The candidates of all components of all streams, in the order of the loops.\<close>

definition all_candidates :: "(NiceComponent \<Rightarrow> nat list) \<Rightarrow> NiceAgent \<Rightarrow> nat list" where
  "all_candidates sel s =
     concat (map (\<lambda>st. concat (map (\<lambda>c. sel (ag_component s c)) (st_components (ag_stream s st)))) (ag_streams s))"

definition take_foundation :: "NiceCandidate \<Rightarrow> NiceCandidate \<Rightarrow> NiceCandidate" where
  "take_foundation n candidate =
     candidate\<lparr>c_foundation := take 32 (c_foundation n),
       c_username := (case c_username n of None \<Rightarrow> c_username candidate | Some u \<Rightarrow> Some u),
       c_password := (case c_password n of None \<Rightarrow> c_password candidate | Some u \<Rightarrow> Some u)\<rparr>"

definition same_foundation :: "NiceAgent \<Rightarrow> NiceCandidate \<Rightarrow> NiceCandidate \<Rightarrow> bool" where
  "same_foundation s candidate n =
     (c_type candidate = c_type n \<and> c_transport candidate = c_transport n \<and>
      nice_address_equal_no_port (c_base_addr candidate) (c_base_addr n) \<and>
      (c_type candidate \<noteq> NICE_CANDIDATE_TYPE_RELAYED \<or> priv_compare_turn_servers (c_turn candidate) (c_turn n)) \<and>
      \<not> (ag_compatibility s = NICE_COMPATIBILITY_GOOGLE \<and> c_type n = NICE_CANDIDATE_TYPE_RELAYED))"

definition priv_assign_foundation :: "NiceAgent \<Rightarrow> NiceCandidate \<Rightarrow> NiceCandidate \<times> NiceAgent" where
  "priv_assign_foundation s candidate =
     (case find (\<lambda>n. same_foundation s candidate (ag_candidate s n)) (all_candidates cm_local_candidates s) of
        Some n \<Rightarrow> (take_foundation (ag_candidate s n) candidate, s)
      | None \<Rightarrow> (candidate\<lparr>c_foundation := dec_digits (unat (ag_next_candidate_id s))\<rparr>,
                 s\<lparr>ag_next_candidate_id := ag_next_candidate_id s + 1\<rparr>))"

text \<open>When no remote candidate matches, the component is the last one with the id of the candidate.\<close>

definition priv_assign_remote_foundation :: "NiceAgent \<Rightarrow> NiceCandidate \<Rightarrow> NiceCandidate option" where
  "priv_assign_remote_foundation s candidate =
     (case find (\<lambda>n. let x = ag_candidate s n in
             c_type candidate = c_type x \<and> c_transport candidate = c_transport x \<and>
             c_stream_id candidate = c_stream_id x \<and> nice_address_equal_no_port (c_addr candidate) (c_addr x))
           (all_candidates cm_remote_candidates s) of
        Some n \<Rightarrow> Some (take_foundation (ag_candidate s n) candidate)
      | None \<Rightarrow>
          (case rev (filter (\<lambda>c. cm_id (ag_component s c) = c_component_id candidate)
                      (concat (map (\<lambda>st. st_components (ag_stream s st)) (ag_streams s)))) of
             [] \<Rightarrow> Some candidate
           | c # _ \<Rightarrow> do {
               next_remote_id \<leftarrow> priv_highest_remote_foundation s c;
               Some (candidate\<lparr>c_foundation := remote_foundation next_remote_id\<rparr>)
             }))"

definition priv_generate_candidate_credentials ::
  "cc_env \<Rightarrow> NiceAgent \<Rightarrow> NiceCandidate \<Rightarrow> NiceCandidate \<times> NiceAgent" where
  "priv_generate_candidate_credentials env s candidate =
     (case ag_compatibility s of
        NICE_COMPATIBILITY_GOOGLE \<Rightarrow>
          (candidate\<lparr>c_password := None, c_username := Some (env_random_print env (ag_random s) 16)\<rparr>,
           s\<lparr>ag_random := Suc (ag_random s)\<rparr>)
      | _ \<Rightarrow>
          if ag_compatibility s = NICE_COMPATIBILITY_MSN \<or> ag_compatibility s = NICE_COMPATIBILITY_OC2007 then
            (candidate\<lparr>c_username := Some (env_base64_encode env (env_random_bytes env (ag_random s) 32)),
                       c_password := Some (env_base64_encode env (env_random_bytes env (Suc (ag_random s)) 16))\<rparr>,
             s\<lparr>ag_random := Suc (Suc (ag_random s))\<rparr>)
          else (candidate, s))"

section \<open>Creating candidates\<close>

definition store_candidate :: "NiceCandidate \<Rightarrow> NiceAgent \<Rightarrow> nat \<times> NiceAgent" where
  "store_candidate candidate s =
     (ag_next_candidate s, s\<lparr>ag_candidate := (ag_candidate s)(ag_next_candidate s := candidate),
                             ag_next_candidate := Suc (ag_next_candidate s)\<rparr>)"

text \<open>A new local candidate with its priority, credentials and foundation.\<close>

definition prepare_candidate ::
  "cc_env \<Rightarrow> nat \<Rightarrow> bool \<Rightarrow> (NiceCandidate \<Rightarrow> NiceCandidate) \<Rightarrow> NiceCandidate \<Rightarrow> NiceAgent
   \<Rightarrow> (NiceCandidate \<times> NiceAgent) option" where
  "prepare_candidate env c nat_assisted adjust candidate s = do {
     priority \<leftarrow> candidate_priority env s nat_assisted candidate;
     priority \<leftarrow> ensure_unique_priority s c priority;
     let (candidate, s) = priv_generate_candidate_credentials env s (candidate\<lparr>c_priority := priority\<rparr>);
     Some (priv_assign_foundation s (adjust candidate))
   }"

datatype HostCandidateResult =
    HOST_CANDIDATE_SUCCESS
  | HOST_CANDIDATE_FAILED
  | HOST_CANDIDATE_CANT_CREATE_SOCKET
  | HOST_CANDIDATE_REDUNDANT

definition discovery_add_local_host_candidate ::
  "cc_env \<Rightarrow> nat \<Rightarrow> nat \<Rightarrow> NiceAddress \<Rightarrow> NiceCandidateTransport \<Rightarrow> nat option \<Rightarrow> NiceAgent
   \<Rightarrow> (HostCandidateResult \<times> nat option \<times> NiceAgent) option" where
  "discovery_add_local_host_candidate env stream_id component_id address transport nicesock s =
     (case agent_find_component s stream_id component_id of
        None \<Rightarrow> Some (HOST_CANDIDATE_FAILED, None, s)
      | Some (st, c) \<Rightarrow> do {
          (candidate, s) \<leftarrow> prepare_candidate env c False id
            ((nice_candidate_new NICE_CANDIDATE_TYPE_HOST)\<lparr>c_transport := transport, c_stream_id := stream_id,
               c_component_id := component_id, c_addr := address, c_base_addr := address\<rparr>) s;
          if transport = NICE_CANDIDATE_TRANSPORT_TCP_SO \<or> nicesock = None
          then Some (HOST_CANDIDATE_CANT_CREATE_SOCKET, None, s)
          else do {
            let (a, s) = store_candidate (candidate\<lparr>c_sockptr := nicesock, c_addr := env_socket_addr env nicesock,
                  c_base_addr := env_socket_addr env nicesock\<rparr>) s;
            (added, s) \<leftarrow> priv_add_local_candidate_pruned env stream_id c a s;
            Some (if added then (HOST_CANDIDATE_SUCCESS, Some a, emit (SocketAttached c (the nicesock)) s)
                  else (HOST_CANDIDATE_REDUNDANT, None, s))
          }
        })"

definition discovery_add_server_reflexive_candidate ::
  "cc_env \<Rightarrow> nat \<Rightarrow> nat \<Rightarrow> NiceAddress \<Rightarrow> NiceCandidateTransport \<Rightarrow> nat option \<Rightarrow> bool \<Rightarrow> NiceAgent
   \<Rightarrow> (nat option \<times> NiceAgent) option" where
  "discovery_add_server_reflexive_candidate env stream_id component_id address transport base_socket nat_assisted s =
     (case agent_find_component s stream_id component_id of
        None \<Rightarrow> Some (None, s)
      | Some (st, c) \<Rightarrow> do {
          (candidate, s) \<leftarrow> prepare_candidate env c nat_assisted id
            ((nice_candidate_new NICE_CANDIDATE_TYPE_SERVER_REFLEXIVE)\<lparr>c_transport := transport, c_stream_id := stream_id,
               c_component_id := component_id, c_addr := address, c_sockptr := base_socket,
               c_base_addr := env_socket_addr env base_socket\<rparr>) s;
          let (a, s) = store_candidate candidate s;
          (added, s) \<leftarrow> priv_add_local_candidate_pruned env stream_id c a s;
          Some (if added then (Some a, emit (NewCandidate a) s) else (None, s))
        })"

text \<open>The loop over the host candidates; the list grows while it runs, but what is added is not a host candidate.\<close>

fun tcp_server_reflexive ::
  "cc_env \<Rightarrow> nat \<Rightarrow> nat \<Rightarrow> NiceAddress \<Rightarrow> NiceAddress \<Rightarrow> nat list \<Rightarrow> NiceAgent \<Rightarrow> NiceAgent option" where
  "tcp_server_reflexive env stream_id component_id base_addr address [] s = Some s"
| "tcp_server_reflexive env stream_id component_id base_addr address (n # ns) s =
     (let x = ag_candidate s n; caddr = nice_address_set_port (c_addr x) 0 in
      if c_transport x \<noteq> NICE_CANDIDATE_TRANSPORT_UDP \<and> c_type x = NICE_CANDIDATE_TYPE_HOST
         \<and> nice_address_equal base_addr caddr
      then do {
        let address = nice_address_set_port address (nice_address_get_port (c_addr x));
        (_, s) \<leftarrow> discovery_add_server_reflexive_candidate env stream_id component_id address (c_transport x)
          (c_sockptr x) False s;
        tcp_server_reflexive env stream_id component_id base_addr address ns s
      }
      else tcp_server_reflexive env stream_id component_id base_addr address ns s)"

definition discovery_discover_tcp_server_reflexive_candidates ::
  "cc_env \<Rightarrow> nat \<Rightarrow> nat \<Rightarrow> NiceAddress \<Rightarrow> nat option \<Rightarrow> NiceAgent \<Rightarrow> NiceAgent option" where
  "discovery_discover_tcp_server_reflexive_candidates env stream_id component_id address base_socket s =
     (case agent_find_component s stream_id component_id of
        None \<Rightarrow> Some s
      | Some (st, c) \<Rightarrow>
          tcp_server_reflexive env stream_id component_id (nice_address_set_port (env_socket_addr env base_socket) 0)
            address (cm_local_candidates (ag_component s c)) s)"

definition discovery_add_relay_candidate ::
  "cc_env \<Rightarrow> nat \<Rightarrow> nat \<Rightarrow> NiceAddress \<Rightarrow> NiceCandidateTransport \<Rightarrow> nat option \<Rightarrow> nat option \<Rightarrow> TurnServer
   \<Rightarrow> NiceAgent \<Rightarrow> (nat option \<times> NiceAgent) option" where
  "discovery_add_relay_candidate env stream_id component_id address transport base_socket relay_socket turn s =
     (case (agent_find_component s stream_id component_id, relay_socket) of
        (Some (st, c), Some sock) \<Rightarrow> do {
          (candidate, s) \<leftarrow> prepare_candidate env c False
            (\<lambda>x. if ag_compatibility s = NICE_COMPATIBILITY_GOOGLE then x\<lparr>c_username := Some (turn_username turn)\<rparr> else x)
            ((nice_candidate_new NICE_CANDIDATE_TYPE_RELAYED)\<lparr>c_transport := transport, c_stream_id := stream_id,
               c_component_id := component_id, c_addr := address, c_turn := Some turn, c_sockptr := relay_socket,
               c_base_addr := env_socket_addr env base_socket\<rparr>) s;
          let (a, s) = store_candidate candidate s;
          (added, s) \<leftarrow> priv_add_local_candidate_pruned env stream_id c a s;
          Some (if added then (Some a, emit (NewCandidate a) (emit (SocketAttached c sock) s)) else (None, s))
        }
      | _ \<Rightarrow> Some (None, s))"

text \<open>The credentials of a peer reflexive candidate, from those of the candidates it was learnt with. \<open>own\<close> is
  the candidate on the same side.\<close>

definition prflx_credentials ::
  "cc_env \<Rightarrow> NiceAgent \<Rightarrow> NiceCandidate option \<Rightarrow> NiceCandidate option \<Rightarrow> NiceCandidate option
   \<Rightarrow> NiceCandidate \<Rightarrow> NiceCandidate option" where
  "prflx_credentials env s first second own candidate =
     (case (first, second) of
        (Some f, Some g) \<Rightarrow>
          if ag_compatibility s = NICE_COMPATIBILITY_MSN \<or> ag_compatibility s = NICE_COMPATIBILITY_OC2007 then do {
            u \<leftarrow> c_username f;
            v \<leftarrow> c_username g;
            Some (candidate\<lparr>c_username := Some (env_base64_encode env (env_base64_decode env u @ env_base64_decode env v)),
                            c_password := (case own of None \<Rightarrow> None | Some o' \<Rightarrow> c_password o')\<rparr>)
          }
          else Some (case own of None \<Rightarrow> candidate
                     | Some o' \<Rightarrow> candidate\<lparr>c_username := c_username o', c_password := c_password o'\<rparr>)
      | _ \<Rightarrow> Some (case own of None \<Rightarrow> candidate
                   | Some o' \<Rightarrow> candidate\<lparr>c_username := c_username o', c_password := c_password o'\<rparr>))"

definition discovery_add_peer_reflexive_candidate ::
  "cc_env \<Rightarrow> nat \<Rightarrow> nat \<Rightarrow> NiceAddress \<Rightarrow> nat option \<Rightarrow> nat option \<Rightarrow> nat option \<Rightarrow> NiceAgent
   \<Rightarrow> (nat option \<times> NiceAgent) option" where
  "discovery_add_peer_reflexive_candidate env stream_id component_id address base_socket loc remote s =
     (case agent_find_component s stream_id component_id of
        None \<Rightarrow> Some (None, s)
      | Some (st, c) \<Rightarrow> do {
          let l = map_option (ag_candidate s) loc;
          let r = map_option (ag_candidate s) remote;
          let candidate = (nice_candidate_new NICE_CANDIDATE_TYPE_PEER_REFLEXIVE)
                \<lparr>c_transport := (case l of Some x \<Rightarrow> c_transport x
                   | None \<Rightarrow> (case r of Some x \<Rightarrow> conn_check_match_transport (c_transport x)
                      | None \<Rightarrow> if env_socket_is_udp env base_socket then NICE_CANDIDATE_TRANSPORT_UDP
                                else NICE_CANDIDATE_TRANSPORT_TCP_PASSIVE)),
                 c_stream_id := stream_id, c_component_id := component_id, c_addr := address,
                 c_sockptr := base_socket, c_base_addr := env_socket_addr env base_socket\<rparr>;
          priority \<leftarrow> candidate_priority env s False candidate;
          priority \<leftarrow> ensure_unique_priority s c priority;
          let (candidate, s) = priv_assign_foundation s (candidate\<lparr>c_priority := priority\<rparr>);
          candidate \<leftarrow> prflx_credentials env s l r l candidate;
          let (a, s) = store_candidate candidate s;
          (added, s) \<leftarrow> priv_add_local_candidate_pruned env stream_id c a s;
          Some (if added then Some a else None, s)
        })"

definition discovery_learn_remote_peer_reflexive_candidate ::
  "cc_env \<Rightarrow> nat \<Rightarrow> nat \<Rightarrow> u32 \<Rightarrow> NiceAddress \<Rightarrow> nat option \<Rightarrow> nat option \<Rightarrow> nat option \<Rightarrow> NiceAgent
   \<Rightarrow> (nat \<times> NiceAgent) option" where
  "discovery_learn_remote_peer_reflexive_candidate env st c priority remote_address nicesock loc remote s = do {
     let l = map_option (ag_candidate s) loc;
     let r = map_option (ag_candidate s) remote;
     let candidate = (nice_candidate_new NICE_CANDIDATE_TYPE_PEER_REFLEXIVE)
           \<lparr>c_transport := (case r of Some x \<Rightarrow> c_transport x
              | None \<Rightarrow> (case l of Some x \<Rightarrow> conn_check_match_transport (c_transport x)
                 | None \<Rightarrow> if env_socket_is_udp env nicesock then NICE_CANDIDATE_TRANSPORT_UDP
                           else NICE_CANDIDATE_TRANSPORT_TCP_ACTIVE)),
            c_addr := remote_address, c_base_addr := remote_address, c_sockptr := nicesock,
            c_stream_id := st_id (ag_stream s st), c_component_id := cm_id (ag_component s c)\<rparr>;
     priority \<leftarrow> (if priority \<noteq> 0 then Some priority else candidate_priority env s False candidate);
     candidate \<leftarrow> priv_assign_remote_foundation s (candidate\<lparr>c_priority := priority\<rparr>);
     candidate \<leftarrow> prflx_credentials env s r l r candidate;
     let (a, s) = store_candidate candidate s;
     let s = upd_component c (\<lambda>x. x\<lparr>cm_remote_candidates := cm_remote_candidates x @ [a]\<rparr>) s;
     Some (a, emit (NewRemoteCandidate a) s)
   }"

end
