(* ===== verification/Conncheck_Response.thy ===== *)
theory Conncheck_Response
  imports Conncheck_Discovery
begin

text \<open>
  Incoming checks and responses (\<^verbatim>\<open>agent/conncheck.c\<close>): triggered checks, early checks, role conflicts, and
  the processing of a response to a check.
\<close>

section \<open>Incoming checks\<close>

definition conn_check_schedule_next :: "NiceAgent \<Rightarrow> NiceAgent" where
  "conn_check_schedule_next s = s\<lparr>ag_conncheck_timer := True, ag_keepalive_timer := True\<rparr>"

text \<open>The pair that an incoming check is for.\<close>

definition triggered_match :: "NiceAgent \<Rightarrow> nat \<Rightarrow> nat option \<Rightarrow> nat \<Rightarrow> CandidateCheckPair \<Rightarrow> bool" where
  "triggered_match s i local_socket remote_cand x =
     (cp_component_id x = i \<and> cp_remote x = remote_cand \<and>
      (let l = ag_candidate s (cp_local x) in
       if c_transport l = NICE_CANDIDATE_TRANSPORT_TCP_PASSIVE then cp_sockptr x = local_socket
       else c_sockptr l = local_socket))"

definition trigger_pair :: "cc_env \<Rightarrow> nat \<Rightarrow> nat \<Rightarrow> nat \<Rightarrow> NiceAgent \<Rightarrow> NiceAgent option" where
  "trigger_pair env st c p s = do {
     x \<leftarrow> ag_pairs s p;
     case cp_state x of
       NICE_CHECK_WAITING \<Rightarrow> priv_add_pair_to_triggered_check_queue p s
     | NICE_CHECK_FROZEN \<Rightarrow> priv_add_pair_to_triggered_check_queue p s
     | NICE_CHECK_IN_PROGRESS \<Rightarrow>
         if \<not> env_socket_is_reliable env (cp_sockptr x) \<and> cp_retransmit x
         then priv_add_pair_to_triggered_check_queue p s else Some s
     | NICE_CHECK_FAILED \<Rightarrow>
         if cp_retransmit x then do {
           s \<leftarrow> priv_add_pair_to_triggered_check_queue p s;
           if cm_state (ag_component s c) = NICE_COMPONENT_STATE_FAILED then do {
             s \<leftarrow> agent_signal_component_state_change (st_id (ag_stream s st)) (cm_id (ag_component s c))
                   NICE_COMPONENT_STATE_CONNECTING s;
             Some (conn_check_schedule_next s)
           }
           else Some s
         }
         else Some s
     | NICE_CHECK_SUCCEEDED \<Rightarrow> priv_update_check_list_state_for_ready st c s
     | NICE_CHECK_DISCOVERED \<Rightarrow> Some s
   }"

definition priv_schedule_triggered_check ::
  "cc_env \<Rightarrow> nat \<Rightarrow> nat \<Rightarrow> nat option \<Rightarrow> nat \<Rightarrow> NiceAgent \<Rightarrow> (bool \<times> NiceAgent) option" where
  "priv_schedule_triggered_check env st c local_socket remote_cand s = do {
     r \<leftarrow> first_pair s (triggered_match s (cm_id (ag_component s c)) local_socket remote_cand) (checklist s st);
     case r of
       Some p \<Rightarrow> do {
         x \<leftarrow> ag_pairs s p;
         p \<leftarrow> (case cp_succeeded_pair x of
               None \<Rightarrow> Some p
             | Some q \<Rightarrow> do { c_assert (cp_state x = NICE_CHECK_DISCOVERED); Some q });
         s \<leftarrow> trigger_pair env st c p s;
         Some (True, s)
       }
     | None \<Rightarrow>
         (case find (\<lambda>l. c_sockptr (ag_candidate s l) = local_socket) (cm_local_candidates (ag_component s c)) of
            Some l \<Rightarrow> do {
              (p, s) \<leftarrow> priv_add_new_check_pair env (st_id (ag_stream s st)) c l remote_cand NICE_CHECK_WAITING s;
              s \<leftarrow> priv_add_pair_to_triggered_check_queue p s;
              Some (True, s)
            }
          | None \<Rightarrow> Some (False, s))
   }"

text \<open>The reply itself is built by \<^verbatim>\<open>stun_usage_ice_conncheck_create_reply\<close>; \<open>reply\<close> are its bytes.\<close>

definition priv_reply_to_conn_check ::
  "cc_env \<Rightarrow> nat \<Rightarrow> nat \<Rightarrow> nat option \<Rightarrow> nat option \<Rightarrow> NiceAddress \<Rightarrow> nat option \<Rightarrow> bytes \<Rightarrow> bool \<Rightarrow> NiceAgent
   \<Rightarrow> NiceAgent option" where
  "priv_reply_to_conn_check env st c lcand rcand toaddr sockptr reply use_candidate s = do {
     c_assert (case rcand of None \<Rightarrow> True | Some r \<Rightarrow> nice_address_equal (c_addr (ag_candidate s r)) toaddr);
     let s = emit (SocketSend sockptr toaddr reply) s;
     let s = (if ag_compatibility s = NICE_COMPATIBILITY_OC2007R2 then emit (LegacySend sockptr toaddr) s else s);
     case rcand of
       None \<Rightarrow> Some s
     | Some r \<Rightarrow> do {
         (_, s) \<leftarrow> priv_schedule_triggered_check env st c sockptr r s;
         if use_candidate then priv_mark_pair_nominated st c lcand rcand s else Some s
       }
   }"

abbreviation (input) NICE_AGENT_MAX_REMOTE_CANDIDATES :: nat where "NICE_AGENT_MAX_REMOTE_CANDIDATES \<equiv> 25"

definition priv_store_pending_check ::
  "nat \<Rightarrow> NiceAddress \<Rightarrow> nat option \<Rightarrow> bytes \<Rightarrow> u32 \<Rightarrow> bool \<Rightarrow> NiceAgent \<Rightarrow> bool \<times> NiceAgent" where
  "priv_store_pending_check c from sockptr username priority use_candidate s =
     (if length (cm_incoming_checks (ag_component s c)) \<ge> NICE_AGENT_MAX_REMOTE_CANDIDATES then (False, s)
      else (True, upd_component c (\<lambda>x. x\<lparr>cm_incoming_checks := cm_incoming_checks x @
              [\<lparr>ic_from = from, ic_local_socket = sockptr, ic_priority = priority, ic_use_candidate = use_candidate,
                ic_username = username\<rparr>]\<rparr>) s))"

section \<open>Roles\<close>

text \<open>\<^verbatim>\<open>g_slist_sort\<close> is stable, so inserting from the end gives its result.\<close>

fun sort_pairs :: "NiceAgent \<Rightarrow> nat list \<Rightarrow> nat list option" where
  "sort_pairs s [] = Some []"
| "sort_pairs s (p # ps) = do {
     qs \<leftarrow> sort_pairs s ps;
     x \<leftarrow> ag_pairs s p;
     insert_sorted s p x qs
   }"

definition recalculate_pair :: "nat \<Rightarrow> NiceAgent \<Rightarrow> NiceAgent option" where
  "recalculate_pair p s =
     upd_pair p (\<lambda>x. x\<lparr>cp_priority := agent_candidate_pair_priority s (cp_local x) (cp_remote x)\<rparr>) s"

definition recalculate_stream :: "nat \<Rightarrow> NiceAgent \<Rightarrow> NiceAgent option" where
  "recalculate_stream st s = do {
     s \<leftarrow> for_each recalculate_pair (checklist s st) s;
     ps \<leftarrow> sort_pairs s (checklist s st);
     Some (set_checklist st ps s)
   }"

definition priv_recalculate_pair_priorities :: "NiceAgent \<Rightarrow> NiceAgent option" where
  "priv_recalculate_pair_priorities s = for_each recalculate_stream (ag_streams s) s"

definition priv_check_for_role_conflict :: "bool \<Rightarrow> NiceAgent \<Rightarrow> NiceAgent option" where
  "priv_check_for_role_conflict control s =
     (if control \<noteq> ag_controlling_mode s
      then priv_recalculate_pair_priorities (s\<lparr>ag_controlling_mode := control\<rparr>)
      else Some s)"

section \<open>Responses\<close>

definition priv_add_peer_reflexive_pair ::
  "cc_env \<Rightarrow> nat \<Rightarrow> nat \<Rightarrow> nat \<Rightarrow> nat \<Rightarrow> NiceAgent \<Rightarrow> (nat \<times> NiceAgent) option" where
  "priv_add_peer_reflexive_pair env stream_id c local_cand parent_pair s = do {
     st \<leftarrow> agent_find_stream s stream_id;
     parent \<leftarrow> ag_pairs s parent_pair;
     s \<leftarrow> upd_pair parent_pair (\<lambda>x. x\<lparr>cp_discovered_pair := Some (ag_next_pair s)\<rparr>) s;
     prflx \<leftarrow> peer_reflexive_candidate_priority env s local_cand;
     prflx \<leftarrow> ensure_unique_priority s c prflx;
     let x = (new_pair s stream_id (cm_id (ag_component s c)) local_cand (cp_remote parent) NICE_CHECK_DISCOVERED)
           \<lparr>cp_sockptr := c_sockptr (ag_candidate s local_cand), cp_succeeded_pair := Some parent_pair,
            cp_priority := agent_candidate_pair_priority s local_cand (cp_remote parent), cp_prflx_priority := prflx\<rparr>;
     insert_pair st x s
   }"

definition succeed_pair :: "nat \<Rightarrow> nat \<Rightarrow> NiceAgent \<Rightarrow> NiceAgent option" where
  "succeed_pair p c s = do {
     s \<leftarrow> upd_pair p (\<lambda>x. x\<lparr>cp_state := NICE_CHECK_SUCCEEDED\<rparr>) s;
     priv_free_all_stun_transactions p (Some c) (priv_remove_pair_from_triggered_check_queue p s)
   }"

definition priv_process_response_check_for_reflexive ::
  "cc_env \<Rightarrow> nat \<Rightarrow> nat \<Rightarrow> nat \<Rightarrow> nat option \<Rightarrow> NiceAddress \<Rightarrow> nat option \<Rightarrow> nat option \<Rightarrow> NiceAgent
   \<Rightarrow> (nat option \<times> NiceAgent) option" where
  "priv_process_response_check_for_reflexive env st c p sockptr mapped local_candidate remote_candidate s = do {
     let local_cand = find (\<lambda>l. nice_address_equal mapped (c_addr (ag_candidate s l))) (cm_local_candidates (ag_component s c));
     known \<leftarrow> (case local_cand of None \<Rightarrow> Some None
              | Some l \<Rightarrow> first_pair s (\<lambda>x. cp_local x = l \<and> remote_candidate = Some (cp_remote x)) (checklist s st));
     case known of
       Some q \<Rightarrow> do {
         s \<leftarrow> (if q = p then upd_pair p (\<lambda>x. x\<lparr>cp_valid := True\<rparr>) s else Some s);
         s \<leftarrow> succeed_pair p c s;
         remote \<leftarrow> remote_candidate;
         let s = nice_component_add_valid_candidate c remote s;
         y \<leftarrow> ag_pairs s q;
         Some (Some q, if cp_valid y then nice_component_add_valid_candidate c remote s else s)
       }
     | None \<Rightarrow> do {
         (local_cand, s) \<leftarrow>
           (case local_cand of
              Some l \<Rightarrow> Some (Some l, s)
            | None \<Rightarrow>
                if ag_force_relay s then Some (None, s)
                else discovery_add_peer_reflexive_candidate env (st_id (ag_stream s st)) (cm_id (ag_component s c))
                       mapped sockptr local_candidate remote_candidate s);
         (new_pair, s) \<leftarrow>
           (case local_cand of
              None \<Rightarrow> Some (None, s)
            | Some l \<Rightarrow> do {
                (q, s) \<leftarrow> priv_add_peer_reflexive_pair env (st_id (ag_stream s st)) c l p s;
                s \<leftarrow> upd_pair q (\<lambda>x. x\<lparr>cp_valid := True\<rparr>) s;
                Some (Some q, s)
              });
         s \<leftarrow> succeed_pair p c s;
         case new_pair of
           None \<Rightarrow> Some (None, s)
         | Some q \<Rightarrow> do {
             remote \<leftarrow> remote_candidate;
             Some (Some q, nice_component_add_valid_candidate c remote s)
           }
       }
   }"

text \<open>Whether the pair that produced a valid pair makes it a nominated one.\<close>

definition response_nominates :: "NiceAgent \<Rightarrow> CandidateCheckPair \<Rightarrow> bool" where
  "response_nominates s x =
     (rfc5245_or_oc2007r2 s \<and>
      (if ag_controlling_mode s then
         (case ag_nomination_mode s of
            NICE_NOMINATION_MODE_REGULAR \<Rightarrow> cp_use_candidate_on_next_check x
          | NICE_NOMINATION_MODE_AGGRESSIVE \<Rightarrow> \<not> cp_nominated x)
       else cp_mark_nominated_on_response_arrival x))"

definition response_succeeded ::
  "cc_env \<Rightarrow> nat \<Rightarrow> nat \<Rightarrow> nat \<Rightarrow> nat option \<Rightarrow> StunUsageIceReturn \<Rightarrow> NiceAddress \<Rightarrow> nat option \<Rightarrow> nat option
   \<Rightarrow> NiceAgent \<Rightarrow> NiceAgent option" where
  "response_succeeded env st c p sockptr res mapped local_candidate remote_candidate s = do {
     x \<leftarrow> ag_pairs s p;
     (ok_pair, s) \<leftarrow>
       (if res = STUN_USAGE_ICE_RETURN_NO_MAPPED_ADDRESS then do {
          s \<leftarrow> upd_pair p (\<lambda>x. x\<lparr>cp_state := NICE_CHECK_SUCCEEDED, cp_valid := True\<rparr>) s;
          Some (None, nice_component_add_valid_candidate c (cp_remote x) s)
        }
        else priv_process_response_check_for_reflexive env st c p sockptr mapped local_candidate remote_candidate s);
     s \<leftarrow> priv_conn_check_unfreeze_related st p s;
     let ok_pair = (case ok_pair of None \<Rightarrow> p | Some q \<Rightarrow> q);
     x \<leftarrow> ag_pairs s p;
     s \<leftarrow> (if response_nominates s x then upd_pair ok_pair (\<lambda>x. x\<lparr>cp_nominated := True\<rparr>) s else Some s);
     y \<leftarrow> ag_pairs s ok_pair;
     s \<leftarrow> (if cp_nominated y then do {
             s \<leftarrow> priv_update_selected_pair c ok_pair s;
             if cm_state (ag_component s c) \<noteq> NICE_COMPONENT_STATE_READY
             then agent_signal_component_state_change (st_id (ag_stream s st)) (cm_id (ag_component s c))
                    NICE_COMPONENT_STATE_CONNECTED s
             else Some s
           }
           else Some s);
     priv_update_check_list_state_for_ready st c s
   }"

text \<open>The check whose transaction a response answers: the pair and the position of the transaction.\<close>

fun find_transaction :: "bytes \<Rightarrow> nat \<Rightarrow> StunTransaction list \<Rightarrow> nat option option" where
  "find_transaction response_id k [] = Some None"
| "find_transaction response_id k (t # ts) = do {
     m \<leftarrow> tr_message t;
     discovery_id \<leftarrow> stun_message_id m;
     if discovery_id = response_id then Some (Some k) else find_transaction response_id (Suc k) ts
   }"

fun find_check :: "NiceAgent \<Rightarrow> bytes \<Rightarrow> nat list \<Rightarrow> (nat \<times> nat) option option" where
  "find_check s response_id [] = Some None"
| "find_check s response_id (p # ps) = do {
     x \<leftarrow> ag_pairs s p;
     r \<leftarrow> find_transaction response_id 0 (cp_stun_transactions x);
     case r of Some k \<Rightarrow> Some (Some (p, k)) | None \<Rightarrow> find_check s response_id ps
   }"

text \<open>The address that the STUN usage has found, as a \<^verbatim>\<open>NiceAddress\<close>; the STUN code clears the scope.\<close>

fun nice_address_of_sockaddr :: "sockaddr \<Rightarrow> NiceAddress" where
  "nice_address_of_sockaddr (SA_INET port a) = NA_INET port a"
| "nice_address_of_sockaddr (SA_INET6 port a) = NA_INET6 port a 0"
| "nice_address_of_sockaddr SA_OTHER = NA_UNSPEC"

definition priv_map_reply_to_conn_check_request ::
  "cc_env \<Rightarrow> nat \<Rightarrow> nat \<Rightarrow> nat option \<Rightarrow> NiceAddress \<Rightarrow> nat option \<Rightarrow> nat option \<Rightarrow> stun_message \<Rightarrow> NiceAgent
   \<Rightarrow> (bool \<times> NiceAgent) option" where
  "priv_map_reply_to_conn_check_request env st c sockptr from local_candidate remote_candidate resp s = do {
     response_id \<leftarrow> stun_message_id resp;
     r \<leftarrow> find_check s response_id (checklist s st);
     case r of
       None \<Rightarrow> Some (False, s)
     | Some (p, k) \<Rightarrow> do {
         x \<leftarrow> ag_pairs s p;
         (res, addr, _) \<leftarrow> stun_usage_ice_conncheck_process resp SA_OTHER sizeof_sockaddr_storage
           (agent_to_ice_compatibility s);
         s \<leftarrow> (if res = STUN_USAGE_ICE_RETURN_SUCCESS \<or> res = STUN_USAGE_ICE_RETURN_NO_MAPPED_ADDRESS then do {
                 s \<leftarrow> priv_remove_stun_transaction p k c s;
                 if \<not> nice_address_equal from (c_addr (ag_candidate s (cp_remote x)))
                 then candidate_check_pair_fail st p s
                 else response_succeeded env st c p sockptr res (nice_address_of_sockaddr addr) local_candidate
                        remote_candidate s
               }
               else if res = STUN_USAGE_ICE_RETURN_ROLE_CONFLICT then do {
                 m \<leftarrow> tr_message (cp_stun_transactions x ! k);
                 r \<leftarrow> stun_message_find64 m STUN_ATTRIBUTE_ICE_CONTROLLED;
                 s \<leftarrow> priv_check_for_role_conflict (case r of Inl _ \<Rightarrow> False | Inr _ \<Rightarrow> True) s;
                 s \<leftarrow> priv_remove_stun_transaction p k c s;
                 priv_add_pair_to_triggered_check_queue p s
               }
               else candidate_check_pair_fail st p s);
         Some (True, s)
       }
   }"

end
