(* ===== verification/Agent_Sdp.thy ===== *)
theory Agent_Sdp
  imports Conncheck_Response
begin

text \<open>
  Exchanging candidates with the peer (\<^verbatim>\<open>agent/agent.c\<close>): the session description of the local candidates, its
  parser, and adding remote candidates and credentials. Proved here: the parser gets back every candidate of the
  generator.

  \<open>inet_ntop\<close> and \<open>getaddrinfo\<close> of the operating system are parameters, as in \<open>Nice_Address\<close>. The string functions
  of GLib are written out. A null string given to \<^verbatim>\<open>g_ascii_strcasecmp\<close> fails its precondition, which logs a
  message and returns 0, so that it counts as equal.
\<close>

section \<open>Strings\<close>

fun split_on :: "char \<Rightarrow> string \<Rightarrow> string list" where
  "split_on c [] = [[]]"
| "split_on c (x # xs) =
     (if x = c then [] # split_on c xs
      else case split_on c xs of [] \<Rightarrow> [[x]] | y # ys \<Rightarrow> (x # y) # ys)"

definition g_strsplit :: "string \<Rightarrow> char \<Rightarrow> string list" where
  "g_strsplit s c = (if s = [] then [] else split_on c s)"

definition g_str_has_prefix :: "string \<Rightarrow> string \<Rightarrow> bool" where
  "g_str_has_prefix s p = (take (length p) s = p)"

definition g_strlcpy :: "string \<Rightarrow> nat \<Rightarrow> string" where
  "g_strlcpy src dest_size = take (dest_size - 1) src"

definition ascii_lower :: "char \<Rightarrow> char" where
  "ascii_lower c = (let n = (of_char c :: nat) in if 65 \<le> n \<and> n \<le> 90 then char_of (n + 32) else c)"

definition ascii_equal_nocase :: "string option \<Rightarrow> string \<Rightarrow> bool" where
  "ascii_equal_nocase s t = (case s of None \<Rightarrow> True | Some s \<Rightarrow> map ascii_lower s = map ascii_lower t)"

definition is_space :: "char \<Rightarrow> bool" where
  "is_space c = ((of_char c :: nat) = 32 \<or> (9 \<le> (of_char c :: nat) \<and> (of_char c :: nat) \<le> 13))"

definition is_digit :: "char \<Rightarrow> bool" where
  "is_digit c = (48 \<le> (of_char c :: nat) \<and> (of_char c :: nat) \<le> 57)"

definition digits_value :: "string \<Rightarrow> nat" where
  "digits_value ds = foldl (\<lambda>n c. 10 * n + (of_char c - 48)) 0 ds"

text \<open>\<^verbatim>\<open>g_ascii_strtoull\<close> in base ten: leading white space, a sign, digits; too large a number gives the largest one.\<close>

definition g_ascii_strtoull :: "string \<Rightarrow> u64" where
  "g_ascii_strtoull s =
     (let s = dropWhile is_space s;
          neg = (take 1 s = ''-'');
          s = (if take 1 s = ''-'' \<or> take 1 s = ''+'' then drop 1 s else s);
          v = digits_value (takeWhile is_digit s)
      in if v \<ge> 2 ^ 64 then - 1 else if neg then - of_nat v else of_nat v)"

text \<open>The conversion \<^verbatim>\<open>%d\<close> of \<^verbatim>\<open>printf\<close> for a 32-bit integer.\<close>

definition print_int :: "u32 \<Rightarrow> string" where
  "print_int w = (if sint w < 0 then ''-'' @ dec_digits (nat (- sint w)) else dec_digits (nat (sint w)))"

section \<open>Generating a description\<close>

definition cand_type_to_sdp :: "NiceCandidateType \<Rightarrow> string" where
  "cand_type_to_sdp type =
     (case type of
        NICE_CANDIDATE_TYPE_SERVER_REFLEXIVE \<Rightarrow> ''srflx''
      | NICE_CANDIDATE_TYPE_PEER_REFLEXIVE \<Rightarrow> ''prflx''
      | NICE_CANDIDATE_TYPE_RELAYED \<Rightarrow> ''relay''
      | NICE_CANDIDATE_TYPE_HOST \<Rightarrow> ''host'')"

definition transport_to_sdp :: "NiceCandidateTransport \<Rightarrow> string" where
  "transport_to_sdp type = (if type = NICE_CANDIDATE_TRANSPORT_UDP then ''UDP'' else ''TCP'')"

definition transport_to_sdp_tcptype :: "NiceCandidateTransport \<Rightarrow> string" where
  "transport_to_sdp_tcptype type =
     (case type of
        NICE_CANDIDATE_TRANSPORT_UDP \<Rightarrow> ''''
      | NICE_CANDIDATE_TRANSPORT_TCP_ACTIVE \<Rightarrow> ''active''
      | NICE_CANDIDATE_TRANSPORT_TCP_PASSIVE \<Rightarrow> ''passive''
      | NICE_CANDIDATE_TRANSPORT_TCP_SO \<Rightarrow> ''so'')"

abbreviation (input) NICE_CANDIDATE_MAX_FOUNDATION :: nat where "NICE_CANDIDATE_MAX_FOUNDATION \<equiv> 33"

definition sdp_port :: "NiceAddress \<Rightarrow> string" where
  "sdp_port a = (let port = (ucast (nice_address_get_port a) :: u16) in print_int (if port = 0 then 9 else ucast port))"

text \<open>An address without a family leaves the text of the address uninitialised.\<close>

definition generate_candidate_sdp :: "(NiceAddress \<Rightarrow> string) \<Rightarrow> NiceCandidate \<Rightarrow> string option" where
  "generate_candidate_sdp inet_ntop c = do {
     c_assert (nice_address_is_valid (c_addr c));
     Some (''a=candidate:'' @ take NICE_CANDIDATE_MAX_FOUNDATION (c_foundation c)
       @ '' '' @ print_int (of_nat (c_component_id c))
       @ '' '' @ transport_to_sdp (c_transport c)
       @ '' '' @ print_int (c_priority c)
       @ '' '' @ nice_address_to_string inet_ntop (c_addr c) ''''
       @ '' '' @ sdp_port (c_addr c)
       @ '' typ '' @ cand_type_to_sdp (c_type c)
       @ (if nice_address_is_valid (c_base_addr c) \<and> \<not> nice_address_equal (c_addr c) (c_base_addr c)
          then '' raddr '' @ nice_address_to_string inet_ntop (c_base_addr c) '''' @ '' rport '' @ sdp_port (c_base_addr c)
          else [])
       @ (if c_transport c \<noteq> NICE_CANDIDATE_TRANSPORT_UDP
          then '' tcptype '' @ transport_to_sdp_tcptype (c_transport c) else []))
   }"

text \<open>The default candidate of a component: for the first component the IPv4 candidate with the lowest priority,
  for the others the one with the foundation of that candidate.\<close>

fun lowest_candidate :: "NiceAgent \<Rightarrow> nat option \<Rightarrow> nat list \<Rightarrow> nat option" where
  "lowest_candidate s d [] = d"
| "lowest_candidate s d (n # ns) =
     lowest_candidate s
       (if (ag_force_relay s \<and> c_type (ag_candidate s n) \<noteq> NICE_CANDIDATE_TYPE_RELAYED)
           \<or> nice_address_ip_version (c_addr (ag_candidate s n)) \<noteq> 4 then d
        else case d of
               None \<Rightarrow> Some n
             | Some m \<Rightarrow> if c_priority (ag_candidate s n) < c_priority (ag_candidate s m) then Some n else d) ns"

definition get_default_local_candidate_locked :: "NiceAgent \<Rightarrow> nat \<Rightarrow> nat \<Rightarrow> nat option" where
  "get_default_local_candidate_locked s st c =
     (let lowest = (\<lambda>c. lowest_candidate s None (cm_local_candidates (ag_component s c))) in
      if cm_id (ag_component s c) = 1 then lowest c
      else case agent_find_component s (st_id (ag_stream s st)) 1 of
             None \<Rightarrow> None
           | Some (_, rtp) \<Rightarrow>
               (case lowest rtp of
                  None \<Rightarrow> None
                | Some d \<Rightarrow>
                    find (\<lambda>n. \<not> (ag_force_relay s \<and> c_type (ag_candidate s n) \<noteq> NICE_CANDIDATE_TYPE_RELAYED)
                            \<and> nice_address_ip_version (c_addr (ag_candidate s n)) = 4
                            \<and> c_foundation (ag_candidate s n) = c_foundation (ag_candidate s d))
                      (cm_local_candidates (ag_component s c))))"

text \<open>The address of the last component with the given id that has a default candidate; 0.0.0.0 without one.\<close>

definition default_address :: "NiceAgent \<Rightarrow> nat \<Rightarrow> nat \<Rightarrow> NiceAddress" where
  "default_address s st i =
     foldl (\<lambda>a c. if cm_id (ag_component s c) \<noteq> i then a
                  else case get_default_local_candidate_locked s st c of
                         None \<Rightarrow> a | Some n \<Rightarrow> c_addr (ag_candidate s n))
       (nice_address_set_ipv4 (nice_address_init NA_UNSPEC) 0) (st_components (ag_stream s st))"

fun candidate_lines :: "(NiceAddress \<Rightarrow> string) \<Rightarrow> NiceAgent \<Rightarrow> nat list \<Rightarrow> string option" where
  "candidate_lines inet_ntop s [] = Some []"
| "candidate_lines inet_ntop s (n # ns) =
     (if ag_force_relay s \<and> c_type (ag_candidate s n) \<noteq> NICE_CANDIDATE_TYPE_RELAYED then candidate_lines inet_ntop s ns
      else do {
        l \<leftarrow> generate_candidate_sdp inet_ntop (ag_candidate s n);
        ls \<leftarrow> candidate_lines inet_ntop s ns;
        Some (l @ ''\<newline>'' @ ls)
      })"

definition generate_stream_sdp :: "(NiceAddress \<Rightarrow> string) \<Rightarrow> NiceAgent \<Rightarrow> nat \<Rightarrow> bool \<Rightarrow> string option" where
  "generate_stream_sdp inet_ntop s st include_non_ice = do {
     let x = ag_stream s st;
     let rtp = default_address s st 1;
     let rtcp = default_address s st 2;
     ls \<leftarrow> candidate_lines inet_ntop s (concat (map (\<lambda>c. cm_local_candidates (ag_component s c)) (st_components x)));
     Some ((if include_non_ice then
              ''m='' @ (case st_name x of None \<Rightarrow> ''-'' | Some n \<Rightarrow> n) @ '' '' @ print_int (nice_address_get_port rtp)
              @ '' ICE/SDP\<newline>'' @ ''c=IN IP4 '' @ nice_address_to_string inet_ntop rtp '''' @ ''\<newline>''
              @ (if nice_address_get_port rtcp \<noteq> 0 then ''a=rtcp:'' @ print_int (nice_address_get_port rtcp) @ ''\<newline>'' else [])
            else [])
       @ ''a=ice-ufrag:'' @ st_local_ufrag x @ ''\<newline>''
       @ ''a=ice-pwd:'' @ st_local_password x @ ''\<newline>'' @ ls)
   }"

fun streams_sdp :: "(NiceAddress \<Rightarrow> string) \<Rightarrow> NiceAgent \<Rightarrow> nat list \<Rightarrow> string option" where
  "streams_sdp inet_ntop s [] = Some []"
| "streams_sdp inet_ntop s (st # sts) = do {
     a \<leftarrow> generate_stream_sdp inet_ntop s st True;
     b \<leftarrow> streams_sdp inet_ntop s sts;
     Some (a @ b)
   }"

definition nice_agent_generate_local_sdp :: "(NiceAddress \<Rightarrow> string) \<Rightarrow> NiceAgent \<Rightarrow> string option" where
  "nice_agent_generate_local_sdp inet_ntop s = streams_sdp inet_ntop s (ag_streams s)"

text \<open>The inner option is the null pointer.\<close>

definition nice_agent_generate_local_stream_sdp ::
  "(NiceAddress \<Rightarrow> string) \<Rightarrow> NiceAgent \<Rightarrow> nat \<Rightarrow> bool \<Rightarrow> string option option" where
  "nice_agent_generate_local_stream_sdp inet_ntop s stream_id include_non_ice =
     (if stream_id < 1 then Some None
      else case agent_find_stream s stream_id of
             None \<Rightarrow> Some None
           | Some st \<Rightarrow> map_option Some (generate_stream_sdp inet_ntop s st include_non_ice))"

definition nice_agent_generate_local_candidate_sdp :: "(NiceAddress \<Rightarrow> string) \<Rightarrow> NiceCandidate \<Rightarrow> string option" where
  "nice_agent_generate_local_candidate_sdp inet_ntop candidate = generate_candidate_sdp inet_ntop candidate"

section \<open>Parsing a description\<close>

record sdp_fields =
  sf_type :: "string option"
  sf_raddr :: "string option"
  sf_rport :: u16
  sf_tcptype :: "string option"

text \<open>The tokens from the seventh on are pairs of a name and a value; \<open>None\<close> when a value is missing.\<close>

fun sdp_attributes :: "string list \<Rightarrow> sdp_fields \<Rightarrow> sdp_fields option" where
  "sdp_attributes [] f = Some f"
| "sdp_attributes [t] f = None"
| "sdp_attributes (t # v # rest) f =
     sdp_attributes rest
       (if t = ''typ'' then f\<lparr>sf_type := Some v\<rparr>
        else if t = ''raddr'' then f\<lparr>sf_raddr := Some v\<rparr>
        else if t = ''rport'' then f\<lparr>sf_rport := ucast (g_ascii_strtoull v)\<rparr>
        else if t = ''tcptype'' then f\<lparr>sf_tcptype := Some v\<rparr>
        else f)"

definition parse_cand_type :: "string \<Rightarrow> NiceCandidateType option" where
  "parse_cand_type t =
     map_of [(''host'', NICE_CANDIDATE_TYPE_HOST), (''srflx'', NICE_CANDIDATE_TYPE_SERVER_REFLEXIVE),
             (''prflx'', NICE_CANDIDATE_TYPE_PEER_REFLEXIVE), (''relay'', NICE_CANDIDATE_TYPE_RELAYED)] t"

definition parse_transport :: "string \<Rightarrow> string option \<Rightarrow> NiceCandidateTransport option" where
  "parse_transport transport tcptype =
     (if ascii_equal_nocase (Some transport) ''UDP'' then Some NICE_CANDIDATE_TRANSPORT_UDP
      else if ascii_equal_nocase (Some transport) ''TCP-SO'' then Some NICE_CANDIDATE_TRANSPORT_TCP_SO
      else if ascii_equal_nocase (Some transport) ''TCP-ACT'' then Some NICE_CANDIDATE_TRANSPORT_TCP_ACTIVE
      else if ascii_equal_nocase (Some transport) ''TCP-PASS'' then Some NICE_CANDIDATE_TRANSPORT_TCP_PASSIVE
      else if ascii_equal_nocase (Some transport) ''TCP'' then
        (if ascii_equal_nocase tcptype ''so'' then Some NICE_CANDIDATE_TRANSPORT_TCP_SO
         else if ascii_equal_nocase tcptype ''active'' then Some NICE_CANDIDATE_TRANSPORT_TCP_ACTIVE
         else if ascii_equal_nocase tcptype ''passive'' then Some NICE_CANDIDATE_TRANSPORT_TCP_PASSIVE
         else None)
      else None)"

definition parse_address :: "(string \<Rightarrow> NiceAddress option) \<Rightarrow> string \<Rightarrow> u16 \<Rightarrow> NiceAddress option" where
  "parse_address getaddrinfo addr port =
     (let (ok, a) = nice_address_set_from_string getaddrinfo NA_UNSPEC addr
      in if ok then Some (nice_address_set_port a (ucast port)) else None)"

text \<open>The result \<open>None\<close> is the null pointer. With fewer than six tokens no type has been read.\<close>

definition nice_agent_parse_remote_candidate_sdp ::
  "(string \<Rightarrow> NiceAddress option) \<Rightarrow> nat \<Rightarrow> string \<Rightarrow> NiceCandidate option" where
  "nice_agent_parse_remote_candidate_sdp getaddrinfo stream_id sdp =
     (if stream_id < 1 \<or> \<not> g_str_has_prefix sdp ''a=candidate:'' then None
      else case g_strsplit (drop 12 sdp) (CHR '' '') of
        foundation # component_id # transport # priority # addr # port # rest \<Rightarrow> do {
          f \<leftarrow> sdp_attributes rest \<lparr>sf_type = None, sf_raddr = None, sf_rport = 0, sf_tcptype = None\<rparr>;
          type \<leftarrow> sf_type f;
          ntype \<leftarrow> parse_cand_type type;
          ctransport \<leftarrow> parse_transport transport (sf_tcptype f);
          a \<leftarrow> parse_address getaddrinfo addr (ucast (g_ascii_strtoull port));
          base \<leftarrow> (case sf_raddr f of
                    Some raddr \<Rightarrow> if sf_rport f \<noteq> 0 then parse_address getaddrinfo raddr (sf_rport f) else Some NA_UNSPEC
                  | None \<Rightarrow> Some NA_UNSPEC);
          Some ((nice_candidate_new ntype)
            \<lparr>c_component_id := unat (ucast (g_ascii_strtoull component_id) :: u32), c_stream_id := stream_id,
             c_transport := ctransport, c_foundation := g_strlcpy foundation NICE_CANDIDATE_MAX_FOUNDATION,
             c_priority := ucast (g_ascii_strtoull priority), c_addr := a, c_base_addr := base\<rparr>)
        }
      | _ \<Rightarrow> None)"

text \<open>The lines of a description of one stream: the candidates, newest first, the user name and the password.\<close>

fun parse_stream_lines ::
  "(string \<Rightarrow> NiceAddress option) \<Rightarrow> nat \<Rightarrow> string list \<Rightarrow> NiceCandidate list \<Rightarrow> string option \<Rightarrow> string option
   \<Rightarrow> NiceCandidate list \<times> string option \<times> string option" where
  "parse_stream_lines getaddrinfo stream_id [] cs ufrag pwd = (cs, ufrag, pwd)"
| "parse_stream_lines getaddrinfo stream_id (l # ls) cs ufrag pwd =
     (if g_str_has_prefix l ''a=ice-ufrag:'' then parse_stream_lines getaddrinfo stream_id ls cs (Some (drop 12 l)) pwd
      else if g_str_has_prefix l ''a=ice-pwd:'' then parse_stream_lines getaddrinfo stream_id ls cs ufrag (Some (drop 10 l))
      else if g_str_has_prefix l ''a=candidate:'' then
        (case nice_agent_parse_remote_candidate_sdp getaddrinfo stream_id l of
           None \<Rightarrow> ([], ufrag, pwd)
         | Some c \<Rightarrow> parse_stream_lines getaddrinfo stream_id ls (c # cs) ufrag pwd)
      else parse_stream_lines getaddrinfo stream_id ls cs ufrag pwd)"

definition nice_agent_parse_remote_stream_sdp ::
  "(string \<Rightarrow> NiceAddress option) \<Rightarrow> NiceAgent \<Rightarrow> nat \<Rightarrow> string \<Rightarrow> NiceCandidate list \<times> string option \<times> string option" where
  "nice_agent_parse_remote_stream_sdp getaddrinfo s stream_id sdp =
     (if stream_id < 1 then ([], None, None)
      else case agent_find_stream s stream_id of
             None \<Rightarrow> ([], None, None)
           | Some st \<Rightarrow> parse_stream_lines getaddrinfo (st_id (ag_stream s st)) (g_strsplit sdp (CHR ''\<newline>'')) [] None None)"

section \<open>Remote candidates and credentials\<close>

definition nice_component_find_remote_candidate :: "NiceAgent \<Rightarrow> nat \<Rightarrow> NiceAddress \<Rightarrow> NiceCandidateTransport \<Rightarrow> nat option" where
  "nice_component_find_remote_candidate s c addr transport =
     find (\<lambda>n. nice_address_equal (c_addr (ag_candidate s n)) addr \<and> c_transport (ag_candidate s n) = transport)
       (cm_remote_candidates (ag_component s c))"

definition upd_candidate :: "nat \<Rightarrow> (NiceCandidate \<Rightarrow> NiceCandidate) \<Rightarrow> NiceAgent \<Rightarrow> NiceAgent" where
  "upd_candidate n f s = s\<lparr>ag_candidate := (ag_candidate s)(n := f (ag_candidate s n))\<rparr>"

text \<open>A known candidate takes over the new attributes; one that was learnt from a check gets its real type first.\<close>

definition update_remote_candidate :: "NiceCandidate \<Rightarrow> NiceCandidate \<Rightarrow> NiceCandidate" where
  "update_remote_candidate d x =
     x\<lparr>c_base_addr := c_base_addr d, c_priority := c_priority d,
       c_foundation := g_strlcpy (c_foundation d) NICE_CANDIDATE_MAX_FOUNDATION,
       c_username := (case c_username d of None \<Rightarrow> c_username x | Some u \<Rightarrow> Some u),
       c_password := (case c_password d of None \<Rightarrow> c_password x | Some p \<Rightarrow> Some p)\<rparr>"

definition retype_remote_candidate :: "NiceCandidate \<Rightarrow> NiceCandidate \<Rightarrow> NiceCandidate" where
  "retype_remote_candidate d x =
     (if c_type x = NICE_CANDIDATE_TYPE_PEER_REFLEXIVE \<and> c_priority x = c_priority d then x\<lparr>c_type := c_type d\<rparr> else x)"

text \<open>\<open>d\<close> is the candidate that the caller describes.\<close>

definition pair_remote_candidate :: "cc_env \<Rightarrow> nat \<Rightarrow> nat \<Rightarrow> nat \<Rightarrow> NiceAgent \<Rightarrow> (bool \<times> NiceAgent) option" where
  "pair_remote_candidate env stream_id c n s = do {
     (_, s) \<leftarrow> conn_check_add_for_candidate env stream_id c n s;
     Some (True, s)
   }"

definition new_remote_candidate ::
  "cc_env \<Rightarrow> nat \<Rightarrow> nat \<Rightarrow> nat \<Rightarrow> NiceCandidate \<Rightarrow> NiceAgent \<Rightarrow> (bool \<times> NiceAgent) option" where
  "new_remote_candidate env stream_id component_id c d s =
     (if c_type d = NICE_CANDIDATE_TYPE_PEER_REFLEXIVE then Some (False, s)
      else let (n, s) = store_candidate ((nice_candidate_new (c_type d))
                  \<lparr>c_stream_id := stream_id, c_component_id := component_id, c_addr := c_addr d,
                   c_base_addr := c_base_addr d, c_transport := c_transport d, c_priority := c_priority d,
                   c_username := c_username d, c_password := c_password d,
                   c_foundation := g_strlcpy (c_foundation d) NICE_CANDIDATE_MAX_FOUNDATION\<rparr>) s;
               s = upd_component c (\<lambda>x. x\<lparr>cm_remote_candidates := cm_remote_candidates x @ [n]\<rparr>) s;
               s = (if rfc5245_or_oc2007r2 s \<and> ag_nomination_mode s = NICE_NOMINATION_MODE_AGGRESSIVE
                       \<and> c_transport d \<noteq> NICE_CANDIDATE_TRANSPORT_UDP
                    then s\<lparr>ag_nomination_mode := NICE_NOMINATION_MODE_REGULAR\<rparr> else s)
           in pair_remote_candidate env stream_id c n s)"

definition priv_add_remote_candidate ::
  "cc_env \<Rightarrow> nat \<Rightarrow> nat \<Rightarrow> NiceCandidate \<Rightarrow> NiceAgent \<Rightarrow> (bool \<times> NiceAgent) option" where
  "priv_add_remote_candidate env stream_id component_id d s =
     (if c_transport d = NICE_CANDIDATE_TRANSPORT_UDP \<and> \<not> ag_use_ice_udp s then Some (False, s)
      else if c_transport d \<noteq> NICE_CANDIDATE_TRANSPORT_UDP \<and> \<not> ag_use_ice_tcp s then Some (False, s)
      else case agent_find_component s stream_id component_id of
        None \<Rightarrow> Some (False, s)
      | Some (st, c) \<Rightarrow>
          (case nice_component_find_remote_candidate s c (c_addr d) (c_transport d) of
             None \<Rightarrow> new_remote_candidate env stream_id component_id c d s
           | Some n \<Rightarrow>
               let s = upd_candidate n (retype_remote_candidate d) s
               in if c_type (ag_candidate s n) = c_type d
                  then let s = upd_candidate n (update_remote_candidate d) s in pair_remote_candidate env stream_id c n s
                  else new_remote_candidate env stream_id component_id c d s))"

fun add_remote_candidates ::
  "cc_env \<Rightarrow> nat \<Rightarrow> nat \<Rightarrow> NiceCandidate list \<Rightarrow> nat \<Rightarrow> NiceAgent \<Rightarrow> (nat \<times> NiceAgent) option" where
  "add_remote_candidates env stream_id component_id [] added s = Some (added, s)"
| "add_remote_candidates env stream_id component_id (d # ds) added s =
     (if \<not> nice_address_is_valid (c_addr d) then add_remote_candidates env stream_id component_id ds added s
      else do {
        (res, s) \<leftarrow> priv_add_remote_candidate env stream_id component_id d s;
        add_remote_candidates env stream_id component_id ds (if res then Suc added else added) s
      })"

definition set_remote_candidates_locked ::
  "cc_env \<Rightarrow> nat \<Rightarrow> nat \<Rightarrow> NiceCandidate list \<Rightarrow> NiceAgent \<Rightarrow> (nat \<times> NiceAgent) option" where
  "set_remote_candidates_locked env st c candidates s = do {
     (added, s) \<leftarrow> add_remote_candidates env (st_id (ag_stream s st)) (cm_id (ag_component s c)) candidates 0 s;
     Some (added, if added > 0 then conn_check_schedule_next s else s)
   }"

definition nice_agent_set_remote_candidates ::
  "cc_env \<Rightarrow> nat \<Rightarrow> nat \<Rightarrow> NiceCandidate list \<Rightarrow> NiceAgent \<Rightarrow> (int \<times> NiceAgent) option" where
  "nice_agent_set_remote_candidates env stream_id component_id candidates s =
     (if stream_id < 1 \<or> component_id < 1 then Some (0, s)
      else case agent_find_component s stream_id component_id of
             None \<Rightarrow> Some (- 1, s)
           | Some (st, c) \<Rightarrow> do {
               (added, s) \<leftarrow> set_remote_candidates_locked env st c candidates s;
               Some (int added, s)
             })"

text \<open>A whole description: a line for a medium goes on to the next stream. \<open>rest\<close> is the streams that follow
  the current one.\<close>

fun parse_sdp_lines ::
  "cc_env \<Rightarrow> (string \<Rightarrow> NiceAddress option) \<Rightarrow> string list \<Rightarrow> nat option \<Rightarrow> nat list \<Rightarrow> int \<Rightarrow> NiceAgent
   \<Rightarrow> (int \<times> NiceAgent) option" where
  "parse_sdp_lines env getaddrinfo [] current rest ret s = Some (ret, s)"
| "parse_sdp_lines env getaddrinfo (l # ls) current rest ret s =
     (if g_str_has_prefix l ''m='' then
        (case rest of
           [] \<Rightarrow> Some (- 1, s)
         | st # rest \<Rightarrow> parse_sdp_lines env getaddrinfo ls (Some st) rest ret s)
      else if g_str_has_prefix l ''a=ice-ufrag:'' then
        (case current of
           None \<Rightarrow> Some (- 1, s)
         | Some st \<Rightarrow> parse_sdp_lines env getaddrinfo ls current rest ret
                       (upd_stream st (\<lambda>x. x\<lparr>st_remote_ufrag := g_strlcpy (drop 12 l) 257\<rparr>) s))
      else if g_str_has_prefix l ''a=ice-pwd:'' then
        (case current of
           None \<Rightarrow> Some (- 1, s)
         | Some st \<Rightarrow> parse_sdp_lines env getaddrinfo ls current rest ret
                       (upd_stream st (\<lambda>x. x\<lparr>st_remote_password := g_strlcpy (drop 10 l) 257\<rparr>) s))
      else if g_str_has_prefix l ''a=candidate:'' then
        (case current of
           None \<Rightarrow> Some (- 1, s)
         | Some st \<Rightarrow>
             (case nice_agent_parse_remote_candidate_sdp getaddrinfo (st_id (ag_stream s st)) l of
                None \<Rightarrow> Some (- 1, s)
              | Some d \<Rightarrow>
                  (case agent_find_component s (c_stream_id d) (c_component_id d) of
                     None \<Rightarrow> Some (- 1, s)
                   | Some (_, c) \<Rightarrow> do {
                       (added, s) \<leftarrow> set_remote_candidates_locked env st c [d] s;
                       parse_sdp_lines env getaddrinfo ls current rest (if added > 0 then ret + 1 else ret) s
                     })))
      else parse_sdp_lines env getaddrinfo ls current rest ret s)"

definition nice_agent_parse_remote_sdp ::
  "cc_env \<Rightarrow> (string \<Rightarrow> NiceAddress option) \<Rightarrow> string \<Rightarrow> NiceAgent \<Rightarrow> (int \<times> NiceAgent) option" where
  "nice_agent_parse_remote_sdp env getaddrinfo sdp s =
     (if \<exists>st \<in> set (ag_streams s). st_name (ag_stream s st) = None then Some (- 1, s)
      else parse_sdp_lines env getaddrinfo (g_strsplit sdp (CHR ''\<newline>'')) None (ag_streams s) 0 s)"

definition nice_agent_set_local_credentials :: "nat \<Rightarrow> string \<Rightarrow> string \<Rightarrow> NiceAgent \<Rightarrow> bool \<times> NiceAgent" where
  "nice_agent_set_local_credentials stream_id ufrag pwd s =
     (case (if stream_id < 1 then None else agent_find_stream s stream_id) of
        None \<Rightarrow> (False, s)
      | Some st \<Rightarrow> (True, upd_stream st (\<lambda>x. x\<lparr>st_local_ufrag := g_strlcpy ufrag 257, st_local_password := g_strlcpy pwd 257\<rparr>) s))"

section \<open>Reading back what was written\<close>

lemma split_on_token:
  "c \<notin> set t \<Longrightarrow> split_on c (t @ c # rest) = t # split_on c rest"
  "c \<notin> set t \<Longrightarrow> split_on c t = [t]"
  by (induction t) auto

lemma split_on_lines:
  "\<forall>l \<in> set ls. c \<notin> set l \<Longrightarrow> split_on c (concat (map (\<lambda>l. l @ [c]) ls)) = ls @ [[]]"
  by (induction ls) (simp_all add: split_on_token)

lemma of_char_digit: "n < 10 \<Longrightarrow> (of_char (char_of (48 + n) :: char) :: nat) = 48 + n"
  by simp

lemma dec_digits_props:
  "(\<forall>c \<in> set (dec_digits n). is_digit c) \<and> dec_digits n \<noteq> [] \<and> digits_value (dec_digits n) = n"
proof (induction n rule: dec_digits.induct)
  case (1 n)
  show ?case
  proof (cases "n < 10")
    case True
    then show ?thesis by (simp add: dec_digits.simps [of n] is_digit_def digits_value_def del: of_char_of)
        (simp add: of_char_digit)
  next
    case False
    have d: "(of_char (char_of (48 + n mod 10) :: char) :: nat) = 48 + n mod 10" by (rule of_char_digit) simp
    have IH: "(\<forall>c \<in> set (dec_digits (n div 10)). is_digit c)" "digits_value (dec_digits (n div 10)) = n div 10"
      using 1 False by blast+
    have eq: "dec_digits n = dec_digits (n div 10) @ [char_of (48 + n mod 10)]" using False by (simp add: dec_digits.simps [of n])
    have "digits_value (dec_digits n) = 10 * (n div 10) + n mod 10" using IH(2) d unfolding eq digits_value_def by simp
    moreover have "is_digit (char_of (48 + n mod 10))" unfolding is_digit_def d by simp
    ultimately show ?thesis using IH(1) unfolding eq by auto
  qed
qed

lemma is_digit_chars: "is_digit c \<Longrightarrow> c \<noteq> CHR '' '' \<and> c \<noteq> CHR ''\<newline>'' \<and> c \<noteq> CHR ''-'' \<and> c \<noteq> CHR ''+''
  \<and> \<not> is_space c"
  by (auto simp: is_digit_def is_space_def)

lemma strtoull_digits:
  assumes "n < 2 ^ 64"
  shows "g_ascii_strtoull (dec_digits n) = of_nat n" "g_ascii_strtoull (''-'' @ dec_digits n) = - of_nat n"
proof -
  obtain d ds where D: "dec_digits n = d # ds" "\<forall>c \<in> set (d # ds). is_digit c" "digits_value (d # ds) = n"
    using dec_digits_props [of n] by (cases "dec_digits n") auto
  have tw: "takeWhile is_digit (d # ds) = d # ds" using D(2) by (simp add: takeWhile_eq_all_conv)
  have c: "d \<noteq> CHR ''-''" "d \<noteq> CHR ''+''" "\<not> is_space d" "\<not> is_space (CHR ''-'')"
    using is_digit_chars [of d] D(2) by (auto simp: is_space_def)
  have dw: "dropWhile is_space (d # ds) = d # ds" "dropWhile is_space (CHR ''-'' # d # ds) = CHR ''-'' # d # ds"
    using c(3,4) by simp_all
  have sgn: "take 1 (d # ds) = ''-'' \<longleftrightarrow> False" "take 1 (d # ds) = ''+'' \<longleftrightarrow> False" "take 1 (CHR ''-'' # d # ds) = ''-'' \<longleftrightarrow> True"
    "drop 1 (CHR ''-'' # d # ds) = d # ds" "n \<ge> 2 ^ 64 \<longleftrightarrow> False"
    using c(1,2) assms by simp_all
  show "g_ascii_strtoull (dec_digits n) = of_nat n"
    unfolding D(1) g_ascii_strtoull_def dw Let_def by (simp only: sgn tw D(3) simp_thms if_False)
  show "g_ascii_strtoull (''-'' @ dec_digits n) = - of_nat n"
    unfolding D(1) g_ascii_strtoull_def append.simps dw Let_def by (simp only: sgn tw D(3) simp_thms if_False if_True)
qed

lemma strtoull_print_int: "g_ascii_strtoull (print_int w) = word_of_int (sint w)"
proof -
  have b: "- (2 ^ 31) \<le> sint w" "sint w < 2 ^ 31" using sint_ge [of w] sint_lt [of w] by simp_all
  have n: "nat (- sint w) < 2 ^ 64" "nat (sint w) < 2 ^ 64" using b by auto
  show ?thesis
  proof (cases "sint w < 0")
    case True
    then have "(- of_nat (nat (- sint w)) :: u64) = word_of_int (sint w)" by (simp add: of_nat_nat)
    then show ?thesis using strtoull_digits(2) [OF n(1)] True by (simp add: print_int_def)
  next
    case False
    then show ?thesis using strtoull_digits(1) [OF n(2)] by (simp add: print_int_def of_nat_nat)
  qed
qed

lemma print_int_read: "(ucast (g_ascii_strtoull (print_int w)) :: u32) = w"
  unfolding strtoull_print_int by (rule bit_word_eqI) (simp add: bit_simps)

lemma dec_digits_chars: "CHR '' '' \<notin> set (dec_digits n)" "CHR ''\<newline>'' \<notin> set (dec_digits n)"
  using dec_digits_props [of n] is_digit_chars by blast+

lemma print_int_chars: "CHR '' '' \<notin> set (print_int w)" "CHR ''\<newline>'' \<notin> set (print_int w)"
  by (simp_all add: print_int_def dec_digits_chars)

lemma print_port_read: "(ucast (g_ascii_strtoull (print_int (ucast (p :: u16)))) :: u16) = p"
  unfolding strtoull_print_int by (rule bit_word_eqI) (simp add: bit_simps)

text \<open>What the peer makes of an address and of a candidate.\<close>

definition sdp_address :: "NiceAddress \<Rightarrow> NiceAddress" where
  "sdp_address a = (if nice_address_get_port a = 0 then nice_address_set_port a 9 else a)"

definition sdp_received :: "nat \<Rightarrow> NiceCandidate \<Rightarrow> NiceCandidate" where
  "sdp_received stream_id c = (nice_candidate_new (c_type c))
     \<lparr>c_component_id := c_component_id c, c_stream_id := stream_id, c_transport := c_transport c,
      c_foundation := c_foundation c, c_priority := c_priority c, c_addr := sdp_address (c_addr c),
      c_base_addr := (if nice_address_is_valid (c_base_addr c) \<and> \<not> nice_address_equal (c_addr c) (c_base_addr c)
                      then sdp_address (c_base_addr c) else NA_UNSPEC)\<rparr>"

definition sdp_token :: "string \<Rightarrow> bool" where
  "sdp_token t \<longleftrightarrow> CHR '' '' \<notin> set t \<and> CHR ''\<newline>'' \<notin> set t"

definition address_text_ok :: "(NiceAddress \<Rightarrow> string) \<Rightarrow> (string \<Rightarrow> NiceAddress option) \<Rightarrow> NiceAddress \<Rightarrow> bool" where
  "address_text_ok inet_ntop getaddrinfo a \<longleftrightarrow> getaddrinfo (inet_ntop a) = Some (nice_address_set_port a 0)"

definition sdp_candidate_ok :: "(NiceAddress \<Rightarrow> string) \<Rightarrow> (string \<Rightarrow> NiceAddress option) \<Rightarrow> NiceCandidate \<Rightarrow> bool" where
  "sdp_candidate_ok inet_ntop getaddrinfo c \<longleftrightarrow>
     sdp_token (c_foundation c) \<and> length (c_foundation c) \<le> 32 \<and> c_component_id c < 2 ^ 32
     \<and> nice_address_is_valid (c_addr c) \<and> address_text_ok inet_ntop getaddrinfo (c_addr c)
     \<and> (nice_address_is_valid (c_base_addr c) \<longrightarrow> address_text_ok inet_ntop getaddrinfo (c_base_addr c))"

lemma sdp_port_token: "sdp_token (sdp_port a)"
  by (simp add: sdp_token_def sdp_port_def Let_def print_int_chars)

lemma sdp_names_token: "sdp_token (cand_type_to_sdp t)" "sdp_token (transport_to_sdp_tcptype x)" "sdp_token (transport_to_sdp x)"
  by (auto simp: sdp_token_def cand_type_to_sdp_def transport_to_sdp_tcptype_def transport_to_sdp_def
      split: NiceCandidateType.split NiceCandidateTransport.split)

lemma parse_cand_type_to_sdp: "parse_cand_type (cand_type_to_sdp t) = Some t"
  by (cases t) (simp_all add: parse_cand_type_def cand_type_to_sdp_def)

lemma parse_transport_to_sdp:
  "parse_transport (transport_to_sdp x) (if x = NICE_CANDIDATE_TRANSPORT_UDP then None else Some (transport_to_sdp_tcptype x)) = Some x"
proof -
  have "list_all (\<lambda>x. parse_transport (transport_to_sdp x)
      (if x = NICE_CANDIDATE_TRANSPORT_UDP then None else Some (transport_to_sdp_tcptype x)) = Some x)
    [NICE_CANDIDATE_TRANSPORT_UDP, NICE_CANDIDATE_TRANSPORT_TCP_ACTIVE, NICE_CANDIDATE_TRANSPORT_TCP_PASSIVE,
     NICE_CANDIDATE_TRANSPORT_TCP_SO]" by code_simp
  then show ?thesis by (cases x) simp_all
qed

definition sdp_portnum :: "NiceAddress \<Rightarrow> u16" where
  "sdp_portnum a = (let port = (ucast (nice_address_get_port a) :: u16) in if port = 0 then 9 else port)"

lemma sdp_port_read: "(ucast (g_ascii_strtoull (sdp_port a)) :: u16) = sdp_portnum a"
proof -
  have "sdp_port a = print_int (ucast (sdp_portnum a))" by (simp add: sdp_port_def sdp_portnum_def Let_def)
  then show ?thesis by (simp only: print_port_read)
qed

lemma sdp_portnum_nonzero: "sdp_portnum a \<noteq> 0"
  by (simp add: sdp_portnum_def Let_def)

lemma port_cast [simp]: "(ucast (ucast (x :: u16) :: u32) :: u16) = x" "(ucast x :: u32) = 0 \<longleftrightarrow> x = 0"
proof -
  show id: "(ucast (ucast x :: u32) :: u16) = x" by (rule bit_word_eqI) (simp add: bit_simps)
  show "(ucast x :: u32) = 0 \<longleftrightarrow> x = 0" using id by (metis unsigned_0)
qed

lemma set_get_port: "nice_address_set_port a (nice_address_get_port a) = a"
  by (cases a) (simp_all add: nice_address_set_port_def nice_address_get_port_def)

lemma parse_address_text:
  assumes "nice_address_is_valid a" "address_text_ok inet_ntop getaddrinfo a"
  shows "parse_address getaddrinfo (inet_ntop a) (sdp_portnum a) = Some (sdp_address a)"
proof -
  have v: "nice_address_set_from_sockaddr NA_UNSPEC (nice_address_set_port a 0) = nice_address_set_port a 0"
    using assms(1) by (cases a) (simp_all add: nice_address_set_from_sockaddr_def nice_address_set_port_def family_def)
  have z: "ucast (nice_address_get_port a :: u32) = (0 :: u16) \<longleftrightarrow> nice_address_get_port a = 0"
    by (cases a) (simp_all add: nice_address_get_port_def)
  have p: "nice_address_set_port (nice_address_set_port a 0) w = nice_address_set_port a w" for w
    by (cases a) (simp_all add: nice_address_set_port_def)
  have w: "nice_address_set_port a (ucast (ucast (nice_address_get_port a :: u32) :: u16)) = a"
    by (cases a) (simp_all add: nice_address_set_port_def nice_address_get_port_def)
  show ?thesis using assms(2)
    by (auto simp: parse_address_def nice_address_set_from_string_def address_text_ok_def v p sdp_address_def sdp_portnum_def z w Let_def)
qed

fun join_tokens :: "string list \<Rightarrow> string" where
  "join_tokens [] = []"
| "join_tokens [t] = t"
| "join_tokens (t # u # ts) = t @ '' '' @ join_tokens (u # ts)"

lemma split_join:
  "ts \<noteq> [] \<Longrightarrow> \<forall>t \<in> set ts. sdp_token t \<Longrightarrow> split_on (CHR '' '') (join_tokens ts) = ts"
  by (induction ts rule: join_tokens.induct) (simp_all add: split_on_token sdp_token_def)

lemma join_newline: "\<forall>t \<in> set ts. sdp_token t \<Longrightarrow> CHR ''\<newline>'' \<notin> set (join_tokens ts)"
  by (induction ts rule: join_tokens.induct) (simp_all add: sdp_token_def)

definition base_tokens :: "(NiceAddress \<Rightarrow> string) \<Rightarrow> NiceCandidate \<Rightarrow> string list" where
  "base_tokens inet_ntop c =
     (if nice_address_is_valid (c_base_addr c) \<and> \<not> nice_address_equal (c_addr c) (c_base_addr c)
      then [''raddr'', inet_ntop (c_base_addr c), ''rport'', sdp_port (c_base_addr c)] else [])"

definition tcp_tokens :: "NiceCandidate \<Rightarrow> string list" where
  "tcp_tokens c =
     (if c_transport c \<noteq> NICE_CANDIDATE_TRANSPORT_UDP then [''tcptype'', transport_to_sdp_tcptype (c_transport c)] else [])"

definition candidate_tokens :: "(NiceAddress \<Rightarrow> string) \<Rightarrow> NiceCandidate \<Rightarrow> string list" where
  "candidate_tokens inet_ntop c =
     [c_foundation c, print_int (of_nat (c_component_id c)), transport_to_sdp (c_transport c), print_int (c_priority c),
      inet_ntop (c_addr c), sdp_port (c_addr c), ''typ'', cand_type_to_sdp (c_type c)] @ base_tokens inet_ntop c @ tcp_tokens c"

lemma generate_tokens:
  assumes "sdp_candidate_ok inet_ntop getaddrinfo c"
  shows "generate_candidate_sdp inet_ntop c = Some (''a=candidate:'' @ join_tokens (candidate_tokens inet_ntop c))"
proof -
  have v: "nice_address_is_valid (c_addr c)" "take 33 (c_foundation c) = c_foundation c"
    using assms by (auto simp: sdp_candidate_ok_def)
  have t: "nice_address_to_string inet_ntop a '''' = inet_ntop a" if "nice_address_is_valid a" for a
    using that by (simp add: nice_address_to_string_def nice_address_is_valid_def)
  show ?thesis
    by (simp add: generate_candidate_sdp_def v t candidate_tokens_def base_tokens_def tcp_tokens_def)
qed

lemma candidate_tokens_ok:
  assumes "sdp_candidate_ok inet_ntop getaddrinfo c" "\<forall>a. sdp_token (inet_ntop a)"
  shows "\<forall>t \<in> set (candidate_tokens inet_ntop c). sdp_token t"
proof -
  have k: "sdp_token ''typ''" "sdp_token ''raddr''" "sdp_token ''rport''" "sdp_token ''tcptype''" by (simp_all add: sdp_token_def)
  have p: "sdp_token (print_int w)" for w by (simp add: sdp_token_def print_int_chars)
  have f: "sdp_token (c_foundation c)" using assms(1) by (simp add: sdp_candidate_ok_def)
  show ?thesis using assms(2) k p f sdp_port_token sdp_names_token
    by (auto simp: candidate_tokens_def base_tokens_def tcp_tokens_def split: if_splits)
qed

lemma candidate_attributes:
  "sdp_attributes (''typ'' # cand_type_to_sdp (c_type c) # base_tokens inet_ntop c @ tcp_tokens c)
     \<lparr>sf_type = None, sf_raddr = None, sf_rport = 0, sf_tcptype = None\<rparr>
   = Some \<lparr>sf_type = Some (cand_type_to_sdp (c_type c)),
       sf_raddr = (if base_tokens inet_ntop c = [] then None else Some (inet_ntop (c_base_addr c))),
       sf_rport = (if base_tokens inet_ntop c = [] then 0 else sdp_portnum (c_base_addr c)),
       sf_tcptype = (if c_transport c = NICE_CANDIDATE_TRANSPORT_UDP then None
                     else Some (transport_to_sdp_tcptype (c_transport c)))\<rparr>"
  by (simp add: base_tokens_def tcp_tokens_def sdp_port_read)

lemma candidate_roundtrip:
  assumes ok: "sdp_candidate_ok inet_ntop getaddrinfo c" and ntop: "\<forall>a. sdp_token (inet_ntop a)" and i: "1 \<le> i"
  shows "nice_agent_parse_remote_candidate_sdp getaddrinfo i (''a=candidate:'' @ join_tokens (candidate_tokens inet_ntop c))
    = Some (sdp_received i c)"
proof -
  define base where "base = (if nice_address_is_valid (c_base_addr c) \<and> \<not> nice_address_equal (c_addr c) (c_base_addr c)
    then sdp_address (c_base_addr c) else NA_UNSPEC)"
  have ne: "join_tokens (candidate_tokens inet_ntop c) \<noteq> []" by (simp add: candidate_tokens_def)
  have sp: "g_strsplit (join_tokens (candidate_tokens inet_ntop c)) (CHR '' '') = candidate_tokens inet_ntop c"
    using split_join [OF _ candidate_tokens_ok [OF ok ntop]] ne by (simp add: g_strsplit_def candidate_tokens_def)
  have addr: "parse_address getaddrinfo (inet_ntop (c_addr c)) (ucast (g_ascii_strtoull (sdp_port (c_addr c)))) = Some (sdp_address (c_addr c))"
    unfolding sdp_port_read using ok by (intro parse_address_text) (simp_all add: sdp_candidate_ok_def)
  have b: "(case (if base_tokens inet_ntop c = [] then None else Some (inet_ntop (c_base_addr c))) of
        Some raddr \<Rightarrow> if (if base_tokens inet_ntop c = [] then 0 else sdp_portnum (c_base_addr c)) \<noteq> 0
          then parse_address getaddrinfo raddr (if base_tokens inet_ntop c = [] then 0 else sdp_portnum (c_base_addr c))
          else Some NA_UNSPEC
      | None \<Rightarrow> Some NA_UNSPEC) = Some base"
    using ok parse_address_text [of "c_base_addr c" inet_ntop getaddrinfo]
    by (auto simp: base_tokens_def base_def sdp_candidate_ok_def sdp_portnum_nonzero)
  have comp: "unat (of_nat (c_component_id c) :: u32) = c_component_id c"
    using ok by (simp add: sdp_candidate_ok_def unat_of_nat)
  have found: "g_strlcpy (c_foundation c) NICE_CANDIDATE_MAX_FOUNDATION = c_foundation c"
    using ok by (simp add: g_strlcpy_def sdp_candidate_ok_def)
  have pre: "g_str_has_prefix (''a=candidate:'' @ x) ''a=candidate:''" "drop 12 (''a=candidate:'' @ x) = x" for x
    by (simp_all add: g_str_has_prefix_def)
  have tok: "candidate_tokens inet_ntop c = c_foundation c # print_int (of_nat (c_component_id c)) # transport_to_sdp (c_transport c)
      # print_int (c_priority c) # inet_ntop (c_addr c) # sdp_port (c_addr c)
      # (''typ'' # cand_type_to_sdp (c_type c) # base_tokens inet_ntop c @ tcp_tokens c)"
    by (simp add: candidate_tokens_def)
  have i0: "i < 1 \<longleftrightarrow> False" using i by simp
  have rec: "sdp_received i c = (nice_candidate_new (c_type c))
     \<lparr>c_component_id := c_component_id c, c_stream_id := i, c_transport := c_transport c, c_foundation := c_foundation c,
      c_priority := c_priority c, c_addr := sdp_address (c_addr c), c_base_addr := base\<rparr>"
    by (simp only: sdp_received_def base_def)
  show ?thesis unfolding nice_agent_parse_remote_candidate_sdp_def pre(2) sp i0 rec
    unfolding tok list.case candidate_attributes
    by (simp only: pre(1) simp_thms if_False bind.bind_lunit sdp_fields.simps parse_cand_type_to_sdp parse_transport_to_sdp
        addr comp found print_int_read b)
qed

text \<open>The lines of a description of one stream.\<close>

definition exported :: "NiceAgent \<Rightarrow> nat \<Rightarrow> nat list" where
  "exported s st = filter (\<lambda>n. \<not> (ag_force_relay s \<and> c_type (ag_candidate s n) \<noteq> NICE_CANDIDATE_TYPE_RELAYED))
     (concat (map (\<lambda>c. cm_local_candidates (ag_component s c)) (st_components (ag_stream s st))))"

definition sdp_line :: "(NiceAddress \<Rightarrow> string) \<Rightarrow> NiceCandidate \<Rightarrow> string" where
  "sdp_line inet_ntop c = ''a=candidate:'' @ join_tokens (candidate_tokens inet_ntop c)"

lemma candidate_lines_eq:
  assumes "\<forall>n \<in> set (filter (\<lambda>n. \<not> (ag_force_relay s \<and> c_type (ag_candidate s n) \<noteq> NICE_CANDIDATE_TYPE_RELAYED)) ns).
    sdp_candidate_ok inet_ntop getaddrinfo (ag_candidate s n)"
  shows "candidate_lines inet_ntop s ns = Some (concat (map (\<lambda>l. l @ ''\<newline>'')
    (map (\<lambda>n. sdp_line inet_ntop (ag_candidate s n))
      (filter (\<lambda>n. \<not> (ag_force_relay s \<and> c_type (ag_candidate s n) \<noteq> NICE_CANDIDATE_TYPE_RELAYED)) ns))))"
  using assms
proof (induction ns)
  case (Cons n ns)
  show ?case
  proof (cases "ag_force_relay s \<and> c_type (ag_candidate s n) \<noteq> NICE_CANDIDATE_TYPE_RELAYED")
    case False
    then have "sdp_candidate_ok inet_ntop getaddrinfo (ag_candidate s n)" using Cons.prems by simp
    note g = generate_tokens [OF this]
    show ?thesis using Cons.IH Cons.prems False g by (simp add: sdp_line_def)
  qed (use Cons in simp)
qed simp

definition header_lines :: "(NiceAddress \<Rightarrow> string) \<Rightarrow> NiceAgent \<Rightarrow> nat \<Rightarrow> bool \<Rightarrow> string list" where
  "header_lines inet_ntop s st non_ice =
     (let rtp = default_address s st 1; rtcp = default_address s st 2 in
      if non_ice then
        [''m='' @ (case st_name (ag_stream s st) of None \<Rightarrow> ''-'' | Some n \<Rightarrow> n) @ '' '' @ print_int (nice_address_get_port rtp)
           @ '' ICE/SDP'', ''c=IN IP4 '' @ nice_address_to_string inet_ntop rtp '''']
        @ (if nice_address_get_port rtcp \<noteq> 0 then [''a=rtcp:'' @ print_int (nice_address_get_port rtcp)] else [])
      else [])"

lemma generate_stream_lines:
  assumes "\<forall>n \<in> set (exported s st). sdp_candidate_ok inet_ntop getaddrinfo (ag_candidate s n)"
  shows "generate_stream_sdp inet_ntop s st non_ice = Some (concat (map (\<lambda>l. l @ ''\<newline>'')
    (header_lines inet_ntop s st non_ice @ [''a=ice-ufrag:'' @ st_local_ufrag (ag_stream s st),
       ''a=ice-pwd:'' @ st_local_password (ag_stream s st)]
     @ map (\<lambda>n. sdp_line inet_ntop (ag_candidate s n)) (exported s st))))"
proof -
  note C = candidate_lines_eq [OF assms [unfolded exported_def], folded exported_def]
  show ?thesis unfolding generate_stream_sdp_def Let_def C bind.bind_lunit header_lines_def by (auto simp: Let_def)
qed

lemma prefix_simps [simp]:
  "g_str_has_prefix (''a=candidate:'' @ x) ''a=ice-ufrag:'' = False"
  "g_str_has_prefix (''a=candidate:'' @ x) ''a=ice-pwd:'' = False"
  "g_str_has_prefix (''a=candidate:'' @ x) ''a=candidate:'' = True"
  "g_str_has_prefix [] ''a=ice-ufrag:'' = False" "g_str_has_prefix [] ''a=ice-pwd:'' = False" "g_str_has_prefix [] ''a=candidate:'' = False"
  by (simp_all add: g_str_has_prefix_def)

lemma parse_candidate_lines:
  assumes "\<forall>c \<in> set cs. sdp_candidate_ok inet_ntop getaddrinfo c" "\<forall>a. sdp_token (inet_ntop a)" "1 \<le> i"
  shows "parse_stream_lines getaddrinfo i (map (sdp_line inet_ntop) cs @ [[]]) acc u p
    = (rev (map (sdp_received i) cs) @ acc, u, p)"
  using assms(1)
proof (induction cs arbitrary: acc)
  case (Cons c cs)
  have "nice_agent_parse_remote_candidate_sdp getaddrinfo i (sdp_line inet_ntop c) = Some (sdp_received i c)"
    unfolding sdp_line_def using candidate_roundtrip [OF _ assms(2,3)] Cons.prems by simp
  moreover have "g_str_has_prefix (sdp_line inet_ntop c) ''a=ice-ufrag:'' = False" "g_str_has_prefix (sdp_line inet_ntop c) ''a=ice-pwd:'' = False"
    "g_str_has_prefix (sdp_line inet_ntop c) ''a=candidate:'' = True"
    unfolding sdp_line_def by (rule prefix_simps)+
  ultimately show ?case using Cons.IH Cons.prems by simp
qed simp

lemma parse_header_lines:
  "parse_stream_lines getaddrinfo i (header_lines inet_ntop s st non_ice @ ls) acc u p = parse_stream_lines getaddrinfo i ls acc u p"
  by (simp add: header_lines_def Let_def g_str_has_prefix_def)

lemma agent_find_stream_id: "agent_find_stream s i = Some st \<Longrightarrow> st_id (ag_stream s st) = i"
  by (auto simp: agent_find_stream_def find_Some_iff)

definition no_newline :: "string \<Rightarrow> bool" where
  "no_newline t \<longleftrightarrow> CHR ''\<newline>'' \<notin> set t"

lemma header_lines_newline:
  assumes "\<forall>a. sdp_token (inet_ntop a)" "case st_name (ag_stream s st) of None \<Rightarrow> True | Some n \<Rightarrow> no_newline n"
  shows "\<forall>l \<in> set (header_lines inet_ntop s st non_ice). CHR ''\<newline>'' \<notin> set l"
proof -
  have "CHR ''\<newline>'' \<notin> set (nice_address_to_string inet_ntop a '''')" for a
    using assms(1) by (simp add: nice_address_to_string_def sdp_token_def)
  then show ?thesis using assms(2)
    by (auto simp: header_lines_def Let_def print_int_chars no_newline_def split: option.splits)
qed

lemma split_description:
  assumes "\<forall>l \<in> set ls. CHR ''\<newline>'' \<notin> set l" "ls \<noteq> []"
  shows "g_strsplit (concat (map (\<lambda>l. l @ ''\<newline>'') ls)) (CHR ''\<newline>'') = ls @ [[]]"
  using assms split_on_lines [OF assms(1)] by (auto simp: g_strsplit_def)

text \<open>C4: A session description of a stream that one agent generates is read back by the other: the parser returns
  the user name, the password and all candidates that the description offers (only the relayed ones when relaying is
  forced), each with its type, transport, foundation, priority, component and addresses, in reverse order. Priorities of
  \<open>2 ^ 31\<close> and more survive although they are printed as negative numbers. A port of zero becomes 9, and a base address
  equal to the address is not transmitted.\<close>

theorem sdp_roundtrip:
  assumes "agent_find_stream s i = Some st" "agent_find_stream r i = Some st'" "1 \<le> i"
    and "\<forall>n \<in> set (exported s st). sdp_candidate_ok inet_ntop getaddrinfo (ag_candidate s n)" "\<forall>a. sdp_token (inet_ntop a)"
    and "no_newline (st_local_ufrag (ag_stream s st))" "no_newline (st_local_password (ag_stream s st))"
    and "case st_name (ag_stream s st) of None \<Rightarrow> True | Some n \<Rightarrow> no_newline n"
  shows "\<exists>t. nice_agent_generate_local_stream_sdp inet_ntop s i include_non_ice = Some (Some t)
    \<and> nice_agent_parse_remote_stream_sdp getaddrinfo r i t
      = (rev (map (\<lambda>n. sdp_received i (ag_candidate s n)) (exported s st)),
         Some (st_local_ufrag (ag_stream s st)), Some (st_local_password (ag_stream s st)))"
proof -
  let ?cs = "map (ag_candidate s) (exported s st)" and ?x = "ag_stream s st"
  let ?ls = "header_lines inet_ntop s st include_non_ice
    @ [''a=ice-ufrag:'' @ st_local_ufrag ?x, ''a=ice-pwd:'' @ st_local_password ?x] @ map (sdp_line inet_ntop) ?cs"
  let ?t = "concat (map (\<lambda>l. l @ ''\<newline>'') ?ls)"
  have gen: "nice_agent_generate_local_stream_sdp inet_ntop s i include_non_ice = Some (Some ?t)"
    using generate_stream_lines [OF assms(4)] assms(1,3) by (simp add: nice_agent_generate_local_stream_sdp_def comp_def)
  have cs: "\<forall>c \<in> set ?cs. sdp_candidate_ok inet_ntop getaddrinfo c" using assms(4) by simp
  have "CHR ''\<newline>'' \<notin> set (sdp_line inet_ntop c)" if "c \<in> set ?cs" for c
    using join_newline [OF candidate_tokens_ok [OF _ assms(5)]] cs that by (auto simp: sdp_line_def)
  then have "\<forall>l \<in> set ?ls. CHR ''\<newline>'' \<notin> set l"
    using header_lines_newline [OF assms(5,8)] assms(6,7) by (auto simp: no_newline_def)
  then have sp: "g_strsplit ?t (CHR ''\<newline>'') = ?ls @ [[]]" by (rule split_description) simp
  have pre: "g_str_has_prefix (''a=ice-ufrag:'' @ x) ''a=ice-ufrag:''" "g_str_has_prefix (''a=ice-pwd:'' @ x) ''a=ice-pwd:''"
    "\<not> g_str_has_prefix (''a=ice-pwd:'' @ x) ''a=ice-ufrag:''" for x by (simp_all add: g_str_has_prefix_def)
  have "parse_stream_lines getaddrinfo i (?ls @ [[]]) [] None None
    = (rev (map (sdp_received i) ?cs), Some (st_local_ufrag ?x), Some (st_local_password ?x))"
    using parse_candidate_lines [OF cs assms(5,3)] pre
    by (simp add: parse_header_lines del: append.simps(2)) simp
  then show ?thesis using gen sp assms(2,3) agent_find_stream_id [OF assms(2)]
    by (intro exI [of _ ?t]) (simp add: nice_agent_parse_remote_stream_sdp_def comp_def)
qed

text \<open>An agent with one stream of one component, one local candidate and two remote candidates.\<close>

definition demo_candidate :: "NiceCandidateType \<Rightarrow> u32 \<Rightarrow> u32 \<Rightarrow> NiceCandidate" where
  "demo_candidate t a w = (nice_candidate_new t)\<lparr>c_addr := NA_INET 1 a, c_base_addr := NA_INET 1 a, c_priority := w,
     c_stream_id := 1, c_component_id := 1, c_foundation := ''1'', c_sockptr := Some 7\<rparr>"

definition demo_env :: cc_env where
  "demo_env = \<lparr>env_now = \<lparr>tv_sec = 0, tv_usec = 0\<rparr>, env_random = (\<lambda>_. replicate 16 7), env_random_bytes = (\<lambda>_ n. replicate n 7),
     env_random_print = (\<lambda>_ n. replicate n (CHR ''a'')), env_hmac = (\<lambda>_ _. replicate 20 1), env_md5 = id,
     env_base64_decode = (\<lambda>_. []), env_base64_encode = (\<lambda>_. ''''), env_package_string = [], env_local_ips = [],
     env_inet_ntop = (\<lambda>_. ''''), env_socket_addr = (\<lambda>_. NA_INET 1 1), env_socket_is_udp = (\<lambda>_. True),
     env_socket_is_reliable = (\<lambda>_. False), env_socket_must_connect = (\<lambda>_. False), env_tcp_connect = (\<lambda>_ _. None)\<rparr>"

definition demo_agent :: "NiceCompatibility \<Rightarrow> nat \<Rightarrow> NiceAgent" where
  "demo_agent cmpt limit = \<lparr>ag_compatibility = cmpt, ag_nomination_mode = NICE_NOMINATION_MODE_REGULAR,
     ag_controlling_mode = True, ag_tie_breaker = 1, ag_max_conn_checks = limit, ag_force_relay = False,
     ag_use_ice_udp = True, ag_use_ice_tcp = True, ag_reliable = False,
     ag_timer_ta = 20, ag_stun_max_retransmissions = 7, ag_stun_reliable_timeout = 7900, ag_discovery_list = [],
     ag_conncheck_timer = False, ag_keepalive_timer = False, ag_grace_period = 0, ag_streams = [0],
     ag_triggered_check_queue = [],
     ag_stream = (\<lambda>_. \<lparr>st_id = 1, st_name = Some ''video'', st_n_components = 1, st_components = [0], st_conncheck_list = [], st_local_ufrag = ''a'', st_local_password = ''p'',
       st_remote_ufrag = ''b'', st_remote_password = ''c'', st_tick_counter = 0\<rparr>),
     ag_component = (\<lambda>_. \<lparr>cm_id = 1, cm_state = NICE_COMPONENT_STATE_CONNECTING, cm_local_candidates = [0],
       cm_remote_candidates = [1, 2], cm_valid_candidates = [], cm_incoming_checks = [],
       cm_selected_pair = \<lparr>sel_local = None, sel_remote = None, sel_priority = 0, sel_prflx_priority = 0\<rparr>,
       cm_fallback_mode = False, cm_turn_candidate = None, cm_stream = 0,
       cm_stun_agent = stun_agent_init [] STUN_COMPATIBILITY_RFC5389 0\<rparr>),
     ag_candidate = (\<lambda>n. if n = 0 then demo_candidate NICE_CANDIDATE_TYPE_HOST 1 (2 ^ 30)
       else if n = 1 then demo_candidate NICE_CANDIDATE_TYPE_RELAYED 2 (2 ^ 20)
       else demo_candidate NICE_CANDIDATE_TYPE_HOST 3 (2 ^ 25)),
     ag_pairs = Map.empty, ag_next_pair = 0, ag_next_candidate = 3, ag_next_candidate_id = 1, ag_random = 0,
     ag_events = []\<rparr>"

theorem sdp_roundtrip_witness:
  "\<exists>t. nice_agent_generate_local_stream_sdp (\<lambda>_. ''10.0.0.1'') (demo_agent NICE_COMPATIBILITY_RFC5245 100) 1 True = Some (Some t)
    \<and> nice_agent_parse_remote_stream_sdp (\<lambda>x. if x = ''10.0.0.1'' then Some (NA_INET 0 1) else None)
        (demo_agent NICE_COMPATIBILITY_RFC5245 50) 1 t
      = ([(nice_candidate_new NICE_CANDIDATE_TYPE_HOST)\<lparr>c_addr := NA_INET 1 1, c_priority := 2 ^ 30, c_stream_id := 1,
            c_component_id := 1, c_foundation := ''1''\<rparr>], Some ''a'', Some ''p'')"
proof -
  let ?s = "demo_agent NICE_COMPATIBILITY_RFC5245 100"
  have st: "agent_find_stream ?s 1 = Some 0" "agent_find_stream (demo_agent NICE_COMPATIBILITY_RFC5245 50) 1 = Some 0"
    "exported ?s 0 = [0]" "ag_candidate ?s 0 = demo_candidate NICE_CANDIDATE_TYPE_HOST 1 (2 ^ 30)"
    "st_local_ufrag (ag_stream ?s 0) = ''a''" "st_local_password (ag_stream ?s 0) = ''p''" "st_name (ag_stream ?s 0) = Some ''video''"
    by (simp_all add: agent_find_stream_def demo_agent_def exported_def)
  have ok: "sdp_candidate_ok (\<lambda>_. ''10.0.0.1'') (\<lambda>x. if x = ''10.0.0.1'' then Some (NA_INET 0 1) else None)
      (demo_candidate NICE_CANDIDATE_TYPE_HOST 1 (2 ^ 30))"
    by (simp add: sdp_candidate_ok_def demo_candidate_def sdp_token_def address_text_ok_def nice_address_is_valid_def family_def
        nice_address_set_port_def htons_def le16_def)
  have rec: "sdp_received 1 (demo_candidate NICE_CANDIDATE_TYPE_HOST 1 (2 ^ 30)) = (nice_candidate_new NICE_CANDIDATE_TYPE_HOST)
      \<lparr>c_addr := NA_INET 1 1, c_priority := 2 ^ 30, c_stream_id := 1, c_component_id := 1, c_foundation := ''1''\<rparr>"
    by (simp add: sdp_received_def demo_candidate_def nice_candidate_new_def nice_address_equal_def sdp_address_def nice_address_get_port_def
        htons_def le16_def)
  show ?thesis
    using sdp_roundtrip [OF st(1,2), of "\<lambda>_. ''10.0.0.1''" "\<lambda>x. if x = ''10.0.0.1'' then Some (NA_INET 0 1) else None" True]
    using ok rec by (simp add: st no_newline_def sdp_token_def)
qed

end
