(* ===== verification/Conncheck_Inbound.thy ===== *)
theory Conncheck_Inbound
  imports Agent_Sdp
begin

text \<open>
  STUN messages from the network (\<^verbatim>\<open>conn_check_handle_inbound_stun\<close> of \<^verbatim>\<open>agent/conncheck.c\<close>): validation with the
  credentials of the component, the candidates that the message belongs to, the reply to a request and the
  processing of a response.

  A discovery of a server reflexive or relayed candidate and a refresh of a relay each have a STUN agent of their own.
  \<open>ds\<close> and \<open>rs\<close> are the agents of those that use the component and the socket of the message; what validation changes
  in them is not part of the model. A response that answers no check is handed on to the functions for discoveries,
  refreshes and keepalives, which are not modelled either: \<open>InboundOther\<close>. The signal for the first request and the
  stack buffer of the reply, which is filled before it is read, are left out.
\<close>

section \<open>Credentials\<close>

definition inbound_msn :: "NiceAgent \<Rightarrow> bool" where
  "inbound_msn s \<longleftrightarrow> ag_compatibility s = NICE_COMPATIBILITY_MSN \<or> ag_compatibility s = NICE_COMPATIBILITY_OC2007"

text \<open>The part of the user name that identifies a candidate, and the password that belongs to it.\<close>

definition validater_ufrag :: "cc_env \<Rightarrow> NiceAgent \<Rightarrow> nat \<Rightarrow> nat \<Rightarrow> bytes" where
  "validater_ufrag env s st n =
     (let ufrag = (case c_username (ag_candidate s n) of Some u \<Rightarrow> u | None \<Rightarrow> st_local_ufrag (ag_stream s st))
      in if inbound_msn s then env_base64_decode env ufrag else str_bytes ufrag)"

definition validater_password :: "cc_env \<Rightarrow> NiceAgent \<Rightarrow> nat \<Rightarrow> nat \<Rightarrow> bytes option" where
  "validater_password env s st n =
     map_option (\<lambda>p. if inbound_msn s then env_base64_decode env p else str_bytes p)
       (case c_password (ag_candidate s n) of
          Some p \<Rightarrow> Some p
        | None \<Rightarrow> if st_local_password (ag_stream s st) \<noteq> [] then Some (st_local_password (ag_stream s st)) else None)"

definition conncheck_stun_validater :: "cc_env \<Rightarrow> NiceAgent \<Rightarrow> nat \<Rightarrow> nat \<Rightarrow> validater" where
  "conncheck_stun_validater env s st c = (\<lambda>ag message username k.
     let cands = (if ag_compatibility s = NICE_COMPATIBILITY_OC2007 \<and> stun_message_get_class message = Some STUN_RESPONSE
                  then cm_remote_candidates (ag_component s c) else cm_local_candidates (ag_component s c));
         username = (case username of None \<Rightarrow> [] | Some u \<Rightarrow> u)
     in case find (\<lambda>n. let ufrag = validater_ufrag env s st n in
                  ufrag \<noteq> [] \<and> length ufrag \<le> length username \<and> take (length ufrag) username = ufrag) cands of
          None \<Rightarrow> None
        | Some n \<Rightarrow> Some (case validater_password env s st n of None \<Rightarrow> k | Some p \<Rightarrow> Some p))"

section \<open>Validation\<close>

text \<open>A loop over the agents of other requests: it goes on as long as the message is a response that the agent does not
  know.\<close>

fun try_agents ::
  "cc_env \<Rightarrow> validater \<Rightarrow> bytes \<Rightarrow> stun_agent list \<Rightarrow> StunValidationStatus \<times> stun_message \<times> bool
   \<Rightarrow> (StunValidationStatus \<times> stun_message \<times> bool) option" where
  "try_agents env vld buf [] r = Some r"
| "try_agents env vld buf (ag # ags) (valid, req, discovery_msg) = do {
     (valid, _, req) \<leftarrow> stun_agent_validate (env_hmac env) (env_md5 env) ag req buf (Some vld);
     if valid = STUN_VALIDATION_UNMATCHED_RESPONSE then try_agents env vld buf ags (valid, req, discovery_msg)
     else Some (valid, req, True)
   }"

definition not_for_component :: "StunValidationStatus \<Rightarrow> bool" where
  "not_for_component valid \<longleftrightarrow> valid = STUN_VALIDATION_BAD_REQUEST \<or> valid = STUN_VALIDATION_UNMATCHED_RESPONSE"

definition inbound_validate ::
  "cc_env \<Rightarrow> nat \<Rightarrow> nat \<Rightarrow> bytes \<Rightarrow> stun_agent list \<Rightarrow> stun_agent list \<Rightarrow> NiceAgent
   \<Rightarrow> ((StunValidationStatus \<times> stun_message \<times> bool) \<times> NiceAgent) option" where
  "inbound_validate env st c buf ds rs s = do {
     let vld = conncheck_stun_validater env s st c;
     (valid, ag, req) \<leftarrow> stun_agent_validate (env_hmac env) (env_md5 env) (cm_stun_agent (ag_component s c)) zero_message buf
       (Some vld);
     let s = upd_component c (\<lambda>x. x\<lparr>cm_stun_agent := ag\<rparr>) s;
     r \<leftarrow> (if not_for_component valid then try_agents env vld buf ds (valid, req, False) else Some (valid, req, False));
     r \<leftarrow> (if not_for_component (fst r) then try_agents env vld buf rs r else Some r);
     Some (r, s)
   }"

section \<open>Requests\<close>

abbreviation (input) MAX_STUN_DATAGRAM_PAYLOAD :: nat where "MAX_STUN_DATAGRAM_PAYLOAD \<equiv> 1300"

definition inbound_error :: "cc_env \<Rightarrow> nat \<Rightarrow> nat option \<Rightarrow> NiceAddress \<Rightarrow> nat \<Rightarrow> stun_message \<Rightarrow> NiceAgent \<Rightarrow> NiceAgent option" where
  "inbound_error env c nicesock from err req s = do {
     (ok, msg) \<leftarrow> stun_agent_init_error (env_package_string env) (cm_stun_agent (ag_component s c)) zero_message
       (replicate MAX_STUN_DATAGRAM_PAYLOAD 0) MAX_STUN_DATAGRAM_PAYLOAD req err;
     if \<not> ok then Some s
     else do {
       (len, ag, msg) \<leftarrow> stun_agent_finish_message (env_hmac env) (env_md5 env) (cm_stun_agent (ag_component s c)) msg None;
       let s = upd_component c (\<lambda>x. x\<lparr>cm_stun_agent := ag\<rparr>) s;
       Some (if len > 0 \<and> \<not> inbound_msn s then emit (SocketSend nicesock from (take len (buffer msg))) s else s)
     }
   }"

definition inbound_unknown :: "cc_env \<Rightarrow> nat \<Rightarrow> nat option \<Rightarrow> NiceAddress \<Rightarrow> stun_message \<Rightarrow> NiceAgent \<Rightarrow> NiceAgent option" where
  "inbound_unknown env c nicesock from req s =
     (if inbound_msn s then Some s
      else do {
        (len, ag, msg) \<leftarrow> stun_agent_build_unknown_attributes_error (env_package_string env) (env_hmac env) (env_md5 env)
          (cm_stun_agent (ag_component s c)) zero_message (replicate MAX_STUN_DATAGRAM_PAYLOAD 0) MAX_STUN_DATAGRAM_PAYLOAD req;
        let s = upd_component c (\<lambda>x. x\<lparr>cm_stun_agent := ag\<rparr>) s;
        Some (if len \<noteq> 0 then emit (SocketSend nicesock from (take len (buffer msg))) s else s)
      })"

text \<open>The user name tells the candidates apart in the older dialects.\<close>

definition match_username ::
  "cc_env \<Rightarrow> NiceAgent \<Rightarrow> nat \<Rightarrow> nat \<Rightarrow> bytes option \<Rightarrow> bool \<Rightarrow> (nat \<times> nat) option" where
  "match_username env s st c username inbound =
     find (\<lambda>(r, l). username = Some (priv_create_username env s st (cm_id (ag_component s c)) (Some r) (Some l)
              NICE_STREAM_MAX_UNAME inbound))
       (concat (map (\<lambda>r. map (\<lambda>l. (r, l)) (cm_local_candidates (ag_component s c)))
          (cm_remote_candidates (ag_component s c))))"

definition to_sockaddr :: "NiceAddress \<Rightarrow> sockaddr" where
  "to_sockaddr a = (case a of NA_INET p x \<Rightarrow> SA_INET p x | NA_INET6 p x _ \<Rightarrow> SA_INET6 p x | NA_UNSPEC \<Rightarrow> SA_OTHER)"

text \<open>The key of a request in the MSN and OC2007 dialects; for MSN the user name in the request is replaced. \<open>None\<close> for a
  candidate without a password: the length of its key would not be initialised.\<close>

definition inbound_key ::
  "cc_env \<Rightarrow> nat \<Rightarrow> nat \<Rightarrow> nat \<Rightarrow> nat \<Rightarrow> stun_message \<Rightarrow> NiceAgent \<Rightarrow> stun_message option" where
  "inbound_key env st c l r req s =
     (if ag_compatibility s = NICE_COMPATIBILITY_MSN then do {
        found \<leftarrow> stun_message_find req STUN_ATTRIBUTE_USERNAME;
        (off, len) \<leftarrow> found;
        let uname = priv_create_username env s st (cm_id (ag_component s c)) (Some r) (Some l) NICE_STREAM_MAX_UNAME False;
        b \<leftarrow> mem_write (buffer req) off (take (unat len) uname);
        p \<leftarrow> c_password (ag_candidate s r);
        Some (req\<lparr>buffer := b, key := Some (env_base64_decode env p)\<rparr>)
      }
      else do {
        p \<leftarrow> c_password (ag_candidate s l);
        Some (req\<lparr>key := Some (env_base64_decode env p)\<rparr>)
      })"

text \<open>A remote candidate that is not known is learnt from the request.\<close>

definition learn_remote ::
  "cc_env \<Rightarrow> nat \<Rightarrow> nat \<Rightarrow> nat option \<Rightarrow> NiceAddress \<Rightarrow> u32 \<Rightarrow> nat option \<Rightarrow> nat option \<Rightarrow> NiceAgent
   \<Rightarrow> (nat \<times> NiceAgent) option" where
  "learn_remote env st c nicesock from priority local_candidate remote_candidate2 s = do {
     (r, s) \<leftarrow> discovery_learn_remote_peer_reflexive_candidate env st c priority from nicesock local_candidate
       remote_candidate2 s;
     if st_remote_ufrag (ag_stream s st) = [] then Some (r, s)
     else case local_candidate of
            Some l \<Rightarrow>
              if c_transport (ag_candidate s l) = NICE_CANDIDATE_TRANSPORT_TCP_PASSIVE then do {
                (p, s) \<leftarrow> priv_conn_check_add_for_candidate_pair_matched env (st_id (ag_stream s st)) c l r NICE_CHECK_SUCCEEDED s;
                s \<leftarrow> upd_pair p (\<lambda>x. x\<lparr>cp_valid := True\<rparr>) s;
                Some (r, s)
              }
              else do { (_, s) \<leftarrow> conn_check_add_for_candidate env (st_id (ag_stream s st)) c r s; Some (r, s) }
          | None \<Rightarrow> do { (_, s) \<leftarrow> conn_check_add_for_candidate env (st_id (ag_stream s st)) c r s; Some (r, s) }
   }"

definition inbound_request ::
  "cc_env \<Rightarrow> nat \<Rightarrow> nat \<Rightarrow> nat option \<Rightarrow> NiceAddress \<Rightarrow> stun_message \<Rightarrow> nat option \<Rightarrow> nat option \<Rightarrow> nat option \<Rightarrow> NiceAgent
   \<Rightarrow> (bool \<times> NiceAgent) option" where
  "inbound_request env st c nicesock from req local_candidate remote_candidate remote_candidate2 s = do {
     reply \<leftarrow> stun_usage_ice_conncheck_create_reply (env_package_string env) (env_hmac env) (env_md5 env)
       (cm_stun_agent (ag_component s c)) req zero_message (replicate MAX_STUN_DATAGRAM_PAYLOAD 0) MAX_STUN_DATAGRAM_PAYLOAD
       (to_sockaddr from) sizeof_sockaddr_storage (ag_controlling_mode s) (ag_tie_breaker s) (agent_to_ice_compatibility s);
     let s = upd_component c (\<lambda>x. x\<lparr>cm_stun_agent := ir_agent reply\<rparr>) s;
     s \<leftarrow> (if ir_return reply = STUN_USAGE_ICE_RETURN_ROLE_CONFLICT
          then priv_check_for_role_conflict (ir_control reply) s else Some s);
     if ir_return reply \<noteq> STUN_USAGE_ICE_RETURN_SUCCESS \<and> ir_return reply \<noteq> STUN_USAGE_ICE_RETURN_ROLE_CONFLICT
     then Some (False, s)
     else do {
       use \<leftarrow> stun_usage_ice_conncheck_use_candidate req;
       priority \<leftarrow> stun_usage_ice_conncheck_priority req;
       username \<leftarrow> found_bytes req STUN_ATTRIBUTE_USERNAME;
       let use = (use \<or> ag_compatibility s = NICE_COMPATIBILITY_GOOGLE \<or> inbound_msn s);
       (r, s) \<leftarrow> (case remote_candidate of
                   Some r \<Rightarrow> Some (r, s)
                 | None \<Rightarrow> learn_remote env st c nicesock from priority local_candidate remote_candidate2 s);
       let s = nice_component_add_valid_candidate c r s;
       s \<leftarrow> priv_reply_to_conn_check env st c local_candidate (Some r) from nicesock (take (ir_plen reply) (buffer (ir_msg reply)))
             use s;
       Some (True, if st_remote_ufrag (ag_stream s st) = []
                   then snd (priv_store_pending_check c from nicesock (case username of None \<Rightarrow> [] | Some u \<Rightarrow> u) priority use s)
                   else s)
     }
   }"

section \<open>The dispatch\<close>

datatype inbound_result = InboundFalse | InboundTrue | InboundOther stun_message

definition conn_check_handle_inbound_stun ::
  "cc_env \<Rightarrow> nat \<Rightarrow> nat \<Rightarrow> nat option \<Rightarrow> NiceAddress \<Rightarrow> bytes \<Rightarrow> stun_agent list \<Rightarrow> stun_agent list \<Rightarrow> NiceAgent
   \<Rightarrow> (inbound_result \<times> NiceAgent) option" where
  "conn_check_handle_inbound_stun env st c nicesock from buf ds rs s = do {
     ((valid, req, discovery_msg), s) \<leftarrow> inbound_validate env st c buf ds rs s;
     if valid \<in> {STUN_VALIDATION_NOT_STUN, STUN_VALIDATION_INCOMPLETE_STUN, STUN_VALIDATION_BAD_REQUEST}
     then Some (InboundFalse, s)
     else if valid = STUN_VALIDATION_UNKNOWN_REQUEST_ATTRIBUTE then do {
       s \<leftarrow> inbound_unknown env c nicesock from req s;
       Some (InboundTrue, s)
     }
     else if valid = STUN_VALIDATION_UNAUTHORIZED then do {
       s \<leftarrow> inbound_error env c nicesock from STUN_ERROR_UNAUTHORIZED req s;
       Some (InboundTrue, s)
     }
     else if valid = STUN_VALIDATION_UNAUTHORIZED_BAD_REQUEST then do {
       s \<leftarrow> inbound_error env c nicesock from STUN_ERROR_BAD_REQUEST req s;
       Some (InboundTrue, s)
     }
     else do {
       username \<leftarrow> found_bytes req STUN_ATTRIBUTE_USERNAME;
       cls \<leftarrow> stun_message_get_class req;
       let component = ag_component s c;
       let remote_candidate = find (\<lambda>n. nice_address_equal from (c_addr (ag_candidate s n))) (cm_remote_candidates component);
       let local_candidate = find (\<lambda>n. nice_address_equal (env_socket_addr env nicesock) (c_addr (ag_candidate s n)))
             (cm_local_candidates component);
       let named = (if ag_compatibility s = NICE_COMPATIBILITY_GOOGLE \<or> inbound_msn s
             then match_username env s st c username
               (ag_compatibility s = NICE_COMPATIBILITY_MSN \<or> cls = STUN_REQUEST \<or> cls = STUN_INDICATION)
             else None);
       let local_candidate = (case named of None \<Rightarrow> local_candidate | Some (_, l) \<Rightarrow> Some l);
       let remote_candidate2 = map_option fst named;
       if cm_remote_candidates component \<noteq> [] \<and> ag_compatibility s = NICE_COMPATIBILITY_GOOGLE
          \<and> local_candidate = None \<and> \<not> discovery_msg then Some (InboundTrue, s)
       else if valid \<noteq> STUN_VALIDATION_SUCCESS then Some (InboundFalse, s)
       else if cls = STUN_REQUEST then
         (if inbound_msn s then
            (case (local_candidate, remote_candidate2) of
               (Some l, Some r) \<Rightarrow> do {
                 req \<leftarrow> inbound_key env st c l r req s;
                 (b, s) \<leftarrow> inbound_request env st c nicesock from req local_candidate remote_candidate remote_candidate2 s;
                 Some (if b then InboundTrue else InboundFalse, s)
               }
             | _ \<Rightarrow> Some (InboundTrue, s))
          else do {
            (b, s) \<leftarrow> inbound_request env st c nicesock from req local_candidate remote_candidate remote_candidate2 s;
            Some (if b then InboundTrue else InboundFalse, s)
          })
       else do {
         (trans_found, s) \<leftarrow> priv_map_reply_to_conn_check_request env st c nicesock from local_candidate remote_candidate req s;
         Some (if trans_found then InboundTrue else InboundOther req, s)
       }
     }
   }"

end
