(* ===== verification/Conncheck_Steps.thy ===== *)
theory Conncheck_Steps
  imports Conncheck_Inbound
begin

text \<open>
  The steps that the connectivity checks are made of. Every operation of the model is a sequence of steps of
  seven kinds: changing a pair without its place in the check list, adding to or removing from the queue of
  triggered checks, removing a pair, inserting a pair, sorting a check list again, and changes that do not
  concern the lists. A property that these steps preserve therefore holds for all operations. The property
  here is that the check lists are sorted and hold exactly the pairs that exist.
\<close>

section \<open>Steps\<close>

definition core :: "CandidateCheckPair \<Rightarrow> nat \<times> nat \<times> nat \<times> nat \<times> u64" where
  "core x = (cp_stream_id x, cp_component_id x, cp_local x, cp_remote x, cp_priority x)"

definition same_lists :: "NiceAgent \<Rightarrow> NiceAgent \<Rightarrow> bool" where
  "same_lists s s' \<longleftrightarrow> ag_pairs s' = ag_pairs s \<and> ag_streams s' = ag_streams s
     \<and> ag_triggered_check_queue s' = ag_triggered_check_queue s \<and> ag_next_pair s' = ag_next_pair s
     \<and> (\<forall>st. checklist s' st = checklist s st \<and> st_id (ag_stream s' st) = st_id (ag_stream s st)
           \<and> st_components (ag_stream s' st) = st_components (ag_stream s st))
     \<and> (\<forall>c. cm_stream (ag_component s' c) = cm_stream (ag_component s c))"

inductive cc_step :: "NiceAgent \<Rightarrow> NiceAgent \<Rightarrow> bool" where
  other: "same_lists s s' \<Longrightarrow> cc_step s s'"
| update: "ag_pairs s p = Some x \<Longrightarrow> core y = core x \<Longrightarrow> cc_step s (s\<lparr>ag_pairs := (ag_pairs s)(p \<mapsto> y)\<rparr>)"
| enqueue: "ag_pairs s p = Some x \<Longrightarrow> p \<notin> set (ag_triggered_check_queue s)
    \<Longrightarrow> cc_step s (s\<lparr>ag_triggered_check_queue := ag_triggered_check_queue s @ [p]\<rparr>)"
| dequeue: "cc_step s (priv_remove_pair_from_triggered_check_queue p s)"
| remove: "st \<in> set (ag_streams s) \<Longrightarrow> p \<in> set (checklist s st) \<Longrightarrow> remove_pair st p s = Some s' \<Longrightarrow> cc_step s s'"
| insert: "st \<in> set (ag_streams s) \<Longrightarrow> cp_stream_id x = st_id (ag_stream s st) \<Longrightarrow> insert_pair st x s = Some (p, s')
    \<Longrightarrow> cc_step s s'"
| reorder: "st \<in> set (ag_streams s) \<Longrightarrow> recalculate_stream st s = Some s' \<Longrightarrow> cc_step s s'"

abbreviation cc_steps :: "NiceAgent \<Rightarrow> NiceAgent \<Rightarrow> bool" where
  "cc_steps \<equiv> cc_step\<^sup>*\<^sup>*"

lemma cc_steps_trans [trans]: "cc_steps s t \<Longrightarrow> cc_steps t u \<Longrightarrow> cc_steps s u"
  by (rule rtranclp_trans)

lemma cc_step_steps [intro]: "cc_step s s' \<Longrightarrow> cc_steps s s'"
  by (rule r_into_rtranclp)

lemma cc_steps_other: "same_lists s s' \<Longrightarrow> cc_steps s s'"
  by (rule cc_step_steps) (rule cc_step.other)

section \<open>The invariant of the check lists\<close>

definition prio :: "NiceAgent \<Rightarrow> nat \<Rightarrow> u64" where
  "prio s p = cp_priority (the (ag_pairs s p))"

definition descending :: "NiceAgent \<Rightarrow> nat list \<Rightarrow> bool" where
  "descending s ps = sorted_wrt (\<lambda>p q. prio s p \<ge> prio s q) ps"

definition lists_ok :: "NiceAgent \<Rightarrow> bool" where
  "lists_ok s \<longleftrightarrow>
     inj_on (\<lambda>st. st_id (ag_stream s st)) (set (ag_streams s))
   \<and> (\<forall>st \<in> set (ag_streams s). distinct (checklist s st) \<and> descending s (checklist s st)
        \<and> (\<forall>p \<in> set (checklist s st). \<exists>x. ag_pairs s p = Some x \<and> cp_stream_id x = st_id (ag_stream s st)))
   \<and> (\<forall>p x. ag_pairs s p = Some x \<longrightarrow> p < ag_next_pair s \<and> (\<exists>st \<in> set (ag_streams s). p \<in> set (checklist s st)))
   \<and> distinct (ag_triggered_check_queue s) \<and> set (ag_triggered_check_queue s) \<subseteq> dom (ag_pairs s)
   \<and> (\<forall>st \<in> set (ag_streams s). \<forall>c \<in> set (st_components (ag_stream s st)). cm_stream (ag_component s c) = st)"

lemma lists_okD:
  assumes "lists_ok s"
  shows "inj_on (\<lambda>st. st_id (ag_stream s st)) (set (ag_streams s))"
    and "st \<in> set (ag_streams s) \<Longrightarrow> distinct (checklist s st)"
    and "st \<in> set (ag_streams s) \<Longrightarrow> descending s (checklist s st)"
    and "st \<in> set (ag_streams s) \<Longrightarrow> p \<in> set (checklist s st) \<Longrightarrow>
           \<exists>x. ag_pairs s p = Some x \<and> cp_stream_id x = st_id (ag_stream s st)"
    and "ag_pairs s p = Some x \<Longrightarrow> p < ag_next_pair s"
    and "ag_pairs s p = Some x \<Longrightarrow> \<exists>st \<in> set (ag_streams s). p \<in> set (checklist s st)"
    and "distinct (ag_triggered_check_queue s)"
    and "p \<in> set (ag_triggered_check_queue s) \<Longrightarrow> \<exists>x. ag_pairs s p = Some x"
    and "st \<in> set (ag_streams s) \<Longrightarrow> c \<in> set (st_components (ag_stream s st)) \<Longrightarrow> cm_stream (ag_component s c) = st"
  using assms by (auto simp: lists_ok_def)

lemma lists_okI:
  assumes "inj_on (\<lambda>st. st_id (ag_stream s st)) (set (ag_streams s))"
    and "\<And>st. st \<in> set (ag_streams s) \<Longrightarrow> distinct (checklist s st)"
    and "\<And>st. st \<in> set (ag_streams s) \<Longrightarrow> descending s (checklist s st)"
    and "\<And>st p. st \<in> set (ag_streams s) \<Longrightarrow> p \<in> set (checklist s st) \<Longrightarrow>
           \<exists>x. ag_pairs s p = Some x \<and> cp_stream_id x = st_id (ag_stream s st)"
    and "\<And>p x. ag_pairs s p = Some x \<Longrightarrow> p < ag_next_pair s"
    and "\<And>p x. ag_pairs s p = Some x \<Longrightarrow> \<exists>st \<in> set (ag_streams s). p \<in> set (checklist s st)"
    and "distinct (ag_triggered_check_queue s)"
    and "\<And>p. p \<in> set (ag_triggered_check_queue s) \<Longrightarrow> \<exists>x. ag_pairs s p = Some x"
    and "\<And>st c. st \<in> set (ag_streams s) \<Longrightarrow> c \<in> set (st_components (ag_stream s st)) \<Longrightarrow> cm_stream (ag_component s c) = st"
  shows "lists_ok s"
  using assms unfolding lists_ok_def by (intro conjI ballI allI impI subsetI) (blast | simp add: dom_def)+

text \<open>A pair is in the check list of one stream only.\<close>

lemma lists_disjoint:
  assumes "lists_ok s" "st \<in> set (ag_streams s)" "st' \<in> set (ag_streams s)"
    and "p \<in> set (checklist s st)" "p \<in> set (checklist s st')"
  shows "st = st'"
proof -
  from lists_okD(4) [OF assms(1,2,4)] lists_okD(4) [OF assms(1,3,5)]
  have "st_id (ag_stream s st) = st_id (ag_stream s st')" by auto
  then show ?thesis using lists_okD(1) [OF assms(1)] assms(2,3) by (auto dest: inj_onD)
qed

lemma descending_cong:
  "descending s ps \<Longrightarrow> (\<And>p. p \<in> set ps \<Longrightarrow> prio s' p = prio s p) \<Longrightarrow> descending s' ps"
  unfolding descending_def by (erule sorted_wrt_mono_rel [rotated]) auto

lemma descending_remove1: "descending s ps \<Longrightarrow> descending s (remove1 p ps)"
  unfolding descending_def by (induction ps) (auto dest: notin_set_remove1 in_set_remove1 [THEN iffD1] set_remove1_subset [THEN subsetD])

section \<open>What the steps keep\<close>

lemma checklist_simps [simp]:
  "checklist (s\<lparr>ag_pairs := m\<rparr>) st = checklist s st"
  "checklist (s\<lparr>ag_triggered_check_queue := q\<rparr>) st = checklist s st"
  "checklist (s\<lparr>ag_next_pair := n\<rparr>) st = checklist s st"
  "checklist (set_checklist st' ps s) st = (if st = st' then ps else checklist s st)"
  by (simp_all add: checklist_def set_checklist_def upd_stream_def)

lemma set_checklist_simps [simp]:
  "ag_pairs (set_checklist st ps s) = ag_pairs s"
  "ag_streams (set_checklist st ps s) = ag_streams s"
  "ag_triggered_check_queue (set_checklist st ps s) = ag_triggered_check_queue s"
  "ag_next_pair (set_checklist st ps s) = ag_next_pair s"
  "st_id (ag_stream (set_checklist st ps s) st') = st_id (ag_stream s st')"
  "st_n_components (ag_stream (set_checklist st ps s) st') = st_n_components (ag_stream s st')"
  "st_components (ag_stream (set_checklist st ps s) st') = st_components (ag_stream s st')"
  "ag_component (set_checklist st ps s) = ag_component s"
  by (simp_all add: set_checklist_def upd_stream_def)

lemma upd_pair_eq_Some:
  "upd_pair p f s = Some s' \<longleftrightarrow> (\<exists>x. ag_pairs s p = Some x \<and> s' = s\<lparr>ag_pairs := (ag_pairs s)(p \<mapsto> f x)\<rparr>)"
  by (auto simp: upd_pair_def split: option.splits)

lemma free_item_eq_Some:
  "conn_check_free_item p s = Some s' \<longleftrightarrow> (\<exists>x. ag_pairs s p = Some x \<and>
     s' = s\<lparr>ag_triggered_check_queue := remove1 p (ag_triggered_check_queue s), ag_pairs := (ag_pairs s)(p := None)\<rparr>)"
  by (auto simp: conn_check_free_item_def priv_free_all_stun_transactions_def upd_pair_def
      priv_remove_pair_from_triggered_check_queue_def bind_eq_Some_conv)

lemma remove_pair_eq_Some:
  "remove_pair st p s = Some s' \<longleftrightarrow> (\<exists>x. ag_pairs s p = Some x \<and>
     s' = set_checklist st (remove1 p (checklist s st))
       (s\<lparr>ag_triggered_check_queue := remove1 p (ag_triggered_check_queue s), ag_pairs := (ag_pairs s)(p := None)\<rparr>))"
  by (auto simp: remove_pair_def bind_eq_Some_conv free_item_eq_Some)

lemma for_each_append: "for_each f (xs @ ys) s = for_each f xs s \<bind> for_each f ys"
  by (induction xs arbitrary: s) (auto split: bind_split)

lemma for_each_invariant:
  assumes "for_each f xs s = Some s'" "P s"
    and "\<And>x t t'. x \<in> set xs \<Longrightarrow> f x t = Some t' \<Longrightarrow> P t \<Longrightarrow> P t'"
  shows "P s'"
  using assms
proof (induction xs arbitrary: s)
  case (Cons x xs)
  from Cons.prems(1) obtain t where t: "f x s = Some t" "for_each f xs t = Some s'" by (auto elim: bind_SomeE)
  have "P t" using Cons.prems(3) [OF _ t(1) Cons.prems(2)] by simp
  then show ?case using Cons.IH [OF t(2)] Cons.prems(3) by (meson list.set_intros(2))
qed simp

lemma recalculate_pairs:
  assumes "for_each recalculate_pair ps s = Some s'"
  shows "s' = s\<lparr>ag_pairs := ag_pairs s'\<rparr>
    \<and> (\<forall>p. map_option cp_stream_id (ag_pairs s' p) = map_option cp_stream_id (ag_pairs s p))
    \<and> (\<forall>p. p \<notin> set ps \<longrightarrow> ag_pairs s' p = ag_pairs s p)"
  using assms
proof (induction ps arbitrary: s)
  case (Cons p ps)
  from Cons.prems obtain t where t: "recalculate_pair p s = Some t" "for_each recalculate_pair ps t = Some s'"
    by (auto elim: bind_SomeE)
  from t(1) obtain x where x: "ag_pairs s p = Some x"
    "t = s\<lparr>ag_pairs := (ag_pairs s)(p \<mapsto> x\<lparr>cp_priority := agent_candidate_pair_priority s (cp_local x) (cp_remote x)\<rparr>)\<rparr>"
    by (auto simp: recalculate_pair_def upd_pair_eq_Some)
  note IH = Cons.IH [OF t(2)]
  have "s' = s\<lparr>ag_pairs := ag_pairs s'\<rparr>" using IH x(2) by simp
  moreover have "map_option cp_stream_id (ag_pairs t q) = map_option cp_stream_id (ag_pairs s q)" for q using x by simp
  moreover have "q \<noteq> p \<Longrightarrow> ag_pairs t q = ag_pairs s q" for q using x(2) by simp
  ultimately show ?case using IH by simp
qed simp

section \<open>Sorting\<close>

lemma insert_sorted_props:
  assumes "insert_sorted s p x qs = Some rs" "ag_pairs s' = (ag_pairs s)(p \<mapsto> x)" "p \<notin> set qs" "descending s qs"
  shows "set rs = insert p (set qs) \<and> descending s' rs \<and> (distinct qs \<longrightarrow> distinct rs)"
  using assms
proof (induction qs arbitrary: rs)
  case Nil
  then show ?case by (auto simp: descending_def)
next
  case (Cons q qs)
  from Cons.prems(1) obtain y where y: "ag_pairs s q = Some y" by (auto elim: bind_SomeE)
  have same: "prio s' r = prio s r" if "r \<in> set (q # qs)" for r using that Cons.prems(2,3) by (auto simp: prio_def)
  have p: "prio s' p = cp_priority x" using Cons.prems(2) by (simp add: prio_def)
  have q: "prio s' q = cp_priority y" using same [of q] y by (simp add: prio_def)
  have desc: "descending s' (q # qs)" by (rule descending_cong [OF Cons.prems(4)]) (rule same)
  show ?case
  proof (cases "conn_check_compare x y > 0")
    case True
    with Cons.prems(1) y obtain rs' where rs: "insert_sorted s p x qs = Some rs'" "rs = q # rs'" by auto
    have "descending s qs" using Cons.prems(4) by (simp add: descending_def)
    with Cons.IH [OF rs(1) Cons.prems(2)] Cons.prems(3)
    have IH: "set rs' = insert p (set qs)" "descending s' rs'" "distinct qs \<longrightarrow> distinct rs'" by auto
    have "prio s' p \<le> prio s' q" using True p q by (auto simp: conn_check_compare_def split: if_splits)
    then have "\<forall>r \<in> set rs'. prio s' r \<le> prio s' q" using desc IH(1) by (auto simp: descending_def)
    then show ?thesis using IH rs(2) Cons.prems(3) by (auto simp: descending_def)
  next
    case False
    with Cons.prems(1) y have rs: "rs = p # q # qs" by auto
    have "prio s' q \<le> prio s' p" using False p q by (auto simp: conn_check_compare_def split: if_splits)
    then have "\<forall>r \<in> set (q # qs). prio s' r \<le> prio s' p" using desc by (auto simp: descending_def)
    then show ?thesis using rs desc Cons.prems(3) by (auto simp: descending_def)
  qed
qed

lemma sort_pairs_props:
  assumes "sort_pairs s ps = Some qs" "distinct ps"
  shows "set qs = set ps \<and> descending s qs \<and> distinct qs"
  using assms
proof (induction ps arbitrary: qs)
  case Nil
  then show ?case by (simp add: descending_def)
next
  case (Cons p ps)
  from Cons.prems(1) obtain rs x where r: "sort_pairs s ps = Some rs" "ag_pairs s p = Some x" "insert_sorted s p x rs = Some qs"
    by (auto elim!: bind_SomeE)
  have IH: "set rs = set ps" "descending s rs" "distinct rs" using Cons.IH [OF r(1)] Cons.prems(2) by auto
  have "ag_pairs s = (ag_pairs s)(p \<mapsto> x)" using r(2) by auto
  from insert_sorted_props [OF r(3) this] show ?case using IH Cons.prems(2) by simp
qed

section \<open>The steps preserve the invariant\<close>

lemma lists_ok_same_lists:
  assumes "same_lists s s'" "lists_ok s"
  shows "lists_ok s'"
proof -
  have "prio s' = prio s" using assms(1) by (auto simp: same_lists_def prio_def fun_eq_iff)
  then have "descending s' = descending s" by (simp add: descending_def fun_eq_iff)
  then show ?thesis using assms by (simp add: lists_ok_def same_lists_def)
qed

lemma lists_ok_update:
  assumes "lists_ok s" "ag_pairs s p = Some x" "core y = core x"
  shows "lists_ok (s\<lparr>ag_pairs := (ag_pairs s)(p \<mapsto> y)\<rparr>)" (is "lists_ok ?s")
proof (rule lists_okI)
  have y: "cp_stream_id y = cp_stream_id x" "cp_priority y = cp_priority x" using assms(3) by (auto simp: core_def)
  have p: "prio ?s = prio s" using y assms(2) by (auto simp: prio_def fun_eq_iff)
  show "descending ?s (checklist ?s st)" if "st \<in> set (ag_streams ?s)" for st
    using lists_okD(3) [OF assms(1)] that p by (simp add: descending_def)
  show "\<exists>z. ag_pairs ?s q = Some z \<and> cp_stream_id z = st_id (ag_stream ?s st)"
    if "st \<in> set (ag_streams ?s)" "q \<in> set (checklist ?s st)" for st q
    using lists_okD(4) [OF assms(1), of st q] that assms(2) y(1) by auto
  show "q < ag_next_pair ?s" if "ag_pairs ?s q = Some z" for q z
    using that lists_okD(5) [OF assms(1)] assms(2) by (auto split: if_splits)
  show "\<exists>st \<in> set (ag_streams ?s). q \<in> set (checklist ?s st)" if "ag_pairs ?s q = Some z" for q z
    using that lists_okD(6) [OF assms(1)] assms(2) by (auto split: if_splits)
  show "\<exists>z. ag_pairs ?s q = Some z" if "q \<in> set (ag_triggered_check_queue ?s)" for q
    using that lists_okD(8) [OF assms(1)] by auto
qed (use lists_okD(1,2,7,9) [OF assms(1)] in simp_all)

lemma lists_ok_queue:
  assumes "lists_ok s" "distinct q" "\<And>p. p \<in> set q \<Longrightarrow> \<exists>x. ag_pairs s p = Some x"
  shows "lists_ok (s\<lparr>ag_triggered_check_queue := q\<rparr>)" (is "lists_ok ?s")
proof -
  have "prio ?s = prio s" by (simp add: prio_def fun_eq_iff)
  then have "descending ?s = descending s" by (simp add: descending_def fun_eq_iff)
  then show ?thesis using assms by (auto simp: lists_ok_def)
qed

lemma lists_ok_remove:
  assumes "lists_ok s" "st \<in> set (ag_streams s)" "p \<in> set (checklist s st)" "remove_pair st p s = Some s'"
  shows "lists_ok s'"
proof -
  from assms(4) obtain x where x: "ag_pairs s p = Some x" and s': "s' = set_checklist st (remove1 p (checklist s st))
       (s\<lparr>ag_triggered_check_queue := remove1 p (ag_triggered_check_queue s), ag_pairs := (ag_pairs s)(p := None)\<rparr>)"
    by (auto simp: remove_pair_eq_Some)
  have cl: "checklist s' st' = (if st' = st then remove1 p (checklist s st) else checklist s st')" for st'
    by (simp add: s')
  have comps: "\<And>st. st_components (ag_stream s' st) = st_components (ag_stream s st)" "ag_component s' = ag_component s"
    by (simp_all add: s' set_checklist_simps)
  have fields: "ag_streams s' = ag_streams s" "\<And>st. st_id (ag_stream s' st) = st_id (ag_stream s st)"
    "ag_pairs s' = (ag_pairs s)(p := None)" "ag_next_pair s' = ag_next_pair s"
    "ag_triggered_check_queue s' = remove1 p (ag_triggered_check_queue s)"
    by (simp_all add: s')
  have pr: "prio s' q = prio s q" if "q \<noteq> p" for q using that by (simp add: prio_def fields)
  have mem: "q \<in> set (checklist s' st') \<longleftrightarrow> q \<in> set (checklist s st') \<and> q \<noteq> p" if "st' \<in> set (ag_streams s)" for q st'
    using lists_okD(2) [OF assms(1) that] lists_disjoint [OF assms(1) that assms(2) _ assms(3)]
    by (auto simp: cl set_remove1_eq)
  show ?thesis
  proof (rule lists_okI)
    show "cm_stream (ag_component s' c) = st'"
      if "st' \<in> set (ag_streams s')" "c \<in> set (st_components (ag_stream s' st'))" for st' c
      using lists_okD(9) [OF assms(1)] that by (simp add: comps fields)
    show "inj_on (\<lambda>st. st_id (ag_stream s' st)) (set (ag_streams s'))" using lists_okD(1) [OF assms(1)] by (simp add: fields)
    show "distinct (checklist s' st')" if "st' \<in> set (ag_streams s')" for st'
      using lists_okD(2) [OF assms(1), of st'] lists_okD(2) [OF assms(1,2)] that by (simp add: cl fields)
    show "descending s' (checklist s' st')" if "st' \<in> set (ag_streams s')" for st'
    proof -
      have st': "st' \<in> set (ag_streams s)" using that by (simp add: fields)
      have "descending s (checklist s' st')"
        using lists_okD(3) [OF assms(1) st'] by (auto simp: cl intro: descending_remove1)
      then show ?thesis by (rule descending_cong) (use mem [OF st'] pr in simp)
    qed
    show "\<exists>z. ag_pairs s' q = Some z \<and> cp_stream_id z = st_id (ag_stream s' st')"
      if "st' \<in> set (ag_streams s')" "q \<in> set (checklist s' st')" for st' q
      using that mem [of st' q] lists_okD(4) [OF assms(1), of st' q] by (auto simp: fields)
    show "q < ag_next_pair s'" if "ag_pairs s' q = Some z" for q z
      using that lists_okD(5) [OF assms(1)] by (auto simp: fields split: if_splits)
    show "\<exists>st' \<in> set (ag_streams s'). q \<in> set (checklist s' st')" if "ag_pairs s' q = Some z" for q z
      using that lists_okD(6) [OF assms(1), of q z] mem by (auto simp: fields split: if_splits)
    show "distinct (ag_triggered_check_queue s')" using lists_okD(7) [OF assms(1)] by (simp add: fields)
    show "\<exists>z. ag_pairs s' q = Some z" if "q \<in> set (ag_triggered_check_queue s')" for q
      using that lists_okD(7,8) [OF assms(1)] by (auto simp: fields set_remove1_eq)
  qed
qed

lemma lists_ok_insert:
  assumes "lists_ok s" "st \<in> set (ag_streams s)" "cp_stream_id x = st_id (ag_stream s st)" "insert_pair st x s = Some (p, s')"
  shows "lists_ok s'"
proof -
  from assms(4) obtain ps where p: "p = ag_next_pair s" and ps: "insert_sorted s p x (checklist s st) = Some ps"
    and s': "s' = set_checklist st ps (s\<lparr>ag_pairs := (ag_pairs s)(p \<mapsto> x), ag_next_pair := Suc p\<rparr>)"
    by (auto simp: insert_pair_def bind_eq_Some_conv Let_def)
  have comps: "\<And>st. st_components (ag_stream s' st) = st_components (ag_stream s st)" "ag_component s' = ag_component s"
    by (simp_all add: s' set_checklist_simps)
  have fields: "ag_streams s' = ag_streams s" "\<And>st. st_id (ag_stream s' st) = st_id (ag_stream s st)"
    "ag_pairs s' = (ag_pairs s)(p \<mapsto> x)" "ag_next_pair s' = Suc p"
    "ag_triggered_check_queue s' = ag_triggered_check_queue s"
    "\<And>st'. checklist s' st' = (if st' = st then ps else checklist s st')"
    by (simp_all add: s')
  have fresh: "ag_pairs s p = None" using lists_okD(5) [OF assms(1), of p] p by (cases "ag_pairs s p") auto
  then have new: "p \<notin> set (checklist s st')" if "st' \<in> set (ag_streams s)" for st'
    using lists_okD(4) [OF assms(1) that, of p] by auto
  note ins = insert_sorted_props [OF ps fields(3) new [OF assms(2)] lists_okD(3) [OF assms(1,2)]]
  show ?thesis
  proof (rule lists_okI)
    show "cm_stream (ag_component s' c) = st'"
      if "st' \<in> set (ag_streams s')" "c \<in> set (st_components (ag_stream s' st'))" for st' c
      using lists_okD(9) [OF assms(1)] that by (simp add: comps fields)
    show "inj_on (\<lambda>st. st_id (ag_stream s' st)) (set (ag_streams s'))" using lists_okD(1) [OF assms(1)] by (simp add: fields)
    show "distinct (checklist s' st')" if "st' \<in> set (ag_streams s')" for st'
      using lists_okD(2) [OF assms(1), of st'] that ins by (auto simp: fields)
    show "descending s' (checklist s' st')" if "st' \<in> set (ag_streams s')" for st'
    proof (cases "st' = st")
      case False
      have "descending s (checklist s st')" using lists_okD(3) [OF assms(1)] that by (simp add: fields)
      then have "descending s' (checklist s st')"
        by (rule descending_cong) (use new [of st'] that in \<open>auto simp: prio_def fields\<close>)
      then show ?thesis using False by (simp add: fields)
    qed (use ins in \<open>simp add: fields\<close>)
    show "\<exists>z. ag_pairs s' q = Some z \<and> cp_stream_id z = st_id (ag_stream s' st')"
      if "st' \<in> set (ag_streams s')" "q \<in> set (checklist s' st')" for st' q
      using that ins assms(3) new [of st'] lists_okD(4) [OF assms(1), of st' q] by (auto simp: fields split: if_splits)
    show "q < ag_next_pair s'" if "ag_pairs s' q = Some z" for q z
      using that lists_okD(5) [OF assms(1), of q] p by (auto simp: fields split: if_splits)
    show "\<exists>st' \<in> set (ag_streams s'). q \<in> set (checklist s' st')" if "ag_pairs s' q = Some z" for q z
      using that lists_okD(6) [OF assms(1), of q] ins assms(2) by (auto simp: fields split: if_splits)
    show "distinct (ag_triggered_check_queue s')" using lists_okD(7) [OF assms(1)] by (simp add: fields)
    show "\<exists>z. ag_pairs s' q = Some z" if "q \<in> set (ag_triggered_check_queue s')" for q
      using that lists_okD(8) [OF assms(1)] by (auto simp: fields)
  qed
qed

lemma lists_ok_reorder:
  assumes "lists_ok s" "st \<in> set (ag_streams s)" "recalculate_stream st s = Some s'"
  shows "lists_ok s'"
proof -
  from assms(3) obtain t ps where t: "for_each recalculate_pair (checklist s st) s = Some t"
    "sort_pairs t (checklist t st) = Some ps" and s': "s' = set_checklist st ps t"
    by (auto simp: recalculate_stream_def elim!: bind_SomeE)
  note r = recalculate_pairs [OF t(1)]
  have eq: "t = s\<lparr>ag_pairs := ag_pairs t\<rparr>" using r by simp
  have t_fields: "checklist t st' = checklist s st'" "st_id (ag_stream t st') = st_id (ag_stream s st')"
    "ag_streams t = ag_streams s" "ag_next_pair t = ag_next_pair s"
    "ag_triggered_check_queue t = ag_triggered_check_queue s"
    "st_components (ag_stream t st') = st_components (ag_stream s st')" "ag_component t = ag_component s" for st'
    by (subst eq, simp)+
  have comps: "\<And>st. st_components (ag_stream s' st) = st_components (ag_stream s st)" "ag_component s' = ag_component s"
    by (simp_all add: s' t_fields)
  have fields: "ag_streams s' = ag_streams s" "\<And>st. st_id (ag_stream s' st) = st_id (ag_stream s st)"
    "ag_pairs s' = ag_pairs t" "ag_next_pair s' = ag_next_pair s"
    "ag_triggered_check_queue s' = ag_triggered_check_queue s"
    "\<And>st'. checklist s' st' = (if st' = st then ps else checklist s st')"
    by (simp_all add: s' t_fields)
  have pt: "ag_pairs t q = Some z \<longleftrightarrow> (\<exists>y. ag_pairs s q = Some y \<and> z = the (ag_pairs t q) \<and> cp_stream_id z = cp_stream_id y)" for q z
  proof -
    have "map_option cp_stream_id (ag_pairs t q) = map_option cp_stream_id (ag_pairs s q)" using r by simp
    then show ?thesis by (cases "ag_pairs t q"; cases "ag_pairs s q") auto
  qed
  have so: "set ps = set (checklist s st)" "descending t ps" "distinct ps"
    using sort_pairs_props [OF t(2)] lists_okD(2) [OF assms(1,2)] by (simp_all add: t_fields)
  show ?thesis
  proof (rule lists_okI)
    show "cm_stream (ag_component s' c) = st'"
      if "st' \<in> set (ag_streams s')" "c \<in> set (st_components (ag_stream s' st'))" for st' c
      using lists_okD(9) [OF assms(1)] that by (simp add: comps fields)
    show "inj_on (\<lambda>st. st_id (ag_stream s' st)) (set (ag_streams s'))" using lists_okD(1) [OF assms(1)] by (simp add: fields)
    show "distinct (checklist s' st')" if "st' \<in> set (ag_streams s')" for st'
      using lists_okD(2) [OF assms(1)] that so by (simp add: fields)
    show "descending s' (checklist s' st')" if "st' \<in> set (ag_streams s')" for st'
    proof (cases "st' = st")
      case True
      then show ?thesis using so(2) by (simp add: fields descending_def prio_def)
    next
      case False
      have st': "st' \<in> set (ag_streams s)" using that by (simp add: fields)
      have "descending s' (checklist s st')"
      proof (rule descending_cong [OF lists_okD(3) [OF assms(1) st']])
        fix q assume "q \<in> set (checklist s st')"
        then have "q \<notin> set (checklist s st)" using lists_disjoint [OF assms(1,2) st'] False by auto
        then show "prio s' q = prio s q" using r by (simp add: prio_def fields)
      qed
      then show ?thesis using False by (simp add: fields)
    qed
    show "\<exists>z. ag_pairs s' q = Some z \<and> cp_stream_id z = st_id (ag_stream s' st')"
      if "st' \<in> set (ag_streams s')" "q \<in> set (checklist s' st')" for st' q
    proof -
      have "q \<in> set (checklist s st')" "st' \<in> set (ag_streams s)"
        using that so(1) by (auto simp: fields split: if_splits)
      from lists_okD(4) [OF assms(1) this(2,1)] obtain y where y: "ag_pairs s q = Some y"
        "cp_stream_id y = st_id (ag_stream s st')" by auto
      have "map_option cp_stream_id (ag_pairs t q) = Some (cp_stream_id y)" using r y(1) by simp
      then show ?thesis using y(2) by (auto simp: fields)
    qed
    show "q < ag_next_pair s'" if "ag_pairs s' q = Some z" for q z
      using that lists_okD(5) [OF assms(1), of q] pt by (auto simp: fields)
    show "\<exists>st' \<in> set (ag_streams s'). q \<in> set (checklist s' st')" if "ag_pairs s' q = Some z" for q z
    proof -
      from that pt [of q z] obtain y where "ag_pairs s q = Some y" by (auto simp: fields)
      from lists_okD(6) [OF assms(1) this] show ?thesis using so(1) by (auto simp: fields)
    qed
    show "distinct (ag_triggered_check_queue s')" using lists_okD(7) [OF assms(1)] by (simp add: fields)
    show "\<exists>z. ag_pairs s' q = Some z" if "q \<in> set (ag_triggered_check_queue s')" for q
    proof -
      from that lists_okD(8) [OF assms(1), of q] obtain y where "ag_pairs s q = Some y" by (auto simp: fields)
      moreover have "map_option cp_stream_id (ag_pairs t q) = map_option cp_stream_id (ag_pairs s q)" using r by simp
      ultimately show ?thesis by (auto simp: fields)
    qed
  qed
qed

end
