(* ===== verification/Conncheck_Invariant.thy ===== *)
theory Conncheck_Invariant
  imports Conncheck_Steps
begin

text \<open>
  Every operation of the connectivity checks is a sequence of steps of \<open>cc_step\<close>. The operations are programs
  in the option monad; \<open>runs s g m\<close> says that all the results of the program \<open>m\<close>, started in the state \<open>s\<close>,
  are reached from \<open>s\<close> by steps, where \<open>g\<close> selects the state from the result. The rules of \<open>runs\<close> follow the
  shape of the program, and the collection \<open>runs_ops\<close> has one fact per operation.
\<close>

section \<open>What the steps keep\<close>

definition frame :: "NiceAgent \<Rightarrow> NiceAgent \<Rightarrow> bool" where
  "frame s u \<longleftrightarrow> ag_streams u = ag_streams s \<and> (\<forall>st. st_id (ag_stream u st) = st_id (ag_stream s st))
     \<and> (\<forall>st. st_components (ag_stream u st) = st_components (ag_stream s st))
     \<and> ag_next_pair s \<le> ag_next_pair u
     \<and> (\<forall>p y. p < ag_next_pair s \<longrightarrow> ag_pairs u p = Some y \<longrightarrow>
          (\<exists>x. ag_pairs s p = Some x \<and> cp_stream_id y = cp_stream_id x))"

lemma frame_refl: "frame s s"
  by (simp add: frame_def)

lemma frame_trans: "frame s t \<Longrightarrow> frame t u \<Longrightarrow> frame s u"
  unfolding frame_def by (metis (no_types, lifting) order.strict_trans2 order.trans)

lemma frame_recalculate:
  assumes "recalculate_stream st s = Some u"
  shows "frame s u"
proof -
  from assms obtain t ps where t: "for_each recalculate_pair (checklist s st) s = Some t" and u: "u = set_checklist st ps t"
    by (auto simp: recalculate_stream_def elim!: bind_SomeE)
  note r = recalculate_pairs [OF t]
  have eq: "t = s\<lparr>ag_pairs := ag_pairs t\<rparr>" using r by simp
  have "ag_streams t = ag_streams s" "ag_next_pair t = ag_next_pair s" by (subst eq, simp)+
  moreover have "st_id (ag_stream t st') = st_id (ag_stream s st')"
    "st_components (ag_stream t st') = st_components (ag_stream s st')" for st' by (subst eq, simp)+
  moreover have "\<exists>x. ag_pairs s p = Some x \<and> cp_stream_id y = cp_stream_id x" if "ag_pairs t p = Some y" for p y
  proof -
    have "map_option cp_stream_id (ag_pairs s p) = Some (cp_stream_id y)" using r that by (metis option.simps(9))
    then show ?thesis by auto
  qed
  ultimately show ?thesis by (simp add: frame_def u)
qed

lemma cc_step_frame:
  assumes "cc_step s u"
  shows "frame s u"
  using assms
proof cases
  case (update p x y)
  then show ?thesis by (auto simp: frame_def core_def)
next
  case dequeue
  then show ?thesis by (simp add: frame_def priv_remove_pair_from_triggered_check_queue_def)
next
  case (remove st p)
  then show ?thesis by (auto simp: frame_def remove_pair_eq_Some)
next
  case (insert st x p)
  then show ?thesis by (auto simp: frame_def insert_pair_def Let_def bind_eq_Some_conv)
qed (auto simp: frame_def same_lists_def dest: frame_recalculate)

lemma cc_step_lists_ok:
  assumes "cc_step s u" "lists_ok s"
  shows "lists_ok u"
  using assms(1)
proof cases
  case other
  then show ?thesis using assms(2) by (rule lists_ok_same_lists)
next
  case update
  then show ?thesis using lists_ok_update [OF assms(2)] by simp
next
  case enqueue
  then show ?thesis using lists_okD(7,8) [OF assms(2)] by (auto intro!: lists_ok_queue [OF assms(2)])
next
  case (dequeue p)
  have "\<exists>x. ag_pairs s q = Some x" if "q \<in> set (remove1 p (ag_triggered_check_queue s))" for q
    using that lists_okD(8) [OF assms(2), of q] by (meson notin_set_remove1)
  then show ?thesis using lists_okD(7) [OF assms(2)] unfolding dequeue priv_remove_pair_from_triggered_check_queue_def
    by (intro lists_ok_queue [OF assms(2)] distinct_remove1)
next
  case remove
  then show ?thesis using lists_ok_remove [OF assms(2)] by simp
next
  case insert
  then show ?thesis using lists_ok_insert [OF assms(2)] by simp
next
  case reorder
  then show ?thesis using lists_ok_reorder [OF assms(2)] by simp
qed

lemma cc_steps_frame: "cc_steps s u \<Longrightarrow> frame s u"
  by (induction rule: rtranclp_induct) (blast intro: frame_refl frame_trans cc_step_frame)+

lemma cc_steps_lists_ok: "cc_steps s u \<Longrightarrow> lists_ok s \<Longrightarrow> lists_ok u"
  by (induction rule: rtranclp_induct) (blast intro: cc_step_lists_ok)+

lemma cc_steps_streams:
  "cc_steps s u \<Longrightarrow> ag_streams u = ag_streams s"
  "cc_steps s u \<Longrightarrow> st_id (ag_stream u st) = st_id (ag_stream s st)"
  "cc_steps s u \<Longrightarrow> st_components (ag_stream u st) = st_components (ag_stream s st)"
  by (auto dest: cc_steps_frame simp: frame_def)

text \<open>A pair of a check list that still exists is still in that list, and a freed pair is never there again.\<close>

lemma still_listed:
  assumes "cc_steps s u" "lists_ok s" "st \<in> set (ag_streams s)" "p \<in> set (checklist s st)" "ag_pairs u p = Some y"
  shows "p \<in> set (checklist u st)"
proof -
  note ok = cc_steps_lists_ok [OF assms(1,2)] and f = cc_steps_frame [OF assms(1), unfolded frame_def]
  from lists_okD(4) [OF assms(2-4)] obtain x where x: "ag_pairs s p = Some x" "cp_stream_id x = st_id (ag_stream s st)"
    by auto
  have "p < ag_next_pair s" using lists_okD(5) [OF assms(2) x(1)] .
  with f assms(5) x have y: "cp_stream_id y = st_id (ag_stream s st)" by fastforce
  from lists_okD(6) [OF ok assms(5)] obtain st' where st': "st' \<in> set (ag_streams u)" "p \<in> set (checklist u st')" by auto
  from lists_okD(4) [OF ok st'] assms(5) y have "st_id (ag_stream u st') = st_id (ag_stream u st)" using f by auto
  then have "st' = st" using lists_okD(1) [OF ok] st'(1) assms(3) f by (auto dest: inj_onD)
  then show ?thesis using st'(2) by simp
qed

section \<open>Programs\<close>

definition runs :: "NiceAgent \<Rightarrow> ('r \<Rightarrow> NiceAgent) \<Rightarrow> 'r option \<Rightarrow> bool" where
  "runs s g m \<longleftrightarrow> (\<forall>r. m = Some r \<longrightarrow> cc_steps s (g r))"

named_theorems runs_ops

lemma runsI: "(\<And>r. m = Some r \<Longrightarrow> cc_steps s (g r)) \<Longrightarrow> runs s g m"
  by (simp add: runs_def)

lemma runsD: "runs s g m \<Longrightarrow> m = Some r \<Longrightarrow> cc_steps s (g r)"
  by (simp add: runs_def)

lemma runs_lists_ok: "runs s g m \<Longrightarrow> lists_ok s \<Longrightarrow> m = Some r \<Longrightarrow> lists_ok (g r)"
  by (blast dest: runsD cc_steps_lists_ok)

lemma runs_None: "runs s g None"
  by (simp add: runs_def)

lemma runs_Some: "cc_steps s (g r) \<Longrightarrow> runs s g (Some r)"
  by (simp add: runs_def)

lemma runs_shift: "cc_steps s u \<Longrightarrow> runs u g m \<Longrightarrow> runs s g m"
  unfolding runs_def by (blast intro: cc_steps_trans)

lemma runs_bind:
  assumes "runs s g m" "lists_ok s"
    and "\<And>r. m = Some r \<Longrightarrow> cc_steps s (g r) \<Longrightarrow> lists_ok (g r) \<Longrightarrow> ag_streams (g r) = ag_streams s
      \<Longrightarrow> (\<And>st. st_components (ag_stream (g r) st) = st_components (ag_stream s st)) \<Longrightarrow> runs (g r) h (f r)"
  shows "runs s h (m \<bind> f)"
proof (rule runsI)
  fix r assume "m \<bind> f = Some r"
  then obtain q where q: "m = Some q" "f q = Some r" by (rule bind_SomeE)
  have steps: "cc_steps s (g q)" using assms(1) q(1) by (rule runsD)
  from assms(3) [OF q(1) steps cc_steps_lists_ok [OF steps assms(2)] cc_steps_streams(1,3) [OF steps]] q(2) steps
  show "cc_steps s (h r)" by (blast dest: runsD intro: cc_steps_trans)
qed

lemmas runs_bind_state = runs_bind [where g = "\<lambda>u. u"]
lemmas runs_bind_pair = runs_bind [where g = snd]
lemmas runs_bind_triple = runs_bind [where g = "\<lambda>r. snd (snd r)"]

lemma runs_bind_pure: "(\<And>r. m = Some r \<Longrightarrow> runs s g (f r)) \<Longrightarrow> runs s g (m \<bind> f)"
  by (auto simp: runs_def elim!: bind_SomeE)

lemma runs_map_option: "runs s (\<lambda>r. g (f r)) m \<Longrightarrow> runs s g (map_option f m)"
  by (auto simp: runs_def)

lemma runs_if: "(b \<Longrightarrow> runs s g x) \<Longrightarrow> (\<not> b \<Longrightarrow> runs s g y) \<Longrightarrow> runs s g (if b then x else y)"
  by simp

lemma runs_case_option:
  "(m = None \<Longrightarrow> runs s g x) \<Longrightarrow> (\<And>a. m = Some a \<Longrightarrow> runs s g (f a)) \<Longrightarrow> runs s g (case m of None \<Rightarrow> x | Some a \<Rightarrow> f a)"
  by (cases m) auto

lemma runs_case_prod: "(\<And>a b. r = (a, b) \<Longrightarrow> runs s g (f a b)) \<Longrightarrow> runs s g (case r of (a, b) \<Rightarrow> f a b)"
  by (cases r) auto

lemma runs_let_state:
  assumes "cc_steps s u" "lists_ok s"
    and "\<And>v. lists_ok v \<Longrightarrow> cc_steps s v \<Longrightarrow> ag_streams v = ag_streams s
    \<Longrightarrow> (\<And>st. st_components (ag_stream v st) = st_components (ag_stream s st)) \<Longrightarrow> runs v g (f v)"
  shows "runs s g (Let u f)"
  using assms(1,3) cc_steps_lists_ok [OF assms(1,2)] cc_steps_streams(1,3) [OF assms(1)]
  by (auto simp: Let_def intro: runs_shift)

lemma runs_let: "runs s g (f a) \<Longrightarrow> runs s g (Let a f)"
  by (simp add: Let_def)

text \<open>Loops.\<close>

lemma runs_for_each:
  assumes "lists_ok s"
    and "\<And>u x. x \<in> set xs \<Longrightarrow> lists_ok u \<Longrightarrow> cc_steps s u \<Longrightarrow> ag_streams u = ag_streams s
      \<Longrightarrow> (\<And>st. st_components (ag_stream u st) = st_components (ag_stream s st)) \<Longrightarrow> runs u (\<lambda>u. u) (f x u)"
  shows "runs s (\<lambda>u. u) (for_each f xs s)"
proof (rule runsI)
  fix u assume r: "for_each f xs s = Some u"
  have "cc_steps s u \<and> lists_ok u"
  proof (rule for_each_invariant [OF r])
    fix x t t' assume x: "x \<in> set xs" "f x t = Some t'" "cc_steps s t \<and> lists_ok t"
    then have "runs t (\<lambda>u. u) (f x t)" using assms(2) cc_steps_streams(1,3) by blast
    then have "cc_steps t t'" using x(2) by (rule runsD)
    then show "cc_steps s t' \<and> lists_ok t'" using x(3) by (meson cc_steps_trans cc_steps_lists_ok)
  qed (use assms(1) in simp)
  then show "cc_steps s u" by simp
qed

lemma runs_for_links:
  assumes "lists_ok s"
    and "\<And>u x. x \<in> set xs \<Longrightarrow> lists_ok u \<Longrightarrow> cc_steps s u \<Longrightarrow> ag_streams u = ag_streams s \<Longrightarrow> x \<in> set (checklist u st)
      \<Longrightarrow> (\<And>st. st_components (ag_stream u st) = st_components (ag_stream s st)) \<Longrightarrow> runs u (\<lambda>u. u) (f x u)"
  shows "runs s (\<lambda>u. u) (for_links st f xs s)"
proof -
  have "runs t (\<lambda>u. u) (for_links st f ys t)" if "set ys \<subseteq> set xs" "lists_ok t" "cc_steps s t" for ys t
    using that
  proof (induction ys arbitrary: t)
    case (Cons y ys)
    have step: "runs t (\<lambda>u. u) (f y t)" if "y \<in> set (checklist t st)"
      using Cons.prems that assms(2) [of y t] cc_steps_streams(1,3) [OF Cons.prems(3)] by simp
    have "runs t (\<lambda>u. u) (for_links st f ys t)" using Cons by simp
    moreover have "runs u (\<lambda>u. u) (for_links st f ys u)" if "cc_steps t u" "lists_ok u" for u
      using Cons.IH [of u] Cons.prems that by (meson cc_steps_trans set_subset_Cons subset_trans)
    ultimately show ?case using step Cons.prems(2)
      by (auto intro!: runs_bind_state runs_if intro: runs_bind_pure [where 'a = unit])
  qed (simp add: runs_Some)
  then show ?thesis using assms(1) by blast
qed

lemmas runs_struct = runs_None runs_if runs_case_option runs_case_prod runs_map_option
lemmas runs_pure =
  runs_bind_pure [where 'a = CandidateCheckPair] runs_bind_pure [where 'a = nat] runs_bind_pure [where 'a = bool]
  runs_bind_pure [where 'a = unit] runs_bind_pure [where 'a = "nat option"] runs_bind_pure [where 'a = "'l::len word"]
  runs_let [where 'b = nat] runs_let [where 'b = bool] runs_let [where 'b = CandidateCheckPair]
  runs_let [where 'b = NiceComponent] runs_let [where 'b = "nat option"]

section \<open>Operations on one pair\<close>

lemma cc_steps_refl: "cc_steps s s"
  by simp

lemma cc_steps_fields:
  "cc_steps s u \<Longrightarrow> cc_steps s (emit e u)"
  "cc_steps s u \<Longrightarrow> (\<And>x. cm_stream (f x) = cm_stream x) \<Longrightarrow> cc_steps s (upd_component c f u)"
  "cc_steps s u \<Longrightarrow> cc_steps s (u\<lparr>ag_random := n\<rparr>)"
  "cc_steps s u \<Longrightarrow> cc_steps s (u\<lparr>ag_controlling_mode := b\<rparr>)"
  "cc_steps s u \<Longrightarrow> cc_steps s (u\<lparr>ag_grace_period := w\<rparr>)"
  "cc_steps s u \<Longrightarrow> cc_steps s (u\<lparr>ag_next_candidate_id := w\<rparr>)"
  "cc_steps s u \<Longrightarrow> cc_steps s (conn_check_stop u)"
  "cc_steps s u \<Longrightarrow> cc_steps s (conn_check_schedule_next u)"
  "cc_steps s u \<Longrightarrow> cc_steps s (nice_component_add_valid_candidate c a u)"
  "cc_steps s u \<Longrightarrow> cc_steps s (upd_stream st (\<lambda>x. x\<lparr>st_tick_counter := k x\<rparr>) u)"
  "cc_steps s u \<Longrightarrow> cc_steps s (snd (store_candidate x u))"
  by (erule cc_steps_trans, rule cc_steps_other,
      simp add: same_lists_def checklist_def emit_def upd_component_def upd_stream_def conn_check_stop_def
        conn_check_schedule_next_def nice_component_add_valid_candidate_def store_candidate_def)+

lemma cc_steps_dequeue: "cc_steps s u \<Longrightarrow> cc_steps s (priv_remove_pair_from_triggered_check_queue p u)"
  by (erule cc_steps_trans) (blast intro: cc_step.dequeue)

lemmas cc_steps_intros = cc_steps_refl cc_steps_fields cc_steps_dequeue

lemma runs_upd_pair [runs_ops]: "(\<And>x. core (f x) = core x) \<Longrightarrow> runs s (\<lambda>u. u) (upd_pair p f s)"
  by (auto simp: runs_def upd_pair_eq_Some intro: cc_step.update)

lemmas runs_rules = runs_struct runs_pure runs_bind_state runs_bind_pair runs_bind_triple runs_let_state
  runs_Some cc_steps_intros

lemma runs_enqueue [runs_ops]:
  assumes "lists_ok s"
  shows "runs s (\<lambda>u. u) (priv_add_pair_to_triggered_check_queue p s)"
  unfolding priv_add_pair_to_triggered_check_queue_def
proof (rule runs_bind_state)
  show "runs s (\<lambda>u. u) (upd_pair p (\<lambda>x. x\<lparr>cp_state := NICE_CHECK_IN_PROGRESS\<rparr>) s)"
    by (rule runs_upd_pair) (simp add: core_def)
next
  fix u assume "upd_pair p (\<lambda>x. x\<lparr>cp_state := NICE_CHECK_IN_PROGRESS\<rparr>) s = Some u"
  then obtain x where "ag_pairs u p = Some x" by (auto simp: upd_pair_eq_Some)
  then show "runs u (\<lambda>u. u) (Some (if p \<in> set (ag_triggered_check_queue u) then u
       else u\<lparr>ag_triggered_check_queue := ag_triggered_check_queue u @ [p]\<rparr>))"
    by (auto intro!: runs_Some intro: cc_step.enqueue)
qed (rule assms)

lemma runs_signal [runs_ops]:
  "runs s (\<lambda>u. u) (agent_signal_component_state_change stream_id i new s)"
  unfolding agent_signal_component_state_change_def Let_def
  by (auto intro!: runs_struct runs_Some runs_bind_pure cc_steps_intros)

lemma runs_forget [runs_ops]: "runs s (\<lambda>u. u) (priv_forget_stun_transaction c t s)"
  unfolding priv_forget_stun_transaction_def by (auto intro!: runs_struct runs_Some runs_bind_pure cc_steps_intros)

lemma runs_free_transactions [runs_ops]:
  "lists_ok s \<Longrightarrow> runs s (\<lambda>u. u) (priv_free_all_stun_transactions p c s)"
  unfolding priv_free_all_stun_transactions_def by (auto simp: core_def intro!: runs_rules runs_for_each runs_ops)

lemma runs_remove_transaction [runs_ops]:
  "lists_ok s \<Longrightarrow> runs s (\<lambda>u. u) (priv_remove_stun_transaction p k c s)"
  unfolding priv_remove_stun_transaction_def by (auto simp: core_def intro!: runs_rules runs_ops)

lemma runs_fail [runs_ops]:
  "lists_ok s \<Longrightarrow> runs s (\<lambda>u. u) (candidate_check_pair_fail st p s)"
  unfolding candidate_check_pair_fail_def by (auto simp: core_def intro!: runs_rules runs_ops)

section \<open>Operations on check lists\<close>

lemma runs_unfreeze_loop [runs_ops]:
  "lists_ok s \<Longrightarrow> runs s snd (unfreeze_loop n all found ps r s)"
proof (induction n all found ps r s rule: unfreeze_loop.induct)
  case (2 n all found p ps r s)
  then show ?case by (auto simp: core_def intro!: runs_rules runs_ops)
qed (auto intro!: runs_rules)

lemma runs_unfreeze_next [runs_ops]: "lists_ok s \<Longrightarrow> runs s snd (priv_conn_check_unfreeze_next st s)"
  unfolding priv_conn_check_unfreeze_next_def by (rule runs_unfreeze_loop)

lemma runs_unfreeze_matching [runs_ops]:
  "lists_ok s \<Longrightarrow> runs s snd (unfreeze_matching b st ps m s)"
proof (induction b st ps m s rule: unfreeze_matching.induct)
  case (2 b st p ps m s)
  then show ?case by (auto simp: core_def intro!: runs_rules runs_ops)
qed (auto intro!: runs_rules)

lemma runs_unfreeze_other [runs_ops]: "lists_ok s \<Longrightarrow> runs s (\<lambda>u. u) (unfreeze_other_stream i st other s)"
  unfolding unfreeze_other_stream_def by (auto intro!: runs_rules runs_ops)

lemma runs_unfreeze_same [runs_ops]: "lists_ok s \<Longrightarrow> runs s (\<lambda>u. u) (unfreeze_same_foundation ok p s)"
  unfolding unfreeze_same_foundation_def by (auto simp: core_def intro!: runs_rules runs_ops)

lemma runs_unfreeze_related [runs_ops]: "lists_ok s \<Longrightarrow> runs s (\<lambda>u. u) (priv_conn_check_unfreeze_related st p s)"
  unfolding priv_conn_check_unfreeze_related_def by (auto intro!: runs_rules runs_for_each runs_ops)

lemma runs_remove_pair:
  assumes "lists_ok s" "st \<in> set (ag_streams s)" "p \<in> set (checklist s st)"
  shows "runs s (\<lambda>u. u) (remove_pair st p s)"
  using assms by (auto simp: runs_def intro: cc_step.remove)

text \<open>A pair of an earlier check list that the loop still finds.\<close>

lemma runs_remove_listed:
  assumes "lists_ok s" "st \<in> set (ag_streams s)" "p \<in> set (checklist s st)" "cc_steps s u"
  shows "runs u (\<lambda>u. u) (remove_pair st p u)"
proof (rule runsI)
  fix v assume r: "remove_pair st p u = Some v"
  then obtain x where "ag_pairs u p = Some x" by (auto simp: remove_pair_eq_Some)
  then have "p \<in> set (checklist u st)" using still_listed assms by blast
  then show "cc_steps u v"
    using runs_remove_pair [OF cc_steps_lists_ok [OF assms(4,1)], of st p] cc_steps_streams(1) [OF assms(4)] assms(2) r
    by (simp add: runs_def)
qed

lemma runs_limit [runs_ops]:
  assumes "lists_ok s" "st \<in> set (ag_streams s)"
  shows "runs s (\<lambda>u. u) (priv_limit_conn_check_list_size st n s)"
  unfolding priv_limit_conn_check_list_size_def
  using assms by (auto intro!: runs_for_each intro: runs_remove_listed dest: in_set_dropD)

lemma runs_prune_loop:
  assumes "lists_ok s" "st \<in> set (ag_streams s)" "set ps \<subseteq> set (checklist s st)" "cc_steps s u"
  shows "runs u snd (prune_loop st i h ps n u)"
  using assms(3,4)
proof (induction ps arbitrary: n u i)
  case (Cons p ps)
  have ok: "lists_ok u" by (rule cc_steps_lists_ok [OF Cons.prems(2) assms(1)])
  have rem: "runs u (\<lambda>u. u) (remove_pair st p u)" using runs_remove_listed [OF assms(1,2) _ Cons.prems(2)] Cons.prems(1) by simp
  have IH: "runs v snd (prune_loop st j h ps m v)" if "cc_steps u v" for v m j
    using Cons.IH [of v j m] Cons.prems cc_steps_trans [OF Cons.prems(2) that] by simp
  show ?case using ok rem by (auto simp: core_def intro!: runs_rules runs_ops IH)
qed (auto intro!: runs_rules)

lemma runs_prune_pending [runs_ops]:
  "lists_ok s \<Longrightarrow> st \<in> set (ag_streams s) \<Longrightarrow> runs s snd (priv_prune_pending_checks st i s)"
  unfolding priv_prune_pending_checks_def by (auto intro!: runs_rules runs_prune_loop)

lemma runs_prune_socket_pair:
  assumes "lists_ok s" "st \<in> set (ag_streams s)" "p \<in> set (checklist s st)" "cc_steps s u"
  shows "runs u (\<lambda>u. u) (prune_socket_pair st sock p u)"
proof -
  have ok: "lists_ok u" by (rule cc_steps_lists_ok [OF assms(4,1)])
  have "runs v (\<lambda>u. u) (remove_pair st p v)" if "cc_steps u v" for v
    using runs_remove_listed [OF assms(1-3)] cc_steps_trans [OF assms(4) that] .
  with ok show ?thesis unfolding prune_socket_pair_def by (auto intro!: runs_rules runs_ops)
qed

lemma runs_prune_socket [runs_ops]:
  assumes "lists_ok s" "st \<in> set (ag_streams s)"
  shows "runs s (\<lambda>u. u) (conn_check_prune_socket st c sock s)"
  unfolding conn_check_prune_socket_def using assms
  by (auto intro!: runs_rules runs_ops runs_for_each intro: runs_prune_socket_pair)

text \<open>Freeing the pairs of a list and then the list is removing its pairs one by one.\<close>

lemma free_item_set_checklist:
  "conn_check_free_item p (set_checklist st qs s) = map_option (set_checklist st qs) (conn_check_free_item p s)"
  by (cases "ag_pairs s p") (simp_all add: conn_check_free_item_def priv_free_all_stun_transactions_def upd_pair_def
      set_checklist_def upd_stream_def priv_remove_pair_from_triggered_check_queue_def Let_def)

lemma free_as_remove:
  "for_each (remove_pair st) ps (set_checklist st (ps @ qs) s)
     = map_option (set_checklist st qs) (for_each conn_check_free_item ps s)"
proof (induction ps arbitrary: s)
  case (Cons p ps)
  have twice: "set_checklist st xs (set_checklist st ys u) = set_checklist st xs u" for xs ys u
    by (simp add: set_checklist_def upd_stream_def)
  have "remove_pair st p (set_checklist st (p # ps @ qs) s) = map_option (set_checklist st (ps @ qs)) (conn_check_free_item p s)"
    by (cases "conn_check_free_item p s") (simp_all add: remove_pair_def free_item_set_checklist twice)
  then show ?case by (cases "conn_check_free_item p s") (simp_all add: Cons.IH)
qed simp

lemma free_checklist_removes: "free_checklist st s = for_each (remove_pair st) (checklist s st) s"
proof -
  have same: "set_checklist st (checklist s st) s = s"
    by (simp add: set_checklist_def upd_stream_def checklist_def)
  have "for_each (remove_pair st) (checklist s st) s = map_option (set_checklist st []) (for_each conn_check_free_item (checklist s st) s)"
    using free_as_remove [of st "checklist s st" "[]" s] by (simp add: same)
  then show ?thesis by (cases "for_each conn_check_free_item (checklist s st) s") (simp_all add: free_checklist_def)
qed

lemma runs_free_checklist [runs_ops]:
  assumes "lists_ok s" "st \<in> set (ag_streams s)"
  shows "runs s (\<lambda>u. u) (free_checklist st s)"
  unfolding free_checklist_removes using assms by (auto intro!: runs_for_each intro: runs_remove_listed)

lemma runs_free [runs_ops]:
  assumes "lists_ok s"
  shows "runs s (\<lambda>u. u) (conn_check_free s)"
proof -
  have "runs s (\<lambda>u. u) (for_each free_checklist (ag_streams s) s)" using assms by (auto intro!: runs_for_each runs_ops)
  then show ?thesis unfolding conn_check_free_def by (auto simp: runs_def intro: cc_steps_intros)
qed

lemma runs_prune_stream [runs_ops]:
  "lists_ok s \<Longrightarrow> st \<in> set (ag_streams s) \<Longrightarrow> runs s (\<lambda>u. u) (conn_check_prune_stream st s)"
  unfolding conn_check_prune_stream_def by (auto intro!: runs_rules runs_ops)

section \<open>The selected pair and the state of the components\<close>

lemma agent_find_component_in:
  "agent_find_component s i j = Some (st, c) \<Longrightarrow> st \<in> set (ag_streams s) \<and> st_id (ag_stream s st) = i
     \<and> c \<in> set (st_components (ag_stream s st))"
  by (auto simp: agent_find_component_def agent_find_stream_def nice_stream_find_component_by_id_def find_Some_iff
      split: option.splits)

lemma agent_find_stream_in:
  "agent_find_stream s i = Some st \<Longrightarrow> st \<in> set (ag_streams s) \<and> st_id (ag_stream s st) = i"
  by (auto simp: agent_find_stream_def find_Some_iff)

lemma runs_component_selected [runs_ops]:
  "lists_ok s \<Longrightarrow> st \<in> set (ag_streams s) \<Longrightarrow> c \<in> set (st_components (ag_stream s st))
    \<Longrightarrow> runs s (\<lambda>u. u) (nice_component_update_selected_pair c pair s)"
  unfolding nice_component_update_selected_pair_def
  by (auto simp: lists_okD(9) intro!: runs_rules runs_ops)

lemma runs_selected [runs_ops]:
  "lists_ok s \<Longrightarrow> st \<in> set (ag_streams s) \<Longrightarrow> c \<in> set (st_components (ag_stream s st))
    \<Longrightarrow> runs s (\<lambda>u. u) (priv_update_selected_pair c p s)"
  unfolding priv_update_selected_pair_def by (auto intro!: runs_rules runs_component_selected)

lemma runs_fail_component [runs_ops]: "lists_ok s \<Longrightarrow> runs s (\<lambda>u. u) (fail_component st i s)"
  unfolding fail_component_def Let_def by (auto intro!: runs_rules runs_ops intro: runs_bind_pure)

lemma runs_failed_components [runs_ops]:
  "lists_ok s \<Longrightarrow> runs s (\<lambda>u. u) (priv_update_check_list_failed_components st s)"
  unfolding priv_update_check_list_failed_components_def by (auto intro!: runs_rules runs_ops runs_for_each)

lemma runs_signal_ready [runs_ops]: "lists_ok s \<Longrightarrow> runs s (\<lambda>u. u) (signal_ready st c s)"
  unfolding signal_ready_def Let_def by (auto intro!: runs_rules runs_ops)

lemma runs_for_ready [runs_ops]:
  "lists_ok s \<Longrightarrow> st \<in> set (ag_streams s) \<Longrightarrow> runs s (\<lambda>u. u) (priv_update_check_list_state_for_ready st c s)"
  unfolding priv_update_check_list_state_for_ready_def by (auto intro!: runs_rules runs_ops)

lemma runs_nominate_valid [runs_ops]:
  "lists_ok s \<Longrightarrow> st \<in> set (ag_streams s) \<Longrightarrow> c \<in> set (st_components (ag_stream s st))
    \<Longrightarrow> runs s (\<lambda>u. u) (nominate_valid st c p s)"
  unfolding nominate_valid_def Let_def by (auto intro!: runs_rules runs_ops)

lemma runs_mark_nominated_pair [runs_ops]:
  "lists_ok s \<Longrightarrow> st \<in> set (ag_streams s) \<Longrightarrow> c \<in> set (st_components (ag_stream s st))
    \<Longrightarrow> runs s (\<lambda>u. u) (mark_nominated_pair st c l r p s)"
  unfolding mark_nominated_pair_def by (auto simp: core_def Let_def intro!: runs_rules runs_ops)

lemma runs_mark_nominated [runs_ops]:
  "lists_ok s \<Longrightarrow> st \<in> set (ag_streams s) \<Longrightarrow> c \<in> set (st_components (ag_stream s st))
    \<Longrightarrow> runs s (\<lambda>u. u) (priv_mark_pair_nominated st c l r s)"
  unfolding priv_mark_pair_nominated_def by (auto intro!: runs_rules runs_ops runs_for_links)

section \<open>New pairs\<close>

lemma runs_insert_pair:
  "st \<in> set (ag_streams s) \<Longrightarrow> cp_stream_id x = st_id (ag_stream s st) \<Longrightarrow> runs s snd (insert_pair st x s)"
  by (auto simp: runs_def intro: cc_step.insert)

lemma runs_add_new [runs_ops]:
  "lists_ok s \<Longrightarrow> runs s snd (priv_add_new_check_pair env stream_id c l r state s)"
  unfolding priv_add_new_check_pair_def
  by (auto simp: new_pair_def intro!: runs_rules runs_ops runs_insert_pair dest!: agent_find_stream_in)

lemma runs_add_matched [runs_ops]:
  "lists_ok s \<Longrightarrow> runs s snd (priv_conn_check_add_for_candidate_pair_matched env stream_id c l r state s)"
  unfolding priv_conn_check_add_for_candidate_pair_matched_def by (auto intro!: runs_rules runs_ops)

lemma runs_add_for_pair [runs_ops]:
  "lists_ok s \<Longrightarrow> runs s snd (conn_check_add_for_candidate_pair env stream_id c l r s)"
  unfolding conn_check_add_for_candidate_pair_def Let_def by (auto intro!: runs_rules runs_ops)

lemma runs_add_pairs [runs_ops]: "lists_ok s \<Longrightarrow> runs s snd (add_pairs env stream_id c lrs n s)"
proof (induction env stream_id c lrs n s rule: add_pairs.induct)
  case (2 env stream_id c l r lrs n s)
  then show ?case by (auto intro!: runs_rules runs_ops)
qed (auto intro!: runs_rules)

lemma runs_add_for_candidate [runs_ops]:
  "lists_ok s \<Longrightarrow> runs s snd (conn_check_add_for_candidate env stream_id c r s)"
  "lists_ok s \<Longrightarrow> runs s snd (conn_check_add_for_local_candidate env stream_id c l s)"
  unfolding conn_check_add_for_candidate_def conn_check_add_for_local_candidate_def by (auto intro!: runs_rules runs_ops)

section \<open>Sending and the timer\<close>

lemma runs_connect [runs_ops]: "lists_ok s \<Longrightarrow> runs s (\<lambda>u. u) (connect_pair_socket env p c s)"
  unfolding connect_pair_socket_def by (auto simp: core_def intro!: runs_rules runs_ops)

lemma runs_send [runs_ops]: "lists_ok s \<Longrightarrow> runs s snd (conn_check_send env p s)"
  unfolding conn_check_send_def
  by (auto simp: core_def split_def intro!: runs_rules runs_ops runs_let [where 'b = bytes] runs_let [where 'b = "bytes option"]
      runs_let [where 'b = StunTransaction] runs_let [where 'b = NiceAddress]
      runs_bind_pure [where 'a = "nat \<times> stun_agent \<times> stun_message"] runs_bind_pure [where 'a = "timeval \<times> StunTimer"])

lemma runs_initiate [runs_ops]: "lists_ok s \<Longrightarrow> runs s (\<lambda>u. u) (priv_conn_check_initiate env p s)"
  unfolding priv_conn_check_initiate_def by (auto simp: core_def split_def intro!: runs_rules runs_ops)

lemma runs_tick_later [runs_ops]: "lists_ok s \<Longrightarrow> runs s (\<lambda>u. u) (tick_later_transactions now p c s)"
  unfolding tick_later_transactions_def Let_def by (auto simp: core_def intro!: runs_rules runs_ops runs_for_each)

lemma runs_case_timer:
  "(r = STUN_USAGE_TIMER_RETURN_SUCCESS \<Longrightarrow> runs s g a) \<Longrightarrow> (r \<noteq> STUN_USAGE_TIMER_RETURN_SUCCESS \<Longrightarrow> runs s g b)
    \<Longrightarrow> runs s g (case r of STUN_USAGE_TIMER_RETURN_SUCCESS \<Rightarrow> a | _ \<Rightarrow> b)"
  by (cases r) auto

lemma runs_tick_first [runs_ops]:
  "lists_ok s \<Longrightarrow> st \<in> set (ag_streams s) \<Longrightarrow> runs s (\<lambda>r. snd (snd r)) (tick_first_transaction env st p c s)"
  unfolding tick_first_transaction_def set_first_transaction_def
  by (auto simp: core_def split_def intro!: runs_case_timer runs_rules runs_ops runs_let [where 'b = StunTransaction]
      runs_let [where 'b = timeval] runs_let [where 'b = "StunUsageTimerReturn \<times> StunTimer"]
      runs_bind_pure [where 'a = stun_message])

lemma runs_tick_transactions [runs_ops]:
  "lists_ok s \<Longrightarrow> st \<in> set (ag_streams s) \<Longrightarrow> runs s (\<lambda>r. snd (snd r)) (tick_transactions env st ps keep s)"
proof (induction env st ps keep s rule: tick_transactions.induct)
  case (2 env st p ps keep s)
  then show ?case by (auto intro!: runs_rules runs_ops)
qed (auto intro!: runs_rules)

lemma runs_tick_stream [runs_ops]:
  "lists_ok s \<Longrightarrow> st \<in> set (ag_streams s) \<Longrightarrow> runs s snd (priv_conn_check_tick_stream env st s)"
  unfolding priv_conn_check_tick_stream_def by (auto simp: core_def intro!: runs_rules runs_ops)

lemma runs_nominate_regular [runs_ops]: "lists_ok s \<Longrightarrow> runs s snd (nominate_regular st c s)"
  unfolding nominate_regular_def by (auto simp: core_def intro!: runs_rules runs_ops)

lemma runs_nominate_legacy [runs_ops]:
  "lists_ok s \<Longrightarrow> st \<in> set (ag_streams s) \<Longrightarrow> c \<in> set (st_components (ag_stream s st))
    \<Longrightarrow> runs s snd (nominate_legacy st c s)"
  unfolding nominate_legacy_def by (auto simp: core_def intro!: runs_rules runs_ops)

lemma runs_nominate_components:
  assumes "lists_ok s"
    and "\<And>u c. c \<in> set cs \<Longrightarrow> lists_ok u \<Longrightarrow> ag_streams u = ag_streams s
      \<Longrightarrow> (\<And>st. st_components (ag_stream u st) = st_components (ag_stream s st)) \<Longrightarrow> runs u snd (f c u)"
  shows "runs s snd (nominate_components f cs keep s)"
  using assms
proof (induction cs arbitrary: s keep)
  case (Cons c cs)
  then show ?case by (auto intro!: runs_rules)
qed (auto intro!: runs_rules)

lemma runs_nominate [runs_ops]:
  "lists_ok s \<Longrightarrow> st \<in> set (ag_streams s) \<Longrightarrow> runs s snd (priv_conn_check_tick_stream_nominate st s)"
  unfolding priv_conn_check_tick_stream_nominate_def
  by (auto intro!: runs_rules runs_nominate_components runs_nominate_regular runs_nominate_legacy)

lemma runs_tick_streams [runs_ops]:
  "lists_ok s \<Longrightarrow> set sts \<subseteq> set (ag_streams s) \<Longrightarrow> runs s snd (tick_streams env sts keep s)"
proof (induction env sts keep s rule: tick_streams.induct)
  case (2 env st sts keep s)
  then show ?case by (auto intro!: runs_rules runs_ops)
qed (auto intro!: runs_rules)

lemma runs_unfreeze_streams [runs_ops]: "lists_ok s \<Longrightarrow> runs s snd (unfreeze_streams sts keep s)"
proof (induction sts keep s rule: unfreeze_streams.induct)
  case (2 st sts keep s)
  then show ?case by (auto intro!: runs_rules runs_ops)
qed (auto intro!: runs_rules)

lemma runs_finish_stream [runs_ops]:
  "lists_ok s \<Longrightarrow> st \<in> set (ag_streams s) \<Longrightarrow> runs s (\<lambda>u. u) (finish_stream st s)"
  unfolding finish_stream_def by (auto intro!: runs_rules runs_ops runs_for_each)

lemma runs_tick_start [runs_ops]: "lists_ok s \<Longrightarrow> runs s (\<lambda>u. u) (tick_start s)"
  unfolding tick_start_def by (auto intro!: runs_rules runs_ops)

lemma runs_tick_end [runs_ops]: "lists_ok s \<Longrightarrow> runs s snd (tick_end keep s)"
  unfolding tick_end_def by (auto intro!: runs_rules runs_ops runs_for_each)

lemma runs_dequeue_pair: "cc_steps s (snd (priv_get_pair_from_triggered_check_queue s))"
  by (auto simp: priv_get_pair_from_triggered_check_queue_def intro: cc_steps_intros split: list.splits)

lemma runs_tick [runs_ops]:
  assumes "lists_ok s"
  shows "runs s snd (priv_conn_check_tick_unlocked env s)"
  unfolding priv_conn_check_tick_unlocked_def
proof (rule runs_bind_state [OF runs_tick_start [OF assms] assms])
  fix u assume ok: "lists_ok u"
  obtain q v where q: "priv_get_pair_from_triggered_check_queue u = (q, v)" by fastforce
  have v: "cc_steps u v" using runs_dequeue_pair [of u] q by simp
  have okv: "lists_ok v" by (rule cc_steps_lists_ok [OF v ok])
  show "runs u snd (let (pair, s) = priv_get_pair_from_triggered_check_queue u in
      case pair of Some p \<Rightarrow> do { (_, s) \<leftarrow> conn_check_send env p s; Some (True, s) }
      | None \<Rightarrow> do { (keep, s) \<leftarrow> tick_streams env (ag_streams s) False s; tick_end keep s })"
    unfolding q Let_def prod.case by (rule runs_shift [OF v]) (use okv in \<open>auto intro!: runs_rules runs_ops\<close>)
qed

section \<open>New candidates\<close>

lemma runs_let_pair:
  assumes "cc_steps s (snd r)" "lists_ok s"
    and "\<And>a u. r = (a, u) \<Longrightarrow> lists_ok u \<Longrightarrow> cc_steps s u \<Longrightarrow> ag_streams u = ag_streams s
      \<Longrightarrow> (\<And>st. st_components (ag_stream u st) = st_components (ag_stream s st)) \<Longrightarrow> runs u g (f a u)"
  shows "runs s g (let (a, u) = r in f a u)"
  using assms by (cases r) (auto simp: Let_def intro: runs_shift cc_steps_lists_ok dest: cc_steps_streams)

lemma runs_add_pruned [runs_ops]:
  "lists_ok s \<Longrightarrow> runs s snd (priv_add_local_candidate_pruned env stream_id c a s)"
  unfolding priv_add_local_candidate_pruned_def
  by (intro runs_rules runs_let [where 'b = NiceCandidate] runs_ops) (auto intro: cc_steps_intros)

lemma steps_credentials: "cc_steps s (snd (priv_generate_candidate_credentials env s x))"
  by (auto simp: priv_generate_candidate_credentials_def intro: cc_steps_intros split: NiceCompatibility.splits)

lemma steps_foundation: "cc_steps s (snd (priv_assign_foundation s x))"
  by (auto simp: priv_assign_foundation_def intro: cc_steps_intros split: option.splits)

lemma steps_store: "cc_steps s (snd (store_candidate x s))"
  by (intro cc_steps_intros)

lemma runs_prepare [runs_ops]: "lists_ok s \<Longrightarrow> runs s snd (prepare_candidate env c b adjust x s)"
  unfolding prepare_candidate_def
  by (intro runs_rules runs_let_pair steps_credentials steps_foundation)

lemma runs_host [runs_ops]:
  "lists_ok s \<Longrightarrow> runs s (\<lambda>r. snd (snd r)) (discovery_add_local_host_candidate env i j address transport sock s)"
  unfolding discovery_add_local_host_candidate_def
  by (auto intro!: runs_rules runs_ops runs_let_pair steps_store)

lemma runs_server_reflexive [runs_ops]:
  "lists_ok s \<Longrightarrow> runs s snd (discovery_add_server_reflexive_candidate env i j address transport sock b s)"
  unfolding discovery_add_server_reflexive_candidate_def by (auto intro!: runs_rules runs_ops runs_let_pair steps_store)

lemma runs_tcp_server_reflexive [runs_ops]:
  "lists_ok s \<Longrightarrow> runs s (\<lambda>u. u) (tcp_server_reflexive env i j base address ns s)"
proof (induction env i j base address ns s rule: tcp_server_reflexive.induct)
  case (2 env i j base address n ns s)
  then show ?case unfolding tcp_server_reflexive.simps Let_def by (auto intro!: runs_rules runs_ops)
qed (auto intro!: runs_rules)

lemma runs_discover_tcp [runs_ops]:
  "lists_ok s \<Longrightarrow> runs s (\<lambda>u. u) (discovery_discover_tcp_server_reflexive_candidates env i j address sock s)"
  unfolding discovery_discover_tcp_server_reflexive_candidates_def by (auto intro!: runs_rules runs_ops)

lemma runs_relay [runs_ops]:
  "lists_ok s \<Longrightarrow> runs s snd (discovery_add_relay_candidate env i j address transport sock relay turn s)"
  unfolding discovery_add_relay_candidate_def by (auto intro!: runs_rules runs_ops runs_let_pair steps_store)

lemma runs_peer_reflexive [runs_ops]:
  "lists_ok s \<Longrightarrow> runs s snd (discovery_add_peer_reflexive_candidate env i j address sock l r s)"
  unfolding discovery_add_peer_reflexive_candidate_def
  by (auto intro!: runs_rules runs_ops runs_let_pair steps_store steps_foundation runs_let [where 'b = NiceCandidate]
      runs_let [where 'b = "NiceCandidate option"] runs_bind_pure [where 'a = NiceCandidate])

lemma runs_learn [runs_ops]:
  "lists_ok s \<Longrightarrow> runs s snd (discovery_learn_remote_peer_reflexive_candidate env st c priority address sock l r s)"
  unfolding discovery_learn_remote_peer_reflexive_candidate_def
  by (intro runs_rules runs_ops runs_let_pair steps_store runs_let [where 'b = NiceCandidate]
      runs_let [where 'b = "NiceCandidate option"] runs_bind_pure [where 'a = NiceCandidate]) (auto intro: cc_steps_intros)

section \<open>Incoming checks and responses\<close>

lemma runs_trigger [runs_ops]:
  "lists_ok s \<Longrightarrow> st \<in> set (ag_streams s) \<Longrightarrow> runs s (\<lambda>u. u) (trigger_pair env st c p s)"
  unfolding trigger_pair_def
  by (auto intro!: runs_rules runs_ops split: NiceCheckState.splits)

lemma runs_schedule_triggered [runs_ops]:
  "lists_ok s \<Longrightarrow> st \<in> set (ag_streams s) \<Longrightarrow> runs s snd (priv_schedule_triggered_check env st c sock r s)"
  unfolding priv_schedule_triggered_check_def by (auto intro!: runs_rules runs_ops)

lemma runs_reply [runs_ops]:
  "lists_ok s \<Longrightarrow> st \<in> set (ag_streams s) \<Longrightarrow> c \<in> set (st_components (ag_stream s st))
    \<Longrightarrow> runs s (\<lambda>u. u) (priv_reply_to_conn_check env st c l r addr sock reply b s)"
  unfolding priv_reply_to_conn_check_def
  by (intro runs_rules runs_ops) (auto intro!: runs_rules runs_ops)

lemma steps_store_pending: "cc_steps s (snd (priv_store_pending_check c from sock username priority b s))"
  by (auto simp: priv_store_pending_check_def intro: cc_steps_intros)

lemma runs_recalculate_stream [runs_ops]:
  "st \<in> set (ag_streams s) \<Longrightarrow> runs s (\<lambda>u. u) (recalculate_stream st s)"
  by (auto simp: runs_def intro: cc_step.reorder)

lemma runs_recalculate [runs_ops]: "lists_ok s \<Longrightarrow> runs s (\<lambda>u. u) (priv_recalculate_pair_priorities s)"
  unfolding priv_recalculate_pair_priorities_def by (auto intro!: runs_for_each runs_ops)

lemma runs_role_conflict [runs_ops]:
  assumes "lists_ok s"
  shows "runs s (\<lambda>u. u) (priv_check_for_role_conflict b s)"
proof -
  have u: "cc_steps s (s\<lparr>ag_controlling_mode := b\<rparr>)" by (intro cc_steps_intros)
  have "runs s (\<lambda>u. u) (priv_recalculate_pair_priorities (s\<lparr>ag_controlling_mode := b\<rparr>))"
    by (rule runs_shift [OF u]) (rule runs_recalculate [OF cc_steps_lists_ok [OF u assms]])
  then show ?thesis unfolding priv_check_for_role_conflict_def by (intro runs_if runs_Some cc_steps_refl)
qed

lemma runs_add_peer_reflexive_pair [runs_ops]:
  "lists_ok s \<Longrightarrow> runs s snd (priv_add_peer_reflexive_pair env i c l p s)"
  unfolding priv_add_peer_reflexive_pair_def
  by (auto simp: core_def new_pair_def cc_steps_streams intro!: runs_rules runs_ops runs_insert_pair dest!: agent_find_stream_in)

lemma runs_succeed [runs_ops]: "lists_ok s \<Longrightarrow> runs s (\<lambda>u. u) (succeed_pair p c s)"
proof -
  assume ok: "lists_ok s"
  have free: "runs u (\<lambda>u. u) (priv_free_all_stun_transactions p (Some c) (priv_remove_pair_from_triggered_check_queue p u))"
    if "lists_ok u" for u
    by (rule runs_shift [OF cc_steps_dequeue [OF cc_steps_refl]])
      (rule runs_free_transactions [OF cc_steps_lists_ok [OF cc_steps_dequeue [OF cc_steps_refl] that]])
  show ?thesis unfolding succeed_pair_def using ok by (auto simp: core_def intro!: runs_rules runs_ops free)
qed

lemma runs_check_for_reflexive [runs_ops]:
  "lists_ok s \<Longrightarrow> runs s snd (priv_process_response_check_for_reflexive env st c p sock mapped l r s)"
  unfolding priv_process_response_check_for_reflexive_def
  by (intro runs_rules runs_ops) (auto simp: core_def intro!: runs_rules runs_ops split: option.splits)

lemma runs_response_succeeded [runs_ops]:
  "lists_ok s \<Longrightarrow> st \<in> set (ag_streams s) \<Longrightarrow> c \<in> set (st_components (ag_stream s st))
    \<Longrightarrow> runs s (\<lambda>u. u) (response_succeeded env st c p sock res mapped l r s)"
  unfolding response_succeeded_def by (auto simp: core_def intro!: runs_rules runs_ops)

lemma runs_reply_to_request [runs_ops]:
  "lists_ok s \<Longrightarrow> st \<in> set (ag_streams s) \<Longrightarrow> c \<in> set (st_components (ag_stream s st))
    \<Longrightarrow> runs s snd (priv_map_reply_to_conn_check_request env st c sock from l r resp s)"
  unfolding priv_map_reply_to_conn_check_request_def
  by (intro runs_rules runs_ops runs_bind_pure [where 'a = bytes] runs_bind_pure [where 'a = "(nat \<times> nat) option"]
      runs_bind_pure [where 'a = stun_message] runs_bind_pure [where 'a = "'e + 'w"]
      runs_bind_pure [where 'a = "StunUsageIceReturn \<times> sockaddr \<times> 'n"]) (auto intro: cc_steps_intros)

end
