(* ===== verification/Conncheck_Network.thy ===== *)
theory Conncheck_Network
  imports Conncheck_Invariant
begin

text \<open>
  The ways in which the peer reaches the connectivity checks, as sequences of steps of \<open>cc_step\<close>: remote candidates and
  session descriptions, and STUN messages.
\<close>

section \<open>Remote candidates\<close>

lemma cc_steps_remote:
  "cc_steps s u \<Longrightarrow> cc_steps s (upd_candidate n f u)"
  "cc_steps s u \<Longrightarrow> cc_steps s (u\<lparr>ag_nomination_mode := m\<rparr>)"
  "cc_steps s u \<Longrightarrow> cc_steps s (upd_stream st (\<lambda>x. x\<lparr>st_remote_ufrag := v\<rparr>) u)"
  "cc_steps s u \<Longrightarrow> cc_steps s (upd_stream st (\<lambda>x. x\<lparr>st_remote_password := v\<rparr>) u)"
  by (erule cc_steps_trans, rule cc_steps_other, simp add: same_lists_def checklist_def upd_candidate_def upd_stream_def)+

lemma runs_pair_remote [runs_ops]: "lists_ok s \<Longrightarrow> runs s snd (pair_remote_candidate env i c n s)"
  unfolding pair_remote_candidate_def by (auto intro!: runs_rules runs_ops)

lemma runs_new_remote [runs_ops]: "lists_ok s \<Longrightarrow> runs s snd (new_remote_candidate env i j c d s)"
  unfolding new_remote_candidate_def
  by (intro runs_if runs_Some runs_let_pair steps_store runs_let_state runs_ops) (auto intro: cc_steps_intros cc_steps_remote)

lemma runs_add_remote [runs_ops]: "lists_ok s \<Longrightarrow> runs s snd (priv_add_remote_candidate env i j d s)"
  unfolding priv_add_remote_candidate_def
  by (intro runs_struct runs_Some runs_let_state runs_ops) (auto intro: cc_steps_intros cc_steps_remote)

lemma runs_add_remotes [runs_ops]: "lists_ok s \<Longrightarrow> runs s snd (add_remote_candidates env i j ds n s)"
proof (induction env i j ds n s rule: add_remote_candidates.induct)
  case (2 env i j d ds n s)
  then show ?case by (auto intro!: runs_rules runs_ops)
qed (auto intro!: runs_rules)

lemma runs_set_remote [runs_ops]: "lists_ok s \<Longrightarrow> runs s snd (set_remote_candidates_locked env st c ds s)"
  unfolding set_remote_candidates_locked_def by (auto intro!: runs_rules runs_ops)

lemma runs_set_remote_candidates [runs_ops]: "lists_ok s \<Longrightarrow> runs s snd (nice_agent_set_remote_candidates env i j ds s)"
  unfolding nice_agent_set_remote_candidates_def by (auto intro!: runs_rules runs_ops)

lemma runs_sdp_lines [runs_ops]: "lists_ok s \<Longrightarrow> runs s snd (parse_sdp_lines env gai ls cur rest ret s)"
proof (induction ls arbitrary: cur rest ret s)
  case (Cons l ls)
  have upd: "runs s snd (parse_sdp_lines env gai ls cur rest ret u)" if "cc_steps s u" for cur rest ret u
    using runs_shift [OF that Cons.IH [OF cc_steps_lists_ok [OF that Cons.prems]]] .
  show ?case unfolding parse_sdp_lines.simps
    by (cases rest) (auto intro!: runs_struct runs_Some cc_steps_refl runs_bind_pair runs_ops Cons.prems Cons.IH
        upd [OF cc_steps_remote(3) [OF cc_steps_refl]] upd [OF cc_steps_remote(4) [OF cc_steps_refl]])
qed (auto intro!: runs_rules)

lemma runs_parse_sdp [runs_ops]: "lists_ok s \<Longrightarrow> runs s snd (nice_agent_parse_remote_sdp env gai sdp s)"
  unfolding nice_agent_parse_remote_sdp_def by (auto intro!: runs_rules runs_ops)

section \<open>Inbound messages\<close>

lemma runs_inbound_validate [runs_ops]: "lists_ok s \<Longrightarrow> runs s snd (inbound_validate env st c buf ds rs s)"
  unfolding inbound_validate_def Let_def by (auto simp: runs_def intro!: cc_steps_intros elim!: bind_SomeE)

lemma runs_inbound_error [runs_ops]: "lists_ok s \<Longrightarrow> runs s (\<lambda>u. u) (inbound_error env c sock from err req s)"
  unfolding inbound_error_def Let_def by (auto simp: runs_def intro!: cc_steps_intros elim!: bind_SomeE split: if_splits)

lemma runs_inbound_unknown [runs_ops]: "lists_ok s \<Longrightarrow> runs s (\<lambda>u. u) (inbound_unknown env c sock from req s)"
  unfolding inbound_unknown_def Let_def by (auto simp: runs_def intro!: cc_steps_intros elim!: bind_SomeE split: if_splits)

lemma runs_learn_remote [runs_ops]: "lists_ok s \<Longrightarrow> runs s snd (learn_remote env st c sock from w l r s)"
  unfolding learn_remote_def by (auto simp: core_def intro!: runs_rules runs_ops)

lemma runs_inbound_request [runs_ops]:
  "lists_ok s \<Longrightarrow> st \<in> set (ag_streams s) \<Longrightarrow> c \<in> set (st_components (ag_stream s st))
    \<Longrightarrow> runs s snd (inbound_request env st c sock from req l r r2 s)"
  unfolding inbound_request_def
  by (intro runs_rules runs_ops runs_bind_pure [where 'a = ice_reply] runs_bind_pure [where 'a = "bytes option"])
    (auto intro!: cc_steps_intros steps_store_pending)

lemma runs_inbound [runs_ops]:
  "lists_ok s \<Longrightarrow> st \<in> set (ag_streams s) \<Longrightarrow> c \<in> set (st_components (ag_stream s st))
    \<Longrightarrow> runs s snd (conn_check_handle_inbound_stun env st c sock from buf ds rs s)"
  unfolding conn_check_handle_inbound_stun_def
  by (rule runs_bind_pair, rule runs_inbound_validate, assumption+)
    (auto intro!: runs_rules runs_ops runs_bind_pure [where 'a = stun_message] runs_bind_pure [where 'a = "bytes option"]
      runs_bind_pure [where 'a = StunClass] runs_let [where 'b = "(nat \<times> nat) option"])

end
