(* ===== verification/Conncheck_Claims.thy ===== *)
theory Conncheck_Claims
  imports Conncheck_Network
begin

text \<open>
  The properties of the connectivity checks. \<open>cc_call\<close> has one constructor for every way the rest of the agent
  and the network enter \<^verbatim>\<open>agent/conncheck.c\<close> and \<^verbatim>\<open>agent/discovery.c\<close>; a run of the agent is a list of calls.
\<close>

section \<open>Runs of the agent\<close>

datatype cc_call =
    Tick cc_env
  | Unfreeze nat
  | AddForCandidate cc_env nat nat nat
  | AddForLocalCandidate cc_env nat nat nat
  | AddHost cc_env nat nat NiceAddress NiceCandidateTransport "nat option"
  | AddServerReflexive cc_env nat nat NiceAddress NiceCandidateTransport "nat option" bool
  | DiscoverTcp cc_env nat nat NiceAddress "nat option"
  | AddRelay cc_env nat nat NiceAddress NiceCandidateTransport "nat option" "nat option" TurnServer
  | LearnRemote cc_env nat nat u32 NiceAddress "nat option" "nat option" "nat option"
  | IncomingCheck cc_env nat nat "nat option" "nat option" NiceAddress "nat option" bytes bool
  | EarlyCheck nat NiceAddress "nat option" bytes u32 bool
  | Response cc_env nat nat "nat option" NiceAddress "nat option" "nat option" stun_message
  | RemoteCandidates cc_env nat nat "NiceCandidate list"
  | RemoteSdp cc_env "string \<Rightarrow> NiceAddress option" string
  | InboundStun cc_env nat nat "nat option" NiceAddress bytes "stun_agent list" "stun_agent list"
  | RoleConflict bool
  | ScheduleNext
  | PruneStream nat
  | PruneSocket nat nat "nat option"
  | FreeAll

fun cc_exec :: "cc_call \<Rightarrow> NiceAgent \<Rightarrow> NiceAgent option" where
  "cc_exec (Tick env) s = map_option snd (priv_conn_check_tick_unlocked env s)"
| "cc_exec (Unfreeze st) s = map_option snd (priv_conn_check_unfreeze_next st s)"
| "cc_exec (AddForCandidate env i c r) s = map_option snd (conn_check_add_for_candidate env i c r s)"
| "cc_exec (AddForLocalCandidate env i c l) s = map_option snd (conn_check_add_for_local_candidate env i c l s)"
| "cc_exec (AddHost env i j a t sock) s = map_option (\<lambda>r. snd (snd r)) (discovery_add_local_host_candidate env i j a t sock s)"
| "cc_exec (AddServerReflexive env i j a t sock b) s = map_option snd (discovery_add_server_reflexive_candidate env i j a t sock b s)"
| "cc_exec (DiscoverTcp env i j a sock) s = discovery_discover_tcp_server_reflexive_candidates env i j a sock s"
| "cc_exec (AddRelay env i j a t sock relay turn) s = map_option snd (discovery_add_relay_candidate env i j a t sock relay turn s)"
| "cc_exec (LearnRemote env st c w a sock l r) s =
     map_option snd (discovery_learn_remote_peer_reflexive_candidate env st c w a sock l r s)"
| "cc_exec (IncomingCheck env st c l r a sock reply b) s = priv_reply_to_conn_check env st c l r a sock reply b s"
| "cc_exec (EarlyCheck c a sock u w b) s = Some (snd (priv_store_pending_check c a sock u w b s))"
| "cc_exec (Response env st c sock a l r m) s = map_option snd (priv_map_reply_to_conn_check_request env st c sock a l r m s)"
| "cc_exec (RemoteCandidates env i j ds) s = map_option snd (nice_agent_set_remote_candidates env i j ds s)"
| "cc_exec (RemoteSdp env getaddrinfo sdp) s = map_option snd (nice_agent_parse_remote_sdp env getaddrinfo sdp s)"
| "cc_exec (InboundStun env st c sock a b ds rs) s = map_option snd (conn_check_handle_inbound_stun env st c sock a b ds rs s)"
| "cc_exec (RoleConflict b) s = priv_check_for_role_conflict b s"
| "cc_exec ScheduleNext s = Some (conn_check_schedule_next s)"
| "cc_exec (PruneStream st) s = conn_check_prune_stream st s"
| "cc_exec (PruneSocket st c sock) s = conn_check_prune_socket st c sock s"
| "cc_exec FreeAll s = conn_check_free s"

text \<open>The streams and components of a call exist.\<close>

fun call_ok :: "NiceAgent \<Rightarrow> cc_call \<Rightarrow> bool" where
  "call_ok s (IncomingCheck env st c l r a sock reply b) = (st \<in> set (ag_streams s) \<and> c \<in> set (st_components (ag_stream s st)))"
| "call_ok s (Response env st c sock a l r m) = (st \<in> set (ag_streams s) \<and> c \<in> set (st_components (ag_stream s st)))"
| "call_ok s (InboundStun env st c sock a b ds rs) = (st \<in> set (ag_streams s) \<and> c \<in> set (st_components (ag_stream s st)))"
| "call_ok s (PruneStream st) = (st \<in> set (ag_streams s))"
| "call_ok s (PruneSocket st c sock) = (st \<in> set (ag_streams s))"
| "call_ok s call = True"

lemma runs_exec:
  assumes "lists_ok s" "call_ok s call"
  shows "runs s (\<lambda>u. u) (cc_exec call s)"
  using assms by (cases call) (auto intro!: runs_struct runs_ops runs_Some steps_store_pending cc_steps_intros)

lemma call_ok_steps: "cc_steps s u \<Longrightarrow> call_ok u call = call_ok s call"
  by (cases call) (simp_all add: cc_steps_streams)

text \<open>Whatever the steps preserve holds in every state of a run.\<close>

locale cc_invariant =
  fixes P :: "NiceAgent \<Rightarrow> bool"
  assumes step: "cc_step s u \<Longrightarrow> lists_ok s \<Longrightarrow> P s \<Longrightarrow> P u"
begin

lemma steps:
  assumes "cc_steps s u" "lists_ok s" "P s"
  shows "P u"
  using assms by (induction rule: rtranclp_induct) (blast intro: step cc_steps_lists_ok)+

lemma run:
  assumes "for_each cc_exec calls s = Some u" "lists_ok s" "\<forall>call \<in> set calls. call_ok s call" "P s"
  shows "lists_ok u \<and> P u"
proof -
  have "cc_steps s u"
  proof (rule for_each_invariant [OF assms(1)])
    fix call t t' assume call: "call \<in> set calls" "cc_exec call t = Some t'" "cc_steps s t"
    have "runs t (\<lambda>u. u) (cc_exec call t)"
      using runs_exec [OF cc_steps_lists_ok [OF call(3) assms(2)]] call(1) assms(3) call_ok_steps [OF call(3)] by simp
    then show "cc_steps s t'" using call(2,3) by (blast dest: runsD intro: cc_steps_trans)
  qed simp
  then show ?thesis using assms(2,4) steps cc_steps_lists_ok by blast
qed

end

interpretation lists: cc_invariant lists_ok
  by unfold_locales (rule cc_step_lists_ok)

interpretation trees: cc_invariant "frame s0" for s0
  by unfold_locales (blast intro: frame_trans cc_step_frame)

lemma lists_ok_live:
  assumes "lists_ok s"
  shows "dom (ag_pairs s) = (\<Union>st \<in> set (ag_streams s). set (checklist s st))"
  using lists_okD(4,6) [OF assms] by fastforce

text \<open>C2: Whatever the agent does with its connectivity checks (timer ticks, new local and remote candidates, session
  descriptions, any bytes that arrive as STUN messages, role conflicts, pruning), started in a state whose lists are in order: every
  check list stays sorted by descending pair priority and free of duplicates, the pairs that have not been
  freed are exactly the pairs of the check lists, and the queue of triggered checks holds each pair at most once
  and no freed pair.\<close>

theorem conncheck_invariant:
  assumes "lists_ok s" "\<forall>call \<in> set calls. call_ok s call" "for_each cc_exec calls s = Some s'"
  shows "(\<forall>st \<in> set (ag_streams s'). distinct (checklist s' st)
           \<and> sorted_wrt (\<lambda>p q. prio s' p \<ge> prio s' q) (checklist s' st))
    \<and> dom (ag_pairs s') = (\<Union>st \<in> set (ag_streams s'). set (checklist s' st))
    \<and> distinct (ag_triggered_check_queue s') \<and> set (ag_triggered_check_queue s') \<subseteq> dom (ag_pairs s')"
proof -
  have ok: "lists_ok s'" using lists.run [OF assms(3,1,2,1)] by simp
  have "\<forall>st \<in> set (ag_streams s'). distinct (checklist s' st)
           \<and> sorted_wrt (\<lambda>p q. prio s' p \<ge> prio s' q) (checklist s' st)"
    using lists_okD(2,3) [OF ok] by (simp add: descending_def)
  then show ?thesis using lists_okD(7,8) [OF ok] by (auto simp: lists_ok_live [OF ok, symmetric])
qed

lemma demo_lists_ok: "lists_ok (demo_agent cmpt limit)"
  by (simp add: lists_ok_def demo_agent_def checklist_def descending_def)

definition demo_calls :: "cc_call list" where
  "demo_calls = [AddForCandidate demo_env 1 0 1, AddForCandidate demo_env 1 0 2, RoleConflict False, Unfreeze 0]"

lemma demo_run: "map_option (\<lambda>s. checklist s 0) (for_each cc_exec demo_calls (demo_agent NICE_COMPATIBILITY_RFC5245 100)) = Some [1, 0]"
  by code_simp

theorem conncheck_invariant_witness:
  "\<exists>s'. for_each cc_exec demo_calls (demo_agent NICE_COMPATIBILITY_RFC5245 100) = Some s' \<and> checklist s' 0 = [1, 0]
     \<and> dom (ag_pairs s') = (\<Union>st \<in> set (ag_streams s'). set (checklist s' st))"
proof -
  obtain s' where s': "for_each cc_exec demo_calls (demo_agent NICE_COMPATIBILITY_RFC5245 100) = Some s'" "checklist s' 0 = [1, 0]"
    using demo_run by auto
  have "\<forall>call \<in> set demo_calls. call_ok (demo_agent NICE_COMPATIBILITY_RFC5245 100) call" by (simp add: demo_calls_def)
  from conncheck_invariant [OF demo_lists_ok this s'(1)] s' show ?thesis by auto
qed

section \<open>Priorities of peer reflexive candidates\<close>

text \<open>Going down from a priority finds the next free one, or comes to 0 when all of them are in use.\<close>

lemma unique_priority_down:
  assumes "p \<noteq> 0"
  shows "(\<exists>q. q \<noteq> 0 \<and> q \<le> p \<and> q \<notin> set used \<and> (p \<notin> set used \<longrightarrow> q = p) \<and> unique_priority used p = Some q)
    \<or> ((\<forall>q. q \<noteq> 0 \<and> q \<le> p \<longrightarrow> q \<in> set used) \<and> unique_priority used p = unique_priority used 0)"
  using assms
proof (induction "unat p" arbitrary: p)
  case 0
  then show ?case by (simp add: unat_eq_0)
next
  case (Suc n)
  show ?case
  proof (cases "p \<in> set used")
    case False
    then show ?thesis using Suc.prems by (auto simp: unique_priority.simps [of used p])
  next
    case True
    have step: "unique_priority used p = unique_priority used (p - 1)"
      using True Suc.prems by (simp add: unique_priority.simps [of used p])
    have n: "n = unat (p - 1)" using Suc.hyps(2) Suc.prems by (simp add: unat_minus_one)
    have le: "q \<le> p \<longleftrightarrow> q = p \<or> q \<le> p - 1" for q
      using n Suc.hyps(2) by (auto simp: word_le_nat_alt word_unat_eq_iff)
    show ?thesis
    proof (cases "p - 1 = 0")
      case True
      then have "p = 1" by simp
      then show ?thesis using step \<open>p \<in> set used\<close> le by auto
    next
      case False
      from Suc.hyps(1) [OF n False] show ?thesis using step \<open>p \<in> set used\<close> le by metis
    qed
  qed
qed

lemma unique_priority_total:
  assumes "length used < 2 ^ 32 - 1"
  shows "\<exists>q. unique_priority used p = Some q \<and> q \<noteq> 0 \<and> q \<notin> set used \<and> (p \<noteq> 0 \<and> p \<notin> set used \<longrightarrow> q = p)"
proof -
  have zero: "unique_priority used 0 = unique_priority used (- 1)"
    by (simp add: unique_priority.simps [of used 0] unique_priority.simps [of used "- 1"])
  have "\<exists>q :: u32. q \<noteq> 0 \<and> q \<notin> set used"
  proof (rule ccontr)
    assume "\<nexists>q :: u32. q \<noteq> 0 \<and> q \<notin> set used"
    then have "card (UNIV :: u32 set) \<le> card (insert 0 (set used))" by (intro card_mono) auto
    also have "\<dots> \<le> Suc (length used)" using card_length [of used] by (simp add: card_insert_if)
    finally show False using assms by (simp add: card_word)
  qed
  then obtain q :: u32 where q: "q \<noteq> 0" "q \<notin> set used" by blast
  have max: "q \<le> - 1" for q :: u32 by (rule word_order.extremum)
  have "\<exists>q. unique_priority used 0 = Some q \<and> q \<noteq> 0 \<and> q \<notin> set used"
    using unique_priority_down [of "- 1" used] q max zero by auto
  then show ?thesis using unique_priority_down [of p used] by (cases "p = 0") auto
qed

lemma prflx_priorities_Some:
  assumes "\<And>p. p \<in> set ps \<Longrightarrow> \<exists>x. ag_pairs s p = Some x"
  shows "\<exists>us. prflx_priorities s i ps = Some us \<and> length us \<le> length ps
    \<and> (\<forall>p \<in> set ps. \<forall>x. ag_pairs s p = Some x \<longrightarrow> cp_component_id x = i \<longrightarrow> cp_prflx_priority x \<in> set us)"
  using assms
proof (induction ps)
  case (Cons p ps)
  obtain x where x: "ag_pairs s p = Some x" using Cons.prems by auto
  obtain us where us: "prflx_priorities s i ps = Some us" "length us \<le> length ps"
    "\<forall>p \<in> set ps. \<forall>x. ag_pairs s p = Some x \<longrightarrow> cp_component_id x = i \<longrightarrow> cp_prflx_priority x \<in> set us"
    using Cons.IH Cons.prems by auto
  then show ?case using x by auto
qed simp

text \<open>C34: The search for an unused priority always ends, as long as fewer than \<open>2 ^ 32 - 1\<close> priorities are in use:
  it wraps around below 1, it never gives 0, and its result is neither the priority of a local candidate of the
  component nor the peer reflexive priority of a pair of the component. A priority that is free is kept.\<close>

theorem ensure_unique_priority_ends:
  assumes "lists_ok s" "st \<in> set (ag_streams s)" "c \<in> set (st_components (ag_stream s st))"
    and "length (cm_local_candidates (ag_component s c)) + length (checklist s st) < 2 ^ 32 - 1"
  shows "\<exists>q. ensure_unique_priority s c priority = Some q \<and> q \<noteq> 0
    \<and> (\<forall>l \<in> set (cm_local_candidates (ag_component s c)). c_priority (ag_candidate s l) \<noteq> q)
    \<and> (\<forall>p \<in> set (checklist s st). \<forall>x. ag_pairs s p = Some x \<longrightarrow> cp_component_id x = cm_id (ag_component s c)
         \<longrightarrow> cp_prflx_priority x \<noteq> q)"
proof -
  let ?ls = "map (\<lambda>l. c_priority (ag_candidate s l)) (cm_local_candidates (ag_component s c))"
  have "\<exists>x. ag_pairs s p = Some x" if "p \<in> set (checklist s st)" for p
    using lists_okD(4) [OF assms(1,2) that] by blast
  from prflx_priorities_Some [OF this] obtain us where us:
    "prflx_priorities s (cm_id (ag_component s c)) (checklist s st) = Some us" "length us \<le> length (checklist s st)"
    "\<forall>p \<in> set (checklist s st). \<forall>x. ag_pairs s p = Some x \<longrightarrow> cp_component_id x = cm_id (ag_component s c)
       \<longrightarrow> cp_prflx_priority x \<in> set us" by blast
  have "length (?ls @ us) < 2 ^ 32 - 1" using assms(4) us(2) by simp
  from unique_priority_total [OF this, of priority] obtain q where
    q: "unique_priority (?ls @ us) priority = Some q" "q \<noteq> 0" "q \<notin> set (?ls @ us)" by blast
  have "ensure_unique_priority s c priority = Some q"
    using us(1) q(1) lists_okD(9) [OF assms(1-3)] by (simp add: ensure_unique_priority_def Let_def)
  then show ?thesis using q(2,3) us(3) by auto
qed

theorem ensure_unique_priority_ends_witness:
  "\<exists>q. ensure_unique_priority (demo_agent NICE_COMPATIBILITY_RFC5245 100) 0 (2 ^ 30) = Some q \<and> q \<noteq> 0 \<and> q \<noteq> 2 ^ 30"
proof -
  let ?s = "demo_agent NICE_COMPATIBILITY_RFC5245 100"
  have "0 \<in> set (ag_streams ?s)" "0 \<in> set (st_components (ag_stream ?s 0))"
    "length (cm_local_candidates (ag_component ?s 0)) + length (checklist ?s 0) < 2 ^ 32 - 1"
    by (simp_all add: demo_agent_def checklist_def)
  from ensure_unique_priority_ends [OF demo_lists_ok this, of "2 ^ 30"] show ?thesis
    by (auto simp: demo_agent_def demo_candidate_def)
qed

section \<open>Triggered checks\<close>

lemma insert_sorted_last:
  assumes "\<And>q. q \<in> set qs \<Longrightarrow> \<exists>y. ag_pairs s q = Some y \<and> cp_priority y > cp_priority x"
  shows "insert_sorted s p x qs = Some (qs @ [p])"
  using assms
proof (induction qs)
  case (Cons q qs)
  obtain y where "ag_pairs s q = Some y" "cp_priority y > cp_priority x" using Cons.prems by auto
  then show ?case using Cons by (auto simp: conn_check_compare_def)
qed simp

lemma agent_find_stream_self:
  assumes "lists_ok s" "st \<in> set (ag_streams s)"
  shows "agent_find_stream s (st_id (ag_stream s st)) = Some st"
proof -
  obtain st' where st': "agent_find_stream s (st_id (ag_stream s st)) = Some st'"
    using assms(2) by (cases "agent_find_stream s (st_id (ag_stream s st))") (auto simp: agent_find_stream_def find_None_iff)
  then show ?thesis using agent_find_stream_in [OF st'] lists_okD(1) [OF assms(1)] assms(2) by (auto dest: inj_onD)
qed

lemma limit_frees_last:
  assumes "checklist s st = ps @ [p]" "n \<le> length ps" "priv_limit_conn_check_list_size st n s = Some u"
  shows "ag_pairs u p = None"
proof -
  have "for_each (remove_pair st) (drop n ps @ [p]) s = Some u"
    using assms by (simp add: priv_limit_conn_check_list_size_def)
  then obtain t where "remove_pair st p t = Some u" by (auto simp: for_each_append elim!: bind_SomeE)
  then show ?thesis by (auto simp: remove_pair_eq_Some)
qed

text \<open>A new pair below all others of a full check list is freed before it is returned.\<close>

lemma add_to_full_list:
  assumes "lists_ok s" "st \<in> set (ag_streams s)" "ag_compatibility s = NICE_COMPATIBILITY_RFC5245"
    and "ag_max_conn_checks s \<le> length (checklist s st)"
    and "\<forall>q \<in> set (checklist s st). agent_candidate_pair_priority s l r < prio s q"
    and "priv_add_new_check_pair env (st_id (ag_stream s st)) c l r state s = Some (p, u)"
  shows "ag_pairs u p = None"
proof -
  from assms(6) obtain w t where new: "insert_pair st ((new_pair s (st_id (ag_stream s st)) (cm_id (ag_component s c)) l r state)
           \<lparr>cp_sockptr :=
              (if c_transport (ag_candidate s l) = NICE_CANDIDATE_TRANSPORT_TCP_PASSIVE
                  \<and> c_type (ag_candidate s r) = NICE_CANDIDATE_TYPE_PEER_REFLEXIVE
               then c_sockptr (ag_candidate s r) else c_sockptr (ag_candidate s l)),
            cp_priority := agent_candidate_pair_priority s l r, cp_prflx_priority := w\<rparr>) s = Some (p, t)"
    and u: "(if ag_compatibility t = NICE_COMPATIBILITY_RFC5245
            then priv_limit_conn_check_list_size st (ag_max_conn_checks t) t else Some t) = Some u"
    by (auto simp: priv_add_new_check_pair_def agent_find_stream_self [OF assms(1,2)] Let_def elim!: bind_SomeE)
  obtain x where x: "cp_priority x = agent_candidate_pair_priority s l r" and t: "insert_pair st x s = Some (p, t)"
    using new by (rule that [rotated]) simp
  have "\<exists>y. ag_pairs s q = Some y \<and> cp_priority y > cp_priority x" if "q \<in> set (checklist s st)" for q
    using lists_okD(4) [OF assms(1,2) that] assms(5) that x by (auto simp: prio_def)
  from insert_sorted_last [OF this] have "t = set_checklist st (checklist s st @ [p])
      (s\<lparr>ag_pairs := (ag_pairs s)(p \<mapsto> x), ag_next_pair := Suc p\<rparr>)"
    using t by (auto simp: insert_pair_def Let_def)
  then have "checklist t st = checklist s st @ [p]" "ag_compatibility t = ag_compatibility s"
    "ag_max_conn_checks t = ag_max_conn_checks s" by (simp_all add: set_checklist_def upd_stream_def checklist_def)
  then show ?thesis using limit_frees_last [of t st "checklist s st" p _ u] u assms(3,4) by simp
qed

text \<open>C33: An incoming check that no pair matches makes a new pair for a triggered check. When the check list has
  as many pairs as the agent allows and all of them have a higher priority, the limit of the list frees the
  new pair before the function that made it returns it, and the caller then writes to the freed pair.\<close>

theorem triggered_check_use_after_free:
  assumes "lists_ok s" "st \<in> set (ag_streams s)" "ag_compatibility s = NICE_COMPATIBILITY_RFC5245"
    and "ag_max_conn_checks s \<le> length (checklist s st)"
    and "first_pair s (triggered_match s (cm_id (ag_component s c)) sock r) (checklist s st) = Some None"
    and "find (\<lambda>l. c_sockptr (ag_candidate s l) = sock) (cm_local_candidates (ag_component s c)) = Some l"
    and "\<forall>q \<in> set (checklist s st). agent_candidate_pair_priority s l r < prio s q"
  shows "(\<forall>p u. priv_add_new_check_pair env (st_id (ag_stream s st)) c l r NICE_CHECK_WAITING s = Some (p, u) \<longrightarrow> ag_pairs u p = None)
    \<and> priv_schedule_triggered_check env st c sock r s = None"
proof -
  have freed: "ag_pairs u p = None"
    if "priv_add_new_check_pair env (st_id (ag_stream s st)) c l r NICE_CHECK_WAITING s = Some (p, u)" for p u
    by (rule add_to_full_list [OF assms(1-4,7) that])
  have "priv_schedule_triggered_check env st c sock r s = None"
  proof (cases "priv_add_new_check_pair env (st_id (ag_stream s st)) c l r NICE_CHECK_WAITING s")
    case (Some pu)
    obtain p u where pu: "pu = (p, u)" by fastforce
    have "priv_add_pair_to_triggered_check_queue p u = None"
      using freed Some pu by (simp add: priv_add_pair_to_triggered_check_queue_def upd_pair_def)
    then show ?thesis using Some pu assms(5,6) by (simp add: priv_schedule_triggered_check_def)
  qed (use assms(5,6) in \<open>simp add: priv_schedule_triggered_check_def\<close>)
  then show ?thesis using freed by blast
qed

text \<open>A limit of one pair: the check list has the pair with the host candidate, and the check comes from the
  relayed candidate.\<close>

lemma demo_full:
  "map_option (\<lambda>s. (checklist s 0, ag_streams s, ag_compatibility s, ag_max_conn_checks s,
       first_pair s (triggered_match s (cm_id (ag_component s 0)) (Some 7) 1) (checklist s 0),
       find (\<lambda>l. c_sockptr (ag_candidate s l) = Some 7) (cm_local_candidates (ag_component s 0)),
       agent_candidate_pair_priority s 0 1 < prio s 0,
       Option.is_none (priv_add_new_check_pair demo_env (st_id (ag_stream s 0)) 0 0 1 NICE_CHECK_WAITING s)))
     (for_each cc_exec [AddForCandidate demo_env 1 0 2] (demo_agent NICE_COMPATIBILITY_RFC5245 1))
   = Some ([0], [0], NICE_COMPATIBILITY_RFC5245, 1, Some None, Some 0, True, False)"
  by code_simp

theorem triggered_check_use_after_free_witness:
  "\<exists>s p u. for_each cc_exec [AddForCandidate demo_env 1 0 2] (demo_agent NICE_COMPATIBILITY_RFC5245 1) = Some s
     \<and> priv_add_new_check_pair demo_env (st_id (ag_stream s 0)) 0 0 1 NICE_CHECK_WAITING s = Some (p, u) \<and> ag_pairs u p = None
     \<and> priv_schedule_triggered_check demo_env 0 0 (Some 7) 1 s = None"
proof -
  obtain s where s: "for_each cc_exec [AddForCandidate demo_env 1 0 2] (demo_agent NICE_COMPATIBILITY_RFC5245 1) = Some s"
    "checklist s 0 = [0]" "ag_streams s = [0]" "ag_compatibility s = NICE_COMPATIBILITY_RFC5245" "ag_max_conn_checks s = 1"
    "first_pair s (triggered_match s (cm_id (ag_component s 0)) (Some 7) 1) (checklist s 0) = Some None"
    "find (\<lambda>l. c_sockptr (ag_candidate s l) = Some 7) (cm_local_candidates (ag_component s 0)) = Some 0"
    "agent_candidate_pair_priority s 0 1 < prio s 0"
    "\<not> Option.is_none (priv_add_new_check_pair demo_env (st_id (ag_stream s 0)) 0 0 1 NICE_CHECK_WAITING s)"
    using demo_full by auto
  have "lists_ok s" using lists.run [OF s(1) demo_lists_ok] demo_lists_ok by simp
  from triggered_check_use_after_free [OF this _ s(4) _ s(6,7), of demo_env] s
  have a: "\<forall>p u. priv_add_new_check_pair demo_env (st_id (ag_stream s 0)) 0 0 1 NICE_CHECK_WAITING s = Some (p, u) \<longrightarrow> ag_pairs u p = None"
    "priv_schedule_triggered_check demo_env 0 0 (Some 7) 1 s = None" by auto
  from s(9) obtain p u where "priv_add_new_check_pair demo_env (st_id (ag_stream s 0)) 0 0 1 NICE_CHECK_WAITING s = Some (p, u)"
    by (auto simp: Option.is_none_def)
  then show ?thesis using a s(1) by blast
qed

end
