(* ===== verification/Conncheck_Ready.thy ===== *)
theory Conncheck_Ready
  imports Conncheck_Claims
begin

text \<open>
  What the decisions of the connectivity checks come to: when a component becomes ready and what happens to the
  other pairs of the component (\<^verbatim>\<open>priv_update_check_list_state_for_ready\<close>), and which pairs are unfrozen
  (\<^verbatim>\<open>priv_conn_check_unfreeze_next\<close>). The loops over the check list are compared with descriptions that say
  for each pair what becomes of it.
\<close>

section \<open>What pruning does to a pair\<close>

definition nominated_pair :: "nat \<Rightarrow> CandidateCheckPair \<Rightarrow> bool" where
  "nominated_pair i x \<longleftrightarrow> cp_component_id x = i \<and> cp_valid x \<and> cp_nominated x"

definition prune_pair :: "nat \<Rightarrow> u64 \<Rightarrow> CandidateCheckPair \<Rightarrow> CandidateCheckPair option" where
  "prune_pair i h x =
     (if cp_component_id x \<noteq> i then Some x
      else if cp_state x = NICE_CHECK_FROZEN \<or> cp_state x = NICE_CHECK_WAITING then None
      else if cp_state x = NICE_CHECK_IN_PROGRESS \<and> cp_priority x < h then Some (x\<lparr>cp_retransmit := False\<rparr>)
      else Some x)"

definition blocks :: "nat \<Rightarrow> u64 \<Rightarrow> CandidateCheckPair \<Rightarrow> bool" where
  "blocks i h x \<longleftrightarrow> cp_component_id x = i \<and> cp_state x = NICE_CHECK_IN_PROGRESS \<and> h \<le> cp_priority x"

definition same_tree :: "NiceAgent \<Rightarrow> NiceAgent \<Rightarrow> bool" where
  "same_tree s u \<longleftrightarrow> ag_component u = ag_component s \<and> ag_streams u = ag_streams s
     \<and> (\<forall>st. st_id (ag_stream u st) = st_id (ag_stream s st)
          \<and> st_components (ag_stream u st) = st_components (ag_stream s st))"

lemma same_tree_refl: "same_tree s s"
  by (simp add: same_tree_def)

lemma same_tree_trans: "same_tree s t \<Longrightarrow> same_tree t u \<Longrightarrow> same_tree s u"
  by (simp add: same_tree_def)

lemma agent_find_component_cong:
  assumes "ag_streams u = ag_streams s" "\<And>c. cm_id (ag_component u c) = cm_id (ag_component s c)"
    and "\<And>st. st_id (ag_stream u st) = st_id (ag_stream s st)"
    and "\<And>st. st_components (ag_stream u st) = st_components (ag_stream s st)"
  shows "agent_find_component u = agent_find_component s"
  using assms by (simp add: agent_find_component_def agent_find_stream_def nice_stream_find_component_by_id_def fun_eq_iff
      split: option.split)

lemma agent_find_component_same_tree: "same_tree s u \<Longrightarrow> agent_find_component u = agent_find_component s"
  by (rule agent_find_component_cong) (simp_all add: same_tree_def)

lemma prune_loop_result:
  assumes "distinct ps" "\<forall>p \<in> set ps. ag_pairs s p \<noteq> None"
  shows "\<exists>u. prune_loop st i h ps n s = Some (n + length (filter (\<lambda>p. blocks i h (the (ag_pairs s p))) ps), u)
    \<and> (\<forall>p. ag_pairs u p = (if p \<in> set ps then prune_pair i h (the (ag_pairs s p)) else ag_pairs s p)) \<and> same_tree s u"
  using assms
proof (induction ps arbitrary: n s)
  case Nil
  then show ?case by (simp add: same_tree_def)
next
  case (Cons p ps)
  obtain x where x: "ag_pairs s p = Some x" using Cons.prems by auto
  obtain v where v: "prune_loop st i h (p # ps) n s = prune_loop st i h ps (if blocks i h x then Suc n else n) v"
    "ag_pairs v = (ag_pairs s)(p := prune_pair i h x)" "same_tree s v"
  proof (cases "prune_pair i h x")
    case None
    then obtain w where w: "remove_pair st p s = Some w" by (simp add: remove_pair_eq_Some x)
    have "ag_pairs w = (ag_pairs s)(p := None)" "same_tree s w"
      using w x by (auto simp: remove_pair_eq_Some same_tree_def)
    then show ?thesis using that [of w] None x w
      by (auto simp: prune_pair_def blocks_def split: if_splits)
  next
    case (Some y)
    show ?thesis
    proof (cases "cp_component_id x = i \<and> cp_state x = NICE_CHECK_IN_PROGRESS \<and> cp_priority x < h")
      case True
      then have y: "y = x\<lparr>cp_retransmit := False\<rparr>" and nb: "\<not> blocks i h x"
        using Some by (auto simp: prune_pair_def blocks_def)
      let ?v = "s\<lparr>ag_pairs := (ag_pairs s)(p \<mapsto> y)\<rparr>"
      have "prune_loop st i h (p # ps) n s = prune_loop st i h ps n ?v" using True x y by (simp add: upd_pair_def)
      moreover have "same_tree s ?v" by (simp add: same_tree_def)
      ultimately show ?thesis using that [of ?v] Some nb by simp
    next
      case False
      then have "y = x" using Some by (auto simp: prune_pair_def split: if_splits)
      then have "ag_pairs s = (ag_pairs s)(p := prune_pair i h x)" using Some x by auto
      moreover have "prune_loop st i h (p # ps) n s = prune_loop st i h ps (if blocks i h x then Suc n else n) s"
        using Some x False by (auto simp: prune_pair_def blocks_def split: if_splits)
      ultimately show ?thesis using that [of s] same_tree_refl by simp
    qed
  qed
  have live: "\<forall>q \<in> set ps. ag_pairs v q \<noteq> None" and same: "q \<in> set ps \<Longrightarrow> ag_pairs v q = ag_pairs s q" for q
    using Cons.prems v(2) by auto
  have blk: "filter (\<lambda>q. blocks i h (the (ag_pairs v q))) ps = filter (\<lambda>q. blocks i h (the (ag_pairs s q))) ps"
    by (rule filter_cong) (simp_all add: same)
  from Cons.IH [OF _ live, of "if blocks i h x then Suc n else n"] Cons.prems(1) obtain u where
    u: "prune_loop st i h ps (if blocks i h x then Suc n else n) v = Some ((if blocks i h x then Suc n else n)
          + length (filter (\<lambda>p. blocks i h (the (ag_pairs s p))) ps), u)"
      "\<forall>q. ag_pairs u q = (if q \<in> set ps then prune_pair i h (the (ag_pairs v q)) else ag_pairs v q)" "same_tree v u"
    by (auto simp: blk)
  have "\<forall>q. ag_pairs u q = (if q \<in> set (p # ps) then prune_pair i h (the (ag_pairs s q)) else ag_pairs s q)"
    using u(2) v(2) same x Cons.prems(1) by auto
  then show ?case using u(1) v(1) x same_tree_trans [OF v(3) u(3)] by (intro exI [of _ u]) simp
qed

lemma highest_nominated_fold:
  assumes "\<forall>p \<in> set ps. ag_pairs s p \<noteq> None"
  shows "\<exists>h. fold (\<lambda>p acc. do {
             h \<leftarrow> acc;
             x \<leftarrow> ag_pairs s p;
             Some (if cp_component_id x = i \<and> cp_valid x \<and> cp_nominated x \<and> cp_priority x > h then cp_priority x else h)
           }) ps (Some h0) = Some h
    \<and> (\<forall>w. w < h \<longleftrightarrow> w < h0 \<or> (\<exists>p \<in> set ps. nominated_pair i (the (ag_pairs s p)) \<and> w < cp_priority (the (ag_pairs s p))))"
  using assms
proof (induction ps arbitrary: h0)
  case (Cons p ps)
  obtain x where x: "ag_pairs s p = Some x" using Cons.prems by auto
  show ?case using Cons.IH [of "if nominated_pair i x \<and> cp_priority x > h0 then cp_priority x else h0"] Cons.prems x
    by (auto simp: nominated_pair_def split: if_splits)
qed simp

lemma highest_nominated_Some:
  assumes "\<forall>p \<in> set ps. ag_pairs s p \<noteq> None"
  shows "\<exists>h. highest_nominated s i ps = Some h
    \<and> (\<forall>w. w < h \<longleftrightarrow> (\<exists>p \<in> set ps. nominated_pair i (the (ag_pairs s p)) \<and> w < cp_priority (the (ag_pairs s p))))"
  using highest_nominated_fold [OF assms, of i 0] by (simp add: highest_nominated_def)

lemma count_pairs_Some:
  assumes "\<forall>p \<in> set ps. ag_pairs s p \<noteq> None"
  shows "count_pairs s P ps = Some (length (filter (\<lambda>p. P (the (ag_pairs s p))) ps))"
  using assms by (induction ps) auto

lemma signal_result:
  assumes "agent_find_component s i j = Some (st, c)" "new = cm_state (ag_component s c) \<or> allowed_transition (cm_state (ag_component s c)) new"
  shows "\<exists>u. agent_signal_component_state_change i j new s = Some u \<and> cm_state (ag_component u c) = new
    \<and> agent_find_component u = agent_find_component s \<and> ag_pairs u = ag_pairs s
    \<and> st_id (ag_stream u st) = st_id (ag_stream s st) \<and> cm_id (ag_component u c) = cm_id (ag_component s c)"
proof (cases "new = cm_state (ag_component s c)")
  case True
  then show ?thesis using assms by (simp add: agent_signal_component_state_change_def)
next
  case False
  let ?u = "emit (StateChanged i j (cm_state (ag_component s c)) new) (upd_component c (\<lambda>x. x\<lparr>cm_state := new\<rparr>) s)"
  have "agent_find_component ?u = agent_find_component s"
    by (rule agent_find_component_cong) (simp_all add: emit_def upd_component_def)
  then show ?thesis using assms False
    by (simp add: agent_signal_component_state_change_def) (simp add: emit_def upd_component_def)
qed

lemma signal_ready_result:
  assumes "agent_find_component s (st_id (ag_stream s st)) (cm_id (ag_component s c)) = Some (st, c)"
  shows "\<exists>u. signal_ready st c s = Some u \<and> cm_state (ag_component u c) = NICE_COMPONENT_STATE_READY \<and> ag_pairs u = ag_pairs s"
proof -
  let ?i = "st_id (ag_stream s st)" and ?j = "cm_id (ag_component s c)"
  let ?good = "\<lambda>u. agent_find_component u = agent_find_component s \<and> ag_pairs u = ag_pairs s
    \<and> st_id (ag_stream u st) = ?i \<and> cm_id (ag_component u c) = ?j"
  obtain t where t: "(if state_before (cm_state (ag_component s c)) NICE_COMPONENT_STATE_CONNECTING
          \<or> cm_state (ag_component s c) = NICE_COMPONENT_STATE_FAILED
        then agent_signal_component_state_change ?i ?j NICE_COMPONENT_STATE_CONNECTING s else Some s) = Some t"
      "?good t" "cm_state (ag_component t c) \<in> {NICE_COMPONENT_STATE_CONNECTING, NICE_COMPONENT_STATE_CONNECTED, NICE_COMPONENT_STATE_READY}"
  proof (cases "state_before (cm_state (ag_component s c)) NICE_COMPONENT_STATE_CONNECTING
          \<or> cm_state (ag_component s c) = NICE_COMPONENT_STATE_FAILED")
    case True
    then have "allowed_transition (cm_state (ag_component s c)) NICE_COMPONENT_STATE_CONNECTING"
      by (cases "cm_state (ag_component s c)") (simp_all add: allowed_transition_def state_before_def)
    then show ?thesis using that signal_result [OF assms] True by auto
  next
    case False
    then have "cm_state (ag_component s c) \<in> {NICE_COMPONENT_STATE_CONNECTING, NICE_COMPONENT_STATE_CONNECTED, NICE_COMPONENT_STATE_READY}"
      by (cases "cm_state (ag_component s c)") (simp_all add: state_before_def)
    then show ?thesis using that [of s] False by auto
  qed
  have ft: "agent_find_component t ?i ?j = Some (st, c)" using t(2) assms by simp
  obtain v where v: "(if state_before (cm_state (ag_component t c)) NICE_COMPONENT_STATE_CONNECTED
        then agent_signal_component_state_change (st_id (ag_stream t st)) (cm_id (ag_component t c)) NICE_COMPONENT_STATE_CONNECTED t
        else Some t) = Some v"
      "?good v" "cm_state (ag_component v c) \<in> {NICE_COMPONENT_STATE_CONNECTED, NICE_COMPONENT_STATE_READY}"
  proof (cases "cm_state (ag_component t c) = NICE_COMPONENT_STATE_CONNECTING")
    case True
    then have "allowed_transition (cm_state (ag_component t c)) NICE_COMPONENT_STATE_CONNECTED"
      by (simp add: allowed_transition_def)
    then show ?thesis using that signal_result [OF ft] True t(2) by (auto simp: state_before_def)
  next
    case False
    then show ?thesis using that [of t] t(2,3) by (auto simp: state_before_def)
  qed
  have "agent_find_component v ?i ?j = Some (st, c)" using v(2) assms by simp
  moreover have "NICE_COMPONENT_STATE_READY = cm_state (ag_component v c)
      \<or> allowed_transition (cm_state (ag_component v c)) NICE_COMPONENT_STATE_READY"
    using v(3) by (auto simp: allowed_transition_def)
  ultimately obtain u where "agent_signal_component_state_change ?i ?j NICE_COMPONENT_STATE_READY v = Some u"
    "cm_state (ag_component u c) = NICE_COMPONENT_STATE_READY" "ag_pairs u = ag_pairs v"
    using signal_result [of v] by blast
  then show ?thesis using t(1,2) v(1,2)
    by (simp add: signal_ready_def Let_def split del: if_split)
qed

section \<open>When a component becomes ready\<close>

lemma prune_pending_result:
  assumes "lists_ok s" "st \<in> set (ag_streams s)"
  shows "\<exists>h n u. priv_prune_pending_checks st i s = Some (n, u)
    \<and> (\<forall>w. w < h \<longleftrightarrow> (\<exists>p \<in> set (checklist s st). nominated_pair i (the (ag_pairs s p)) \<and> w < prio s p))
    \<and> (n = 0 \<longleftrightarrow> (\<forall>p \<in> set (checklist s st). \<not> blocks i h (the (ag_pairs s p))))
    \<and> (\<forall>p. ag_pairs u p = (if p \<in> set (checklist s st) then prune_pair i h (the (ag_pairs s p)) else ag_pairs s p))
    \<and> same_tree s u"
proof -
  have live: "\<forall>p \<in> set (checklist s st). ag_pairs s p \<noteq> None" using lists_okD(4) [OF assms] by fastforce
  obtain h where h: "highest_nominated s i (checklist s st) = Some h"
    "\<forall>w. w < h \<longleftrightarrow> (\<exists>p \<in> set (checklist s st). nominated_pair i (the (ag_pairs s p)) \<and> w < prio s p)"
    using highest_nominated_Some [OF live, of i] by (auto simp: prio_def)
  let ?n = "length (filter (\<lambda>p. blocks i h (the (ag_pairs s p))) (checklist s st))"
  obtain u where "prune_loop st i h (checklist s st) 0 s = Some (?n, u)"
    "\<forall>p. ag_pairs u p = (if p \<in> set (checklist s st) then prune_pair i h (the (ag_pairs s p)) else ag_pairs s p)"
    "same_tree s u"
    using prune_loop_result [OF lists_okD(2) [OF assms] live, of st i h 0] by auto
  moreover have "?n = 0 \<longleftrightarrow> (\<forall>p \<in> set (checklist s st). \<not> blocks i h (the (ag_pairs s p)))" by (simp add: filter_empty_conv)
  ultimately show ?thesis using h by (intro exI [of _ h] exI [of _ ?n] exI [of _ u]) (simp add: priv_prune_pending_checks_def)
qed

text \<open>C6: The update of a component's state after a check never aborts and never reads a freed pair. As long as no
  valid pair of the component is nominated it changes nothing. Otherwise, with \<open>p\<close> above a nominated pair meaning a
  higher priority: all waiting and frozen pairs of the component are removed, a pair in progress below a
  nominated pair is not retransmitted any more, all other pairs stay as they are, and the component becomes ready
  exactly when it has no pair in progress that is not below a nominated pair; until then its state stays.\<close>

theorem component_ready_decision:
  assumes "lists_ok s" "st \<in> set (ag_streams s)"
    and "agent_find_component s (st_id (ag_stream s st)) (cm_id (ag_component s c)) = Some (st, c)"
  shows "\<exists>u. priv_update_check_list_state_for_ready st c s = Some u \<and> lists_ok u \<and>
    (let i = cm_id (ag_component s c);
         below = (\<lambda>x. \<exists>q \<in> set (checklist s st). nominated_pair i (the (ag_pairs s q)) \<and> cp_priority x < prio s q)
     in if \<forall>q \<in> set (checklist s st). \<not> nominated_pair i (the (ag_pairs s q)) then u = s
        else (\<forall>p x. ag_pairs s p = Some x \<longrightarrow> ag_pairs u p =
                (if p \<notin> set (checklist s st) \<or> cp_component_id x \<noteq> i then Some x
                 else if cp_state x = NICE_CHECK_FROZEN \<or> cp_state x = NICE_CHECK_WAITING then None
                 else if cp_state x = NICE_CHECK_IN_PROGRESS \<and> below x then Some (x\<lparr>cp_retransmit := False\<rparr>)
                 else Some x))
          \<and> cm_state (ag_component u c) =
              (if \<exists>p \<in> set (checklist s st). \<exists>x. ag_pairs s p = Some x \<and> cp_component_id x = i
                     \<and> cp_state x = NICE_CHECK_IN_PROGRESS \<and> \<not> below x
               then cm_state (ag_component s c) else NICE_COMPONENT_STATE_READY))"
proof -
  let ?i = "cm_id (ag_component s c)"
  let ?below = "\<lambda>x. \<exists>q \<in> set (checklist s st). nominated_pair ?i (the (ag_pairs s q)) \<and> cp_priority x < prio s q"
  have live: "\<forall>p \<in> set (checklist s st). ag_pairs s p \<noteq> None" using lists_okD(4) [OF assms(1,2)] by fastforce
  have cnt: "count_pairs s (\<lambda>x. cp_component_id x = ?i \<and> cp_valid x \<and> cp_nominated x) (checklist s st)
      = Some (length (filter (\<lambda>p. nominated_pair ?i (the (ag_pairs s p))) (checklist s st)))"
    using count_pairs_Some [OF live] by (simp add: nominated_pair_def)
  have ok: "lists_ok u" if "priv_update_check_list_state_for_ready st c s = Some u" for u
    using runs_lists_ok [OF runs_for_ready [OF assms(1,2)] assms(1) that] .
  show ?thesis
  proof (cases "\<forall>q \<in> set (checklist s st). \<not> nominated_pair ?i (the (ag_pairs s q))")
    case True
    then have "priv_update_check_list_state_for_ready st c s = Some s"
      using cnt by (simp add: priv_update_check_list_state_for_ready_def filter_empty_conv Let_def)
    then show ?thesis using True assms(1) by auto
  next
    case False
    obtain h n t where t: "priv_prune_pending_checks st ?i s = Some (n, t)"
      and h: "\<And>w. w < h \<longleftrightarrow> (\<exists>p \<in> set (checklist s st). nominated_pair ?i (the (ag_pairs s p)) \<and> w < prio s p)"
      and n: "n = 0 \<longleftrightarrow> (\<forall>p \<in> set (checklist s st). \<not> blocks ?i h (the (ag_pairs s p)))"
      and ps: "\<And>p. ag_pairs t p = (if p \<in> set (checklist s st) then prune_pair ?i h (the (ag_pairs s p)) else ag_pairs s p)"
      and tree: "same_tree s t"
      using prune_pending_result [OF assms(1,2), of ?i] by blast
    have run: "priv_update_check_list_state_for_ready st c s = (if n = 0 then signal_ready st c t else Some t)"
      using cnt t False by (simp add: priv_update_check_list_state_for_ready_def filter_empty_conv Let_def)
    have blk: "blocks ?i h x \<longleftrightarrow> cp_component_id x = ?i \<and> cp_state x = NICE_CHECK_IN_PROGRESS \<and> \<not> ?below x" for x
      using h [of "cp_priority x"] by (auto simp: blocks_def not_less [symmetric])
    have pairs: "ag_pairs t p = (if p \<notin> set (checklist s st) \<or> cp_component_id x \<noteq> ?i then Some x
                 else if cp_state x = NICE_CHECK_FROZEN \<or> cp_state x = NICE_CHECK_WAITING then None
                 else if cp_state x = NICE_CHECK_IN_PROGRESS \<and> ?below x then Some (x\<lparr>cp_retransmit := False\<rparr>)
                 else Some x)" if "ag_pairs s p = Some x" for p x
      using that h [of "cp_priority x"] by (simp add: ps prune_pair_def)
    let ?busy = "\<exists>p \<in> set (checklist s st). \<exists>x. ag_pairs s p = Some x \<and> cp_component_id x = ?i
                     \<and> cp_state x = NICE_CHECK_IN_PROGRESS \<and> \<not> ?below x"
    have nz: "n = 0 \<longleftrightarrow> \<not> ?busy"
      unfolding n blk using live by fastforce
    have "agent_find_component t (st_id (ag_stream t st)) (cm_id (ag_component t c)) = Some (st, c)"
      using assms(3) agent_find_component_same_tree [OF tree] tree by (simp add: same_tree_def)
    from signal_ready_result [OF this] obtain u where u: "(if n = 0 then signal_ready st c t else Some t) = Some u"
      "ag_pairs u = ag_pairs t"
      "cm_state (ag_component u c) = (if n = 0 then NICE_COMPONENT_STATE_READY else cm_state (ag_component s c))"
      using tree by (cases "n = 0") (auto simp: same_tree_def)
    have "cm_state (ag_component u c) = (if ?busy then cm_state (ag_component s c) else NICE_COMPONENT_STATE_READY)"
      by (cases ?busy) (use u(3) nz in \<open>simp_all only: simp_thms if_True if_False\<close>)
    then show ?thesis using run u(1,2) ok [of u] False pairs
      unfolding Let_def by (intro exI [of _ u]) (simp only: if_False simp_thms; blast)
  qed
qed

text \<open>A component with a nominated pair, a pair in progress below it, and a waiting pair.\<close>

definition demo_pair :: "nat \<Rightarrow> NiceCheckState \<Rightarrow> bool \<Rightarrow> u64 \<Rightarrow> string \<Rightarrow> CandidateCheckPair" where
  "demo_pair i state nominated w foundation =
     (new_pair (demo_agent NICE_COMPATIBILITY_RFC5245 100) 1 i 0 1 state)
       \<lparr>cp_priority := w, cp_valid := nominated, cp_nominated := nominated, cp_retransmit := True, cp_foundation := foundation\<rparr>"

definition demo_checks :: "CandidateCheckPair list \<Rightarrow> NiceAgent" where
  "demo_checks xs = set_checklist 0 [0..<length xs]
     ((demo_agent NICE_COMPATIBILITY_RFC5245 100)
       \<lparr>ag_pairs := (\<lambda>p. if p < length xs then Some (xs ! p) else None), ag_next_pair := length xs\<rparr>)"

lemma demo_checks_lists_ok:
  assumes "\<forall>x \<in> set xs. cp_stream_id x = 1" "sorted_wrt (\<lambda>x y. cp_priority x \<ge> cp_priority y) xs"
  shows "lists_ok (demo_checks xs)"
proof (rule lists_okI)
  have st: "ag_streams (demo_checks xs) = [0]" "checklist (demo_checks xs) 0 = [0..<length xs]" by (simp_all add: demo_checks_def demo_agent_def)
  show "descending (demo_checks xs) (checklist (demo_checks xs) st)" if "st \<in> set (ag_streams (demo_checks xs))" for st
  proof -
    have "prio (demo_checks xs) p = cp_priority (xs ! p)" if "p < length xs" for p using that by (simp add: prio_def demo_checks_def)
    then have "sorted_wrt (\<lambda>p q. prio (demo_checks xs) p \<ge> prio (demo_checks xs) q) [0..<length xs]"
      using assms(2) by (auto simp: sorted_wrt_iff_nth_less)
    then show ?thesis using that st by (simp add: descending_def)
  qed
  show "\<exists>x. ag_pairs (demo_checks xs) p = Some x \<and> cp_stream_id x = st_id (ag_stream (demo_checks xs) st)"
    if "st \<in> set (ag_streams (demo_checks xs))" "p \<in> set (checklist (demo_checks xs) st)" for st p
    using that assms(1) st by (auto simp: demo_checks_def demo_agent_def)
qed (auto simp: demo_checks_def demo_agent_def split: if_splits)

theorem component_ready_decision_witness:
  "\<exists>u. priv_update_check_list_state_for_ready 0 0 (demo_checks [demo_pair 1 NICE_CHECK_SUCCEEDED True 9 ''a'',
        demo_pair 1 NICE_CHECK_IN_PROGRESS False 7 ''a'', demo_pair 1 NICE_CHECK_WAITING False 5 ''a'']) = Some u
     \<and> cm_state (ag_component u 0) = NICE_COMPONENT_STATE_READY \<and> ag_pairs u 2 = None
     \<and> map_option cp_retransmit (ag_pairs u 1) = Some False"
proof -
  let ?xs = "[demo_pair 1 NICE_CHECK_SUCCEEDED True 9 ''a'', demo_pair 1 NICE_CHECK_IN_PROGRESS False 7 ''a'',
    demo_pair 1 NICE_CHECK_WAITING False 5 ''a'']"
  let ?s = "demo_checks ?xs"
  have ok: "lists_ok ?s" by (rule demo_checks_lists_ok) (simp_all add: demo_pair_def new_pair_def)
  have f: "agent_find_component ?s (st_id (ag_stream ?s 0)) (cm_id (ag_component ?s 0)) = Some (0, 0)" "0 \<in> set (ag_streams ?s)"
    "cm_id (ag_component ?s 0) = 1"
    by (simp_all add: demo_checks_def demo_agent_def agent_find_component_def agent_find_stream_def
        nice_stream_find_component_by_id_def)
  have cl: "checklist ?s 0 = [0, 1, 2]" by (simp add: demo_checks_def upt_rec)
  have ps: "ag_pairs ?s 0 = Some (?xs ! 0)" "ag_pairs ?s 1 = Some (?xs ! 1)" "ag_pairs ?s 2 = Some (?xs ! 2)"
    by (simp_all add: demo_checks_def)
  obtain u where u: "priv_update_check_list_state_for_ready 0 0 ?s = Some u"
    and d: "let i = 1; below = (\<lambda>x. \<exists>q \<in> set [0, 1, 2]. nominated_pair i (the (ag_pairs ?s q)) \<and> cp_priority x < prio ?s q)
     in if \<forall>q \<in> set [0, 1, 2]. \<not> nominated_pair i (the (ag_pairs ?s q)) then u = ?s
        else (\<forall>p x. ag_pairs ?s p = Some x \<longrightarrow> ag_pairs u p =
                (if p \<notin> set [0, 1, 2] \<or> cp_component_id x \<noteq> i then Some x
                 else if cp_state x = NICE_CHECK_FROZEN \<or> cp_state x = NICE_CHECK_WAITING then None
                 else if cp_state x = NICE_CHECK_IN_PROGRESS \<and> below x then Some (x\<lparr>cp_retransmit := False\<rparr>)
                 else Some x))
          \<and> cm_state (ag_component u 0) =
              (if \<exists>p \<in> set [0, 1, 2]. \<exists>x. ag_pairs ?s p = Some x \<and> cp_component_id x = i
                     \<and> cp_state x = NICE_CHECK_IN_PROGRESS \<and> \<not> below x
               then cm_state (ag_component ?s 0) else NICE_COMPONENT_STATE_READY)"
    using component_ready_decision [OF ok f(2,1)] unfolding cl f(3) by blast
  have nom: "nominated_pair 1 (the (ag_pairs ?s 0))" "prio ?s 0 = 9"
    by (simp_all only: ps prio_def option.sel) (simp_all add: nominated_pair_def demo_pair_def new_pair_def)
  have "ag_pairs u 1 = Some ((?xs ! 1)\<lparr>cp_retransmit := False\<rparr>)" "ag_pairs u 2 = None"
    using d nom ps by (simp_all add: Let_def demo_pair_def new_pair_def)
  moreover have "cm_state (ag_component u 0) = NICE_COMPONENT_STATE_READY"
    using d nom ps by (simp add: Let_def demo_pair_def new_pair_def)
  ultimately show ?thesis using u by simp
qed

section \<open>Unfreezing a check list\<close>

lemma unfreeze_pick_first:
  assumes "cp_component_id x \<le> n"
  shows "unfreeze_pick p x n ps = (if ps = [] then None else Some p)"
proof -
  let ?f = "\<lambda>_ (pair, lowest_component_id, highest_priority).
              if cp_component_id x < lowest_component_id \<or> (cp_component_id x = lowest_component_id \<and> cp_priority x > highest_priority)
              then (Some p, cp_component_id x, cp_priority x) else (pair, lowest_component_id, highest_priority)"
  have "fold ?f qs (Some p, cp_component_id x, cp_priority x) = (Some p, cp_component_id x, cp_priority x)" for qs :: "nat list"
    by (induction qs) auto
  then show ?thesis using assms by (cases ps) (simp_all add: unfreeze_pick_def)
qed

text \<open>The pairs that are the first of their foundation in the list, when the foundations \<open>found\<close> are done.\<close>

fun first_of_foundation :: "(nat \<Rightarrow> string) \<Rightarrow> string list \<Rightarrow> nat list \<Rightarrow> nat list" where
  "first_of_foundation f found [] = []"
| "first_of_foundation f found (p # ps) =
     (if f p \<in> set found then first_of_foundation f found ps
      else p # first_of_foundation f (f p # found) ps)"

lemma first_of_foundation_subset: "set (first_of_foundation f found ps) \<subseteq> set ps"
  by (induction f found ps rule: first_of_foundation.induct) auto

lemma unfreeze_loop_result:
  assumes "\<forall>p \<in> set ps. \<exists>x. ag_pairs s p = Some x \<and> cp_component_id x \<le> n \<and> f p = cp_foundation x" "all \<noteq> []" "distinct ps"
  shows "\<exists>u. unfreeze_loop n all found ps r s = Some (r \<or> first_of_foundation f found ps \<noteq> [], u)
    \<and> (\<forall>p. ag_pairs u p = (if p \<in> set (first_of_foundation f found ps)
          then map_option (\<lambda>x. x\<lparr>cp_state := NICE_CHECK_WAITING\<rparr>) (ag_pairs s p) else ag_pairs s p))"
  using assms
proof (induction ps arbitrary: found r s)
  case (Cons p ps)
  obtain x where x: "ag_pairs s p = Some x" "cp_component_id x \<le> n" "f p = cp_foundation x" using Cons.prems(1) by auto
  show ?case
  proof (cases "f p \<in> set found")
    case True
    then show ?thesis using Cons.IH [of s found r] Cons.prems x by simp
  next
    case False
    let ?s = "s\<lparr>ag_pairs := (ag_pairs s)(p \<mapsto> x\<lparr>cp_state := NICE_CHECK_WAITING\<rparr>)\<rparr>"
    have "\<forall>q \<in> set ps. \<exists>x. ag_pairs ?s q = Some x \<and> cp_component_id x \<le> n \<and> f q = cp_foundation x"
      using Cons.prems(1,3) by auto
    from Cons.IH [OF this Cons.prems(2), of "f p # found" True] Cons.prems(3) obtain u where
      u: "unfreeze_loop n all (f p # found) ps True ?s = Some (True, u)"
        "\<forall>q. ag_pairs u q = (if q \<in> set (first_of_foundation f (f p # found) ps)
            then map_option (\<lambda>x. x\<lparr>cp_state := NICE_CHECK_WAITING\<rparr>) (ag_pairs ?s q) else ag_pairs ?s q)"
      by auto
    have "unfreeze_loop n all found (p # ps) r s = unfreeze_loop n all (f p # found) ps True ?s"
      using x False Cons.prems(2) by (simp add: unfreeze_pick_first upd_pair_def)
    moreover have "set (first_of_foundation f (f p # found) ps) \<subseteq> set ps"
      by (rule first_of_foundation_subset)
    ultimately show ?thesis using u False x Cons.prems(3) by auto
  qed
qed simp

lemma first_of_foundation_nth:
  assumes "distinct ps" "k < length ps"
  shows "ps ! k \<in> set (first_of_foundation f found ps) \<longleftrightarrow> f (ps ! k) \<notin> set found \<and> (\<forall>j < k. f (ps ! j) \<noteq> f (ps ! k))"
  using assms
proof (induction ps arbitrary: found k)
  case (Cons p ps)
  show ?case
  proof (cases k)
    case 0
    then show ?thesis using Cons.prems(1) first_of_foundation_subset [of f found ps] by auto
  next
    case (Suc m)
    have ne: "ps ! m \<noteq> p" using Cons.prems Suc by auto
    have all: "(\<forall>j < Suc m. f ((p # ps) ! j) \<noteq> f (ps ! m)) \<longleftrightarrow> f p \<noteq> f (ps ! m) \<and> (\<forall>j < m. f (ps ! j) \<noteq> f (ps ! m))"
      using less_Suc_eq_0_disj by auto
    show ?thesis using Cons.IH [of m] Cons.prems Suc ne unfolding all by (auto simp: all)
  qed
qed simp

lemma unfreeze_next_first:
  assumes "lists_ok s" "st \<in> set (ag_streams s)"
    and "\<forall>p \<in> set (checklist s st). cp_component_id (the (ag_pairs s p)) \<le> st_n_components (ag_stream s st)"
  shows "\<exists>u. priv_conn_check_unfreeze_next st s = Some (checklist s st \<noteq> [], u) \<and> lists_ok u
    \<and> (\<forall>k < length (checklist s st). \<forall>x. ag_pairs s (checklist s st ! k) = Some x \<longrightarrow>
         ag_pairs u (checklist s st ! k)
         = Some (if \<forall>j < k. cp_foundation (the (ag_pairs s (checklist s st ! j))) \<noteq> cp_foundation x
                 then x\<lparr>cp_state := NICE_CHECK_WAITING\<rparr> else x))"
proof -
  let ?ps = "checklist s st" and ?f = "\<lambda>p. cp_foundation (the (ag_pairs s p))"
  have pre: "\<forall>p \<in> set ?ps. \<exists>x. ag_pairs s p = Some x \<and> cp_component_id x \<le> st_n_components (ag_stream s st) \<and> ?f p = cp_foundation x"
    using lists_okD(4) [OF assms(1,2)] assms(3) by fastforce
  have dist: "distinct ?ps" by (rule lists_okD(2) [OF assms(1,2)])
  have first: "first_of_foundation ?f [] ?ps \<noteq> [] \<longleftrightarrow> ?ps \<noteq> []" by (cases ?ps) auto
  obtain u where u: "priv_conn_check_unfreeze_next st s = Some (?ps \<noteq> [], u)"
    and pairs: "\<forall>p. ag_pairs u p = (if p \<in> set (first_of_foundation ?f [] ?ps)
          then map_option (\<lambda>x. x\<lparr>cp_state := NICE_CHECK_WAITING\<rparr>) (ag_pairs s p) else ag_pairs s p)"
  proof (cases "?ps = []")
    case True
    then show ?thesis using that [of s] by (simp add: priv_conn_check_unfreeze_next_def)
  next
    case False
    then show ?thesis using that unfreeze_loop_result [OF pre False dist, of "[]" False] first
      by (auto simp: priv_conn_check_unfreeze_next_def)
  qed
  have "lists_ok u" using runs_lists_ok [OF runs_unfreeze_next [OF assms(1)] assms(1) u] by simp
  then show ?thesis using u pairs first_of_foundation_nth [OF dist, of _ ?f "[]"]
    by (intro exI [of _ u]) auto
qed

text \<open>The pair that algorithm 2 of RFC 5245, section 5.7.4, selects among those of its foundation: the lowest component,
  then the highest priority; of equal ones the first in the list.\<close>

definition rfc_selected :: "NiceAgent \<Rightarrow> nat list \<Rightarrow> nat \<Rightarrow> bool" where
  "rfc_selected s ps k \<longleftrightarrow>
     (let pair = (\<lambda>j. the (ag_pairs s (ps ! j))); x = pair k in
      \<forall>j < length ps. cp_foundation (pair j) = cp_foundation x \<longrightarrow>
        cp_component_id x < cp_component_id (pair j)
        \<or> cp_component_id x = cp_component_id (pair j)
          \<and> (cp_priority (pair j) < cp_priority x \<or> cp_priority (pair j) = cp_priority x \<and> k \<le> j))"

lemma first_is_selected:
  assumes ok: "lists_ok s" "st \<in> set (ag_streams s)" and k: "k < length (checklist s st)"
    and order: "\<forall>p \<in> set (checklist s st). \<forall>q \<in> set (checklist s st).
      cp_foundation (the (ag_pairs s p)) = cp_foundation (the (ag_pairs s q))
      \<and> cp_component_id (the (ag_pairs s p)) < cp_component_id (the (ag_pairs s q)) \<longrightarrow> prio s q < prio s p"
  shows "rfc_selected s (checklist s st) k \<longleftrightarrow> (\<forall>j < k. cp_foundation (the (ag_pairs s (checklist s st ! j)))
    \<noteq> cp_foundation (the (ag_pairs s (checklist s st ! k))))"
proof -
  let ?ps = "checklist s st"
  let ?x = "\<lambda>j. the (ag_pairs s (?ps ! j))"
  have down: "cp_priority (?x n) \<le> cp_priority (?x m)" if "m \<le> n" "n < length ?ps" for m n
  proof -
    have "prio s (?ps ! n) \<le> prio s (?ps ! m)"
      using sorted_wrt_nth_less [OF lists_okD(3) [OF ok, unfolded descending_def], of m n] that by (cases "m = n") auto
    moreover have "prio s (?ps ! j) = cp_priority (?x j)" if "j < length ?ps" for j
      using lists_okD(4) [OF ok] nth_mem [OF that] by (fastforce simp: prio_def)
    ultimately show ?thesis using that by simp
  qed
  have comp: "cp_priority (?x n) < cp_priority (?x m)"
    if "m < length ?ps" "n < length ?ps" "cp_foundation (?x m) = cp_foundation (?x n)"
      "cp_component_id (?x m) < cp_component_id (?x n)" for m n
    using order nth_mem [OF that(1)] nth_mem [OF that(2)] that(3,4) lists_okD(4) [OF ok] by (fastforce simp: prio_def)
  show ?thesis
  proof
    assume sel: "rfc_selected s ?ps k"
    show "\<forall>j < k. cp_foundation (?x j) \<noteq> cp_foundation (?x k)"
    proof (intro allI impI notI)
      fix j assume j: "j < k" "cp_foundation (?x j) = cp_foundation (?x k)"
      then have "cp_component_id (?x k) < cp_component_id (?x j) \<or> cp_priority (?x j) < cp_priority (?x k)"
        using sel [unfolded rfc_selected_def Let_def, rule_format, of j] k by auto
      then show False using down [of j k] comp [of k j] j k by fastforce
    qed
  next
    assume first: "\<forall>j < k. cp_foundation (?x j) \<noteq> cp_foundation (?x k)"
    show "rfc_selected s ?ps k"
      unfolding rfc_selected_def Let_def
    proof (intro allI impI)
      fix j assume j: "j < length ?ps" "cp_foundation (?x j) = cp_foundation (?x k)"
      then have "k \<le> j" using first by (meson not_le)
      moreover have "\<not> cp_component_id (?x j) < cp_component_id (?x k)"
        using comp [of j k] down [OF \<open>k \<le> j\<close> j(1)] j k by fastforce
      ultimately show "cp_component_id (?x k) < cp_component_id (?x j)
          \<or> cp_component_id (?x k) = cp_component_id (?x j)
            \<and> (cp_priority (?x j) < cp_priority (?x k) \<or> cp_priority (?x j) = cp_priority (?x k) \<and> k \<le> j)"
        using down [OF \<open>k \<le> j\<close> j(1)] by (auto simp: order_le_less)
    qed
  qed
qed

text \<open>C35: Unfreezing a check list whose pairs are all frozen, as it is before the first checks, does what the comment
  of the function asks for, provided that among the pairs of one foundation those of a lower component have a
  higher priority, which the priority formula gives candidates of one kind: it returns TRUE exactly when there is a
  frozen pair, makes waiting in each foundation the one pair that RFC 5245 selects, and leaves all other pairs frozen.
  The proviso is needed because the inner loop of the function looks at one pair only. On a list with other pairs the
  function is not what its documentation says: it returns TRUE whenever the list is not empty, and it makes the first
  pair of a foundation waiting whatever its state was.\<close>

theorem unfreeze_next_result:
  assumes "lists_ok s" "st \<in> set (ag_streams s)"
    and "\<forall>p \<in> set (checklist s st). cp_component_id (the (ag_pairs s p)) \<le> st_n_components (ag_stream s st)"
    and "\<forall>p \<in> set (checklist s st). cp_state (the (ag_pairs s p)) = NICE_CHECK_FROZEN"
    and "\<forall>p \<in> set (checklist s st). \<forall>q \<in> set (checklist s st).
      cp_foundation (the (ag_pairs s p)) = cp_foundation (the (ag_pairs s q))
      \<and> cp_component_id (the (ag_pairs s p)) < cp_component_id (the (ag_pairs s q)) \<longrightarrow> prio s q < prio s p"
  shows "\<exists>u. priv_conn_check_unfreeze_next st s
      = Some (\<exists>p \<in> set (checklist s st). cp_state (the (ag_pairs s p)) = NICE_CHECK_FROZEN, u) \<and> lists_ok u
    \<and> (\<forall>k < length (checklist s st). \<forall>x. ag_pairs s (checklist s st ! k) = Some x \<longrightarrow>
         ag_pairs u (checklist s st ! k)
         = Some (x\<lparr>cp_state := (if rfc_selected s (checklist s st) k then NICE_CHECK_WAITING else NICE_CHECK_FROZEN)\<rparr>))"
proof -
  let ?ps = "checklist s st"
  obtain u where u: "priv_conn_check_unfreeze_next st s = Some (?ps \<noteq> [], u)" "lists_ok u"
    and r: "\<And>k x. k < length ?ps \<Longrightarrow> ag_pairs s (?ps ! k) = Some x \<Longrightarrow> ag_pairs u (?ps ! k)
         = Some (if \<forall>j < k. cp_foundation (the (ag_pairs s (?ps ! j))) \<noteq> cp_foundation x
                 then x\<lparr>cp_state := NICE_CHECK_WAITING\<rparr> else x)"
    using unfreeze_next_first [OF assms(1-3)] by blast
  have "(?ps \<noteq> []) = (\<exists>p \<in> set ?ps. cp_state (the (ag_pairs s p)) = NICE_CHECK_FROZEN)"
    using assms(4) by (cases ?ps) auto
  moreover have "ag_pairs u (?ps ! k)
      = Some (x\<lparr>cp_state := (if rfc_selected s ?ps k then NICE_CHECK_WAITING else NICE_CHECK_FROZEN)\<rparr>)"
    if k: "k < length ?ps" "ag_pairs s (?ps ! k) = Some x" for k x
  proof -
    have "x\<lparr>cp_state := NICE_CHECK_FROZEN\<rparr> = x" using assms(4) nth_mem [OF k(1)] k(2) by fastforce
    then show ?thesis using r [OF k] first_is_selected [OF assms(1,2) k(1) assms(5)] k(2) by auto
  qed
  ultimately show ?thesis using u by (intro exI [of _ u]) simp
qed

text \<open>Two frozen pairs of one foundation.\<close>

theorem unfreeze_next_result_witness:
  "\<exists>u. priv_conn_check_unfreeze_next 0 (demo_checks [demo_pair 1 NICE_CHECK_FROZEN False 9 ''a'',
        demo_pair 1 NICE_CHECK_FROZEN False 7 ''a'']) = Some (True, u)
     \<and> map_option cp_state (ag_pairs u 0) = Some NICE_CHECK_WAITING \<and> map_option cp_state (ag_pairs u 1) = Some NICE_CHECK_FROZEN"
proof -
  let ?xs = "[demo_pair 1 NICE_CHECK_FROZEN False 9 ''a'', demo_pair 1 NICE_CHECK_FROZEN False 7 ''a'']"
  let ?s = "demo_checks ?xs"
  have ok: "lists_ok ?s" by (rule demo_checks_lists_ok) (simp_all add: demo_pair_def new_pair_def)
  have cl: "checklist ?s 0 = [0, 1]" by (simp add: demo_checks_def upt_rec)
  have ps: "ag_pairs ?s 0 = Some (?xs ! 0)" "ag_pairs ?s (Suc 0) = Some (?xs ! 1)" by (simp_all add: demo_checks_def)
  have n: "st_n_components (ag_stream ?s 0) = 1" "0 \<in> set (ag_streams ?s)" by (simp_all add: demo_checks_def demo_agent_def)
  have c: "\<forall>p \<in> set (checklist ?s 0). cp_component_id (the (ag_pairs ?s p)) \<le> st_n_components (ag_stream ?s 0)"
    "\<forall>p \<in> set (checklist ?s 0). cp_state (the (ag_pairs ?s p)) = NICE_CHECK_FROZEN"
    using ps unfolding cl n by (simp_all add: demo_pair_def new_pair_def)
  have d: "\<forall>p \<in> set (checklist ?s 0). \<forall>q \<in> set (checklist ?s 0).
      cp_foundation (the (ag_pairs ?s p)) = cp_foundation (the (ag_pairs ?s q))
      \<and> cp_component_id (the (ag_pairs ?s p)) < cp_component_id (the (ag_pairs ?s q)) \<longrightarrow> prio ?s q < prio ?s p"
    using ps unfolding cl by (simp add: demo_pair_def new_pair_def)
  have sel: "rfc_selected ?s [0, 1] 0" "\<not> rfc_selected ?s [0, 1] 1"
    using ps by (auto simp: rfc_selected_def demo_pair_def new_pair_def less_Suc_eq)
  from unfreeze_next_result [OF ok n(2) c d] obtain u where u: "priv_conn_check_unfreeze_next 0 ?s = Some (True, u)"
    and r: "\<And>k x. k < 2 \<Longrightarrow> ag_pairs ?s ([0, 1] ! k) = Some x \<Longrightarrow> ag_pairs u ([0, 1] ! k)
         = Some (x\<lparr>cp_state := (if rfc_selected ?s [0, 1] k then NICE_CHECK_WAITING else NICE_CHECK_FROZEN)\<rparr>)"
    using ps unfolding cl by (auto simp: numeral_2_eq_2 demo_pair_def new_pair_def)
  have "ag_pairs u 0 = Some ((?xs ! 0)\<lparr>cp_state := NICE_CHECK_WAITING\<rparr>)"
    using r [of 0 "?xs ! 0"] ps(1) sel(1) by simp
  moreover have "ag_pairs u 1 = Some ((?xs ! 1)\<lparr>cp_state := NICE_CHECK_FROZEN\<rparr>)"
    using r [of 1 "?xs ! 1"] ps(2) sel(2) by simp
  ultimately show ?thesis using u by simp
qed

end
