(* ===== verification/Inbound_Claims.thy ===== *)
theory Inbound_Claims
  imports Conncheck_Claims Stun_Agent_Claims
begin

text \<open>
  Who can influence an agent by STUN messages: a request that is not authenticated changes nothing but the table of the
  STUN agent and the packets that are sent, unless a discovery is under way on the same socket.
\<close>

section \<open>Requests that have no effect\<close>

definition quiet :: "nat \<Rightarrow> NiceAgent \<Rightarrow> NiceAgent \<Rightarrow> bool" where
  "quiet c s s' \<longleftrightarrow> (\<exists>ag es. s' = (upd_component c (\<lambda>x. x\<lparr>cm_stun_agent := ag\<rparr>) s)\<lparr>ag_events := es\<rparr>)"

lemma quiet_refl: "quiet c s s"
  unfolding quiet_def by (intro exI [of _ "cm_stun_agent (ag_component s c)"] exI [of _ "ag_events s"]) (simp add: upd_component_def)

lemma quiet_agent:
  assumes "quiet c s u"
  shows "quiet c s (upd_component c (cm_stun_agent_update (\<lambda>_. ag)) u)"
proof -
  obtain ag' es where "u = (upd_component c (\<lambda>x. x\<lparr>cm_stun_agent := ag'\<rparr>) s)\<lparr>ag_events := es\<rparr>" using assms by (auto simp: quiet_def)
  then have "upd_component c (cm_stun_agent_update (\<lambda>_. ag)) u = (upd_component c (\<lambda>x. x\<lparr>cm_stun_agent := ag\<rparr>) s)\<lparr>ag_events := es\<rparr>"
    by (simp add: upd_component_def)
  then show ?thesis unfolding quiet_def by blast
qed

lemma quiet_emit:
  assumes "quiet c s u"
  shows "quiet c s (emit e u)"
proof -
  obtain ag es where "u = (upd_component c (\<lambda>x. x\<lparr>cm_stun_agent := ag\<rparr>) s)\<lparr>ag_events := es\<rparr>" using assms by (auto simp: quiet_def)
  then have "emit e u = (upd_component c (\<lambda>x. x\<lparr>cm_stun_agent := ag\<rparr>) s)\<lparr>ag_events := es @ [e]\<rparr>"
    by (simp add: upd_component_def emit_def)
  then show ?thesis unfolding quiet_def by blast
qed

lemmas quiet_intros = quiet_agent quiet_emit

lemma quiet_error: "quiet c s u \<Longrightarrow> inbound_error env c sock from err req u = Some v \<Longrightarrow> quiet c s v"
  unfolding inbound_error_def Let_def
  by (auto split: if_splits elim!: bind_SomeE intro!: quiet_intros)

lemma quiet_unknown: "quiet c s u \<Longrightarrow> inbound_unknown env c sock from req u = Some v \<Longrightarrow> quiet c s v"
  unfolding inbound_unknown_def Let_def
  by (auto split: if_splits elim!: bind_SomeE intro!: quiet_intros)

lemma validate_single:
  assumes "inbound_validate env st c buf [] [] s = Some ((valid, req, dm), u)"
  shows "\<exists>ag. stun_agent_validate (env_hmac env) (env_md5 env) (cm_stun_agent (ag_component s c)) zero_message buf
      (Some (conncheck_stun_validater env s st c)) = Some (valid, ag, req) \<and> quiet c s u"
proof -
  have q: "quiet c s (upd_component c (\<lambda>x. x\<lparr>cm_stun_agent := ag\<rparr>) s)" for ag by (intro quiet_intros quiet_refl)
  have t: "(if b then try_agents env vld buf [] r else Some r) = Some r" for b vld r by simp
  show ?thesis using assms q unfolding inbound_validate_def Let_def t by (auto elim!: bind_SomeE)
qed

lemma not_accepted_quiet:
  assumes "conn_check_handle_inbound_stun env st c sock from buf [] [] s = Some (r, s')"
    and "inbound_validate env st c buf [] [] s = Some ((valid, req, dm), u)" "\<not> accepted valid"
  shows "quiet c s s'"
proof -
  have u: "quiet c s u" using validate_single [OF assms(2)] by blast
  have "valid \<noteq> STUN_VALIDATION_SUCCESS" using assms(3) by (auto simp: accepted_def)
  then show ?thesis using assms(1) u unfolding conn_check_handle_inbound_stun_def assms(2)
    by (auto simp: Let_def split: if_splits elim!: bind_SomeE intro: quiet_error quiet_unknown)
qed

lemma validater_knows:
  assumes "conncheck_stun_validater env s st c ag m (Some u) None = Some ko" "stun_message_get_class m = Some STUN_REQUEST"
  shows "\<exists>n \<in> set (cm_local_candidates (ag_component s c)). validater_ufrag env s st n \<noteq> []
    \<and> take (length (validater_ufrag env s st n)) u = validater_ufrag env s st n \<and> ko = validater_password env s st n"
proof -
  let ?P = "\<lambda>n. let ufrag = validater_ufrag env s st n in ufrag \<noteq> [] \<and> length ufrag \<le> length u \<and> take (length ufrag) u = ufrag"
  obtain n where n: "find ?P (cm_local_candidates (ag_component s c)) = Some n"
    "ko = (case validater_password env s st n of None \<Rightarrow> None | Some p \<Rightarrow> Some p)"
    using assms by (auto simp: conncheck_stun_validater_def Let_def split: option.splits)
  have "n \<in> set (cm_local_candidates (ag_component s c)) \<and> ?P n" using n(1) by (auto simp: find_Some_iff set_conv_nth)
  moreover have "ko = validater_password env s st n" using n(2) by (cases "validater_password env s st n") auto
  ultimately show ?thesis by (auto simp: Let_def)
qed

text \<open>C3: When no discovery or refresh uses the socket, a STUN request changes an agent with short-term credentials (its
  candidates, check lists, roles, component states, anything but the table of the STUN agent and the packets sent) only
  if its user name starts with the user name fragment of a local candidate of the component and, unless that
  candidate has no password, its MESSAGE-INTEGRITY attribute is the HMAC of the message under the password of
  that candidate.\<close>

theorem inbound_authenticated:
  assumes "conn_check_handle_inbound_stun env st c sock from buf [] [] s = Some (r, s')"
    and "stun_message_get_class (received_message (cm_stun_agent (ag_component s c)) zero_message buf) = Some STUN_REQUEST"
    and "has_flag (cm_stun_agent (ag_component s c)) STUN_AGENT_USAGE_SHORT_TERM_CREDENTIALS"
    and "\<not> has_flag (cm_stun_agent (ag_component s c)) STUN_AGENT_USAGE_LONG_TERM_CREDENTIALS"
    and "\<not> has_flag (cm_stun_agent (ag_component s c)) STUN_AGENT_USAGE_IGNORE_CREDENTIALS"
  shows "(\<exists>ag es. s' = (upd_component c (\<lambda>x. x\<lparr>cm_stun_agent := ag\<rparr>) s)\<lparr>ag_events := es\<rparr>)
    \<or> (\<exists>u. found_bytes (received_message (cm_stun_agent (ag_component s c)) zero_message buf) STUN_ATTRIBUTE_USERNAME = Some (Some u)
        \<and> (\<exists>n \<in> set (cm_local_candidates (ag_component s c)). validater_ufrag env s st n \<noteq> []
            \<and> take (length (validater_ufrag env s st n)) u = validater_ufrag env s st n
            \<and> (validater_password env s st n = None \<or> validater_password env s st n = Some []
               \<or> (\<exists>kb off l sha. validater_password env s st n = Some kb
                    \<and> stun_message_find (received_message (cm_stun_agent (ag_component s c)) zero_message buf)
                        STUN_ATTRIBUTE_MESSAGE_INTEGRITY = Some (Some (off, l))
                    \<and> integrity_hash (env_hmac env) (cm_stun_agent (ag_component s c))
                        (received_message (cm_stun_agent (ag_component s c)) zero_message buf) off kb = Some sha
                    \<and> mem_read buf off 20 = Some sha))))"
proof -
  let ?ag = "cm_stun_agent (ag_component s c)"
  let ?m = "received_message ?ag zero_message buf"
  obtain valid req dm u where v: "inbound_validate env st c buf [] [] s = Some ((valid, req, dm), u)"
    using assms(1) unfolding conn_check_handle_inbound_stun_def by (auto elim!: bind_SomeE)
  show ?thesis
  proof (cases "accepted valid")
    case False
    then show ?thesis using not_accepted_quiet [OF assms(1) v] by (simp add: quiet_def)
  next
    case True
    obtain ag' where run: "stun_agent_validate (env_hmac env) (env_md5 env) ?ag zero_message buf
        (Some (conncheck_stun_validater env s st c)) = Some (valid, ag', req)"
      using validate_single [OF v] by blast
    have "buffer req = buf" using validate_outcome [OF run] True by simp
    then have cls: "stun_message_get_class req = Some STUN_REQUEST"
      using assms(2) by (simp add: stun_message_get_class_def stun_message_type_def received_message_def)
    obtain w f ko where w: "found_bytes ?m STUN_ATTRIBUTE_USERNAME = Some (Some w)"
      "Some (conncheck_stun_validater env s st c) = Some f" "f ?ag ?m (Some w) None = Some ko"
      "ko = None \<or> ko = Some [] \<or> (\<exists>kb off l sha. ko = Some kb \<and> key req = Some kb
         \<and> stun_message_find ?m STUN_ATTRIBUTE_MESSAGE_INTEGRITY = Some (Some (off, l))
         \<and> integrity_hash (env_hmac env) ?ag ?m off kb = Some sha \<and> mem_read buf off 20 = Some sha)"
      using accepted_request_key [OF run True cls assms(3-5)] by blast
    from w(2,3) have "conncheck_stun_validater env s st c ?ag ?m (Some w) None = Some ko" by simp
    from validater_knows [OF this assms(2)] w(1,4) show ?thesis by blast
  qed
qed

text \<open>An agent that uses the STUN agent of RFC 5245, a request without any credentials and without a fingerprint, and
  the STUN agent with which server reflexive candidates are discovered.\<close>

definition demo_inbound_agent :: NiceAgent where
  "demo_inbound_agent = upd_component 0 (\<lambda>x. x\<lparr>cm_stun_agent := stun_agent_init STUN_ALL_KNOWN_ATTRIBUTES STUN_COMPATIBILITY_RFC5389
     (STUN_AGENT_USAGE_SHORT_TERM_CREDENTIALS OR STUN_AGENT_USAGE_USE_FINGERPRINT)\<rparr>) (demo_agent NICE_COMPATIBILITY_RFC5245 100)"

definition demo_discovery_agent :: stun_agent where
  "demo_discovery_agent = stun_agent_init STUN_ALL_KNOWN_ATTRIBUTES STUN_COMPATIBILITY_RFC3489 0"

definition demo_request :: bytes where
  "demo_request = [0, 1, 0, 24, 0x21, 0x12, 0xA4, 0x42] @ replicate 12 9 @ [0, 0x24, 0, 4, 0, 0, 1, 0]
     @ [0x80, 0x29, 0, 8, 0, 0, 0, 0, 0, 0, 0, 1] @ [0, 0x25, 0, 0]"

lemma demo_request_rejected:
  "map_option (\<lambda>(r, s). (r = InboundFalse, checklist s 0, fst (nice_component_verify_remote_candidate (NA_INET 5 99) False (ag_component s 0))))
     (conn_check_handle_inbound_stun demo_env 0 0 (Some 7) (NA_INET 5 99) demo_request [] [] demo_inbound_agent)
   = Some (True, [], False)"
  by code_simp

lemma demo_request_flags:
  "stun_message_get_class (received_message (cm_stun_agent (ag_component demo_inbound_agent 0)) zero_message demo_request) = Some STUN_REQUEST
   \<and> has_flag (cm_stun_agent (ag_component demo_inbound_agent 0)) STUN_AGENT_USAGE_SHORT_TERM_CREDENTIALS
   \<and> \<not> has_flag (cm_stun_agent (ag_component demo_inbound_agent 0)) STUN_AGENT_USAGE_LONG_TERM_CREDENTIALS
   \<and> \<not> has_flag (cm_stun_agent (ag_component demo_inbound_agent 0)) STUN_AGENT_USAGE_IGNORE_CREDENTIALS"
  by code_simp

lemma demo_request_attributes:
  "found_bytes (received_message (cm_stun_agent (ag_component demo_inbound_agent 0)) zero_message demo_request) STUN_ATTRIBUTE_USERNAME = Some None
   \<and> stun_message_has_attribute (received_message demo_discovery_agent zero_message demo_request) STUN_ATTRIBUTE_MESSAGE_INTEGRITY = Some False"
  by code_simp

lemma demo_request_processed:
  "map_option (\<lambda>(r, s). (r = InboundTrue, checklist s 0, fst (nice_component_verify_remote_candidate (NA_INET 5 99) False (ag_component s 0))))
     (conn_check_handle_inbound_stun demo_env 0 0 (Some 7) (NA_INET 5 99) demo_request [demo_discovery_agent] [] demo_inbound_agent)
   = Some (True, [0], True)"
  by code_simp

theorem inbound_authenticated_witness:
  "\<exists>r s' ag es. conn_check_handle_inbound_stun demo_env 0 0 (Some 7) (NA_INET 5 99) demo_request [] [] demo_inbound_agent = Some (r, s')
     \<and> s' = (upd_component 0 (\<lambda>x. x\<lparr>cm_stun_agent := ag\<rparr>) demo_inbound_agent)\<lparr>ag_events := es\<rparr>"
proof -
  obtain r s' where run: "conn_check_handle_inbound_stun demo_env 0 0 (Some 7) (NA_INET 5 99) demo_request [] [] demo_inbound_agent = Some (r, s')"
    using demo_request_rejected by fastforce
  note f = demo_request_flags demo_request_attributes
  from inbound_authenticated [OF run] f show ?thesis using run by auto
qed

section \<open>Requests that another agent accepts\<close>

text \<open>A complete message for a STUN agent.\<close>

definition complete_for :: "stun_agent \<Rightarrow> bytes \<Rightarrow> bool" where
  "complete_for ag buf \<longleftrightarrow> length buf < 65536 \<and> stun_message_validate_buffer_length buf (length buf)
     (\<not> has_flag ag STUN_AGENT_USAGE_NO_ALIGNED_ATTRIBUTES) = Some (int (length buf))"

lemma lacks_attribute: "stun_message_has_attribute m t = Some False \<longleftrightarrow> stun_message_find m t = Some None"
  unfolding stun_message_has_attribute_def by (cases "stun_message_find m t") (simp_all del: not_None_eq)

lemma complete_attrs:
  assumes "complete_for ag buf"
  obtains as where "message_attrs (received_message ag m0 buf) = Some as"
    "stun_agent_validate hmac md5 ag m0 buf vld = validate_received hmac md5 ag (received_message ag m0 buf) vld"
proof -
  let ?m = "received_message ag m0 buf"
  have "no_aligned_attributes ?m = has_flag ag STUN_AGENT_USAGE_NO_ALIGNED_ATTRIBUTES" by (rule has_flag_cfg) simp
  then obtain as where as: "message_attrs ?m = Some as"
    using validated_message_attrs(1) [of buf _ ?m] assms by (auto simp: complete_for_def received_message_def)
  have "20 \<le> length buf" using message_attrsD(2) [OF as] by (simp add: received_message_def)
  then have "stun_agent_validate hmac md5 ag m0 buf vld = validate_received hmac md5 ag ?m vld"
    using assms by (auto simp: stun_agent_validate_def complete_for_def)
  then show thesis using that as by blast
qed

text \<open>A STUN agent that wants a fingerprint refuses a message without one, whatever else is in it.\<close>

lemma fingerprint_missing:
  assumes "complete_for ag buf" "uses_fingerprint ag"
    and "stun_message_has_attribute (received_message ag m0 buf) STUN_ATTRIBUTE_FINGERPRINT = Some False"
  shows "stun_agent_validate hmac md5 ag m0 buf vld = Some (STUN_VALIDATION_BAD_REQUEST, ag, received_message ag m0 buf)"
proof -
  let ?m = "received_message ag m0 buf"
  obtain as where as: "message_attrs ?m = Some as"
    and v: "stun_agent_validate hmac md5 ag m0 buf vld = validate_received hmac md5 ag ?m vld"
    by (rule complete_attrs [OF assms(1)])
  have "stun_message_find ?m STUN_ATTRIBUTE_FINGERPRINT = Some None"
    using assms(3) by (simp add: lacks_attribute)
  then have "stun_agent_check_fingerprint ag ?m = Some False"
    by (simp add: stun_agent_check_fingerprint_def stun_message_find32_def)
  moreover obtain ck where "stun_message_has_cookie ?m = Some ck"
    using header_defined [OF as] by (auto simp: stun_message_has_cookie_def)
  ultimately have "validate_format ag ?m = Some False"
    using assms(2) by (simp add: validate_format_def uses_fingerprint_def)
  then show ?thesis unfolding v by (simp add: validate_received_def)
qed

text \<open>A STUN agent as discoveries of server reflexive candidates use it, without any flag and without magic cookie,
  accepts every request that has neither user name nor integrity nor unknown attributes.\<close>

lemma discovery_accepts:
  assumes "complete_for d buf" "usage_flags d = 0" "\<not> cookie_compat d"
    and cls: "stun_message_get_class (received_message d m0 buf) = Some STUN_REQUEST"
    and has: "stun_message_has_attribute (received_message d m0 buf) STUN_ATTRIBUTE_USERNAME = Some False"
      "stun_message_has_attribute (received_message d m0 buf) STUN_ATTRIBUTE_MESSAGE_INTEGRITY = Some False"
    and un: "stun_agent_find_unknowns d (received_message d m0 buf) 1 = Some []"
  shows "\<exists>d'. stun_agent_validate hmac md5 d m0 buf vld = Some (STUN_VALIDATION_SUCCESS, d', received_message d m0 buf)"
proof -
  let ?m = "received_message d m0 buf"
  obtain as where as: "message_attrs ?m = Some as"
    and v: "stun_agent_validate hmac md5 d m0 buf vld = validate_received hmac md5 d ?m vld"
    by (rule complete_attrs [OF assms(1)])
  have fl: "\<not> has_flag d f" for f using assms(2) by (simp add: has_flag_def)
  have cfg: "agent ?m = Some (agent_cfg d)" by simp
  obtain ck where "stun_message_has_cookie ?m = Some ck"
    using header_defined [OF as] by (auto simp: stun_message_has_cookie_def)
  then have fmt: "validate_format d ?m = Some True" using assms(3) by (simp add: validate_format_def)
  have ic: "validate_ignore_credentials d ?m STUN_REQUEST = Some False"
    using fl by (simp add: validate_ignore_credentials_def stun_message_find_error_value [OF as])
  obtain x y where "stun_message_has_attribute ?m STUN_ATTRIBUTE_NONCE = Some x"
    "stun_message_has_attribute ?m STUN_ATTRIBUTE_REALM = Some y" using has_attribute_defined [OF as] by metis
  then have ms: "validate_missing_credentials d ?m STUN_REQUEST = Some False"
    using fl has by (simp add: validate_missing_credentials_def)
  obtain w where w: "stun_message_find32 ?m STUN_ATTRIBUTE_MS_IMPLEMENTATION_VERSION = Some w"
    using stun_message_find32_value [OF as] by simp
  have "stun_agent_find_unknowns (d\<lparr>ms_ice2_send_legacy_connchecks := False\<rparr>) ?m 1 = Some []"
    using un find_unknowns_list [OF as cfg, of 1] find_unknowns_list [OF as, of "d\<lparr>ms_ice2_send_legacy_connchecks := False\<rparr>" 1]
    by (simp add: agent_cfg_def received_message_def unknown_types_def)
  then have "\<exists>d'. validate_accept d ?m STUN_REQUEST None = Some (STUN_VALIDATION_SUCCESS, d', ?m)"
    using un w by (cases w) (simp_all add: validate_accept_def)
  then have "\<exists>d'. validate_credentials hmac md5 d ?m STUN_REQUEST None vld = Some (STUN_VALIDATION_SUCCESS, d', ?m)"
    using fl has(2) by (simp add: validate_credentials_def ic ms)
  then show ?thesis unfolding v using fmt cls by (simp add: validate_received_def validate_lookup_def)
qed

text \<open>C32: While a discovery of server reflexive candidates uses the socket, every request without user name, integrity
  and fingerprint is processed like an authenticated connectivity check. The STUN agent of the component refuses
  it as a bad request, and without a discovery this is the end: nothing changes. But then it is validated again by
  the STUN agent of the discovery, which asks for no credentials, and goes on to \<open>inbound_request\<close>, the part of the
  function that answers an accepted request, with no candidate taken from a user name. (For agents that do not look
  candidates up by user name, and requests without attributes that the agent of the discovery does not know.)\<close>

theorem inbound_unauthenticated:
  assumes "complete_for (cm_stun_agent (ag_component s c)) buf" "uses_fingerprint (cm_stun_agent (ag_component s c))"
    and "stun_message_has_attribute (received_message (cm_stun_agent (ag_component s c)) zero_message buf)
      STUN_ATTRIBUTE_FINGERPRINT = Some False"
    and d: "complete_for d buf" "usage_flags d = 0" "\<not> cookie_compat d"
      "stun_message_get_class (received_message d zero_message buf) = Some STUN_REQUEST"
      "stun_message_has_attribute (received_message d zero_message buf) STUN_ATTRIBUTE_USERNAME = Some False"
      "stun_message_has_attribute (received_message d zero_message buf) STUN_ATTRIBUTE_MESSAGE_INTEGRITY = Some False"
      "stun_agent_find_unknowns d (received_message d zero_message buf) 1 = Some []"
    and s: "\<not> inbound_msn s" "ag_compatibility s \<noteq> NICE_COMPATIBILITY_GOOGLE"
  shows "conn_check_handle_inbound_stun env st c sock from buf [] [] s = Some (InboundFalse, s)
    \<and> conn_check_handle_inbound_stun env st c sock from buf (d # ds) rs s
      = map_option (\<lambda>(b, s). (if b then InboundTrue else InboundFalse, s))
          (inbound_request env st c sock from (received_message d zero_message buf)
            (find (\<lambda>n. nice_address_equal (env_socket_addr env sock) (c_addr (ag_candidate s n)))
              (cm_local_candidates (ag_component s c)))
            (find (\<lambda>n. nice_address_equal from (c_addr (ag_candidate s n))) (cm_remote_candidates (ag_component s c)))
            None s)"
proof -
  let ?ag = "cm_stun_agent (ag_component s c)" and ?m = "received_message d zero_message buf"
  let ?vld = "Some (conncheck_stun_validater env s st c)"
  have same: "upd_component c (\<lambda>x. x\<lparr>cm_stun_agent := ?ag\<rparr>) s = s" by (simp add: upd_component_def)
  have bad: "stun_agent_validate (env_hmac env) (env_md5 env) ?ag zero_message buf ?vld
      = Some (STUN_VALIDATION_BAD_REQUEST, ?ag, received_message ?ag zero_message buf)"
    by (rule fingerprint_missing [OF assms(1-3)])
  have m: "received_message d (received_message ?ag zero_message buf) buf = ?m" by (simp add: received_message_def)
  obtain d' where ok: "stun_agent_validate (env_hmac env) (env_md5 env) d (received_message ?ag zero_message buf) buf ?vld
      = Some (STUN_VALIDATION_SUCCESS, d', ?m)"
    using discovery_accepts [OF d(1-3), of "received_message ?ag zero_message buf"] d(4-7) unfolding m by blast
  have v: "inbound_validate env st c buf [] [] s = Some ((STUN_VALIDATION_BAD_REQUEST, received_message ?ag zero_message buf, False), s)"
    "inbound_validate env st c buf (d # ds) rs s = Some ((STUN_VALIDATION_SUCCESS, ?m, True), s)"
    by (simp_all add: inbound_validate_def bad ok not_for_component_def same)
  have "found_bytes ?m STUN_ATTRIBUTE_USERNAME = Some None"
    using d(5) by (simp add: found_bytes_def lacks_attribute)
  then show ?thesis using s d(4)
    by (simp add: conn_check_handle_inbound_stun_def v Let_def map_option_case split: option.split)
qed

text \<open>The demonstration request makes a check pair for the address of its sender, from which data is accepted afterwards.\<close>

lemma demo_discovery_facts:
  "complete_for (cm_stun_agent (ag_component demo_inbound_agent 0)) demo_request
   \<and> uses_fingerprint (cm_stun_agent (ag_component demo_inbound_agent 0))
   \<and> stun_message_has_attribute (received_message (cm_stun_agent (ag_component demo_inbound_agent 0)) zero_message demo_request)
       STUN_ATTRIBUTE_FINGERPRINT = Some False
   \<and> complete_for demo_discovery_agent demo_request \<and> usage_flags demo_discovery_agent = 0 \<and> \<not> cookie_compat demo_discovery_agent
   \<and> stun_message_get_class (received_message demo_discovery_agent zero_message demo_request) = Some STUN_REQUEST
   \<and> stun_message_has_attribute (received_message demo_discovery_agent zero_message demo_request) STUN_ATTRIBUTE_USERNAME = Some False
   \<and> stun_agent_find_unknowns demo_discovery_agent (received_message demo_discovery_agent zero_message demo_request) 1 = Some []
   \<and> \<not> inbound_msn demo_inbound_agent \<and> ag_compatibility demo_inbound_agent \<noteq> NICE_COMPATIBILITY_GOOGLE"
  by code_simp

theorem inbound_unauthenticated_witness:
  "conn_check_handle_inbound_stun demo_env 0 0 (Some 7) (NA_INET 5 99) demo_request [] [] demo_inbound_agent
     = Some (InboundFalse, demo_inbound_agent)
   \<and> (\<exists>s'. conn_check_handle_inbound_stun demo_env 0 0 (Some 7) (NA_INET 5 99) demo_request [demo_discovery_agent] [] demo_inbound_agent
       = Some (InboundTrue, s')
     \<and> checklist s' 0 = [0] \<and> fst (nice_component_verify_remote_candidate (NA_INET 5 99) False (ag_component s' 0)))"
proof -
  note f = demo_discovery_facts demo_request_attributes
  have "conn_check_handle_inbound_stun demo_env 0 0 (Some 7) (NA_INET 5 99) demo_request [] [] demo_inbound_agent
     = Some (InboundFalse, demo_inbound_agent)"
    using inbound_unauthenticated [of demo_inbound_agent 0 demo_request demo_discovery_agent demo_env 0 "Some 7" "NA_INET 5 99" "[]" "[]"] f
    by blast
  then show ?thesis using demo_request_processed by auto
qed

end
