(* ===== verification/Socket_Queue.thy ===== *)
theory Socket_Queue
  imports Nice_Address
begin

text \<open>
  Messages in several buffers and the queue of data that a socket could not send at once (\<^verbatim>\<open>agent/agent.c\<close>,
  \<^verbatim>\<open>socket/socket.c\<close>), and the TCP socket that uses the queue (\<^verbatim>\<open>socket/tcp-bsd.c\<close>).

  A message is the list of its buffers. The buffers of a message to be received are the list of their sizes. What
  the operating system does with data is an argument: \<open>send_result\<close> is the outcome of one
  \<^verbatim>\<open>g_socket_send_message\<close>. The bytes it has accepted are recorded in \<open>tcp_wire\<close>. Reading a queued buffer
  beyond the bytes that were copied into it gives \<open>None\<close>.
\<close>

section \<open>Messages\<close>

type_synonym output_message = "bytes list"

fun output_message_get_size :: "output_message \<Rightarrow> nat" where
  "output_message_get_size [] = 0"
| "output_message_get_size (b # bs) = length b + output_message_get_size bs"

text \<open>The loop of \<^verbatim>\<open>compact_message\<close>; the number is \<^verbatim>\<open>buffer_length - offset\<close>.\<close>

fun compact_loop :: "bytes list \<Rightarrow> nat \<Rightarrow> bytes" where
  "compact_loop [] r = []"
| "compact_loop (b # bs) r = (let len = min r (length b) in take len b @ compact_loop bs (r - len))"

definition compact_message :: "bytes list \<Rightarrow> nat \<Rightarrow> bytes" where
  "compact_message bs buffer_length = compact_loop bs buffer_length"

definition compact_output_message :: "output_message \<Rightarrow> bytes \<times> nat" where
  "compact_output_message m = (let n = output_message_get_size m in (compact_message m n, n))"

definition compact_input_message :: "bytes list \<Rightarrow> nat \<Rightarrow> bytes \<times> nat" where
  "compact_input_message bs message_length = (compact_message bs message_length, message_length)"

text \<open>The contents of the buffers after the copy (buffers that are not reached are left out) and its length.\<close>

fun memcpy_buffer_to_input_message :: "nat list \<Rightarrow> bytes \<Rightarrow> bytes list \<times> nat" where
  "memcpy_buffer_to_input_message [] buffer = ([], 0)"
| "memcpy_buffer_to_input_message (sz # sizes) buffer =
     (if buffer = [] then ([], 0)
      else let len = min sz (length buffer);
               (rest, n) = memcpy_buffer_to_input_message sizes (drop len buffer)
           in (take len buffer # rest, len + n))"

section \<open>The send queue\<close>

record NiceSocketQueuedSend =
  qs_buf :: bytes
  qs_length :: nat
  qs_to :: NiceAddress

definition nice_socket_queue_send ::
  "NiceSocketQueuedSend list \<Rightarrow> NiceAddress \<Rightarrow> output_message list \<Rightarrow> NiceSocketQueuedSend list" where
  "nice_socket_queue_send q to messages =
     q @ map (\<lambda>m. \<lparr>qs_buf = compact_loop m (output_message_get_size m), qs_length = output_message_get_size m, qs_to = to\<rparr>)
          (filter (\<lambda>m. output_message_get_size m \<noteq> 0) messages)"

text \<open>The loop that copies a message from an offset on; \<open>r\<close> is \<^verbatim>\<open>tbs->length - offset\<close>.\<close>

fun queue_loop :: "bytes list \<Rightarrow> nat \<Rightarrow> nat \<Rightarrow> bytes" where
  "queue_loop [] message_offset r = []"
| "queue_loop (b # bs) message_offset r =
     (if length b \<le> message_offset then queue_loop bs (message_offset - length b) r
      else let len = min r (length b - message_offset)
           in take len (drop message_offset b) @
              queue_loop bs (if message_offset \<ge> len then message_offset - len else 0) (r - len))"

definition nice_socket_queue_send_with_callback ::
  "output_message \<Rightarrow> nat \<Rightarrow> nat \<Rightarrow> bool \<Rightarrow> NiceSocketQueuedSend list \<Rightarrow> NiceSocketQueuedSend list" where
  "nice_socket_queue_send_with_callback message message_offset message_len head q =
     (if message_offset \<ge> message_len then q
      else let tbs = \<lparr>qs_buf = queue_loop message message_offset (message_len - message_offset),
                      qs_length = message_len - message_offset, qs_to = NA_UNSPEC\<rparr>
           in if head then tbs # q else q @ [tbs])"

text \<open>The data of a queue element, as far as it is initialised.\<close>

definition queued_data :: "NiceSocketQueuedSend \<Rightarrow> bytes option" where
  "queued_data t = (if qs_length t \<le> length (qs_buf t) then Some (take (qs_length t) (qs_buf t)) else None)"

text \<open>Flushing the queue of a proxy into its base socket: what is sent, and where to.\<close>

fun nice_socket_flush_send_queue :: "NiceSocketQueuedSend list \<Rightarrow> (NiceAddress option \<times> bytes) list option" where
  "nice_socket_flush_send_queue [] = Some []"
| "nice_socket_flush_send_queue (t # q) = do {
     d \<leftarrow> queued_data t;
     ds \<leftarrow> nice_socket_flush_send_queue q;
     Some ((if nice_address_is_valid (qs_to t) then Some (qs_to t) else None, d) # ds)
   }"

datatype send_result = Sent nat | WouldBlock | Failed | OtherError

fun nice_socket_flush_send_queue_to_socket ::
  "NiceSocketQueuedSend list \<Rightarrow> send_result list \<Rightarrow> (bool \<times> NiceSocketQueuedSend list \<times> bytes) option" where
  "nice_socket_flush_send_queue_to_socket [] rs = Some (True, [], [])"
| "nice_socket_flush_send_queue_to_socket (t # q) rs = do {
     d \<leftarrow> queued_data t;
     case (case rs of [] \<Rightarrow> WouldBlock | r # _ \<Rightarrow> r) of
       WouldBlock \<Rightarrow> Some (False, nice_socket_queue_send_with_callback [d] 0 (length d) True q, [])
     | Sent n \<Rightarrow>
         if n < qs_length t
         then Some (False, nice_socket_queue_send_with_callback [drop n d] 0 (length d - n) True q, take n d)
         else do {
           (done, q, w) \<leftarrow> nice_socket_flush_send_queue_to_socket q (tl rs);
           Some (done, q, d @ w)
         }
     | _ \<Rightarrow> nice_socket_flush_send_queue_to_socket q (tl rs)
   }"

section \<open>The TCP socket\<close>

record TcpPriv =
  tcp_error :: bool
  tcp_send_queue :: "NiceSocketQueuedSend list"
  tcp_io_source :: bool
  tcp_wire :: bytes

text \<open>\<open>r\<close> is the outcome of the call of the operating system, when there is one.\<close>

definition tcp_send_message :: "TcpPriv \<Rightarrow> output_message \<Rightarrow> bool \<Rightarrow> send_result \<Rightarrow> int \<times> TcpPriv" where
  "tcp_send_message s message reliable r =
     (let message_len = output_message_get_size message;
          enqueue = (\<lambda>off head s. s\<lparr>tcp_send_queue :=
            nice_socket_queue_send_with_callback message off message_len head (tcp_send_queue s),
            tcp_io_source := tcp_io_source s \<or> off < message_len\<rparr>)
      in if tcp_error s then (- 1, s)
         else if tcp_send_queue s = [] then
           (case r of
              Sent n \<Rightarrow>
                let s = s\<lparr>tcp_wire := tcp_wire s @ take n (concat message)\<rparr>
                in if n < message_len then (int message_len, enqueue n True s) else (int n, s)
            | OtherError \<Rightarrow> (- 1, s)
            | _ \<Rightarrow> (int message_len, enqueue 0 False s))
         else if reliable then (int message_len, enqueue 0 False s)
         else (0, s))"

fun tcp_send_messages :: "TcpPriv \<Rightarrow> (output_message \<times> send_result) list \<Rightarrow> nat \<Rightarrow> int \<times> TcpPriv" where
  "tcp_send_messages s [] i = (int i, s)"
| "tcp_send_messages s ((m, r) # ms) i =
     (let (len, s) = tcp_send_message s m False r in
      if len < 0 then (if i > 0 then int i else len, s)
      else if len = 0 then (int i, s)
      else tcp_send_messages s ms (Suc i))"

fun tcp_send_messages_reliable :: "TcpPriv \<Rightarrow> (output_message \<times> send_result) list \<Rightarrow> nat \<Rightarrow> int \<times> TcpPriv" where
  "tcp_send_messages_reliable s [] i = (int i, s)"
| "tcp_send_messages_reliable s ((m, r) # ms) i =
     (let (len, s) = tcp_send_message s m True r in
      if len < 0 then (- 1, s) else tcp_send_messages_reliable s ms (Suc i))"

definition tcp_can_send :: "TcpPriv \<Rightarrow> bool" where
  "tcp_can_send s = (tcp_send_queue s = [])"

definition tcp_send_more :: "TcpPriv \<Rightarrow> bool \<Rightarrow> send_result list \<Rightarrow> (bool \<times> TcpPriv) option" where
  "tcp_send_more s hup rs =
     (if hup then Some (False, s\<lparr>tcp_io_source := False\<rparr>)
      else do {
        (done, q, w) \<leftarrow> nice_socket_flush_send_queue_to_socket (tcp_send_queue s) rs;
        let s = s\<lparr>tcp_send_queue := q, tcp_wire := tcp_wire s @ w\<rparr>;
        Some (if done then (False, s\<lparr>tcp_io_source := False\<rparr>) else (True, s))
      })"

text \<open>Receiving: the outcome of each \<^verbatim>\<open>g_socket_receive_message\<close>, where no data means that the peer has closed
  the connection or that the buffers have no room. \<open>out\<close> is the messages that have been filled so far.\<close>

datatype recv_result = Received bytes | RecvWouldBlock | RecvError

fun tcp_recv_loop :: "TcpPriv \<Rightarrow> nat \<Rightarrow> recv_result list \<Rightarrow> bytes list \<Rightarrow> int \<times> bytes list \<times> TcpPriv" where
  "tcp_recv_loop s 0 rs out = (int (length out), out, s)"
| "tcp_recv_loop s (Suc n) rs out =
     (case (case rs of [] \<Rightarrow> RecvWouldBlock | r # _ \<Rightarrow> r) of
        Received d \<Rightarrow>
          if d = [] then (if out = [] then - 1 else int (length out), out, s\<lparr>tcp_error := True\<rparr>)
          else tcp_recv_loop s n (tl rs) (out @ [d])
      | RecvWouldBlock \<Rightarrow> (0, out, s)
      | RecvError \<Rightarrow> (- 1, out, s))"

definition tcp_recv_messages :: "TcpPriv \<Rightarrow> nat \<Rightarrow> recv_result list \<Rightarrow> int \<times> bytes list \<times> TcpPriv" where
  "tcp_recv_messages s n rs = (if tcp_error s then (- 1, [], s) else tcp_recv_loop s n rs [])"

section \<open>Copying messages\<close>

lemma output_message_get_size_concat: "output_message_get_size m = length (concat m)"
  by (induction m) auto

lemma compact_loop_take: "compact_loop bs r = take r (concat bs)"
  by (induction bs arbitrary: r) (auto simp: Let_def min_def)

lemma compact_output_message_concat: "compact_output_message m = (concat m, length (concat m))"
  by (simp add: compact_output_message_def compact_message_def compact_loop_take output_message_get_size_concat Let_def)

lemma memcpy_fills:
  "concat (fst (memcpy_buffer_to_input_message sizes buffer)) = take (sum_list sizes) buffer
   \<and> snd (memcpy_buffer_to_input_message sizes buffer) = min (sum_list sizes) (length buffer)"
proof (induction sizes arbitrary: buffer)
  case (Cons sz sizes)
  let ?len = "min sz (length buffer)"
  have "take ?len buffer @ take (sum_list sizes) (drop ?len buffer) = take (sz + sum_list sizes) buffer"
    by (cases "sz \<le> length buffer") (auto simp: take_add min_def)
  then show ?case using Cons.IH [of "drop ?len buffer"] by (auto simp: Let_def split_def)
qed simp

text \<open>Where a partial send may stop so that the rest is queued correctly: at most in the middle of a buffer,
  or in the last buffer that has data.\<close>

fun split_ok :: "output_message \<Rightarrow> nat \<Rightarrow> bool" where
  "split_ok [] n = True"
| "split_ok (b # bs) n = (if length b \<le> n then split_ok bs (n - length b) else 2 * n \<le> length b \<or> concat bs = [])"

lemma queue_loop_zero: "queue_loop bs 0 r = take r (concat bs)"
proof (induction bs arbitrary: r)
  case (Cons b bs)
  then show ?case by (cases "b = []") (auto simp: Let_def min_def)
qed simp

lemma queue_loop_length: "length (queue_loop bs n r) \<le> length (concat bs) - n"
proof (induction bs n r rule: queue_loop.induct)
  case (2 b bs n r)
  show ?case
  proof (cases "length b \<le> n")
    case True
    then show ?thesis using 2(1) by simp
  next
    case False
    define len where "len = min r (length b - n)"
    have "length (queue_loop bs (if n \<ge> len then n - len else 0) (r - len)) \<le> length (concat bs)"
      using 2(2) [OF False refl] unfolding len_def by (meson diff_le_self le_trans)
    moreover have "queue_loop (b # bs) n r = take len (drop n b) @ queue_loop bs (if n \<ge> len then n - len else 0) (r - len)"
      using False by (simp add: Let_def len_def)
    moreover have "length (take len (drop n b)) \<le> length b - n" by (simp add: len_def)
    ultimately show ?thesis using False by simp
  qed
qed simp

lemma queue_loop_iff:
  assumes "n \<le> length (concat bs)"
  shows "queue_loop bs n (length (concat bs) - n) = drop n (concat bs) \<longleftrightarrow> split_ok bs n"
  using assms
proof (induction bs arbitrary: n)
  case (Cons b bs)
  show ?case
  proof (cases "length b \<le> n")
    case True
    then show ?thesis using Cons.IH [of "n - length b"] Cons.prems by (simp add: add.commute)
  next
    case False
    let ?m = "if n \<ge> length b - n then n - (length b - n) else 0"
    have loop: "queue_loop (b # bs) n (length (concat (b # bs)) - n) = drop n b @ queue_loop bs ?m (length (concat bs))"
    proof -
      have "min (length (concat (b # bs)) - n) (length b - n) = length b - n" by simp
      moreover have "length (concat (b # bs)) - n - (length b - n) = length (concat bs)" using False by simp
      ultimately show ?thesis using False by (simp only: queue_loop.simps Let_def if_False) simp
    qed
    have rest: "drop n (concat (b # bs)) = drop n b @ concat bs" using False by simp
    have "queue_loop bs ?m (length (concat bs)) = concat bs \<longleftrightarrow> ?m = 0 \<or> concat bs = []"
    proof
      assume eq: "queue_loop bs ?m (length (concat bs)) = concat bs"
      have "length (concat bs) \<le> length (concat bs) - ?m"
        using queue_loop_length [of bs ?m "length (concat bs)"] unfolding eq .
      then have "?m = 0 \<or> length (concat bs) = 0" by linarith
      then show "?m = 0 \<or> concat bs = []" by (simp only: length_0_conv)
    next
      assume m: "?m = 0 \<or> concat bs = []"
      show "queue_loop bs ?m (length (concat bs)) = concat bs"
      proof (cases "?m = 0")
        case True
        show ?thesis unfolding True queue_loop_zero by simp
      next
        case False
        with m have "length (concat bs) = 0" by (simp only: length_0_conv simp_thms)
        with queue_loop_length [of bs ?m "length (concat bs)"] show ?thesis by (simp only: length_0_conv diff_0_eq_0 le_zero_eq list.size(3))
      qed
    qed
    moreover have "?m = 0 \<longleftrightarrow> 2 * n \<le> length b" by auto
    ultimately show ?thesis using False unfolding loop rest by simp
  qed
qed simp

lemma short_of_split:
  assumes "n \<le> length (concat bs)" "\<not> split_ok bs n"
  shows "length (queue_loop bs n (length (concat bs) - n)) < length (concat bs) - n"
  using assms
proof (induction bs arbitrary: n)
  case (Cons b bs)
  show ?case
  proof (cases "length b \<le> n")
    case True
    then show ?thesis using Cons.IH [of "n - length b"] Cons.prems by (simp add: add.commute)
  next
    case False
    let ?m = "n - (length b - n)" and ?c = "length (concat bs)"
    have bad: "length b < 2 * n" "0 < ?c" using Cons.prems(2) False by auto
    have "min (length (concat (b # bs)) - n) (length b - n) = length b - n" by simp
    moreover have "length (concat (b # bs)) - n - (length b - n) = ?c" using False by simp
    ultimately have loop: "queue_loop (b # bs) n (length (concat (b # bs)) - n) = drop n b @ queue_loop bs ?m ?c"
      using False bad(1) by (simp only: queue_loop.simps Let_def if_False) simp
    have "length (queue_loop bs ?m ?c) \<le> ?c - ?m" by (rule queue_loop_length)
    then have "length (queue_loop bs ?m ?c) < ?c" using bad False by linarith
    then show ?thesis unfolding loop using False by simp
  qed
qed simp

text \<open>C30: After a partial send the rest of a message in several buffers is queued correctly exactly when the
  position where the send stopped is in the first half of its buffer or in the last buffer with data. Otherwise
  the queued data leaves out bytes of the following buffers and ends in bytes that were never written, so that
  sending it reads uninitialised memory; a message in one buffer is never affected.\<close>

theorem partial_send_queued:
  assumes "n < output_message_get_size m"
  shows "(map queued_data (nice_socket_queue_send_with_callback m n (output_message_get_size m) True [])
            = [Some (drop n (concat m))] \<longleftrightarrow> split_ok m n)
    \<and> (\<not> split_ok m n \<longrightarrow>
         map queued_data (nice_socket_queue_send_with_callback m n (output_message_get_size m) True []) = [None])"
proof -
  let ?t = "queue_loop m n (length (concat m) - n)"
  have n: "n < length (concat m)" using assms by (simp add: output_message_get_size_concat)
  have q: "map queued_data (nice_socket_queue_send_with_callback m n (output_message_get_size m) True [])
      = [if length (concat m) - n \<le> length ?t then Some (take (length (concat m) - n) ?t) else None]"
    using n by (simp add: nice_socket_queue_send_with_callback_def queued_data_def output_message_get_size_concat Let_def)
  have full: "length (concat m) - n \<le> length ?t \<longleftrightarrow> split_ok m n"
  proof
    assume "split_ok m n"
    then have "?t = drop n (concat m)" using queue_loop_iff [of n m] n by simp
    then show "length (concat m) - n \<le> length ?t" by simp
  next
    assume "length (concat m) - n \<le> length ?t"
    then show "split_ok m n" using short_of_split [of n m] n by (meson leD less_imp_le)
  qed
  have "?t = drop n (concat m)" if "split_ok m n" using that queue_loop_iff [of n m] n by simp
  then show ?thesis unfolding q full by auto
qed

theorem partial_send_queued_witness:
  "map queued_data (nice_socket_queue_send_with_callback [replicate 10 1, [2, 3, 4, 5, 6]] 7
     (output_message_get_size [replicate 10 1, [2, 3, 4, 5, 6]]) True []) = [None]"
  using partial_send_queued [of 7 "[replicate 10 1, [2, 3, 4, 5, 6]]"] by simp

section \<open>The byte stream of the TCP socket\<close>

text \<open>A run of the socket: messages with the outcome of their send, and calls of the source that is attached when
  the queue is not empty.\<close>

datatype tcp_call = Send bool output_message send_result | More bool "send_result list"

text \<open>The bytes that the socket has taken over: those of the messages for which the send succeeded.\<close>

fun tcp_run :: "tcp_call list \<Rightarrow> TcpPriv \<Rightarrow> bytes \<Rightarrow> (TcpPriv \<times> bytes) option" where
  "tcp_run [] s acc = Some (s, acc)"
| "tcp_run (Send reliable m r # cs) s acc =
     (let (ret, s) = tcp_send_message s m reliable r in tcp_run cs s (if ret > 0 then acc @ concat m else acc))"
| "tcp_run (More hup rs # cs) s acc = do { (_, s) \<leftarrow> tcp_send_more s hup rs; tcp_run cs s acc }"

fun tcp_call_ok :: "tcp_call \<Rightarrow> bool" where
  "tcp_call_ok (Send reliable m r) = (case r of Sent n \<Rightarrow> n \<le> output_message_get_size m \<and> split_ok m n | _ \<Rightarrow> True)"
| "tcp_call_ok (More hup rs) = (\<forall>r \<in> set rs. r \<noteq> Failed \<and> r \<noteq> OtherError)"

definition queue_ok :: "NiceSocketQueuedSend list \<Rightarrow> bool" where
  "queue_ok q \<longleftrightarrow> (\<forall>t \<in> set q. qs_buf t \<noteq> [] \<and> length (qs_buf t) = qs_length t)"

definition queue_data :: "NiceSocketQueuedSend list \<Rightarrow> bytes" where
  "queue_data q = concat (map qs_buf q)"

lemma queue_with_callback_ok:
  assumes "n \<le> output_message_get_size m" "split_ok m n" "queue_ok q"
  shows "queue_ok (nice_socket_queue_send_with_callback m n (output_message_get_size m) head q)
    \<and> queue_data (nice_socket_queue_send_with_callback m n (output_message_get_size m) head q)
      = (if head then drop n (concat m) @ queue_data q else queue_data q @ drop n (concat m))"
proof (cases "n < output_message_get_size m")
  case True
  then have "queue_loop m n (length (concat m) - n) = drop n (concat m)" "drop n (concat m) \<noteq> []"
    using queue_loop_iff [of n m] assms(1,2) by (simp_all add: output_message_get_size_concat not_le del: concat_eq_Nil_conv)
  then show ?thesis using True assms(3)
    by (auto simp del: concat_eq_Nil_conv simp: nice_socket_queue_send_with_callback_def Let_def queue_ok_def queue_data_def output_message_get_size_concat)
next
  case False
  then have "drop n (concat m) = []" using assms(1) by (simp add: output_message_get_size_concat)
  then show ?thesis using False assms(3) by (simp add: nice_socket_queue_send_with_callback_def)
qed

lemma split_ok_zero: "split_ok m 0"
  by (induction m) auto

lemma queue_single:
  assumes "queue_ok q" "d \<noteq> []"
  shows "queue_ok (nice_socket_queue_send_with_callback [d] 0 (length d) True q)
    \<and> queue_data (nice_socket_queue_send_with_callback [d] 0 (length d) True q) = d @ queue_data q"
  using queue_with_callback_ok [of 0 "[d]" q True] assms by simp

lemma flush_ok:
  assumes "queue_ok q" "\<forall>r \<in> set rs. r \<noteq> Failed \<and> r \<noteq> OtherError"
  shows "\<exists>b q' w. nice_socket_flush_send_queue_to_socket q rs = Some (b, q', w) \<and> queue_ok q'
    \<and> w @ queue_data q' = queue_data q"
  using assms
proof (induction q rs rule: nice_socket_flush_send_queue_to_socket.induct)
  case (1 rs)
  then show ?case by (auto simp: queue_data_def)
next
  case (2 t q rs)
  have d: "queued_data t = Some (qs_buf t)" "qs_length t = length (qs_buf t)" using 2 by (simp_all add: queued_data_def queue_ok_def)
  have q: "queue_ok q" and ne: "qs_buf t \<noteq> []" using 2 by (simp_all add: queue_ok_def)
  have data: "queue_data (t # q) = qs_buf t @ queue_data q" by (simp add: queue_data_def)
  consider "(case rs of [] \<Rightarrow> WouldBlock | r # _ \<Rightarrow> r) = WouldBlock" | n where "rs \<noteq> []" "hd rs = Sent n"
    using "2.prems"(2) by (cases rs; cases "hd rs") auto
  then show ?case
  proof cases
    case 1
    then show ?thesis using d queue_single [OF q ne] data by auto
  next
    case (2 n)
    have r: "(case rs of [] \<Rightarrow> WouldBlock | r # _ \<Rightarrow> r) = Sent n" using 2 by (cases rs) auto
    show ?thesis
    proof (cases "n < length (qs_buf t)")
      case True
      have "queue_ok (nice_socket_queue_send_with_callback [drop n (qs_buf t)] 0 (length (qs_buf t) - n) True q)
        \<and> queue_data (nice_socket_queue_send_with_callback [drop n (qs_buf t)] 0 (length (qs_buf t) - n) True q)
          = drop n (qs_buf t) @ queue_data q"
        using queue_single [OF q, of "drop n (qs_buf t)"] True by simp
      then show ?thesis using d r True data by auto
    next
      case False
      have "\<forall>r \<in> set (tl rs). r \<noteq> Failed \<and> r \<noteq> OtherError" using "2.prems"(2) by (meson list.set_sel(2) 2(1))
      then obtain b q' w where "nice_socket_flush_send_queue_to_socket q (tl rs) = Some (b, q', w)" "queue_ok q'"
        "w @ queue_data q' = queue_data q"
        using "2.IH" d(1) r False d(2) q by fastforce
      then show ?thesis using d r False data by simp
    qed
  qed
qed

lemma tcp_send_ok:
  assumes "queue_ok (tcp_send_queue s)" "tcp_wire s @ queue_data (tcp_send_queue s) = acc" "tcp_call_ok (Send reliable m r)"
    and "tcp_send_message s m reliable r = (ret, u)"
  shows "queue_ok (tcp_send_queue u) \<and> tcp_wire u @ queue_data (tcp_send_queue u) = (if ret > 0 then acc @ concat m else acc)
    \<and> tcp_error u = tcp_error s"
proof -
  let ?n = "output_message_get_size m"
  have whole: "queue_ok (nice_socket_queue_send_with_callback m 0 ?n False (tcp_send_queue s))
      \<and> queue_data (nice_socket_queue_send_with_callback m 0 ?n False (tcp_send_queue s)) = queue_data (tcp_send_queue s) @ concat m"
    using queue_with_callback_ok [OF _ split_ok_zero assms(1), of m False] by simp
  have zero: "?n = 0 \<longleftrightarrow> concat m = []" by (simp only: output_message_get_size_concat length_0_conv)
  have enq: ?thesis if "u = s\<lparr>tcp_send_queue := nice_socket_queue_send_with_callback m 0 ?n False (tcp_send_queue s), tcp_io_source := b\<rparr>"
    "ret = int ?n" for b
    using that whole assms(2) zero by (cases "?n = 0") (auto simp del: concat_eq_Nil_conv)
  have part: ?thesis if r: "r = Sent k" "tcp_send_queue s = []" "\<not> tcp_error s" for k
  proof -
    have k: "k \<le> ?n" "split_ok m k" using assms(3) r by auto
    have q: "queue_ok (nice_socket_queue_send_with_callback m k ?n True [])
      \<and> queue_data (nice_socket_queue_send_with_callback m k ?n True []) = drop k (concat m)"
      using queue_with_callback_ok [OF k, of "[]" True] by (simp add: queue_ok_def queue_data_def)
    have acc: "tcp_wire s = acc" using assms(2) r(2) by (simp add: queue_data_def)
    have "k = ?n \<Longrightarrow> take k (concat m) = concat m" by (simp add: output_message_get_size_concat)
    moreover have "take k (concat m) @ drop k (concat m) = concat m" by simp
    ultimately show ?thesis using assms(4) r q acc k(1) zero
      by (cases "k < ?n") (auto simp: tcp_send_message_def Let_def queue_ok_def queue_data_def simp del: concat_eq_Nil_conv)
  qed
  show ?thesis
  proof (cases "tcp_error s \<or> tcp_send_queue s \<noteq> [] \<and> \<not> reliable \<or> (tcp_send_queue s = [] \<and> r = OtherError)")
    case True
    then have "ret \<le> 0" "u = s" using assms(4) by (auto simp: tcp_send_message_def Let_def split: if_splits)
    then show ?thesis using assms(1,2) by simp
  next
    case False
    show ?thesis
    proof (cases "tcp_send_queue s = [] \<and> (\<exists>k. r = Sent k)")
      case True
      then show ?thesis using part False by blast
    next
      case no_part: False
      have "u = s\<lparr>tcp_send_queue := nice_socket_queue_send_with_callback m 0 ?n False (tcp_send_queue s),
          tcp_io_source := tcp_io_source s \<or> 0 < ?n\<rparr>" "ret = int ?n"
        using assms(4) False no_part by (auto simp: tcp_send_message_def Let_def split: if_splits send_result.splits)
      then show ?thesis by (rule enq)
    qed
  qed
qed

lemma tcp_more_ok:
  assumes "queue_ok (tcp_send_queue s)" "tcp_call_ok (More hup rs)"
  shows "\<exists>b u. tcp_send_more s hup rs = Some (b, u) \<and> queue_ok (tcp_send_queue u)
    \<and> tcp_wire u @ queue_data (tcp_send_queue u) = tcp_wire s @ queue_data (tcp_send_queue s)"
proof (cases hup)
  case True
  then show ?thesis using assms by (auto simp: tcp_send_more_def)
next
  case False
  obtain b q w where "nice_socket_flush_send_queue_to_socket (tcp_send_queue s) rs = Some (b, q, w)" "queue_ok q"
    "w @ queue_data q = queue_data (tcp_send_queue s)"
    using flush_ok [OF assms(1), of rs] assms(2) by auto
  then show ?thesis using False by (cases b) (auto simp: tcp_send_more_def Let_def)
qed

lemma tcp_run_ok:
  assumes "queue_ok (tcp_send_queue s)" "tcp_wire s @ queue_data (tcp_send_queue s) = acc" "\<forall>c \<in> set calls. tcp_call_ok c"
  shows "\<exists>u acc'. tcp_run calls s acc = Some (u, acc') \<and> queue_ok (tcp_send_queue u)
    \<and> tcp_wire u @ queue_data (tcp_send_queue u) = acc'"
  using assms
proof (induction calls s acc rule: tcp_run.induct)
  case (2 reliable m r cs s acc)
  obtain ret u where u: "tcp_send_message s m reliable r = (ret, u)" by fastforce
  have ok: "tcp_call_ok (Send reliable m r)" using 2(4) by simp
  from tcp_send_ok [OF 2(2,3) ok u] 2(1) [OF u [symmetric] refl] 2(4) show ?case using u by simp
next
  case (3 hup rs cs s acc)
  have ok: "tcp_call_ok (More hup rs)" using 3(4) by simp
  from tcp_more_ok [OF 3(2) ok] obtain b u where u: "tcp_send_more s hup rs = Some (b, u)" "queue_ok (tcp_send_queue u)"
    "tcp_wire u @ queue_data (tcp_send_queue u) = tcp_wire s @ queue_data (tcp_send_queue s)" by blast
  from 3(1) [OF u(1) refl u(2)] 3(3,4) u show ?case by simp
qed simp

text \<open>C14: Whatever the operating system accepts of each write, as long as it reports no error on queued data and every
  partial send stops where \<open>split_ok\<close> allows: the bytes on the wire, followed by the bytes in the queue, are exactly
  the bytes of the messages that the TCP socket has accepted, in order; nothing is lost, repeated or reordered,
  and no uninitialised memory is sent.\<close>

theorem tcp_stream_integrity:
  assumes "\<forall>c \<in> set calls. tcp_call_ok c"
  shows "\<exists>u acc. tcp_run calls \<lparr>tcp_error = False, tcp_send_queue = [], tcp_io_source = False, tcp_wire = []\<rparr> [] = Some (u, acc)
    \<and> tcp_wire u @ concat (map qs_buf (tcp_send_queue u)) = acc"
  using tcp_run_ok [OF _ _ assms, of "\<lparr>tcp_error = False, tcp_send_queue = [], tcp_io_source = False, tcp_wire = []\<rparr>" "[]"]
  by (auto simp: queue_ok_def queue_data_def)

theorem tcp_stream_integrity_witness:
  "\<exists>u acc. tcp_run [Send False [[1, 2, 3], [4, 5]] (Sent 1), Send True [[6]] WouldBlock, More False [Sent 2]]
      \<lparr>tcp_error = False, tcp_send_queue = [], tcp_io_source = False, tcp_wire = []\<rparr> [] = Some (u, acc)
    \<and> tcp_wire u @ concat (map qs_buf (tcp_send_queue u)) = acc"
  by (rule tcp_stream_integrity) simp

end
