(* ===== verification/Socket_Turn_Tcp.thy ===== *)
theory Socket_Turn_Tcp
  imports Socket_Queue
begin

text \<open>
  TURN messages over a TCP connection (\<^verbatim>\<open>socket/udp-turn-over-tcp.c\<close>): the framing of messages that are sent, the
  reassembly of messages from a byte stream, and the interface that the socket relies on in its base socket.

  The base socket is an argument: \<open>recv b n\<close> is \<^verbatim>\<open>nice_socket_recv_messages\<close> for one message with one buffer of
  \<open>n\<close> bytes in the state \<open>b\<close>, and gives the return value, the data and the new state; \<open>send\<close> likewise. The first
  \<^verbatim>\<open>recv_buf_len\<close> bytes of \<^verbatim>\<open>recv_buf\<close> are \<open>tt_recv_buf\<close>; a read that writes behind the 65536 bytes of the buffer
  gives \<open>None\<close>. The locale \<open>stream_socket\<close> states what the reassembly needs of the base socket; the TCP socket
  of \<open>Socket_Queue\<close> over a connection that delivers a list of chunks provides it.
\<close>

section \<open>The socket\<close>

datatype NiceTurnSocketCompatibility = TURN_DRAFT9 | TURN_GOOGLE | TURN_MSN | TURN_OC2007 | TURN_RFC5766

record TurnTcpPriv =
  tt_compatibility :: NiceTurnSocketCompatibility
  tt_recv_buf :: bytes
  tt_expecting_len :: nat

definition nice_udp_turn_over_tcp_socket_new :: "NiceTurnSocketCompatibility \<Rightarrow> TurnTcpPriv" where
  "nice_udp_turn_over_tcp_socket_new c = \<lparr>tt_compatibility = c, tt_recv_buf = [], tt_expecting_len = 0\<rparr>"

section \<open>Receiving\<close>

fun turn_tcp_headerlen :: "NiceTurnSocketCompatibility \<Rightarrow> nat option" where
  "turn_tcp_headerlen TURN_DRAFT9 = Some 4"
| "turn_tcp_headerlen TURN_RFC5766 = Some 4"
| "turn_tcp_headerlen TURN_OC2007 = Some 4"
| "turn_tcp_headerlen TURN_GOOGLE = Some 2"
| "turn_tcp_headerlen TURN_MSN = None"

definition padding4 :: "nat \<Rightarrow> nat" where
  "padding4 n = (if n mod 4 \<noteq> 0 then 4 - n mod 4 else 0)"

definition turn_tcp_padlen :: "NiceTurnSocketCompatibility \<Rightarrow> nat \<Rightarrow> nat" where
  "turn_tcp_padlen c n = (if c = TURN_DRAFT9 \<or> c = TURN_RFC5766 then padding4 n else 0)"

text \<open>What the base socket writes into \<^verbatim>\<open>recv_buf\<close>.\<close>

definition turn_tcp_store :: "TurnTcpPriv \<Rightarrow> bytes \<Rightarrow> TurnTcpPriv option" where
  "turn_tcp_store s d =
     (if length (tt_recv_buf s) + length d \<le> 65536 then Some (s\<lparr>tt_recv_buf := tt_recv_buf s @ d\<rparr>) else None)"

text \<open>What is done with a complete header; \<open>False\<close> is an error in the stream.\<close>

definition turn_tcp_header :: "TurnTcpPriv \<Rightarrow> bool \<times> TurnTcpPriv" where
  "turn_tcp_header s =
     (let buf = tt_recv_buf s in
      case tt_compatibility s of
        TURN_GOOGLE \<Rightarrow> (True, s\<lparr>tt_expecting_len := unat (of_be16 buf), tt_recv_buf := []\<rparr>)
      | TURN_OC2007 \<Rightarrow>
          if hd buf \<noteq> 2 \<and> hd buf \<noteq> 3 then (False, s)
          else (True, s\<lparr>tt_expecting_len := unat (of_be16 (drop 2 buf)) + 2, tt_recv_buf := take 2 (drop 2 buf)\<rparr>)
      | TURN_MSN \<Rightarrow> (True, s)
      | _ \<Rightarrow> (True, s\<lparr>tt_expecting_len :=
          (if of_be16 buf < 0x4000 then 20 else 4) + unat (of_be16 (drop 2 buf))\<rparr>))"

definition turn_tcp_recv_body ::
  "('b \<Rightarrow> nat \<Rightarrow> int \<times> bytes \<times> 'b) \<Rightarrow> TurnTcpPriv \<Rightarrow> 'b \<Rightarrow> nat list \<Rightarrow> (int \<times> bytes list \<times> TurnTcpPriv \<times> 'b) option" where
  "turn_tcp_recv_body recv s b sizes =
     (let want = tt_expecting_len s + turn_tcp_padlen (tt_compatibility s) (tt_expecting_len s);
          (ret, d, b) = recv b (want - length (tt_recv_buf s))
      in if ret < 0 then Some (ret, [], s, b)
         else do {
           s \<leftarrow> turn_tcp_store s d;
           Some (if length (tt_recv_buf s) = want
                 then let (out, n) = memcpy_buffer_to_input_message sizes (tt_recv_buf s)
                      in (int n, out, s\<lparr>tt_expecting_len := 0, tt_recv_buf := []\<rparr>, b)
                 else (0, [], s, b))
         })"

definition turn_tcp_recv_message ::
  "('b \<Rightarrow> nat \<Rightarrow> int \<times> bytes \<times> 'b) \<Rightarrow> TurnTcpPriv \<Rightarrow> 'b \<Rightarrow> nat list \<Rightarrow> (int \<times> bytes list \<times> TurnTcpPriv \<times> 'b) option" where
  "turn_tcp_recv_message recv s b sizes =
     (if tt_expecting_len s \<noteq> 0 then turn_tcp_recv_body recv s b sizes
      else case turn_tcp_headerlen (tt_compatibility s) of
        None \<Rightarrow> Some (- 1, [], s, b)
      | Some headerlen \<Rightarrow>
          let (ret, d, b) = recv b (headerlen - length (tt_recv_buf s))
          in if ret < 0 then Some (ret, [], s, b)
             else do {
               s \<leftarrow> turn_tcp_store s d;
               if length (tt_recv_buf s) < headerlen then Some (0, [], s, b)
               else let (ok, s) = turn_tcp_header s
                    in if ok then turn_tcp_recv_body recv s b sizes else Some (- 1, [], s, b)
             })"

fun turn_tcp_recv_messages ::
  "('b \<Rightarrow> nat \<Rightarrow> int \<times> bytes \<times> 'b) \<Rightarrow> TurnTcpPriv \<Rightarrow> 'b \<Rightarrow> nat list list \<Rightarrow> bytes list list \<Rightarrow>
   (int \<times> bytes list list \<times> TurnTcpPriv \<times> 'b) option" where
  "turn_tcp_recv_messages recv s b [] out = Some (int (length out), out, s, b)"
| "turn_tcp_recv_messages recv s b (sizes # rest) out = do {
     (len, m, s, b) \<leftarrow> turn_tcp_recv_message recv s b sizes;
     if len < 0 then Some (if out = [] then - 1 else int (length out), out, s, b)
     else if len = 0 then Some (int (length out), out, s, b)
     else turn_tcp_recv_messages recv s b rest (out @ [m])
   }"

section \<open>Sending\<close>

text \<open>The search for the magic cookie in a message that may be split: the four bytes at offset 26, if the buffer
  that has the first of them has more than all of them.\<close>

fun turn_tcp_cookie :: "bytes list \<Rightarrow> nat \<Rightarrow> bytes" where
  "turn_tcp_cookie [] buf_offset = [0, 0, 0, 0]"
| "turn_tcp_cookie (b # bs) buf_offset =
     (if length b > 26 - buf_offset
      then (if length b > 4 + 26 - buf_offset then take 4 (drop (26 - buf_offset) b) else [0, 0, 0, 0])
      else turn_tcp_cookie bs (buf_offset + length b))"

definition turn_tcp_payload_type :: "output_message \<Rightarrow> u8" where
  "turn_tcp_payload_type message =
     (let cookie = (if (of_nat (output_message_get_size message) :: u16) > 4 + 26
                    then turn_tcp_cookie message 0 else [0, 0, 0, 0])
      in if of_be32 cookie = 0x72c64bc6 then 2 else 3)"

definition turn_tcp_local_message :: "NiceTurnSocketCompatibility \<Rightarrow> output_message \<Rightarrow> output_message" where
  "turn_tcp_local_message c message =
     (case c of
        TURN_GOOGLE \<Rightarrow> be16 (of_nat (output_message_get_size message)) # message
      | TURN_OC2007 \<Rightarrow> [turn_tcp_payload_type message, 0] # message
      | TURN_MSN \<Rightarrow> message
      | _ \<Rightarrow> message @ [replicate (padding4 (output_message_get_size message)) 0])"

definition turn_tcp_send_message ::
  "('b \<Rightarrow> output_message \<Rightarrow> bool \<Rightarrow> int \<times> 'b) \<Rightarrow> NiceTurnSocketCompatibility \<Rightarrow> 'b \<Rightarrow> output_message \<Rightarrow> bool \<Rightarrow> int \<times> 'b" where
  "turn_tcp_send_message send c b message reliable =
     (let local_message = turn_tcp_local_message c message;
          (ret, b) = send b local_message reliable
      in (if ret = 1 then int (output_message_get_size local_message) else ret, b))"

fun turn_tcp_send_messages ::
  "('b \<Rightarrow> output_message \<Rightarrow> bool \<Rightarrow> int \<times> 'b) \<Rightarrow> NiceTurnSocketCompatibility \<Rightarrow> 'b \<Rightarrow> output_message list \<Rightarrow> nat \<Rightarrow> int \<times> 'b" where
  "turn_tcp_send_messages send c b [] i = (int i, b)"
| "turn_tcp_send_messages send c b (m # ms) i =
     (let (len, b) = turn_tcp_send_message send c b m False in
      if len < 0 then (if i > 0 then int i else len, b)
      else if len = 0 then (int i, b)
      else turn_tcp_send_messages send c b ms (Suc i))"

fun turn_tcp_send_messages_reliable ::
  "('b \<Rightarrow> output_message \<Rightarrow> bool \<Rightarrow> int \<times> 'b) \<Rightarrow> NiceTurnSocketCompatibility \<Rightarrow> 'b \<Rightarrow> output_message list \<Rightarrow> nat \<Rightarrow> int \<times> 'b" where
  "turn_tcp_send_messages_reliable send c b [] i = (int i, b)"
| "turn_tcp_send_messages_reliable send c b (m # ms) i =
     (let (len, b) = turn_tcp_send_message send c b m True in
      if len < 0 then (len, b) else turn_tcp_send_messages_reliable send c b ms (Suc i))"

section \<open>Frames\<close>

text \<open>What the receiver is given of a message that was sent, and the messages that can be sent: they carry their
  own length where the framing relies on it, are not empty and fit into the buffer of the receiver.\<close>

definition turn_tcp_delivered :: "NiceTurnSocketCompatibility \<Rightarrow> output_message \<Rightarrow> bytes" where
  "turn_tcp_delivered c m = concat m @ replicate (turn_tcp_padlen c (length (concat m))) 0"

definition turn_tcp_frame :: "NiceTurnSocketCompatibility \<Rightarrow> output_message \<Rightarrow> bytes" where
  "turn_tcp_frame c m = concat (turn_tcp_local_message c m)"

fun turn_tcp_frame_ok :: "NiceTurnSocketCompatibility \<Rightarrow> bytes \<Rightarrow> bool" where
  "turn_tcp_frame_ok TURN_GOOGLE m = (0 < length m \<and> length m < 65536)"
| "turn_tcp_frame_ok TURN_OC2007 m = (2 < length m \<and> length m \<le> 65536 \<and> length m = unat (of_be16 m) + 2)"
| "turn_tcp_frame_ok TURN_MSN m = False"
| "turn_tcp_frame_ok _ m = (4 < length m \<and> length m + padding4 (length m) \<le> 65536 \<and>
     length m = (if of_be16 m < 0x4000 then 20 else 4) + unat (of_be16 (drop 2 m)))"

lemma of_be16_take: "2 \<le> n \<Longrightarrow> of_be16 (take n xs) = of_be16 xs"
  by (cases xs rule: of_be16.cases) (auto simp: take_Cons split: nat.splits)

lemma of_be16_append: "2 \<le> length xs \<Longrightarrow> of_be16 (xs @ ys) = of_be16 xs"
  by (cases xs rule: of_be16.cases) auto

lemma of_be16_drop_take: "4 \<le> n \<Longrightarrow> of_be16 (drop 2 (take n xs)) = of_be16 (drop 2 xs)"
  by (simp add: drop_take of_be16_take)

lemma turn_tcp_frame_google:
  "turn_tcp_frame TURN_GOOGLE m = be16 (of_nat (length (concat m))) @ concat m"
  by (simp add: turn_tcp_frame_def turn_tcp_local_message_def output_message_get_size_concat)

lemma turn_tcp_frame_oc2007:
  "turn_tcp_frame TURN_OC2007 m = [turn_tcp_payload_type m, 0] @ concat m"
  by (simp add: turn_tcp_frame_def turn_tcp_local_message_def)

lemma turn_tcp_frame_rfc:
  "c = TURN_DRAFT9 \<or> c = TURN_RFC5766 \<Longrightarrow> turn_tcp_frame c m = turn_tcp_delivered c m"
  by (auto simp: turn_tcp_frame_def turn_tcp_local_message_def turn_tcp_delivered_def turn_tcp_padlen_def
      output_message_get_size_concat)

lemma turn_tcp_frame_ok_rfc:
  "c = TURN_DRAFT9 \<or> c = TURN_RFC5766 \<Longrightarrow> turn_tcp_frame_ok c x \<longleftrightarrow> 4 < length x \<and> length x + padding4 (length x) \<le> 65536 \<and>
     length x = (if of_be16 x < 0x4000 then 20 else 4) + unat (of_be16 (drop 2 x))"
  by (cases c) simp_all

lemma turn_tcp_header_len_rfc:
  "c = TURN_DRAFT9 \<or> c = TURN_RFC5766 \<Longrightarrow> tt_compatibility s = c \<Longrightarrow> tt_recv_buf s = take 4 x \<Longrightarrow>
   turn_tcp_header s = (True, s\<lparr>tt_expecting_len := (if of_be16 x < 0x4000 then 20 else 4) + unat (of_be16 (drop 2 x))\<rparr>)"
  by (cases c) (simp_all only: turn_tcp_header_def Let_def of_be16_take of_be16_drop_take NiceTurnSocketCompatibility.case
      NiceTurnSocketCompatibility.distinct simp_thms numeral_le_iff semiring_norm order_refl)

lemma turn_tcp_header_rfc:
  assumes c: "c = TURN_DRAFT9 \<or> c = TURN_RFC5766" and ok: "turn_tcp_frame_ok c (concat m)"
    and s: "tt_compatibility s = c" "tt_recv_buf s = take 4 (turn_tcp_frame c m)"
  shows "turn_tcp_header s = (True, s\<lparr>tt_expecting_len := length (concat m), tt_recv_buf := take 4 (turn_tcp_delivered c m)\<rparr>)
    \<and> 4 < length (turn_tcp_delivered c m) \<and> drop 4 (turn_tcp_frame c m) = drop 4 (turn_tcp_delivered c m)"
proof -
  define x where "x = concat m"
  have l: "4 < length x" "length x = (if of_be16 x < 0x4000 then 20 else 4) + unat (of_be16 (drop 2 x))"
    using ok unfolding turn_tcp_frame_ok_rfc [OF c] x_def by blast+
  have t: "turn_tcp_frame c m = x @ replicate (turn_tcp_padlen c (length x)) 0" "turn_tcp_delivered c m = turn_tcp_frame c m"
    using turn_tcp_frame_rfc [OF c, of m] by (simp_all only: turn_tcp_delivered_def x_def)
  have "take 4 (turn_tcp_frame c m) = take 4 x" using l(1) unfolding t(1) take_append by simp
  then have "turn_tcp_header s = (True, s\<lparr>tt_expecting_len := length x\<rparr>)"
    unfolding l(2) using turn_tcp_header_len_rfc [OF c s(1), of x] s(2) by (simp only:)
  moreover have "s\<lparr>tt_expecting_len := length x\<rparr> = s\<lparr>tt_expecting_len := length x, tt_recv_buf := take 4 (turn_tcp_delivered c m)\<rparr>"
    using s(2) unfolding t(2) by simp
  ultimately show ?thesis using l(1) unfolding t(2) x_def [symmetric] t(1) by simp
qed

text \<open>After the header, the buffer holds the beginning of the data to be delivered, and its end is still to come.\<close>

lemma turn_tcp_header_ok:
  assumes "turn_tcp_frame_ok c (concat m)" "turn_tcp_headerlen c = Some h"
    and "tt_compatibility s = c" "tt_recv_buf s = take h (turn_tcp_frame c m)"
  shows "\<exists>k. turn_tcp_header s = (True, s\<lparr>tt_expecting_len := length (concat m), tt_recv_buf := take k (turn_tcp_delivered c m)\<rparr>)
    \<and> k < length (turn_tcp_delivered c m) \<and> drop h (turn_tcp_frame c m) = drop k (turn_tcp_delivered c m)"
proof (cases c)
  case TURN_GOOGLE
  define x where "x = concat m"
  show ?thesis using assms TURN_GOOGLE unfolding x_def [symmetric]
    by (intro exI [of _ 0])
      (simp add: turn_tcp_frame_google turn_tcp_delivered_def turn_tcp_padlen_def turn_tcp_header_def Let_def
        endian_simps unat_of_nat of_be16_take x_def [symmetric])
next
  case TURN_OC2007
  define x where "x = concat m"
  have l: "2 < length x" "unat (of_be16 x) + 2 = length x" using assms(1) TURN_OC2007 by (simp_all add: x_def del: length_concat)
  have pt: "turn_tcp_payload_type m \<noteq> 2 \<Longrightarrow> turn_tcp_payload_type m = 3"
    by (simp add: turn_tcp_payload_type_def Let_def split: if_splits)
  have t: "take 4 (turn_tcp_frame c m) = turn_tcp_payload_type m # 0 # take 2 x" "drop 4 (turn_tcp_frame c m) = drop 2 x"
    "turn_tcp_delivered c m = x"
    using TURN_OC2007 by (simp_all add: turn_tcp_frame_oc2007 turn_tcp_delivered_def turn_tcp_padlen_def x_def numeral_eq_Suc)
  have h: "h = 4" using assms(2) TURN_OC2007 by simp
  have "turn_tcp_header s = (True, s\<lparr>tt_expecting_len := unat (of_be16 (take 2 x)) + 2, tt_recv_buf := take 2 x\<rparr>)"
    using pt assms(3,4) TURN_OC2007 t(1) unfolding h by (auto simp: turn_tcp_header_def Let_def)
  then show ?thesis unfolding t(3) h t(2) x_def [symmetric] using l by (intro exI [of _ 2]) (simp add: of_be16_take)
next
  case TURN_MSN
  then show ?thesis using assms by simp
next
  case TURN_DRAFT9
  then show ?thesis using assms(2,3,4) turn_tcp_header_rfc [OF _ assms(1), of s] by (intro exI [of _ 4]) simp
next
  case TURN_RFC5766
  then show ?thesis using assms(2,3,4) turn_tcp_header_rfc [OF _ assms(1), of s] by (intro exI [of _ 4]) simp
qed

lemma turn_tcp_frame_length:
  assumes "turn_tcp_frame_ok c (concat m)" "turn_tcp_headerlen c = Some h"
  shows "h < length (turn_tcp_frame c m) \<and> h \<le> 4 \<and> 0 < h"
proof -
  define x where "x = concat m"
  have rfc: "c = TURN_DRAFT9 \<or> c = TURN_RFC5766 \<Longrightarrow> length x \<le> length (turn_tcp_frame c m)"
    using turn_tcp_frame_rfc [of c m] by (simp add: turn_tcp_delivered_def x_def [symmetric])
  show ?thesis using assms rfc unfolding x_def [symmetric]
    by (cases c) (simp_all add: turn_tcp_frame_google turn_tcp_frame_oc2007 x_def [symmetric])
qed

lemma turn_tcp_delivered_length:
  assumes "turn_tcp_frame_ok c (concat m)"
  shows "length (turn_tcp_delivered c m) = length (concat m) + turn_tcp_padlen c (length (concat m))
    \<and> length (turn_tcp_delivered c m) \<le> 65536 \<and> 0 < length (concat m)"
proof -
  define x where "x = concat m"
  have "0 < length x \<and> length x + turn_tcp_padlen c (length x) \<le> 65536"
  proof (cases "c = TURN_DRAFT9 \<or> c = TURN_RFC5766")
    case True
    then have "4 < length x \<and> length x + padding4 (length x) \<le> 65536" using assms unfolding turn_tcp_frame_ok_rfc [OF True] x_def by blast
    then show ?thesis using True by (auto simp: turn_tcp_padlen_def)
  next
    case False
    then show ?thesis using assms unfolding x_def [symmetric] by (cases c) (simp_all add: turn_tcp_padlen_def)
  qed
  then show ?thesis unfolding x_def [symmetric] turn_tcp_delivered_def by simp
qed

section \<open>Reassembly over a stream\<close>

text \<open>Where the socket is in the stream: \<open>ms\<close> are the messages that are still to be delivered, the first of them
  perhaps received in part, and \<open>pend\<close> is the data that the base socket has still to give.\<close>

definition turn_tcp_stream :: "NiceTurnSocketCompatibility \<Rightarrow> output_message list \<Rightarrow> bytes" where
  "turn_tcp_stream c ms = concat (map (turn_tcp_frame c) ms)"

definition in_header :: "TurnTcpPriv \<Rightarrow> nat \<Rightarrow> bytes \<Rightarrow> output_message \<Rightarrow> output_message list \<Rightarrow> bool" where
  "in_header s h pend m ms \<longleftrightarrow> tt_expecting_len s = 0 \<and> length (tt_recv_buf s) < h
     \<and> tt_recv_buf s @ pend = turn_tcp_frame (tt_compatibility s) m @ turn_tcp_stream (tt_compatibility s) ms"

definition in_body :: "TurnTcpPriv \<Rightarrow> bytes \<Rightarrow> output_message \<Rightarrow> output_message list \<Rightarrow> bool" where
  "in_body s pend m ms \<longleftrightarrow> tt_expecting_len s = length (concat m)
     \<and> length (tt_recv_buf s) < length (turn_tcp_delivered (tt_compatibility s) m)
     \<and> tt_recv_buf s @ pend = turn_tcp_delivered (tt_compatibility s) m @ turn_tcp_stream (tt_compatibility s) ms"

fun turn_tcp_inv :: "TurnTcpPriv \<Rightarrow> nat \<Rightarrow> bytes \<Rightarrow> output_message list \<Rightarrow> bool" where
  "turn_tcp_inv s h pend [] \<longleftrightarrow> tt_expecting_len s = 0 \<and> tt_recv_buf s = [] \<and> pend = []"
| "turn_tcp_inv s h pend (m # ms) \<longleftrightarrow> in_header s h pend m ms \<or> in_body s pend m ms"

definition messages_ok :: "TurnTcpPriv \<Rightarrow> nat \<Rightarrow> output_message list \<Rightarrow> bool" where
  "messages_ok s h ms \<longleftrightarrow> turn_tcp_headerlen (tt_compatibility s) = Some h
     \<and> (\<forall>m \<in> set ms. turn_tcp_frame_ok (tt_compatibility s) (concat m))"

text \<open>Calling the socket \<open>n\<close> times for one message with the buffers \<open>sizes\<close>, and the messages that it delivers.\<close>

fun turn_tcp_drain :: "('b \<Rightarrow> nat \<Rightarrow> int \<times> bytes \<times> 'b) \<Rightarrow> nat list \<Rightarrow> nat \<Rightarrow> TurnTcpPriv \<Rightarrow> 'b \<Rightarrow> bytes list option" where
  "turn_tcp_drain recv sizes 0 s b = Some []"
| "turn_tcp_drain recv sizes (Suc n) s b = do {
     (len, out, s, b) \<leftarrow> turn_tcp_recv_message recv s b sizes;
     if len < 0 then None
     else do {
       rest \<leftarrow> turn_tcp_drain recv sizes n s b;
       Some (if len = 0 then rest else concat out # rest)
     }
   }"

lemma inv_start:
  assumes "messages_ok s h ms" "tt_recv_buf s = []" "tt_expecting_len s = 0"
  shows "turn_tcp_inv s h (turn_tcp_stream (tt_compatibility s) ms) ms"
proof (cases ms)
  case (Cons m rest)
  then have "0 < h" using assms(1) turn_tcp_frame_length [of "tt_compatibility s" m h] by (simp add: messages_ok_def)
  then show ?thesis using Cons assms(2,3) by (simp add: in_header_def turn_tcp_stream_def)
qed (use assms in \<open>simp add: turn_tcp_stream_def\<close>)

lemma inv_pending:
  assumes "turn_tcp_inv s h [] ms" "messages_ok s h ms"
  shows "ms = []"
proof (cases ms)
  case (Cons m rest)
  have "h < length (turn_tcp_frame (tt_compatibility s) m)"
    using assms(2) Cons turn_tcp_frame_length [of "tt_compatibility s" m h] by (simp add: messages_ok_def)
  then have "\<not> in_header s h [] m rest" by (auto simp: in_header_def)
  moreover have "\<not> in_body s [] m rest" by (auto simp: in_body_def)
  ultimately show ?thesis using assms(1) Cons by simp
qed simp

locale stream_socket =
  fixes recv :: "'b \<Rightarrow> nat \<Rightarrow> int \<times> bytes \<times> 'b"
    and pending :: "'b \<Rightarrow> bytes"
    and healthy :: "'b \<Rightarrow> bool"
  assumes recv_stream: "healthy b \<Longrightarrow> 0 < n \<Longrightarrow> recv b n = (r, d, b') \<Longrightarrow>
      healthy b' \<and> 0 \<le> r \<and> length d \<le> n \<and> pending b = d @ pending b'"
    and recv_progress: "healthy b \<Longrightarrow> 0 < n \<Longrightarrow> recv b n = (r, d, b') \<Longrightarrow> pending b \<noteq> [] \<Longrightarrow> d \<noteq> []"
begin

lemma body_step:
  assumes "in_body s (pending b) m ms" "messages_ok s h (m # ms)" "healthy b" "65536 \<le> sum_list sizes"
  shows "\<exists>len out u b'. turn_tcp_recv_body recv s b sizes = Some (len, out, u, b') \<and> healthy b' \<and> messages_ok u h ms
    \<and> (pending b = [] \<or> length (pending b') < length (pending b)) \<and> length (pending b') \<le> length (pending b)
    \<and> (if len = 0 then turn_tcp_inv u h (pending b') (m # ms)
       else 0 < len \<and> concat out = turn_tcp_delivered (tt_compatibility s) m \<and> turn_tcp_inv u h (pending b') ms)
    \<and> tt_compatibility u = tt_compatibility s"
proof -
  let ?D = "turn_tcp_delivered (tt_compatibility s) m" and ?buf = "tt_recv_buf s"
  have ok: "turn_tcp_frame_ok (tt_compatibility s) (concat m)" using assms(2) by (simp add: messages_ok_def)
  have B: "tt_expecting_len s = length (concat m)" "length ?buf < length ?D"
    "?buf @ pending b = ?D @ turn_tcp_stream (tt_compatibility s) ms"
    using assms(1) by (simp_all add: in_body_def del: length_concat)
  have want: "tt_expecting_len s + turn_tcp_padlen (tt_compatibility s) (tt_expecting_len s) = length ?D"
    and fits: "length ?D \<le> 65536" and ne: "?D \<noteq> []"
    using turn_tcp_delivered_length [OF ok] B(1) by (auto simp del: length_concat)
  obtain r d b' where R: "recv b (length ?D - length ?buf) = (r, d, b')" using prod_cases3 by blast
  have r: "healthy b'" "0 \<le> r" "length d \<le> length ?D - length ?buf" "pending b = d @ pending b'"
    using recv_stream [OF assms(3) _ R] B(2) by auto
  have prog: "pending b = [] \<or> d \<noteq> []" using recv_progress [OF assms(3) _ R] B(2) by auto
  let ?u = "s\<lparr>tt_recv_buf := ?buf @ d\<rparr>"
  have st: "turn_tcp_store s d = Some ?u" using r(3) B(2) fits by (simp add: turn_tcp_store_def)
  have eq: "(?buf @ d) @ pending b' = ?D @ turn_tcp_stream (tt_compatibility s) ms" using B(3) r(4) by simp
  have mok: "messages_ok u h ms" if "tt_compatibility u = tt_compatibility s" for u :: TurnTcpPriv
    using assms(2) that by (simp add: messages_ok_def)
  show ?thesis
  proof (cases "length (?buf @ d) = length ?D")
    case True
    have D: "?buf @ d = ?D" "pending b' = turn_tcp_stream (tt_compatibility s) ms" using eq unfolding append_eq_append_conv [OF disjI1, OF True] by blast+
    have out: "concat (fst (memcpy_buffer_to_input_message sizes ?D)) = ?D" "snd (memcpy_buffer_to_input_message sizes ?D) = length ?D"
      using memcpy_fills [of sizes ?D] assms(4) fits by simp_all
    let ?v = "s\<lparr>tt_recv_buf := [], tt_expecting_len := 0\<rparr>"
    have res: "turn_tcp_recv_body recv s b sizes = Some (int (length ?D), fst (memcpy_buffer_to_input_message sizes ?D), ?v, b')"
      using R st r(2) out True D by (simp add: turn_tcp_recv_body_def want Let_def split_def)
    have "turn_tcp_inv ?v h (turn_tcp_stream (tt_compatibility s) ms) ms"
      using inv_start [OF mok [of ?v]] by simp
    then show ?thesis unfolding res using r(1,4) D prog mok [of ?v] out(1) ne by auto
  next
    case False
    have res: "turn_tcp_recv_body recv s b sizes = Some (0, [], ?u, b')"
      using R st r(2) False by (simp add: turn_tcp_recv_body_def want Let_def)
    have "in_body ?u (pending b') m ms" using B(1) False r(3) B(2) eq by (simp add: in_body_def del: length_concat)
    then show ?thesis unfolding res using r(1,4) prog mok [of ?u] by auto
  qed
qed

lemma recv_step:
  assumes "turn_tcp_inv s h (pending b) ms" "messages_ok s h ms" "healthy b" "65536 \<le> sum_list sizes"
  shows "\<exists>len out u b' ms'. turn_tcp_recv_message recv s b sizes = Some (len, out, u, b') \<and> healthy b' \<and> messages_ok u h ms'
    \<and> (pending b = [] \<or> length (pending b') < length (pending b)) \<and> 0 \<le> len
    \<and> turn_tcp_inv u h (pending b') ms' \<and> tt_compatibility u = tt_compatibility s
    \<and> (if len = 0 then ms = ms' else \<exists>m. ms = m # ms' \<and> concat out = turn_tcp_delivered (tt_compatibility s) m)"
proof -
  let ?c = "tt_compatibility s" and ?buf = "tt_recv_buf s"
  have h: "turn_tcp_headerlen ?c = Some h" using assms(2) by (simp add: messages_ok_def)
  then have h0: "0 < h" "h \<le> 4" by (cases ?c; simp)+
  have body: ?thesis if "turn_tcp_recv_message recv s b sizes = turn_tcp_recv_body recv v b1 sizes"
    "in_body v (pending b1) m rest" "ms = m # rest" "healthy b1" "tt_compatibility v = ?c"
    "pending b = [] \<or> length (pending b1) < length (pending b) \<or> b1 = b" "length (pending b1) \<le> length (pending b)" for v b1 m rest
  proof -
    note v = \<open>tt_compatibility v = ?c\<close>
    have "messages_ok v h (m # rest)" using assms(2) that(3) v by (simp add: messages_ok_def)
    from body_step [OF that(2) this that(4) assms(4)] obtain len out u b' where
      R: "turn_tcp_recv_body recv v b1 sizes = Some (len, out, u, b')" "healthy b'" "messages_ok u h rest"
      "pending b1 = [] \<or> length (pending b') < length (pending b1)" "length (pending b') \<le> length (pending b1)"
      "if len = 0 then turn_tcp_inv u h (pending b') (m # rest)
       else 0 < len \<and> concat out = turn_tcp_delivered ?c m \<and> turn_tcp_inv u h (pending b') rest"
      "tt_compatibility u = ?c"
      unfolding v by blast
    have p: "pending b = [] \<or> length (pending b') < length (pending b)" using that(6,7) R(4,5) by auto
    have m: "messages_ok u h ms" using assms(2) R(7) by (simp add: messages_ok_def)
    show ?thesis using R that(1,3) p m
      by (intro exI [of _ len] exI [of _ out] exI [of _ u] exI [of _ b'] exI [of _ "if len = 0 then ms else rest"]) auto
  qed
  show ?thesis
  proof (cases "tt_expecting_len s = 0")
    case False
    then obtain m rest where ms: "ms = m # rest" "in_body s (pending b) m rest"
      using assms(1) by (cases ms) (auto simp: in_header_def)
    then show ?thesis using body [of s b m rest] False assms(3) by (simp add: turn_tcp_recv_message_def)
  next
    case exp: True
    have hd: "in_header s h (pending b) m rest" if "ms = m # rest" for m rest
      using assms(1,2) that exp turn_tcp_delivered_length [of ?c m] by (auto simp: in_body_def messages_ok_def)
    have len: "length ?buf < h" using assms(1) h0 hd by (cases ms) (auto simp: in_header_def)
    obtain r d b1 where R: "recv b (h - length ?buf) = (r, d, b1)" using prod_cases3 by blast
    have r: "healthy b1" "0 \<le> r" "length d \<le> h - length ?buf" "pending b = d @ pending b1"
      using recv_stream [OF assms(3) _ R] len by auto
    have prog: "pending b = [] \<or> d \<noteq> []" using recv_progress [OF assms(3) _ R] len by auto
    let ?u = "s\<lparr>tt_recv_buf := ?buf @ d\<rparr>"
    have st: "turn_tcp_store s d = Some ?u" using r(3) len h0 by (simp add: turn_tcp_store_def)
    have mok: "messages_ok ?u h ms" using assms(2) by (simp add: messages_ok_def)
    show ?thesis
    proof (cases "length (?buf @ d) < h")
      case True
      have res: "turn_tcp_recv_message recv s b sizes = Some (0, [], ?u, b1)"
        using exp h R st r(2) True by (simp add: turn_tcp_recv_message_def)
      have "turn_tcp_inv ?u h (pending b1) ms"
      proof (cases ms)
        case Nil
        then show ?thesis using assms(1) r(4) by simp
      next
        case (Cons m rest)
        then show ?thesis using hd [OF Cons] r(4) True by (simp add: in_header_def)
      qed
      then show ?thesis unfolding res using r(1,4) prog mok by auto
    next
      case False
      then obtain m rest where ms: "ms = m # rest" using assms(1) r(4) h0 by (cases ms) auto
      have ok: "turn_tcp_frame_ok ?c (concat m)" using assms(2) ms by (simp add: messages_ok_def)
      have fl: "h < length (turn_tcp_frame ?c m)" using turn_tcp_frame_length [OF ok h] by blast
      have hlen: "length (?buf @ d) = h" using False r(3) len by simp
      have split: "(?buf @ d) @ pending b1 = turn_tcp_frame ?c m @ turn_tcp_stream ?c rest"
        using hd [OF ms] r(4) by (simp add: in_header_def)
      have buf: "?buf @ d = take h (turn_tcp_frame ?c m)"
        using arg_cong [OF split, of "take h"] hlen fl by simp
      have rem: "pending b1 = drop h (turn_tcp_frame ?c m) @ turn_tcp_stream ?c rest"
        using arg_cong [OF split, of "drop h"] hlen fl by simp
      obtain k where k: "turn_tcp_header ?u = (True, ?u\<lparr>tt_expecting_len := length (concat m), tt_recv_buf := take k (turn_tcp_delivered ?c m)\<rparr>)"
        "k < length (turn_tcp_delivered ?c m)" "drop h (turn_tcp_frame ?c m) = drop k (turn_tcp_delivered ?c m)"
        using turn_tcp_header_ok [OF ok h, of ?u] buf by auto
      define v where "v = ?u\<lparr>tt_expecting_len := length (concat m), tt_recv_buf := take k (turn_tcp_delivered ?c m)\<rparr>"
      have res: "turn_tcp_recv_message recv s b sizes = turn_tcp_recv_body recv v b1 sizes"
        using exp h R st r(2) hlen k(1) by (simp add: turn_tcp_recv_message_def v_def del: length_concat)
      have "in_body v (pending b1) m rest" using k(2) rem unfolding k(3) by (simp add: in_body_def v_def del: length_concat)
      moreover have "tt_compatibility v = ?c" by (simp add: v_def)
      moreover have "pending b = [] \<or> length (pending b1) < length (pending b) \<or> b1 = b" "length (pending b1) \<le> length (pending b)"
        using r(4) prog by auto
      ultimately show ?thesis using body [OF res _ ms r(1)] by blast
    qed
  qed
qed

lemma drain_all:
  assumes "turn_tcp_inv s h (pending b) ms" "messages_ok s h ms" "healthy b" "65536 \<le> sum_list sizes" "length (pending b) \<le> n"
  shows "turn_tcp_drain recv sizes n s b = Some (map (turn_tcp_delivered (tt_compatibility s)) ms)"
  using assms
proof (induction n arbitrary: s b ms)
  case 0
  then have "ms = []" using inv_pending [of s h ms] by simp
  then show ?case by simp
next
  case (Suc n)
  from recv_step [OF Suc.prems(1-4)] obtain len out u b' ms' where
    R: "turn_tcp_recv_message recv s b sizes = Some (len, out, u, b')" "healthy b'" "messages_ok u h ms'"
    "pending b = [] \<or> length (pending b') < length (pending b)" "0 \<le> len" "turn_tcp_inv u h (pending b') ms'"
    "tt_compatibility u = tt_compatibility s"
    "if len = 0 then ms = ms' else \<exists>m. ms = m # ms' \<and> concat out = turn_tcp_delivered (tt_compatibility s) m" by blast
  show ?case
  proof (cases "pending b = []")
    case True
    then have ms: "ms = []" using inv_pending [of s h ms] Suc.prems by simp
    then have "len = 0 \<and> ms' = []" using R(8) by (auto split: if_splits)
    then have "length (pending b') \<le> n" using R(6) by simp
    then show ?thesis using Suc.IH [OF R(6,3,2) Suc.prems(4)] R ms \<open>len = 0 \<and> ms' = []\<close> by simp
  next
    case False
    then have "length (pending b') \<le> n" using R(4) Suc.prems(5) by auto
    from Suc.IH [OF R(6,3,2) Suc.prems(4) this] show ?thesis using R(1,5,7,8) by (auto split: if_splits)
  qed
qed

end

section \<open>The TCP socket as base\<close>

text \<open>A connection on which data arrives in chunks: a read takes bytes of the first chunk only, and would block when
  no chunk is left. On a buffer of size zero the operating system gives no data, which the TCP socket takes for the
  end of the connection.\<close>

definition chunk_receive :: "bytes list \<Rightarrow> nat \<Rightarrow> recv_result \<times> bytes list" where
  "chunk_receive cs n =
     (case cs of
        [] \<Rightarrow> (if n = 0 then Received [] else RecvWouldBlock, [])
      | c # cs \<Rightarrow> (Received (take n c), if n < length c then drop n c # cs else cs))"

definition tcp_recv_one :: "TcpPriv \<times> bytes list \<Rightarrow> nat \<Rightarrow> int \<times> bytes \<times> TcpPriv \<times> bytes list" where
  "tcp_recv_one = (\<lambda>(s, cs) n.
     if tcp_error s then (- 1, [], s, cs)
     else let (r, cs) = chunk_receive cs n;
              (ret, out, s) = tcp_recv_messages s 1 [r]
          in (ret, concat out, s, cs))"

definition tcp_healthy :: "TcpPriv \<times> bytes list \<Rightarrow> bool" where
  "tcp_healthy b \<longleftrightarrow> \<not> tcp_error (fst b) \<and> [] \<notin> set (snd b)"

lemma tcp_recv_one_eq:
  "tcp_healthy (s, cs) \<Longrightarrow> 0 < n \<Longrightarrow> tcp_recv_one (s, cs) n =
     (case cs of [] \<Rightarrow> (0, [], s, []) | c # cs \<Rightarrow> (1, take n c, s, if n < length c then drop n c # cs else cs))"
  by (auto simp: tcp_healthy_def tcp_recv_one_def tcp_recv_messages_def chunk_receive_def split: list.splits)

interpretation tcp: stream_socket tcp_recv_one "\<lambda>b. concat (snd b)" tcp_healthy
proof
  fix b b' :: "TcpPriv \<times> bytes list" and n r d
  assume b: "tcp_healthy b" "0 < n" "tcp_recv_one b n = (r, d, b')"
  obtain s cs where p: "b = (s, cs)" by fastforce
  have "(case cs of [] \<Rightarrow> (0, [], s, []) | c # cs \<Rightarrow> (1, take n c, s, if n < length c then drop n c # cs else cs)) = (r, d, b')"
    using tcp_recv_one_eq [of s cs n] b p by simp
  with b(1,2) show "tcp_healthy b' \<and> 0 \<le> r \<and> length d \<le> n \<and> concat (snd b) = d @ concat (snd b')"
    unfolding p by (cases cs) (auto simp: tcp_healthy_def split: if_splits)
next
  fix b b' :: "TcpPriv \<times> bytes list" and n r d
  assume b: "tcp_healthy b" "0 < n" "tcp_recv_one b n = (r, d, b')" "concat (snd b) \<noteq> []"
  obtain s cs where p: "b = (s, cs)" by fastforce
  show "d \<noteq> []" using b tcp_recv_one_eq [of s cs n] unfolding p by (cases cs) (auto simp: tcp_healthy_def)
qed

text \<open>C13: Messages sent over TURN on TCP and cut into pieces by the connection in any way are delivered by the
  receiving socket complete, unchanged (up to the padding) and in order, and nothing else is delivered. As many
  calls as the stream has bytes are enough, and no call writes outside the buffer. This holds for messages that
  carry their length where the framing relies on it, that are not empty and that fit into the buffer, in every
  compatibility mode that the socket supports.\<close>

theorem turn_tcp_reassembly:
  assumes "c \<noteq> TURN_MSN" "\<forall>m \<in> set ms. turn_tcp_frame_ok c (concat m)"
    and "concat chunks = concat (map (concat \<circ> turn_tcp_local_message c) ms)" "[] \<notin> set chunks"
    and "\<not> tcp_error t" "65536 \<le> sum_list sizes" "length (concat chunks) \<le> n"
  shows "turn_tcp_drain tcp_recv_one sizes n (nice_udp_turn_over_tcp_socket_new c) (t, chunks)
    = Some (map (\<lambda>m. concat m @ replicate (turn_tcp_padlen c (length (concat m))) 0) ms)"
proof -
  let ?s = "nice_udp_turn_over_tcp_socket_new c"
  obtain h where h: "turn_tcp_headerlen c = Some h" using assms(1) by (cases c) auto
  have s: "tt_compatibility ?s = c" "tt_recv_buf ?s = []" "tt_expecting_len ?s = 0"
    by (simp_all add: nice_udp_turn_over_tcp_socket_new_def)
  have ok: "messages_ok ?s h ms" using h assms(2) s(1) by (simp add: messages_ok_def)
  have pend: "concat (snd (t, chunks)) = turn_tcp_stream c ms"
    using assms(3) by (simp add: turn_tcp_stream_def turn_tcp_frame_def [abs_def] comp_def)
  have "turn_tcp_inv ?s h (concat (snd (t, chunks))) ms" unfolding pend using inv_start [OF ok s(2,3)] s(1) by simp
  from tcp.drain_all [OF this ok _ assms(6), of n] show ?thesis
    using assms(4,5,7) s(1) by (simp add: tcp_healthy_def turn_tcp_delivered_def [abs_def] del: length_concat)
qed

theorem turn_tcp_reassembly_witness:
  "turn_tcp_drain tcp_recv_one [40000, 40000] 20 (nice_udp_turn_over_tcp_socket_new TURN_RFC5766)
     (\<lparr>tcp_error = False, tcp_send_queue = [], tcp_io_source = False, tcp_wire = []\<rparr>,
      [[0x40], [0, 0, 5, 1, 2, 3], [4, 5, 0, 0, 0, 0x40, 0, 0], [1, 9, 0, 0, 0]])
   = Some [[0x40, 0, 0, 5, 1, 2, 3, 4, 5, 0, 0, 0], [0x40, 0, 0, 1, 9, 0, 0, 0]]"
proof -
  have "padding4 9 = 3" "padding4 5 = 3" by code_simp+
  then have pad: "replicate (padding4 9) 0 = [0, 0, 0 :: u8]" "replicate (padding4 5) 0 = [0, 0, 0 :: u8]"
    "replicate (padding4 (Suc (Suc (Suc (Suc (Suc (Suc (Suc (Suc (Suc 0)))))))))) 0 = [0, 0, 0 :: u8]"
    "replicate (padding4 (Suc (Suc (Suc (Suc (Suc 0)))))) 0 = [0, 0, 0 :: u8]"
    by (simp_all add: eval_nat_numeral)
  have out: "map (\<lambda>m. concat m @ replicate (turn_tcp_padlen TURN_RFC5766 (length (concat m))) 0)
      [[[0x40, 0, 0, 5], [1, 2, 3, 4, 5]], [[0x40, 0, 0, 1, 9]]]
    = [[0x40, 0, 0, 5, 1, 2, 3, 4, 5, 0, 0, 0], [0x40, 0, 0, 1, 9, 0, 0, 0 :: u8]]"
    by (simp add: turn_tcp_padlen_def pad)
  have ok: "\<forall>m \<in> set [[[0x40, 0, 0, 5], [1, 2, 3, 4, 5]], [[0x40, 0, 0, 1, 9]]]. turn_tcp_frame_ok TURN_RFC5766 (concat m)"
    by (simp add: padding4_def)
  have wire: "concat [[0x40], [0, 0, 5, 1, 2, 3], [4, 5, 0, 0, 0, 0x40, 0, 0], [1, 9, 0, 0, 0]]
    = concat (map (concat \<circ> turn_tcp_local_message TURN_RFC5766) [[[0x40, 0, 0, 5], [1, 2, 3, 4, 5]], [[0x40, 0, 0, 1, 9]]])"
    by (simp add: turn_tcp_local_message_def pad)
  show ?thesis by (rule turn_tcp_reassembly [OF _ ok wire, unfolded out]) simp_all
qed

text \<open>C31: A peer can make the socket write outside its receive buffer: when the length that a message announces,
  with its header and padding, is more than the 65536 bytes of the buffer, and the peer sends that much, the read
  goes beyond the end of the buffer. The length field has 16 bits, so announcing 65517 bytes or more after a STUN
  header is enough.\<close>

theorem turn_tcp_overflow:
  assumes "c = TURN_DRAFT9 \<or> c = TURN_RFC5766" "length hdr = 4" "of_be16 hdr < 0x4000" "65516 < unat (of_be16 (drop 2 hdr))"
    and "\<not> tcp_error t" "65556 \<le> length rest"
  shows "turn_tcp_recv_message tcp_recv_one (nice_udp_turn_over_tcp_socket_new c) (t, [hdr, rest]) sizes = None"
proof -
  define L where "L = 20 + unat (of_be16 (drop 2 hdr))"
  define s1 where "s1 = \<lparr>tt_compatibility = c, tt_recv_buf = hdr, tt_expecting_len = L\<rparr>"
  have ne: "hdr \<noteq> []" "rest \<noteq> []" using assms(2,6) by auto
  have first: "tcp_recv_one (t, [hdr, rest]) 4 = (1, hdr, t, [rest])" "tt_recv_buf (nice_udp_turn_over_tcp_socket_new c) = []"
    using tcp_recv_one_eq [of t "[hdr, rest]" 4] assms(2,5) ne by (auto simp: tcp_healthy_def nice_udp_turn_over_tcp_socket_new_def)
  have hdr: "turn_tcp_header (nice_udp_turn_over_tcp_socket_new c\<lparr>tt_recv_buf := hdr\<rparr>) = (True, s1)"
    using turn_tcp_header_len_rfc [OF assms(1), of "nice_udp_turn_over_tcp_socket_new c\<lparr>tt_recv_buf := hdr\<rparr>" hdr] assms(2,3)
    by (simp add: nice_udp_turn_over_tcp_socket_new_def s1_def L_def)
  have "unat (of_be16 (drop 2 hdr)) < 65536" using unsigned_less [of "of_be16 (drop 2 hdr)"] by simp
  then have L: "65536 < L + padding4 L" "L + padding4 L - 4 \<le> 65555" using assms(4) unfolding L_def padding4_def by (simp, presburger)
  define k where "k = L + padding4 L - 4"
  have k: "65532 < k" "k < length rest" using L assms(6) by (auto simp: k_def)
  have "tcp_recv_one (t, [rest]) k = (1, take k rest, t, if k < length rest then [drop k rest] else [])"
    using tcp_recv_one_eq [of t "[rest]" k] assms(5) k ne by (auto simp: tcp_healthy_def)
  then have "turn_tcp_recv_body tcp_recv_one s1 (t, [rest]) sizes = None"
    using assms(1,2) k unfolding turn_tcp_recv_body_def s1_def
    by (simp add: turn_tcp_padlen_def Let_def k_def [symmetric] turn_tcp_store_def)
  moreover have "turn_tcp_headerlen c = Some 4" "tt_expecting_len (nice_udp_turn_over_tcp_socket_new c) = 0"
    "tt_compatibility (nice_udp_turn_over_tcp_socket_new c) = c"
    using assms(1) by (auto simp: nice_udp_turn_over_tcp_socket_new_def)
  ultimately show ?thesis using first hdr assms(2)
    by (simp add: turn_tcp_recv_message_def turn_tcp_store_def)
qed

theorem turn_tcp_overflow_witness:
  "turn_tcp_recv_message tcp_recv_one (nice_udp_turn_over_tcp_socket_new TURN_RFC5766)
     (\<lparr>tcp_error = False, tcp_send_queue = [], tcp_io_source = False, tcp_wire = []\<rparr>,
      [[0, 1, 255, 255], replicate 70000 7]) [65536] = None"
  by (rule turn_tcp_overflow) simp_all

end
