(* ===== verification/Spec2Isabelle.thy ===== *)
theory Spec2Isabelle
  imports Stun_Agent_Claims Stun_Timer PseudoTcp_Stream Stun_Roundtrip PseudoTcp_EndToEnd Stun_Ice_Exchange Stun_Usage_Bind
    Stun_Usage_Turn Conncheck_Ready Inbound_Claims Socket_Turn_Tcp
begin

text \<open>
  A verification development for libnice, the library behind GoingPostal that connects two peers through network
  address translators (ICE, STUN and TURN) and gives them datagrams or a reliable stream. All source files are below
  \<^verbatim>\<open>src/libnice\<close>.

  \<^bold>\<open>The program.\<close> An agent (\<^verbatim>\<open>agent/agent.c\<close>) has streams, a stream has components, and a component is to end
  with one pair of a local and a remote address over which data flows. Discovery (\<^verbatim>\<open>agent/discovery.c\<close>) makes local
  candidates (\<^verbatim>\<open>agent/candidate.c\<close>, \<^verbatim>\<open>agent/address.c\<close>). The connectivity checks (\<^verbatim>\<open>agent/conncheck.c\<close>) pair them
  with the candidates of the peer, keep a check list sorted by priority for each stream, send STUN requests from a
  timer, answer those of the peer, and nominate a pair. The messages are made by the STUN usages (\<^verbatim>\<open>stun/usages\<close>) on
  top of the STUN agent (\<^verbatim>\<open>stun/stunagent.c\<close>: authentication, fingerprints and the table of pending transactions),
  which works on messages in byte buffers (\<^verbatim>\<open>stun/stunmessage.c\<close>). The reliable mode runs pseudo-TCP
  (\<^verbatim>\<open>agent/pseudotcp.c\<close>) over the selected pair. Sockets (\<^verbatim>\<open>socket\<close>) queue what cannot be sent at once and frame
  TURN messages on TCP connections.

  \<^bold>\<open>Conventions.\<close> Machine integers that can wrap around are words, offsets into memory are \<open>nat\<close>, and memory is a
  list of bytes of the size of the allocation with checked accesses. In all theories \<open>None\<close> as the result of an
  operation means that the C program has left its defined behaviour (an access out of bounds, the use of freed or
  uninitialised memory) or has failed an assertion; error returns are ordinary values. Objects that the source shares
  by pointers (check pairs, candidates, components, streams, segments to be sent) live in a store under numbers that
  stand for their addresses, and freeing one removes it from the store. Clock readings, random numbers, the outcome
  of system calls, callbacks of the application, HMAC and MD5 are arguments; signals and packets written are
  recorded in the state. \<open>Nice_Prelude\<close> holds these conventions and the shared lemmas.

  \<^bold>\<open>STUN.\<close>
  \<^item> \<open>Stun_Utils\<close>, \<open>Stun_Constants\<close>: \<^verbatim>\<open>stun/utils.c\<close> and the constants and types of the headers.
  \<^item> \<open>Stun_Crc32\<close>: \<^verbatim>\<open>stun/stuncrc32.c\<close>; the table-driven loop equals the bitwise CRC-32.
  \<^item> \<open>Stun_Message\<close>: every function of \<^verbatim>\<open>stun/stunmessage.c\<close>. \<open>Stun_Attributes\<close> has the abstract view, the list of
    the attributes of a message, and \<open>Stun_Message_Props\<close> shows that searching and appending refine it.
    \<open>Stun_Roundtrip\<close> states the contract of an attribute store as the locale \<open>attr_store\<close>, interprets it on the
    message functions, and has the round trips of the typed attributes and the exact condition for the write
    behind the buffer. \<open>Stun_Validation\<close>: validation of bytes from the network is total and exact, for contiguous and
    for scattered buffers, and makes searching safe.
  \<^item> \<open>Stun_Agent\<close>: \<^verbatim>\<open>stun/stunagent.c\<close>, \<^verbatim>\<open>stun/stun5389.c\<close>, \<^verbatim>\<open>stun/stunhmac.c\<close>. \<open>Stun_Agent_Props\<close> and \<open>Stun_Finish\<close> go
    through validation and finishing stage by stage; \<open>Stun_Agent_Claims\<close> has what the agent promises: finished
    messages are accepted by a peer with the key, requests are accepted only with their HMAC, a response is accepted
    once and only for a pending transaction.
  \<^item> \<open>Stun_Timer\<close>: \<^verbatim>\<open>stun/usages/timer.c\<close>; the schedule of retransmissions for any initial timeout, and their
    bound. The documentation in \<^verbatim>\<open>timer.h\<close> gives other totals.
  \<^item> \<open>Stun_Usage_Ice\<close>, \<open>Stun_Usage_Bind\<close>, \<open>Stun_Usage_Turn\<close>: \<^verbatim>\<open>stun/usages/ice.c\<close>, \<^verbatim>\<open>bind.c\<close>, \<^verbatim>\<open>turn.c\<close>. The blocking binding
    run takes the list of what its socket receives as input. While it waits, the waits that end late and the requests
    sent are bounded for each server asked; the number of datagrams it refuses has no bound.
  \<^item> \<open>Stun_Ice_Exchange\<close>: a check built by one agent, validated and answered by the other, and the answer processed by
    the first: both learn what the source means them to learn, and a role conflict is resolved by the tie breakers.

  \<^bold>\<open>Candidates and connectivity checks.\<close>
  \<^item> \<open>Nice_Address\<close>, \<open>Nice_Candidate\<close>: \<^verbatim>\<open>agent/address.c\<close>, \<^verbatim>\<open>agent/candidate.c\<close>; the private ranges, and how the
    priorities order candidates and pairs.
  \<^item> \<open>Conncheck_Data\<close> (records of agent, stream, component, pair and transaction, the store, the inputs \<open>cc_env\<close>),
    \<open>Conncheck_Pairs\<close> (unfreezing, pruning, freeing), \<open>Conncheck_State\<close> (selected pair, states of components, new
    pairs; also parts of \<^verbatim>\<open>agent/component.c\<close>), \<open>Conncheck_Send\<close> (sending and the timer), \<open>Conncheck_Discovery\<close>
    (\<^verbatim>\<open>agent/discovery.c\<close>: foundations and new candidates), \<open>Conncheck_Response\<close> (incoming checks, role conflicts,
    responses): the model of \<^verbatim>\<open>agent/conncheck.c\<close>, one definition for each function and each inner loop.
  \<^item> \<open>Conncheck_Steps\<close>: seven kinds of elementary steps, as an inductive relation, and what they preserve;
    \<open>Conncheck_Invariant\<close>: every operation is a sequence of such steps, by a small calculus of rules for the shape of
    the programs (\<open>Conncheck_Network\<close> has those of the theories below); \<open>Conncheck_Claims\<close>: hence the check lists are sorted, free of duplicates and hold exactly the pairs
    that exist, for every sequence of calls; the termination of the search for a unique priority; and the use of a
    freed pair in a triggered check. \<open>Conncheck_Ready\<close>: when a component becomes ready and what then happens to each
    of its pairs, and unfreezing a list of frozen pairs against the rule of RFC 5245.
  \<^item> \<open>Agent_Sdp\<close>: session descriptions and remote candidates (\<^verbatim>\<open>agent/agent.c\<close>); what one agent describes the other
    parses back, up to the fields that a description does not have.
  \<^item> \<open>Conncheck_Inbound\<close>: \<^verbatim>\<open>conn_check_handle_inbound_stun\<close>, from the bytes of a datagram to the functions above.
    \<open>Inbound_Claims\<close>: a request that has an effect carries the HMAC under the password of a local candidate, unless a
    discovery or a refresh uses the same socket; and the conditions under which every request without credentials is
    processed because of a discovery.

  \<^bold>\<open>Pseudo-TCP.\<close>
  \<^item> \<open>PseudoTcp_Arith\<close>, \<open>PseudoTcp_Fifo\<close>: times, sequence numbers and the ring buffer, which refines a bounded queue of
    bytes (locale \<open>byte_queue\<close>).
  \<^item> \<open>PseudoTcp_Socket\<close>, \<open>PseudoTcp_Process\<close>, \<open>PseudoTcp_Api\<close>: the functions that send, that receive, and the public ones.
  \<^item> \<open>PseudoTcp_Frame\<close>, \<open>PseudoTcp_Stream\<close>: the receiving side delivers the stream of the peer whatever the order and
    the overlaps of the segments, up to the segment with which it takes the FIN of the peer for received, and makes
    progress on each segment it expects; what the socket does at that segment, and that it can lose data there.
  \<^item> \<open>PseudoTcp_Sender\<close>: every packet written carries the stream of the application at its sequence number;
    \<open>PseudoTcp_EndToEnd\<close> puts both sides together over a network that loses, repeats and reorders packets.

  \<^bold>\<open>Sockets.\<close>
  \<^item> \<open>Socket_Queue\<close>: the messages in several buffers (\<^verbatim>\<open>agent/agent.c\<close>), the send queue (\<^verbatim>\<open>socket/socket.c\<close>) and the TCP
    socket (\<^verbatim>\<open>socket/tcp-bsd.c\<close>): wire and queue together are the accepted stream, and the exact condition under
    which the rest of a partly sent message is queued wrongly.
  \<^item> \<open>Socket_Turn_Tcp\<close>: \<^verbatim>\<open>socket/udp-turn-over-tcp.c\<close> over a base socket that is described by the locale
    \<open>stream_socket\<close> and provided by the TCP socket: messages survive any cutting of the stream, and a length field
    can make the receiver write outside its buffer.

  \<^bold>\<open>Bounds and loops.\<close> There is no fuel in the models: loops of the source are structural recursions, functions with
  a termination measure, or partial functions whose termination is a theorem (the search for a unique priority) or
  follows from the finite input (the search for a free foundation). The send loop of pseudo-TCP is a partial function
  too; a run of it that does not end (with a segment size of zero) is \<open>None\<close>, and the theorems on pseudo-TCP are about
  the states that calls which return lead to. Harnesses that call an operation repeatedly
  (\<open>turn_tcp_drain\<close>) take the number of calls, and the theorem says how many are enough. Receive buffers and messages are
  limited to 65535 bytes where the 16-bit length fields of the source are; theorems state the limit as a hypothesis.
  The stream positions of pseudo-TCP are unbounded, and sequence numbers are the positions modulo \<open>2 ^ 32\<close>.

  \<^bold>\<open>Not modelled.\<close>
  \<^item> The GObject interface, locking, main-loop sources, memory management of the agent (\<^verbatim>\<open>agent/agent.c\<close>,
    \<^verbatim>\<open>agent/component.c\<close>, \<^verbatim>\<open>agent/stream.c\<close>): glue around GLib.
  \<^item> In \<^verbatim>\<open>agent/conncheck.c\<close>: keepalives, the refresh of relays and the replies to discovery requests (their STUN agents
    are arguments of the dispatch of inbound messages), and the processing of the checks that are stored until the
    remote credentials arrive.
  \<^item> The other sockets (UDP, active and passive TCP, proxies, \<^verbatim>\<open>socket/udp-turn.c\<close>), the network interfaces
    (\<^verbatim>\<open>agent/interfaces.c\<close>), GIO streams, random numbers, debug output, the GStreamer elements and the command line tools.
  \<^item> HMAC, MD5 and the conversion of addresses to text belong to libraries and are parameters.
\<close>

end
